(* ===== verification/Prelude.thy ===== *)
theory Prelude
  imports Main "HOL-Library.Word" "HOL-Library.List_Lexorder" "HOL-Library.Char_ord"
begin

text \<open>
  Shared vocabulary of the development.

  \<^item> Types: \<open>u8\<close>, \<open>u16\<close>, \<open>u32\<close> are Go's \<open>uint8\<close>, \<open>uint16\<close>, \<open>uint32\<close>; \<open>i32\<close> is \<open>int32\<close>
    (a 32-bit word read by \<open>sint\<close>).
  \<^item> Go maps are partial functions. The order in which Go ranges over a map is unspecified, so every
    definition that ranges over one takes the order as an argument. A value \<open>ord\<close> of the type
    \<open>'k go_order\<close> is any way of visiting the keys of a finite map, each of them once: \<open>visit ord S\<close>
    lists the key set \<open>S\<close> in the order in which the range statement visits it. The theorems hold for
    every such order.
  \<^item> \<open>for_ret\<close> is a Go loop over a slice whose body may return an error, which ends the loop.
  \<^item> Word lemmas: block arithmetic that stays within \<open>2^16\<close> is arithmetic on \<open>nat\<close>.
\<close>

named_theorems model_defs \<open>definitions unfolded when a handler is evaluated on a concrete input\<close>
named_theorems inv_intros \<open>preservation lemmas of the component invariants\<close>

type_synonym u8 = "8 word"
type_synonym u16 = "16 word"
type_synonym u32 = "32 word"
type_synonym i32 = "32 word"

section \<open>Iteration order of Go maps\<close>

typedef 'k go_order = "{ord :: 'k set \<Rightarrow> 'k list. \<forall>S. finite S \<longrightarrow> distinct (ord S) \<and> set (ord S) = S}"
  morphisms visit Go_order
proof -
  have "\<forall>S :: 'k set. \<exists>xs. finite S \<longrightarrow> distinct xs \<and> set xs = S"
    using finite_distinct_list by blast
  then have "\<exists>f. \<forall>S :: 'k set. finite S \<longrightarrow> distinct (f S) \<and> set (f S) = S" by (rule choice)
  then show ?thesis by simp
qed

setup_lifting type_definition_go_order

lemma set_visit [simp]: "finite S \<Longrightarrow> set (visit ord S) = S"
  using visit [of ord] by simp

lemma distinct_visit [simp]: "finite S \<Longrightarrow> distinct (visit ord S)"
  using visit [of ord] by simp

lemma length_visit [simp]: "finite S \<Longrightarrow> length (visit ord S) = card S"
  by (metis distinct_card distinct_visit set_visit)

text \<open>One such order, used in concrete runs: increasing keys.\<close>

lift_definition sorted_order :: "'k::linorder go_order" is sorted_list_of_set
  by simp

section \<open>Loops with an early return\<close>

text \<open>
  A Go loop \<open>for _, x := range xs { if err := f(x); err != nil { return err } }\<close> over a state \<open>'w\<close>.
\<close>

fun for_ret :: "('a \<Rightarrow> 'w \<Rightarrow> 'e option \<times> 'w) \<Rightarrow> 'a list \<Rightarrow> 'w \<Rightarrow> 'e option \<times> 'w" where
  "for_ret f [] w = (None, w)"
| "for_ret f (x # xs) w =
     (case f x w of (None, w') \<Rightarrow> for_ret f xs w' | (Some e, w') \<Rightarrow> (Some e, w'))"

text \<open>The loop rule: an invariant the body keeps on every visited element, errors included.\<close>

lemma for_ret_invariant:
  assumes "for_ret f xs w = (r, w')" and "I w"
    and "\<And>x v r' v'. x \<in> set xs \<Longrightarrow> I v \<Longrightarrow> f x v = (r', v') \<Longrightarrow> I v'"
  shows "I w'"
  using assms
proof (induction xs arbitrary: w)
  case (Cons x xs)
  obtain r1 w1 where f: "f x w = (r1, w1)" by fastforce
  with Cons.prems(2,3) have I1: "I w1" by (meson list.set_intros(1))
  show ?case
  proof (cases r1)
    case None
    with Cons.prems(1) f have "for_ret f xs w1 = (r, w')" by simp
    then show ?thesis using Cons.IH I1 Cons.prems(3) by (meson list.set_intros(2))
  next
    case (Some e)
    with Cons.prems(1) f I1 show ?thesis by simp
  qed
qed simp

lemma for_ret_error:
  "for_ret f xs w = (Some e, w') \<Longrightarrow> \<exists>x \<in> set xs. \<exists>v v'. f x v = (Some e, v')"
proof (induction xs arbitrary: w)
  case (Cons x xs)
  then show ?case by (cases "f x w"; cases "fst (f x w)") fastforce+
qed simp

lemma for_ret_append:
  "for_ret f (xs @ ys) w =
     (case for_ret f xs w of (None, w') \<Rightarrow> for_ret f ys w' | (Some e, w') \<Rightarrow> (Some e, w'))"
  by (induction xs arbitrary: w) (auto split: prod.splits option.splits)

section \<open>Words\<close>

lemma unat_u16_less: "unat (x :: u16) < 65536"
  using unsigned_less [of x, where ?'a = nat] by simp

lemma unat_u16_of_nat: "n < 65536 \<Longrightarrow> unat (word_of_nat n :: u16) = n"
  by (simp add: unsigned_of_nat take_bit_nat_eq_self)

text \<open>
  Sums and products of \<open>uint16\<close> values that stay within the port space do not wrap.
\<close>

lemma unat_mult_add_u16:
  fixes m i b :: u16
  assumes "unat m + unat i * unat b < 65536"
  shows "unat (m + i * b) = unat m + unat i * unat b"
proof -
  have "unat i * unat b < 65536" using assms by simp
  then have "unat (i * b) = unat i * unat b" by (simp add: unat_word_ariths)
  with assms show ?thesis by (simp add: unat_word_ariths)
qed

lemma mult_Suc_le_mono: "i < t \<Longrightarrow> Suc i * b \<le> t * (b::nat)"
  by (metis Suc_leI mult_le_mono1)

text \<open>
  Positions \<open>i * b\<close> and \<open>j * b\<close> of two different blocks of size \<open>b\<close> cannot overlap.
\<close>

lemma block_index_unique:
  fixes i j b p :: nat
  assumes "i * b \<le> p" "p < Suc i * b" "j * b \<le> p" "p < Suc j * b"
  shows "i = j"
proof -
  have "p div b = i" using assms(1,2) by (metis div_nat_eqI mult.commute)
  moreover have "p div b = j" using assms(3,4) by (metis div_nat_eqI mult.commute)
  ultimately show ?thesis by simp
qed

end
