(* ===== verification/Ledger.thy ===== *)
theory Ledger
  imports Prelude
begin

text \<open>
  The contract between a port pool and those who hold ports of it.

  A pool offers, per external IP, a set of available items (\<open>avail\<close>; \<open>None\<close> for an IP it does not
  know). A ledger records what every owner holds. \<open>ledger\<close> is what the callers of the pool rely on:
  nothing that is held is available, and no two owners hold the same item.

  The locale \<open>port_pool\<close> states what an allocating operation and a freeing operation must promise;
  under these promises alone the ledger is kept by allocating for an owner and by giving back part of
  what an owner holds. \<open>Allocator\<close> interprets it twice, on \<open>AllocateForPod\<close> and on \<open>AllocateForIP\<close>,
  each with \<open>Free\<close>.
\<close>

type_synonym ('ip, 'p) avail_map = "'ip \<Rightarrow> 'p set option"
type_synonym ('o, 'ip, 'p) owner_map = "'o \<Rightarrow> ('ip \<times> 'p) set"

definition ledger :: "('ip, 'p) avail_map \<Rightarrow> ('o, 'ip, 'p) owner_map \<Rightarrow> bool" where
  "ledger av own \<longleftrightarrow>
     (\<forall>r ip p S. (ip, p) \<in> own r \<longrightarrow> av ip = Some S \<longrightarrow> p \<notin> S) \<and>
     (\<forall>r r'. r \<noteq> r' \<longrightarrow> own r \<inter> own r' = {})"

definition take_items :: "('ip \<times> 'p) set \<Rightarrow> ('ip, 'p) avail_map \<Rightarrow> ('ip, 'p) avail_map" where
  "take_items G av = (\<lambda>ip. map_option (\<lambda>S. S - {p. (ip, p) \<in> G}) (av ip))"

definition give_items :: "('ip \<times> 'p) set \<Rightarrow> ('ip, 'p) avail_map \<Rightarrow> ('ip, 'p) avail_map" where
  "give_items G av = (\<lambda>ip. map_option (\<lambda>S. S \<union> {p. (ip, p) \<in> G}) (av ip))"

definition offered :: "('ip, 'p) avail_map \<Rightarrow> ('ip \<times> 'p) set" where
  "offered av = {(ip, p). \<exists>S. av ip = Some S \<and> p \<in> S}"

lemma ledgerI:
  assumes "\<And>r ip p S. (ip, p) \<in> own r \<Longrightarrow> av ip = Some S \<Longrightarrow> p \<notin> S"
    and "\<And>r r'. r \<noteq> r' \<Longrightarrow> own r \<inter> own r' = {}"
  shows "ledger av own"
  using assms unfolding ledger_def by blast

lemma ledger_held: "ledger av own \<Longrightarrow> (ip, p) \<in> own r \<Longrightarrow> av ip = Some S \<Longrightarrow> p \<notin> S"
  unfolding ledger_def by blast

lemma ledger_disjoint: "ledger av own \<Longrightarrow> r \<noteq> r' \<Longrightarrow> own r \<inter> own r' = {}"
  unfolding ledger_def by blast

lemma ledger_take:
  assumes "ledger av own" "G \<subseteq> offered av"
  shows "ledger (take_items G av) (own(r := own r \<union> G))"
proof (rule ledgerI)
  show "p \<notin> S" if "(ip, p) \<in> (own(r := own r \<union> G)) r'" "take_items G av ip = Some S" for r' ip p S
    using that assms by (auto simp: take_items_def ledger_def split: if_splits)
  show "(own(r := own r \<union> G)) r1 \<inter> (own(r := own r \<union> G)) r2 = {}" if "r1 \<noteq> r2" for r1 r2
    using that assms unfolding ledger_def offered_def by (auto split: if_splits) blast+
qed

text \<open>Items may also be taken that are not offered, as long as nobody else holds them.\<close>

lemma ledger_mark:
  assumes "ledger av own" "\<And>r'. r' \<noteq> r \<Longrightarrow> G \<inter> own r' = {}"
  shows "ledger (take_items G av) (own(r := own r \<union> G))"
proof (rule ledgerI)
  show "p \<notin> S" if "(ip, p) \<in> (own(r := own r \<union> G)) r'" "take_items G av ip = Some S" for r' ip p S
    using that assms(1) by (auto simp: take_items_def ledger_def split: if_splits)
  show "(own(r := own r \<union> G)) r1 \<inter> (own(r := own r \<union> G)) r2 = {}" if "r1 \<noteq> r2" for r1 r2
    using that ledger_disjoint [OF assms(1) that] assms(2) by (auto split: if_splits)
qed

lemma ledger_give:
  assumes "ledger av own" "G \<subseteq> own r"
  shows "ledger (give_items G av) (own(r := own r - G))"
proof (rule ledgerI)
  show "p \<notin> S" if "(ip, p) \<in> (own(r := own r - G)) r'" "give_items G av ip = Some S" for r' ip p S
  proof -
    from that(2) obtain S0 where S0: "av ip = Some S0" "S = S0 \<union> {p. (ip, p) \<in> G}"
      by (auto simp: give_items_def)
    have "(ip, p) \<in> own r'" using that(1) by (auto split: if_splits)
    then have "p \<notin> S0" by (rule ledger_held [OF assms(1) _ S0(1)])
    moreover have "(ip, p) \<notin> G"
      using that(1) assms(2) ledger_disjoint [OF assms(1), of r r'] by (auto split: if_splits)
    ultimately show ?thesis using S0(2) by simp
  qed
  show "(own(r := own r - G)) r1 \<inter> (own(r := own r - G)) r2 = {}" if "r1 \<noteq> r2" for r1 r2
    using ledger_disjoint [OF assms(1) that] by (auto split: if_splits)
qed

lemma ledger_subset:
  assumes "ledger av own" "\<And>r. own' r \<subseteq> own r"
  shows "ledger av own'"
proof (rule ledgerI)
  show "p \<notin> S" if "(ip, p) \<in> own' r" "av ip = Some S" for r ip p S
    using ledger_held [OF assms(1) _ that(2)] assms(2) that(1) by blast
  show "own' r \<inter> own' r' = {}" if "r \<noteq> r'" for r r'
    using ledger_disjoint [OF assms(1) that] assms(2) [of r] assms(2) [of r'] by blast
qed

lemma give_take_items:
  assumes "G \<subseteq> offered av"
  shows "give_items G (take_items G av) = av"
proof
  fix ip
  show "give_items G (take_items G av) ip = av ip"
    using assms by (cases "av ip") (auto simp: give_items_def take_items_def offered_def)
qed

lemma take_items_Un: "take_items H (take_items G av) = take_items (G \<union> H) av"
  by (auto simp: take_items_def fun_eq_iff option.map_comp comp_def intro!: option.map_cong)

lemma take_items_empty [simp]: "take_items {} av = av"
  by (simp add: take_items_def option.map_ident)

lemma dom_items [simp]: "dom (take_items G av) = dom av" "dom (give_items G av) = dom av"
  by (auto simp: take_items_def give_items_def)

lemma offered_take: "offered (take_items G av) \<subseteq> offered av - G"
  by (auto simp: offered_def take_items_def)

text \<open>
  The interface. \<open>grant r a\<close> serves request \<open>r\<close>: \<open>Some G\<close> hands out \<open>G\<close>, \<open>None\<close> is a refusal.
  \<open>release G a\<close> takes \<open>G\<close> back, for items that were handed out by this pool (\<open>known\<close>).
\<close>

locale port_pool =
  fixes pool_inv :: "'a \<Rightarrow> bool"
    and avail :: "'a \<Rightarrow> ('ip, 'p) avail_map"
    and known :: "'a \<Rightarrow> 'p set"
    and grant :: "'r \<Rightarrow> 'a \<Rightarrow> ('ip \<times> 'p) set option \<times> 'a"
    and release :: "('ip \<times> 'p) set \<Rightarrow> 'a \<Rightarrow> 'a"
  assumes grant_inv: "pool_inv a \<Longrightarrow> grant r a = (res, a') \<Longrightarrow> pool_inv a'"
    and grant_known: "pool_inv a \<Longrightarrow> grant r a = (res, a') \<Longrightarrow> known a' = known a"
    and grant_offered: "pool_inv a \<Longrightarrow> grant r a = (Some G, a') \<Longrightarrow> G \<subseteq> offered (avail a)"
    and grant_finite: "pool_inv a \<Longrightarrow> grant r a = (Some G, a') \<Longrightarrow> finite G"
    and offered_known: "pool_inv a \<Longrightarrow> snd ` offered (avail a) \<subseteq> known a"
    and grant_take: "pool_inv a \<Longrightarrow> grant r a = (Some G, a') \<Longrightarrow> avail a' = take_items G (avail a)"
    and grant_refuse: "pool_inv a \<Longrightarrow> grant r a = (None, a') \<Longrightarrow> avail a' = avail a"
    and release_inv: "pool_inv a \<Longrightarrow> finite G \<Longrightarrow> snd ` G \<subseteq> known a \<Longrightarrow> pool_inv (release G a)"
    and release_give: "pool_inv a \<Longrightarrow> finite G \<Longrightarrow> snd ` G \<subseteq> known a \<Longrightarrow>
          avail (release G a) = give_items G (avail a)"
begin

text \<open>Serving a request keeps the ledger, whatever the answer.\<close>

lemma ledger_grant:
  assumes "pool_inv a" "ledger (avail a) own" "grant r a = (res, a')"
  shows "ledger (avail a') (case res of None \<Rightarrow> own | Some G \<Rightarrow> own(q := own q \<union> G))"
proof (cases res)
  case None
  with assms show ?thesis using grant_refuse by simp
next
  case (Some G)
  with assms have "G \<subseteq> offered (avail a)" "avail a' = take_items G (avail a)"
    using grant_offered grant_take by auto
  with Some assms(2) show ?thesis by (simp add: ledger_take)
qed

lemma ledger_release:
  assumes "pool_inv a" "ledger (avail a) own" "G \<subseteq> own q" "finite G" "snd ` G \<subseteq> known a"
  shows "ledger (avail (release G a)) (own(q := own q - G))"
  using assms release_give ledger_give by metis

text \<open>A grant that is given back at once leaves the pool as it was: the callers' rollback.\<close>

lemma rollback_restores:
  assumes "pool_inv a" "grant r a = (Some G, a')"
  shows "avail (release G a') = avail a"
proof -
  have G: "G \<subseteq> offered (avail a)" "finite G" using assms grant_offered grant_finite by auto
  have "snd ` G \<subseteq> known a'"
    using G(1) offered_known [OF assms(1)] grant_known [OF assms] by auto
  then have "avail (release G a') = give_items G (avail a')"
    using release_give grant_inv assms G(2) by metis
  also have "\<dots> = avail a" using grant_take [OF assms] G(1) by (simp add: give_take_items)
  finally show ?thesis .
qed

end

end
