(* ===== verification/Allocator.thy ===== *)
theory Allocator
  imports Ledger
begin

text \<open>
  The block allocator of \<open>internal/allocator/allocator.go\<close>: per external IP a set of free block
  indices, block \<open>k\<close> standing for the ports \<open>[minPort + k*blockSize, minPort + (k+1)*blockSize - 1]\<close>.

  Every method of the Go type holds the mutex for all of its accesses to the allocator's fields, so a
  method is one atomic function from the allocator to the allocator. Port arithmetic is on
  \<open>uint16\<close> and kept at that width. The callback \<open>onExhausted\<close> is represented by whether it is set and
  by the number of times it was called. The errors are the \<open>fmt.Errorf\<close> values, with their arguments.

  Ranging over a free set (\<open>pickFromSet\<close>) and over the keys of the argument of \<open>Free\<close> takes the
  iteration order as an argument (\<open>Prelude.go_order\<close>).
\<close>

section \<open>Data\<close>

definition MinPortDynamic :: u16 where "MinPortDynamic = 49152"
definition MinPortFull :: u16 where "MinPortFull = 1024"
definition MaxPort :: u16 where "MaxPort = 65535"

record Allocation =
  PortStart :: u16
  PortEnd :: u16

record BlockAllocator =
  blockSize :: u16
  minPort :: u16
  totalBlocks :: u16
  natConfigName :: string
  onExhausted :: bool
  exhaustedCalls :: nat
  ips :: "string \<rightharpoonup> u16 set"
  reserved :: "u16 set"

datatype alloc_error =
    BlockSizeZero
  | MinPortNotBelowMax u16 u16
  | PortSpaceTooSmall u16 u16 u16
  | PortStartBelowMin u16 u16
  | PortStartNotAligned u16 u16 u16
  | PortStartOutOfRange u16 u16
  | IPNotRegistered string
  | PortRangeCountZero
  | DuplicateExternalIP string
  | NotEnoughFreeBlocks u16 nat nat
  | AtNATConfigIP string string alloc_error
  | AtIP string alloc_error
  | AtExistingPortStart u16 alloc_error

section \<open>Construction and configuration\<close>

definition New :: "u16 \<Rightarrow> u16 \<Rightarrow> u16 \<Rightarrow> string \<Rightarrow> bool \<Rightarrow> alloc_error + BlockAllocator" where
  "New bs mn mx name cb =
     (if bs = 0 then Inl BlockSizeZero
      else if mn \<ge> mx then Inl (MinPortNotBelowMax mn mx)
      else let total = (mx - mn + 1) div bs in
        if total = 0 then Inl (PortSpaceTooSmall mn mx bs)
        else Inr \<lparr>blockSize = bs, minPort = mn, totalBlocks = total, natConfigName = name,
                  onExhausted = cb, exhaustedCalls = 0, ips = Map.empty, reserved = {}\<rparr>)"

fun reserved_of :: "BlockAllocator \<Rightarrow> u16 list \<Rightarrow> u16 set \<Rightarrow> u16 set" where
  "reserved_of a [] res = res"
| "reserved_of a (port # ports) res =
     (if port < minPort a then reserved_of a ports res
      else let idx = (port - minPort a) div blockSize a in
        if idx \<ge> totalBlocks a then reserved_of a ports res
        else reserved_of a ports (insert idx res))"

definition SetReservedPorts :: "BlockAllocator \<Rightarrow> u16 list \<Rightarrow> BlockAllocator" where
  "SetReservedPorts a ports = a\<lparr>reserved := reserved_of a ports {}\<rparr>"

definition fullFreeSet :: "BlockAllocator \<Rightarrow> u16 set" where
  "fullFreeSet a = set (map word_of_nat [0..<unat (totalBlocks a)])"

definition EnsureIP :: "BlockAllocator \<Rightarrow> string \<Rightarrow> BlockAllocator" where
  "EnsureIP a ip = (if ips a ip = None then a\<lparr>ips := (ips a)(ip \<mapsto> fullFreeSet a)\<rparr> else a)"

definition RemoveIP :: "BlockAllocator \<Rightarrow> string \<Rightarrow> BlockAllocator" where
  "RemoveIP a ip = a\<lparr>ips := (ips a)(ip := None)\<rparr>"

section \<open>Block indices\<close>

definition blockIndexOf :: "BlockAllocator \<Rightarrow> u16 \<Rightarrow> alloc_error + u16" where
  "blockIndexOf a portStart =
     (if portStart < minPort a then Inl (PortStartBelowMin portStart (minPort a))
      else let offset = portStart - minPort a in
        if offset mod blockSize a \<noteq> 0
        then Inl (PortStartNotAligned portStart (blockSize a) (minPort a))
        else let idx = offset div blockSize a in
          if idx \<ge> totalBlocks a then Inl (PortStartOutOfRange portStart (totalBlocks a - 1))
          else Inr idx)"

definition blockIndexContaining :: "BlockAllocator \<Rightarrow> u16 \<Rightarrow> u16 option" where
  "blockIndexContaining a port =
     (if port < minPort a then None
      else let idx = (port - minPort a) div blockSize a in
        if idx \<ge> totalBlocks a then None else Some idx)"

fun exclude_ports :: "BlockAllocator \<Rightarrow> u16 list \<Rightarrow> u16 set \<Rightarrow> u16 set" where
  "exclude_ports a [] ex = ex"
| "exclude_ports a (port # ports) ex =
     exclude_ports a ports
       (case blockIndexContaining a port of None \<Rightarrow> ex | Some idx \<Rightarrow> insert idx ex)"

definition excludeSetFor :: "BlockAllocator \<Rightarrow> u16 list \<Rightarrow> u16 set" where
  "excludeSetFor a ports = exclude_ports a ports (reserved a)"

text \<open>The \<open>Allocation\<close> literal built for a chosen index, in \<open>AllocateForPod\<close> and \<open>AllocateForIP\<close>.\<close>

definition block_alloc :: "BlockAllocator \<Rightarrow> u16 \<Rightarrow> Allocation" where
  "block_alloc a idx =
     \<lparr>PortStart = minPort a + idx * blockSize a,
      PortEnd = minPort a + (idx + 1) * blockSize a - 1\<rparr>"

section \<open>Marking, picking, allocating, freeing\<close>

definition MarkUsed :: "BlockAllocator \<Rightarrow> string \<Rightarrow> u16 \<Rightarrow> alloc_error option \<times> BlockAllocator" where
  "MarkUsed a extIP portStart =
     (case blockIndexOf a portStart of
        Inl e \<Rightarrow> (Some e, a)
      | Inr idx \<Rightarrow>
          (case ips a extIP of
             None \<Rightarrow> (Some (IPNotRegistered extIP), a)
           | Some free \<Rightarrow> (None, a\<lparr>ips := (ips a)(extIP \<mapsto> free - {idx})\<rparr>)))"

fun pick_loop :: "u16 list \<Rightarrow> u16 \<Rightarrow> u16 set \<Rightarrow> u16 list \<Rightarrow> u16 list" where
  "pick_loop [] cnt exclude chosen = chosen"
| "pick_loop (idx # rest) cnt exclude chosen =
     (if idx \<in> exclude then pick_loop rest cnt exclude chosen
      else let chosen' = chosen @ [idx] in
        if (word_of_nat (length chosen') :: u16) = cnt then chosen'
        else pick_loop rest cnt exclude chosen')"

definition pickFromSet ::
    "u16 go_order \<Rightarrow> u16 set \<Rightarrow> u16 \<Rightarrow> u16 set \<Rightarrow> alloc_error + u16 list" where
  "pickFromSet ord free cnt exclude =
     (let chosen = pick_loop (visit ord free) cnt exclude [] in
      if (word_of_nat (length chosen) :: u16) < cnt
      then Inl (NotEnoughFreeBlocks cnt (length chosen) (card exclude))
      else Inr chosen)"

definition notify_exhausted :: "BlockAllocator \<Rightarrow> BlockAllocator" where
  "notify_exhausted a =
     (if onExhausted a then a\<lparr>exhaustedCalls := Suc (exhaustedCalls a)\<rparr> else a)"

definition rollback :: "BlockAllocator \<Rightarrow> (string \<rightharpoonup> u16 list) \<Rightarrow> BlockAllocator" where
  "rollback a allocated =
     a\<lparr>ips := (\<lambda>ip. case allocated ip of
                      None \<Rightarrow> ips a ip
                    | Some indices \<Rightarrow> map_option (\<lambda>free. free \<union> set indices) (ips a ip))\<rparr>"

fun first_duplicate :: "string list \<Rightarrow> string set \<Rightarrow> string option" where
  "first_duplicate [] seen = None"
| "first_duplicate (ip # rest) seen =
     (if ip \<in> seen then Some ip else first_duplicate rest (insert ip seen))"

fun alloc_pod_loop ::
    "(string \<Rightarrow> u16 go_order) \<Rightarrow> u16 \<Rightarrow> string list \<Rightarrow> BlockAllocator \<Rightarrow> u16 set \<Rightarrow>
     (string \<rightharpoonup> Allocation list) \<Rightarrow> (string \<rightharpoonup> u16 list) \<Rightarrow>
     (alloc_error + (string \<rightharpoonup> Allocation list)) \<times> BlockAllocator" where
  "alloc_pod_loop ord cnt [] a podUsed result rolledBack = (Inr result, a)"
| "alloc_pod_loop ord cnt (ip # rest) a podUsed result rolledBack =
     (case ips a ip of
        None \<Rightarrow> (Inl (IPNotRegistered ip), rollback a rolledBack)
      | Some free \<Rightarrow>
          (case pickFromSet (ord ip) free cnt podUsed of
             Inl e \<Rightarrow> (Inl (AtNATConfigIP (natConfigName a) ip e),
                       notify_exhausted (rollback a rolledBack))
           | Inr chosen \<Rightarrow>
               alloc_pod_loop ord cnt rest
                 (a\<lparr>ips := (ips a)(ip \<mapsto> free - set chosen)\<rparr>)
                 (podUsed \<union> set chosen)
                 (result(ip \<mapsto> map (block_alloc a) chosen))
                 (rolledBack(ip \<mapsto> chosen))))"

definition AllocateForPod ::
    "(string \<Rightarrow> u16 go_order) \<Rightarrow> BlockAllocator \<Rightarrow> string list \<Rightarrow> u16 \<Rightarrow> u16 list \<Rightarrow>
     (alloc_error + (string \<rightharpoonup> Allocation list)) \<times> BlockAllocator" where
  "AllocateForPod ord a extIPs portRangeCount excludePorts =
     (if portRangeCount = 0 then (Inl PortRangeCountZero, a)
      else (case first_duplicate extIPs {} of
        Some ip \<Rightarrow> (Inl (DuplicateExternalIP ip), a)
      | None \<Rightarrow> alloc_pod_loop ord portRangeCount extIPs a (excludeSetFor a excludePorts)
                  Map.empty Map.empty))"

fun pending_of :: "BlockAllocator \<Rightarrow> string \<Rightarrow> Allocation list \<Rightarrow> alloc_error + (string \<times> u16) list"
where
  "pending_of a ip [] = Inr []"
| "pending_of a ip (al # als) =
     (case blockIndexOf a (PortStart al) of
        Inl e \<Rightarrow> Inl (AtIP ip e)
      | Inr idx \<Rightarrow> (case pending_of a ip als of Inl e \<Rightarrow> Inl e | Inr p \<Rightarrow> Inr ((ip, idx) # p)))"

fun free_pending ::
    "BlockAllocator \<Rightarrow> (string \<rightharpoonup> Allocation list) \<Rightarrow> string list \<Rightarrow> alloc_error + (string \<times> u16) list"
where
  "free_pending a allocs [] = Inr []"
| "free_pending a allocs (ip # rest) =
     (if ips a ip = None then free_pending a allocs rest
      else (case pending_of a ip (case allocs ip of None \<Rightarrow> [] | Some als \<Rightarrow> als) of
        Inl e \<Rightarrow> Inl e
      | Inr p \<Rightarrow> (case free_pending a allocs rest of Inl e \<Rightarrow> Inl e | Inr q \<Rightarrow> Inr (p @ q))))"

fun return_blocks :: "(string \<times> u16) list \<Rightarrow> BlockAllocator \<Rightarrow> BlockAllocator" where
  "return_blocks [] a = a"
| "return_blocks ((ip, idx) # rest) a =
     return_blocks rest (a\<lparr>ips := (ips a)(ip := map_option (insert idx) (ips a ip))\<rparr>)"

definition Free ::
    "string go_order \<Rightarrow> BlockAllocator \<Rightarrow> (string \<rightharpoonup> Allocation list) \<Rightarrow>
     alloc_error option \<times> BlockAllocator" where
  "Free kord a allocs =
     (case free_pending a allocs (visit kord (dom allocs)) of
        Inl e \<Rightarrow> (Some e, a)
      | Inr pending \<Rightarrow> (None, return_blocks pending a))"

fun exclude_starts :: "BlockAllocator \<Rightarrow> u16 list \<Rightarrow> u16 set \<Rightarrow> alloc_error + u16 set" where
  "exclude_starts a [] ex = Inr ex"
| "exclude_starts a (ps # rest) ex =
     (case blockIndexOf a ps of
        Inl e \<Rightarrow> Inl (AtExistingPortStart ps e)
      | Inr idx \<Rightarrow> exclude_starts a rest (insert idx ex))"

definition AllocateForIP ::
    "u16 go_order \<Rightarrow> BlockAllocator \<Rightarrow> string \<Rightarrow> u16 \<Rightarrow> u16 list \<Rightarrow> u16 list \<Rightarrow>
     (alloc_error + Allocation list) \<times> BlockAllocator" where
  "AllocateForIP ord a extIP portRangeCount existingPortStarts excludePorts =
     (case ips a extIP of
        None \<Rightarrow> (Inl (IPNotRegistered extIP), a)
      | Some free \<Rightarrow>
          (case exclude_starts a existingPortStarts (excludeSetFor a excludePorts) of
             Inl e \<Rightarrow> (Inl e, a)
           | Inr exclude \<Rightarrow>
               (case pickFromSet ord free portRangeCount exclude of
                  Inl e \<Rightarrow> (Inl (AtNATConfigIP (natConfigName a) extIP e), notify_exhausted a)
                | Inr chosen \<Rightarrow>
                    (Inr (map (block_alloc a) chosen),
                     a\<lparr>ips := (ips a)(extIP \<mapsto> free - set chosen)\<rparr>))))"

section \<open>Queries\<close>

definition ListIPs :: "string go_order \<Rightarrow> BlockAllocator \<Rightarrow> string list" where
  "ListIPs kord a = visit kord (dom (ips a))"

definition FreeCount :: "BlockAllocator \<Rightarrow> string \<Rightarrow> u16 option" where
  "FreeCount a extIP =
     map_option (\<lambda>free. word_of_nat (card {idx \<in> free. idx \<notin> reserved a})) (ips a extIP)"

definition TotalBlocks :: "BlockAllocator \<Rightarrow> u16" where
  "TotalBlocks a = totalBlocks a"

definition BlockSize :: "BlockAllocator \<Rightarrow> u16" where
  "BlockSize a = blockSize a"

section \<open>Invariant\<close>

text \<open>
  Well-formed allocators: the blocks fit below port 65536 and every free or reserved index is a block
  of the port space.
\<close>

definition alloc_inv :: "BlockAllocator \<Rightarrow> bool" where
  "alloc_inv a \<longleftrightarrow>
     blockSize a \<noteq> 0 \<and> totalBlocks a \<noteq> 0 \<and>
     unat (minPort a) + unat (totalBlocks a) * unat (blockSize a) \<le> 65536 \<and>
     (\<forall>ip free. ips a ip = Some free \<longrightarrow> free \<subseteq> {idx. idx < totalBlocks a}) \<and>
     finite (dom (ips a)) \<and>
     reserved a \<subseteq> {idx. idx < totalBlocks a}"

lemma alloc_invD:
  assumes "alloc_inv a"
  shows "blockSize a \<noteq> 0" "totalBlocks a \<noteq> 0"
    "unat (minPort a) + unat (totalBlocks a) * unat (blockSize a) \<le> 65536"
    "ips a ip = Some free \<Longrightarrow> free \<subseteq> {idx. idx < totalBlocks a}"
    "finite (dom (ips a))"
    "reserved a \<subseteq> {idx. idx < totalBlocks a}"
  using assms unfolding alloc_inv_def by blast+

lemma unat_blockSize_pos: "alloc_inv a \<Longrightarrow> 0 < unat (blockSize a)"
  using alloc_invD(1) unat_gt_0 by blast

lemma New_alloc_inv:
  assumes "New bs mn mx name cb = Inr a"
  shows "alloc_inv a" "ips a = Map.empty" "blockSize a = bs" "minPort a = mn"
    "totalBlocks a = (mx - mn + 1) div bs"
proof -
  let ?t = "(mx - mn + 1) div bs"
  from assms have c: "bs \<noteq> 0" "mn < mx" "?t \<noteq> 0"
    and a: "a = \<lparr>blockSize = bs, minPort = mn, totalBlocks = ?t, natConfigName = name,
                 onExhausted = cb, exhaustedCalls = 0, ips = Map.empty, reserved = {}\<rparr>"
    by (auto simp: New_def Let_def split: if_splits)
  have "unat ?t * unat bs \<le> unat (mx - mn + 1)" by (simp add: unat_div)
  also have "\<dots> \<le> unat (mx - mn) + 1" by (simp add: unat_word_ariths)
  also have "unat (mx - mn) = unat mx - unat mn"
    using c(2) by (simp add: unat_sub order_less_imp_le)
  finally have "unat mn + unat ?t * unat bs \<le> 65536"
    using c(2) unat_u16_less [of mx] by (simp add: word_less_nat_alt)
  with c a show "alloc_inv a" by (simp add: alloc_inv_def)
  from a show "ips a = Map.empty" "blockSize a = bs" "minPort a = mn" "totalBlocks a = ?t" by simp_all
qed

section \<open>Block arithmetic\<close>

lemma block_alloc_update [simp]:
  "block_alloc (a\<lparr>ips := m\<rparr>) = block_alloc a" "block_alloc (a\<lparr>exhaustedCalls := n\<rparr>) = block_alloc a"
  by (auto simp: block_alloc_def)

lemma blockIndexOf_update [simp]:
  "blockIndexOf (a\<lparr>ips := m\<rparr>) = blockIndexOf a"
  by (simp add: blockIndexOf_def fun_eq_iff Let_def)

lemma block_space:
  assumes "alloc_inv a" "idx < totalBlocks a"
  shows "unat (minPort a) + Suc (unat idx) * unat (blockSize a) \<le> 65536"
proof -
  have "Suc (unat idx) * unat (blockSize a) \<le> unat (totalBlocks a) * unat (blockSize a)"
    using assms(2) by (intro mult_Suc_le_mono) (simp add: word_less_nat_alt)
  with alloc_invD(3) [OF assms(1)] show ?thesis by linarith
qed

lemma unat_PortStart_block:
  assumes "alloc_inv a" "idx < totalBlocks a"
  shows "unat (PortStart (block_alloc a idx)) = unat (minPort a) + unat idx * unat (blockSize a)"
proof -
  have "unat (minPort a) + unat idx * unat (blockSize a) < 65536"
    using block_space [OF assms] unat_blockSize_pos [OF assms(1)] by simp
  then show ?thesis by (simp add: block_alloc_def unat_mult_add_u16)
qed

lemma unat_PortEnd_block:
  assumes "alloc_inv a" "idx < totalBlocks a"
  shows "Suc (unat (PortEnd (block_alloc a idx))) =
    unat (minPort a) + Suc (unat idx) * unat (blockSize a)"
proof -
  let ?n = "unat (minPort a) + Suc (unat idx) * unat (blockSize a)"
  have n: "1 \<le> ?n" "?n \<le> 65536"
    using block_space [OF assms] unat_blockSize_pos [OF assms(1)] by simp_all
  have "PortEnd (block_alloc a idx) = word_of_nat ?n - 1"
    by (simp add: block_alloc_def algebra_simps)
  also have "\<dots> = word_of_nat (?n - 1)" using n(1) by (simp add: of_nat_diff)
  finally have "unat (PortEnd (block_alloc a idx)) = ?n - 1"
    using n unat_u16_of_nat [of "?n - 1"] by simp
  with n show ?thesis by simp
qed

text \<open>The ports of an allocation, and which ports a block covers.\<close>

definition alloc_ports :: "Allocation \<Rightarrow> u16 set" where
  "alloc_ports al = {PortStart al .. PortEnd al}"

lemma in_block_ports:
  assumes "alloc_inv a" "idx < totalBlocks a"
  shows "p \<in> alloc_ports (block_alloc a idx) \<longleftrightarrow>
    unat (minPort a) + unat idx * unat (blockSize a) \<le> unat p \<and>
    unat p < unat (minPort a) + Suc (unat idx) * unat (blockSize a)"
  using unat_PortStart_block [OF assms] unat_PortEnd_block [OF assms]
  by (auto simp: alloc_ports_def word_le_nat_alt)

lemma block_ports_disjoint:
  assumes "alloc_inv a" "i < totalBlocks a" "j < totalBlocks a" "i \<noteq> j"
  shows "alloc_ports (block_alloc a i) \<inter> alloc_ports (block_alloc a j) = {}"
proof (rule ccontr)
  assume "\<not> ?thesis"
  then obtain p where "p \<in> alloc_ports (block_alloc a i)" "p \<in> alloc_ports (block_alloc a j)" by blast
  then have "unat i * unat (blockSize a) \<le> unat p - unat (minPort a)"
    "unat p - unat (minPort a) < Suc (unat i) * unat (blockSize a)"
    "unat j * unat (blockSize a) \<le> unat p - unat (minPort a)"
    "unat p - unat (minPort a) < Suc (unat j) * unat (blockSize a)"
    using assms(1-3) by (auto simp: in_block_ports)
  then have "unat i = unat j" by (rule block_index_unique)
  with assms(4) show False by (simp add: word_unat_eq_iff)
qed

lemma blockIndexOf_block:
  assumes "alloc_inv a" "idx < totalBlocks a"
  shows "blockIndexOf a (PortStart (block_alloc a idx)) = Inr idx"
proof -
  have bs: "blockSize a \<noteq> 0" "0 < unat (blockSize a)"
    using alloc_invD(1) unat_blockSize_pos assms(1) by auto
  have ge: "minPort a \<le> PortStart (block_alloc a idx)"
    using unat_PortStart_block [OF assms] by (simp add: word_le_nat_alt)
  have off: "PortStart (block_alloc a idx) - minPort a = idx * blockSize a"
    by (simp add: block_alloc_def)
  have "unat idx * unat (blockSize a) < 65536" using block_space [OF assms] bs(2) by simp
  then have u: "unat (idx * blockSize a) = unat idx * unat (blockSize a)"
    by (simp add: unat_word_ariths)
  have "idx * blockSize a mod blockSize a = 0" "idx * blockSize a div blockSize a = idx"
    using u bs(2) by (simp_all add: word_unat_eq_iff unat_mod unat_div)
  with ge off assms(2) show ?thesis by (simp add: blockIndexOf_def not_less not_le)
qed

lemma blockIndexOf_InrD:
  assumes "blockIndexOf a ps = Inr idx"
  shows "idx < totalBlocks a" "PortStart (block_alloc a idx) = ps"
proof -
  from assms have *: "(ps - minPort a) mod blockSize a = 0" "idx = (ps - minPort a) div blockSize a"
    "idx < totalBlocks a"
    by (auto simp: blockIndexOf_def Let_def split: if_splits)
  have "idx * blockSize a = ps - minPort a"
    using * div_mult_mod_eq [of "ps - minPort a" "blockSize a"] by simp
  with *(3) show "idx < totalBlocks a" "PortStart (block_alloc a idx) = ps"
    by (simp_all add: block_alloc_def)
qed

lemma blockIndexOf_iff:
  assumes "alloc_inv a"
  shows "blockIndexOf a ps = Inr idx \<longleftrightarrow> idx < totalBlocks a \<and> ps = PortStart (block_alloc a idx)"
  using assms blockIndexOf_block blockIndexOf_InrD by metis

lemma blockIndexContaining_iff:
  assumes "alloc_inv a"
  shows "blockIndexContaining a port = Some idx \<longleftrightarrow>
    idx < totalBlocks a \<and> port \<in> alloc_ports (block_alloc a idx)"
proof -
  let ?b = "unat (blockSize a)" and ?m = "unat (minPort a)" and ?p = "unat port"
  have b: "0 < ?b" by (rule unat_blockSize_pos [OF assms])
  have u: "minPort a \<le> port \<Longrightarrow> unat ((port - minPort a) div blockSize a) = (?p - ?m) div ?b"
    by (simp add: unat_div unat_sub)
  have d: "(?p - ?m) div ?b = unat idx \<longleftrightarrow>
      unat idx * ?b \<le> ?p - ?m \<and> ?p - ?m < Suc (unat idx) * ?b"
    using b by (metis div_less_iff_less_mult div_nat_eqI div_times_less_eq_dividend
        lessI mult.commute)
  show ?thesis
  proof
    assume "blockIndexContaining a port = Some idx"
    then have "minPort a \<le> port" "idx < totalBlocks a" "(port - minPort a) div blockSize a = idx"
      by (auto simp: blockIndexContaining_def Let_def not_less split: if_splits)
    moreover from this u have "unat idx * ?b \<le> ?p - ?m \<and> ?p - ?m < Suc (unat idx) * ?b"
      using d by metis
    ultimately show "idx < totalBlocks a \<and> port \<in> alloc_ports (block_alloc a idx)"
      by (simp add: in_block_ports [OF assms] word_le_nat_alt) linarith
  next
    assume r: "idx < totalBlocks a \<and> port \<in> alloc_ports (block_alloc a idx)"
    then have m: "minPort a \<le> port" and "unat idx * ?b \<le> ?p - ?m" "?p - ?m < Suc (unat idx) * ?b"
      by (auto simp: in_block_ports [OF assms] word_le_nat_alt)
    with d u have "(port - minPort a) div blockSize a = idx" by (simp add: word_unat_eq_iff)
    with r m show "blockIndexContaining a port = Some idx"
      by (auto simp: blockIndexContaining_def Let_def)
  qed
qed

section \<open>Exclusion sets and picking\<close>

lemma reserved_of_iff:
  "reserved_of a ports res = res \<union> {idx. \<exists>p \<in> set ports. blockIndexContaining a p = Some idx}"
  by (induction a ports res rule: reserved_of.induct)
    (auto simp: blockIndexContaining_def Let_def split: if_splits)

lemma exclude_ports_iff:
  "exclude_ports a ports ex = ex \<union> {idx. \<exists>p \<in> set ports. blockIndexContaining a p = Some idx}"
  by (induction a ports ex rule: exclude_ports.induct) (auto split: option.splits)

lemma excludeSetFor_iff:
  "excludeSetFor a ports = reserved a \<union> {idx. \<exists>p \<in> set ports. blockIndexContaining a p = Some idx}"
  by (simp add: excludeSetFor_def exclude_ports_iff)

lemma exclude_starts_InrD:
  "exclude_starts a starts ex = Inr ex' \<Longrightarrow>
     ex' = ex \<union> {idx. \<exists>ps \<in> set starts. blockIndexOf a ps = Inr idx} \<and>
     (\<forall>ps \<in> set starts. \<exists>idx. blockIndexOf a ps = Inr idx)"
  by (induction a starts ex rule: exclude_starts.induct) (auto split: sum.splits)

lemma exclude_starts_Inr:
  "(\<And>ps. ps \<in> set starts \<Longrightarrow> \<exists>idx. blockIndexOf a ps = Inr idx) \<Longrightarrow>
     \<exists>ex'. exclude_starts a starts ex = Inr ex'"
proof (induction starts arbitrary: ex)
  case (Cons ps starts)
  from Cons.prems [of ps] obtain idx where "blockIndexOf a ps = Inr idx" by auto
  with Cons.IH [of "insert idx ex"] Cons.prems show ?case by simp
qed simp

lemma pick_loop_take:
  assumes "length chosen < unat cnt"
  shows "pick_loop xs cnt ex chosen =
    chosen @ take (unat cnt - length chosen) (filter (\<lambda>i. i \<notin> ex) xs)"
  using assms
proof (induction xs arbitrary: chosen)
  case (Cons x xs)
  show ?case
  proof (cases "x \<in> ex")
    case False
    have small: "length (chosen @ [x]) < 65536"
      using Cons.prems unat_u16_less [of cnt] by simp
    then have stop: "(word_of_nat (length (chosen @ [x])) :: u16) = cnt \<longleftrightarrow>
        Suc (length chosen) = unat cnt"
      by (metis length_append_singleton unat_u16_of_nat word_unat_eq_iff)
    have "unat cnt - length chosen = Suc (unat cnt - Suc (length chosen))"
      using Cons.prems by simp
    with False stop Cons.prems Cons.IH [of "chosen @ [x]"] show ?thesis
      by (simp add: Let_def del: of_nat_Suc)
  qed (use Cons in simp)
qed simp

lemma pickFromSet_eq:
  assumes "cnt \<noteq> 0"
  shows "pickFromSet ord free cnt ex =
    (if unat cnt \<le> card (free - ex)
     then Inr (take (unat cnt) (filter (\<lambda>i. i \<notin> ex) (visit ord free)))
     else Inl (NotEnoughFreeBlocks cnt (card (free - ex)) (card ex)))"
proof -
  let ?f = "filter (\<lambda>i. i \<notin> ex) (visit ord free)"
  have fin: "finite free" by simp
  have "set ?f = free - ex" "distinct ?f" using fin by auto
  then have len: "length ?f = card (free - ex)" by (metis distinct_card)
  have "0 < unat cnt" using assms unat_gt_0 by blast
  then have pl: "pick_loop (visit ord free) cnt ex [] = take (unat cnt) ?f"
    by (simp add: pick_loop_take)
  have "min (card (free - ex)) (unat cnt) < 65536" using unat_u16_less [of cnt] by simp
  then have "(word_of_nat (min (card (free - ex)) (unat cnt)) :: u16) < cnt \<longleftrightarrow>
      card (free - ex) < unat cnt"
    by (simp add: word_less_nat_alt unat_u16_of_nat min_less_iff_disj)
  then show ?thesis by (auto simp: pickFromSet_def Let_def pl len)
qed

lemma pickFromSet_InrD:
  assumes "cnt \<noteq> 0" "pickFromSet ord free cnt ex = Inr chosen"
  shows "distinct chosen" "length chosen = unat cnt" "set chosen \<subseteq> free - ex"
proof -
  let ?f = "filter (\<lambda>i. i \<notin> ex) (visit ord free)"
  have fin: "finite free" by simp
  have f: "set ?f = free - ex" "distinct ?f" using fin by auto
  then have len: "length ?f = card (free - ex)" by (metis distinct_card)
  from assms have "chosen = take (unat cnt) ?f" "unat cnt \<le> length ?f"
    by (auto simp: pickFromSet_eq len split: if_splits)
  with f show "distinct chosen" "length chosen = unat cnt" "set chosen \<subseteq> free - ex"
    using set_take_subset [of "unat cnt" ?f] by (auto simp del: filter.simps)
qed

section \<open>Allocation for a pod\<close>

lemma first_duplicate_None:
  "first_duplicate xs seen = None \<longleftrightarrow> distinct xs \<and> set xs \<inter> seen = {}"
  by (induction xs seen rule: first_duplicate.induct) auto

text \<open>What a successful run of the loop has done, with \<open>ch ip\<close> the indices chosen on \<open>ip\<close>.\<close>

definition pod_choice ::
    "u16 \<Rightarrow> string list \<Rightarrow> u16 set \<Rightarrow> BlockAllocator \<Rightarrow> (string \<Rightarrow> u16 list) \<Rightarrow>
     (string \<rightharpoonup> Allocation list) \<Rightarrow> BlockAllocator \<Rightarrow> bool" where
  "pod_choice cnt xs ex a ch R a' \<longleftrightarrow>
     (\<forall>ip \<in> set xs. \<exists>free. ips a ip = Some free \<and> distinct (ch ip) \<and>
        length (ch ip) = unat cnt \<and> set (ch ip) \<subseteq> free - ex \<and>
        ips a' ip = Some (free - set (ch ip)) \<and> R ip = Some (map (block_alloc a) (ch ip))) \<and>
     (\<forall>ip1 \<in> set xs. \<forall>ip2 \<in> set xs. ip1 \<noteq> ip2 \<longrightarrow> set (ch ip1) \<inter> set (ch ip2) = {})"

lemma pod_choice_Cons:
  assumes "pod_choice cnt xs (ex \<union> set c) (a\<lparr>ips := (ips a)(x \<mapsto> free - set c)\<rparr>) ch R a'"
    and "distinct c \<and> length c = unat cnt \<and> set c \<subseteq> free - ex \<and> ips a x = Some free \<and>
      ips a' x = Some (free - set c) \<and> R x = Some (map (block_alloc a) c)"
    and "x \<notin> set xs"
  shows "pod_choice cnt (x # xs) ex a (ch(x := c)) R a'"
  unfolding pod_choice_def
proof (intro conjI ballI impI)
  note rest = assms(1) [unfolded pod_choice_def, THEN conjunct1, rule_format]
  note disj = assms(1) [unfolded pod_choice_def, THEN conjunct2, rule_format]
  show "\<exists>free. ips a ip = Some free \<and> distinct ((ch(x := c)) ip) \<and>
      length ((ch(x := c)) ip) = unat cnt \<and> set ((ch(x := c)) ip) \<subseteq> free - ex \<and>
      ips a' ip = Some (free - set ((ch(x := c)) ip)) \<and>
      R ip = Some (map (block_alloc a) ((ch(x := c)) ip))" if "ip \<in> set (x # xs)" for ip
  proof (cases "ip = x")
    case False
    with that rest [of ip] show ?thesis by auto
  qed (use assms(2) in auto)
  have new: "set (ch ip) \<inter> set c = {}" if "ip \<in> set xs" for ip
    using rest [OF that] by auto
  show "set ((ch(x := c)) ip1) \<inter> set ((ch(x := c)) ip2) = {}"
    if "ip1 \<in> set (x # xs)" "ip2 \<in> set (x # xs)" "ip1 \<noteq> ip2" for ip1 ip2
    using that new disj [of ip1 ip2] by (auto simp: Int_commute)
qed

lemma alloc_pod_loop_Inr:
  assumes "cnt \<noteq> 0" "distinct xs"
    and "alloc_pod_loop ord cnt xs a ex res rb = (Inr R, a')"
  shows "(\<exists>ch. pod_choice cnt xs ex a ch R a') \<and> a' = a\<lparr>ips := ips a'\<rparr> \<and>
    (\<forall>ip. ip \<notin> set xs \<longrightarrow> ips a' ip = ips a ip \<and> R ip = res ip)"
  using assms(2,3)
proof (induction xs arbitrary: a ex res rb)
  case (Cons x xs)
  from Cons.prems(2) obtain free c where
    free: "ips a x = Some free" and c: "pickFromSet (ord x) free cnt ex = Inr c" and
    run: "alloc_pod_loop ord cnt xs (a\<lparr>ips := (ips a)(x \<mapsto> free - set c)\<rparr>) (ex \<union> set c)
            (res(x \<mapsto> map (block_alloc a) c)) (rb(x \<mapsto> c)) = (Inr R, a')"
    by (auto split: option.splits sum.splits)
  note pick = pickFromSet_InrD [OF assms(1) c]
  let ?a = "a\<lparr>ips := (ips a)(x \<mapsto> free - set c)\<rparr>"
  from Cons.prems(1) Cons.IH [OF _ run] obtain ch where
    ch: "pod_choice cnt xs (ex \<union> set c) ?a ch R a'" and fields: "a' = ?a\<lparr>ips := ips a'\<rparr>" and
    frame: "\<And>ip. ip \<notin> set xs \<Longrightarrow>
      ips a' ip = ips ?a ip \<and> R ip = (res(x \<mapsto> map (block_alloc a) c)) ip"
    by auto
  have x: "x \<notin> set xs" using Cons.prems(1) by simp
  have "pod_choice cnt (x # xs) ex a (ch(x := c)) R a'"
  proof (rule pod_choice_Cons [OF ch _ x])
    show "distinct c \<and> length c = unat cnt \<and> set c \<subseteq> free - ex \<and> ips a x = Some free \<and>
      ips a' x = Some (free - set c) \<and> R x = Some (map (block_alloc a) c)"
      using pick free frame [of x] x by simp
  qed
  moreover have "a' = a\<lparr>ips := ips a'\<rparr>" using fields by simp
  moreover have "ips a' ip = ips a ip \<and> R ip = res ip" if "ip \<notin> set (x # xs)" for ip
    using frame [of ip] that by simp
  ultimately show ?case by blast
next
  case Nil
  then show ?case by (auto simp: pod_choice_def)
qed

text \<open>
  The failing runs: before each pick, the blocks taken so far are exactly those in \<open>rolledBack\<close>, so
  the rollback restores every free set.
\<close>

definition rolled_from :: "BlockAllocator \<Rightarrow> (string \<rightharpoonup> u16 list) \<Rightarrow> BlockAllocator \<Rightarrow> bool" where
  "rolled_from a0 rb a \<longleftrightarrow>
     (\<forall>ip. case rb ip of
         None \<Rightarrow> ips a ip = ips a0 ip
       | Some indices \<Rightarrow> \<exists>free. ips a0 ip = Some free \<and> set indices \<subseteq> free \<and>
                               ips a ip = Some (free - set indices))"

lemma rollback_restores_ips: "rolled_from a0 rb a \<Longrightarrow> ips (rollback a rb) = ips a0"
proof
  fix ip
  assume "rolled_from a0 rb a"
  note at = this [unfolded rolled_from_def, rule_format, of ip]
  show "ips (rollback a rb) ip = ips a0 ip"
    using at by (cases "rb ip") (auto simp: rollback_def)
qed

lemma rolled_from_step:
  assumes "rolled_from a0 rb a" "rb ip = None" "ips a ip = Some free" "set c \<subseteq> free"
  shows "rolled_from a0 (rb(ip \<mapsto> c)) (a\<lparr>ips := (ips a)(ip \<mapsto> free - set c)\<rparr>)"
  unfolding rolled_from_def
proof
  fix ip'
  note at = assms(1) [unfolded rolled_from_def, rule_format, of ip']
  show "case (rb(ip \<mapsto> c)) ip' of
      None \<Rightarrow> ips (a\<lparr>ips := (ips a)(ip \<mapsto> free - set c)\<rparr>) ip' = ips a0 ip'
    | Some indices \<Rightarrow> \<exists>free'. ips a0 ip' = Some free' \<and> set indices \<subseteq> free' \<and>
        ips (a\<lparr>ips := (ips a)(ip \<mapsto> free - set c)\<rparr>) ip' = Some (free' - set indices)"
  proof (cases "ip' = ip")
    case True
    with at assms(2,3) have "ips a0 ip = Some free" by simp
    with True assms(4) show ?thesis by simp
  next
    case False
    with at show ?thesis by (cases "rb ip'") simp_all
  qed
qed

lemma alloc_pod_loop_Inl:
  assumes "cnt \<noteq> 0" "distinct xs"
    and "rolled_from a0 rb a" "\<And>ip. ip \<in> set xs \<Longrightarrow> rb ip = None"
    and "alloc_pod_loop ord cnt xs a ex res rb = (Inl e, a')"
  shows "\<exists>n. a' = a\<lparr>ips := ips a0, exhaustedCalls := n\<rparr>"
  using assms(2-5)
proof (induction xs arbitrary: a ex res rb)
  case (Cons x xs)
  show ?case
  proof (cases "ips a x")
    case None
    with Cons.prems have "a' = rollback a rb" by simp
    with rollback_restores_ips [OF Cons.prems(2)] show ?thesis
      by (intro exI [of _ "exhaustedCalls a"]) (simp add: rollback_def)
  next
    case (Some free)
    show ?thesis
    proof (cases "pickFromSet (ord x) free cnt ex")
      case (Inl e')
      with Some Cons.prems have "a' = notify_exhausted (rollback a rb)" by simp
      with rollback_restores_ips [OF Cons.prems(2)] show ?thesis
        by (intro exI [of _ "exhaustedCalls a'"]) (auto simp: notify_exhausted_def rollback_def)
    next
      case (Inr c)
      let ?a = "a\<lparr>ips := (ips a)(x \<mapsto> free - set c)\<rparr>"
      have sub: "set c \<subseteq> free" using pickFromSet_InrD(3) [OF assms(1) Inr] by blast
      have rf: "rolled_from a0 (rb(x \<mapsto> c)) ?a"
        using rolled_from_step [OF Cons.prems(2) _ Some sub] Cons.prems(3) by simp
      have run: "alloc_pod_loop ord cnt xs ?a (ex \<union> set c) (res(x \<mapsto> map (block_alloc a) c))
          (rb(x \<mapsto> c)) = (Inl e, a')"
        using Cons.prems(4) Some Inr by simp
      have "\<exists>n. a' = ?a\<lparr>ips := ips a0, exhaustedCalls := n\<rparr>"
        using Cons.prems by (intro Cons.IH [OF _ rf _ run]) auto
      then show ?thesis by auto
    qed
  qed
qed simp

text \<open>
  Enough room: the loop cannot fail when every IP still has \<open>length xs * cnt\<close> blocks that are free
  and not excluded, whatever order the free sets are visited in.
\<close>

lemma alloc_pod_loop_total:
  assumes "cnt \<noteq> 0" "distinct xs"
    and "\<And>ip. ip \<in> set xs \<Longrightarrow>
      \<exists>free. ips a ip = Some free \<and> length xs * unat cnt \<le> card (free - ex)"
  shows "\<exists>R a'. alloc_pod_loop ord cnt xs a ex res rb = (Inr R, a')"
  using assms(2,3)
proof (induction xs arbitrary: a ex res rb)
  case (Cons x xs)
  from Cons.prems(2) [of x] obtain free where
    free: "ips a x = Some free" "unat cnt + length xs * unat cnt \<le> card (free - ex)" by auto
  then obtain c where c: "pickFromSet (ord x) free cnt ex = Inr c"
    using pickFromSet_eq [OF assms(1), of "ord x" free ex] by auto
  note pick = pickFromSet_InrD [OF assms(1) c]
  let ?a = "a\<lparr>ips := (ips a)(x \<mapsto> free - set c)\<rparr>"
  have room: "\<exists>free. ips ?a ip = Some free \<and> length xs * unat cnt \<le> card (free - (ex \<union> set c))"
    if ip: "ip \<in> set xs" for ip
  proof -
    from Cons.prems(2) [of ip] ip obtain f where
      f: "ips a ip = Some f" "unat cnt + length xs * unat cnt \<le> card (f - ex)" by auto
    have "f - ex \<subseteq> (f - (ex \<union> set c)) \<union> set c" by blast
    then have "card (f - ex) \<le> card ((f - (ex \<union> set c)) \<union> set c)" by (intro card_mono) simp_all
    also have "\<dots> \<le> card (f - (ex \<union> set c)) + card (set c)" by (rule card_Un_le)
    finally have "card (f - ex) \<le> card (f - (ex \<union> set c)) + card (set c)" .
    moreover have "card (set c) = unat cnt" using pick(1,2) by (simp add: distinct_card)
    ultimately have "length xs * unat cnt \<le> card (f - (ex \<union> set c))" using f(2) by linarith
    moreover have "ips ?a ip = Some f" using f(1) ip Cons.prems(1) by auto
    ultimately show ?thesis by blast
  qed
  from Cons.prems(1) room have "\<exists>R a'. alloc_pod_loop ord cnt xs ?a (ex \<union> set c)
      (res(x \<mapsto> map (block_alloc a) c)) (rb(x \<mapsto> c)) = (Inr R, a')"
    by (intro Cons.IH) auto
  with free c show ?case by simp
qed simp

lemma AllocateForPod_Inr:
  assumes "AllocateForPod ord a xs cnt exports = (Inr R, a')"
  shows "\<exists>ch. pod_choice cnt xs (excludeSetFor a exports) a ch R a'" "cnt \<noteq> 0" "distinct xs"
    "a' = a\<lparr>ips := ips a'\<rparr>" "\<And>ip. ip \<notin> set xs \<Longrightarrow> ips a' ip = ips a ip \<and> R ip = None"
proof -
  from assms have cnt: "cnt \<noteq> 0" and dup: "first_duplicate xs {} = None"
    and run: "alloc_pod_loop ord cnt xs a (excludeSetFor a exports) Map.empty Map.empty = (Inr R, a')"
    by (auto simp: AllocateForPod_def split: if_splits option.splits)
  from dup have xs: "distinct xs" by (simp add: first_duplicate_None)
  note loop = alloc_pod_loop_Inr [OF cnt xs run]
  show "\<exists>ch. pod_choice cnt xs (excludeSetFor a exports) a ch R a'" "a' = a\<lparr>ips := ips a'\<rparr>"
    using loop by blast+
  show "ips a' ip = ips a ip \<and> R ip = None" if "ip \<notin> set xs" for ip
    using loop that by simp
qed (use assms in \<open>auto simp: AllocateForPod_def first_duplicate_None split: if_splits option.splits\<close>)

lemma AllocateForPod_Inl:
  assumes "AllocateForPod ord a xs cnt exports = (Inl e, a')"
  shows "\<exists>n. a' = a\<lparr>exhaustedCalls := n\<rparr>"
proof (cases "cnt = 0 \<or> first_duplicate xs {} \<noteq> None")
  case True
  with assms have "a' = a" by (auto simp: AllocateForPod_def split: if_splits)
  then show ?thesis by (intro exI [of _ "exhaustedCalls a"]) simp
next
  case False
  then have "distinct xs" by (simp add: first_duplicate_None)
  moreover have "rolled_from a Map.empty a" by (simp add: rolled_from_def)
  moreover have "alloc_pod_loop ord cnt xs a (excludeSetFor a exports) Map.empty Map.empty = (Inl e, a')"
    using assms False by (auto simp: AllocateForPod_def)
  ultimately have "\<exists>n. a' = a\<lparr>ips := ips a, exhaustedCalls := n\<rparr>"
    using False by (intro alloc_pod_loop_Inl) auto
  then show ?thesis by simp
qed

section \<open>Freeing\<close>

definition freed_idx :: "BlockAllocator \<Rightarrow> (string \<rightharpoonup> Allocation list) \<Rightarrow> string \<Rightarrow> u16 set" where
  "freed_idx a allocs ip =
     {idx. \<exists>als al. allocs ip = Some als \<and> al \<in> set als \<and> blockIndexOf a (PortStart al) = Inr idx}"

lemma pending_of_Inr:
  "pending_of a ip als = Inr p \<Longrightarrow>
     set p = {(ip, idx) | idx. \<exists>al \<in> set als. blockIndexOf a (PortStart al) = Inr idx}"
  by (induction als arbitrary: p) (auto split: sum.splits)

lemma free_pending_Inr:
  "free_pending a allocs ks = Inr p \<Longrightarrow>
     set p = {(ip, idx). ip \<in> set ks \<and> ips a ip \<noteq> None \<and> idx \<in> freed_idx a allocs ip}"
proof (induction ks arbitrary: p)
  case (Cons k ks)
  show ?case
  proof (cases "ips a k = None")
    case False
    with Cons.prems obtain p1 p2 where
      p1: "pending_of a k (case allocs k of None \<Rightarrow> [] | Some als \<Rightarrow> als) = Inr p1" and
      p2: "free_pending a allocs ks = Inr p2" and p: "p = p1 @ p2"
      by (auto split: sum.splits)
    have "set p1 = {(k, idx) | idx. idx \<in> freed_idx a allocs k}"
      unfolding pending_of_Inr [OF p1] freed_idx_def by (cases "allocs k") auto
    with Cons.IH [OF p2] p False show ?thesis by auto
  qed (use Cons in auto)
qed simp

lemma free_pending_total:
  assumes "\<And>ip als al. ips a ip \<noteq> None \<Longrightarrow> allocs ip = Some als \<Longrightarrow> al \<in> set als \<Longrightarrow>
      \<exists>idx. blockIndexOf a (PortStart al) = Inr idx"
  shows "\<exists>p. free_pending a allocs ks = Inr p"
proof (induction ks)
  case (Cons k ks)
  have one: "(\<And>al. al \<in> set als \<Longrightarrow> \<exists>idx. blockIndexOf a (PortStart al) = Inr idx) \<Longrightarrow>
      \<exists>p. pending_of a k als = Inr p" for als
  proof (induction als)
    case (Cons al als)
    from Cons.prems [of al] obtain idx where "blockIndexOf a (PortStart al) = Inr idx" by auto
    moreover have "\<exists>p. pending_of a k als = Inr p" using Cons by simp
    ultimately show ?case by auto
  qed simp
  show ?case
  proof (cases "ips a k")
    case (Some f)
    then have "\<exists>p. pending_of a k (case allocs k of None \<Rightarrow> [] | Some als \<Rightarrow> als) = Inr p"
      using assms [of k] one by (cases "allocs k") simp_all
    with Some Cons show ?thesis by auto
  qed (use Cons in simp)
qed simp

lemma return_blocks_eq:
  "return_blocks p a =
     a\<lparr>ips := (\<lambda>ip. map_option (\<lambda>free. free \<union> {idx. (ip, idx) \<in> set p}) (ips a ip))\<rparr>"
proof (induction p a rule: return_blocks.induct)
  case (2 ip idx rest a)
  have "(\<lambda>ip'. map_option (\<lambda>free. free \<union> {i. (ip', i) \<in> set rest})
          (((ips a)(ip := map_option (insert idx) (ips a ip))) ip')) =
        (\<lambda>ip'. map_option (\<lambda>free. free \<union> {i. (ip', i) \<in> set ((ip, idx) # rest)}) (ips a ip'))"
    by (rule ext) (auto simp: option.map_comp comp_def intro!: option.map_cong)
  with 2 show ?case by simp
qed (simp add: option.map_ident)

lemma Free_eq:
  assumes "finite (dom allocs)" "Free kord a allocs = (None, a')"
  shows "a' = a\<lparr>ips := (\<lambda>ip. map_option (\<lambda>free. free \<union> freed_idx a allocs ip) (ips a ip))\<rparr>"
proof -
  from assms(2) obtain p where p: "free_pending a allocs (visit kord (dom allocs)) = Inr p"
    and a': "a' = return_blocks p a"
    by (auto simp: Free_def split: sum.splits)
  have "map_option (\<lambda>free. free \<union> {idx. (ip, idx) \<in> set p}) (ips a ip) =
      map_option (\<lambda>free. free \<union> freed_idx a allocs ip) (ips a ip)" for ip
    using assms(1) free_pending_Inr [OF p]
    by (cases "ips a ip") (auto simp: freed_idx_def)
  then show ?thesis by (simp add: a' return_blocks_eq)
qed

lemma Free_total:
  assumes "\<And>ip als al. ips a ip \<noteq> None \<Longrightarrow> allocs ip = Some als \<Longrightarrow> al \<in> set als \<Longrightarrow>
      \<exists>idx. blockIndexOf a (PortStart al) = Inr idx"
  shows "\<exists>a'. Free kord a allocs = (None, a')"
proof -
  obtain p where "free_pending a allocs (visit kord (dom allocs)) = Inr p"
    using free_pending_total [of a allocs] assms by blast
  then show ?thesis by (simp add: Free_def)
qed

lemma Free_error_unchanged: "Free kord a allocs = (Some e, a') \<Longrightarrow> a' = a"
  by (auto simp: Free_def split: sum.splits)

section \<open>Allocation on one IP\<close>

lemma AllocateForIP_Inr:
  assumes "cnt \<noteq> 0" "AllocateForIP ord a ip cnt starts exports = (Inr als, a')"
  obtains free ex ch where "ips a ip = Some free"
    "ex = excludeSetFor a exports \<union> {idx. \<exists>ps \<in> set starts. blockIndexOf a ps = Inr idx}"
    "\<forall>ps \<in> set starts. \<exists>idx. blockIndexOf a ps = Inr idx"
    "distinct ch" "length ch = unat cnt" "set ch \<subseteq> free - ex"
    "als = map (block_alloc a) ch" "a' = a\<lparr>ips := (ips a)(ip \<mapsto> free - set ch)\<rparr>"
proof -
  from assms(2) obtain free ex ch where free: "ips a ip = Some free"
    and ex: "exclude_starts a starts (excludeSetFor a exports) = Inr ex"
    and ch: "pickFromSet ord free cnt ex = Inr ch"
    and res: "als = map (block_alloc a) ch" "a' = a\<lparr>ips := (ips a)(ip \<mapsto> free - set ch)\<rparr>"
    by (auto simp: AllocateForIP_def split: option.splits sum.splits)
  show ?thesis
    using that [OF free _ _ _ _ _ res] exclude_starts_InrD [OF ex] pickFromSet_InrD [OF assms(1) ch]
    by blast
qed

lemma AllocateForIP_Inl:
  "AllocateForIP ord a ip cnt starts exports = (Inl e, a') \<Longrightarrow> \<exists>n. a' = a\<lparr>exhaustedCalls := n\<rparr>"
  by (auto simp: AllocateForIP_def notify_exhausted_def intro: exI [of _ "exhaustedCalls a"]
      split: option.splits sum.splits if_splits)

section \<open>Every operation keeps the invariant\<close>

lemma alloc_inv_ips:
  assumes "alloc_inv a" "\<And>ip free. m ip = Some free \<Longrightarrow> free \<subseteq> {idx. idx < totalBlocks a}"
    "finite (dom m)"
  shows "alloc_inv (a\<lparr>ips := m\<rparr>)"
  using assms by (simp add: alloc_inv_def)

lemma alloc_inv_exhausted [simp]: "alloc_inv (a\<lparr>exhaustedCalls := n\<rparr>) = alloc_inv a"
  by (simp add: alloc_inv_def)

lemma alloc_inv_shrink:
  assumes "alloc_inv a" "ips a ip = Some free"
  shows "alloc_inv (a\<lparr>ips := (ips a)(ip \<mapsto> free - T)\<rparr>)"
  using alloc_invD(4) [OF assms] alloc_invD(4,5) [OF assms(1)]
  by (intro alloc_inv_ips [OF assms(1)]) (auto split: if_splits)

lemma fullFreeSet_eq: "fullFreeSet a = {idx. idx < totalBlocks a}"
proof -
  have "idx \<in> fullFreeSet a" if "idx < totalBlocks a" for idx
  proof -
    have "unat idx < unat (totalBlocks a)" using that by (simp add: word_less_nat_alt)
    moreover have "idx = word_of_nat (unat idx)" by simp
    ultimately show ?thesis unfolding fullFreeSet_def set_map set_upt
      by (intro image_eqI [of _ _ "unat idx"]) simp_all
  qed
  moreover have "word_of_nat n < totalBlocks a" if "n < unat (totalBlocks a)" for n
    using that unat_u16_less [of "totalBlocks a"] by (simp add: word_less_nat_alt unat_u16_of_nat)
  ultimately show ?thesis by (auto simp: fullFreeSet_def)
qed

lemma EnsureIP_inv [inv_intros]: "alloc_inv a \<Longrightarrow> alloc_inv (EnsureIP a ip)"
  by (auto simp: EnsureIP_def fullFreeSet_eq alloc_inv_def)

lemma RemoveIP_inv [inv_intros]: "alloc_inv a \<Longrightarrow> alloc_inv (RemoveIP a ip)"
  by (auto simp: RemoveIP_def alloc_inv_def split: if_splits)

lemma SetReservedPorts_inv [inv_intros]: "alloc_inv a \<Longrightarrow> alloc_inv (SetReservedPorts a ports)"
  by (auto simp: SetReservedPorts_def reserved_of_iff alloc_inv_def blockIndexContaining_def Let_def
      split: if_splits)

lemma MarkUsed_inv [inv_intros]: "alloc_inv a \<Longrightarrow> MarkUsed a ip ps = (r, a') \<Longrightarrow> alloc_inv a'"
  by (auto simp: MarkUsed_def alloc_inv_shrink split: sum.splits option.splits)

lemma AllocateForPod_inv [inv_intros]:
  assumes "alloc_inv a" "AllocateForPod ord a xs cnt exports = (r, a')"
  shows "alloc_inv a'"
proof (cases r)
  case (Inl e)
  with AllocateForPod_Inl assms show ?thesis by fastforce
next
  case (Inr R)
  with assms(2) have run: "AllocateForPod ord a xs cnt exports = (Inr R, a')" by simp
  note a' = AllocateForPod_Inr(4) [OF run] and frame = AllocateForPod_Inr(5) [OF run]
  obtain ch where ch: "pod_choice cnt xs (excludeSetFor a exports) a ch R a'"
    using AllocateForPod_Inr(1) [OF run] by blast
  have sub: "\<exists>f. ips a ip = Some f \<and> free \<subseteq> f" if "ips a' ip = Some free" for ip free
    using that ch frame [of ip] by (cases "ip \<in> set xs") (auto simp: pod_choice_def)
  have "alloc_inv (a\<lparr>ips := ips a'\<rparr>)"
  proof (rule alloc_inv_ips [OF assms(1)])
    show "free \<subseteq> {idx. idx < totalBlocks a}" if "ips a' ip = Some free" for ip free
      using sub [OF that] alloc_invD(4) [OF assms(1)] by blast
    have "dom (ips a') \<subseteq> dom (ips a)" using sub by blast
    then show "finite (dom (ips a'))" using alloc_invD(5) [OF assms(1)] finite_subset by blast
  qed
  with a' show ?thesis by simp
qed

lemma AllocateForIP_inv [inv_intros]:
  assumes "alloc_inv a" "AllocateForIP ord a ip cnt starts exports = (r, a')"
  shows "alloc_inv a'"
  using assms
  by (auto simp: AllocateForIP_def notify_exhausted_def alloc_inv_shrink
      split: option.splits sum.splits if_splits)

lemma Free_inv [inv_intros]:
  assumes "alloc_inv a" "finite (dom allocs)" "Free kord a allocs = (r, a')"
  shows "alloc_inv a'"
proof (cases r)
  case None
  with assms(3) have "Free kord a allocs = (None, a')" by simp
  note a' = Free_eq [OF assms(2) this]
  have fi: "freed_idx a allocs ip \<subseteq> {idx. idx < totalBlocks a}" for ip
    using blockIndexOf_InrD(1) by (auto simp: freed_idx_def)
  show ?thesis unfolding a'
  proof (rule alloc_inv_ips [OF assms(1)])
    show "free \<subseteq> {idx. idx < totalBlocks a}"
      if "map_option (\<lambda>free. free \<union> freed_idx a allocs ip) (ips a ip) = Some free" for ip free
      using that alloc_invD(4) [OF assms(1), of ip] fi [of ip] by auto
    show "finite (dom (\<lambda>ip. map_option (\<lambda>free. free \<union> freed_idx a allocs ip) (ips a ip)))"
      using alloc_invD(5) [OF assms(1)] by (simp add: dom_def)
  qed
next
  case (Some e)
  with Free_error_unchanged assms show ?thesis by blast
qed

section \<open>The allocator as a port pool\<close>

text \<open>
  Items of the pool are first ports of blocks. A grant is what \<open>AllocateForPod\<close> (or \<open>AllocateForIP\<close>)
  hands out; a release is \<open>Free\<close> on allocations with these first ports.
\<close>

definition block_avail :: "BlockAllocator \<Rightarrow> (string, u16) avail_map" where
  "block_avail a ip = map_option (\<lambda>free. (\<lambda>i. PortStart (block_alloc a i)) ` free) (ips a ip)"

definition block_starts :: "BlockAllocator \<Rightarrow> u16 set" where
  "block_starts a = (\<lambda>i. PortStart (block_alloc a i)) ` {i. i < totalBlocks a}"

definition alloc_items :: "(string \<rightharpoonup> Allocation list) \<Rightarrow> (string \<times> u16) set" where
  "alloc_items R = {(ip, ps). \<exists>als al. R ip = Some als \<and> al \<in> set als \<and> ps = PortStart al}"

definition pod_grant ::
    "(string \<Rightarrow> u16 go_order) \<Rightarrow> string list \<times> u16 \<times> u16 list \<Rightarrow> BlockAllocator \<Rightarrow>
     (string \<times> u16) set option \<times> BlockAllocator" where
  "pod_grant ord req a =
     (case req of (xs, cnt, exports) \<Rightarrow>
        (case AllocateForPod ord a xs cnt exports of
           (Inl e, a') \<Rightarrow> (None, a')
         | (Inr R, a') \<Rightarrow> (Some (alloc_items R), a')))"

definition ip_grant ::
    "u16 go_order \<Rightarrow> string \<times> u16 \<times> u16 list \<times> u16 list \<Rightarrow> BlockAllocator \<Rightarrow>
     (string \<times> u16) set option \<times> BlockAllocator" where
  "ip_grant ord req a =
     (case req of (ip, cnt, starts, exports) \<Rightarrow>
        (if cnt = 0 then (None, a)
         else (case AllocateForIP ord a ip cnt starts exports of
           (Inl e, a') \<Rightarrow> (None, a')
         | (Inr als, a') \<Rightarrow> (Some (alloc_items [ip \<mapsto> als]), a'))))"

definition items_map :: "(string \<times> u16) set \<Rightarrow> string \<rightharpoonup> Allocation list" where
  "items_map G ip =
     (if ip \<in> fst ` G
      then Some (map (\<lambda>ps. \<lparr>PortStart = ps, PortEnd = ps\<rparr>) (sorted_list_of_set {ps. (ip, ps) \<in> G}))
      else None)"

definition free_release :: "string go_order \<Rightarrow> (string \<times> u16) set \<Rightarrow> BlockAllocator \<Rightarrow> BlockAllocator"
where
  "free_release kord G a = snd (Free kord a (items_map G))"

lemma PortStart_inj:
  assumes "alloc_inv a" "i < totalBlocks a" "j < totalBlocks a"
    "PortStart (block_alloc a i) = PortStart (block_alloc a j)"
  shows "i = j"
  using assms blockIndexOf_block by (metis sum.inject(2))

lemma block_avail_shrink:
  assumes "alloc_inv a" "ips a ip = Some free" "set ch \<subseteq> free"
  shows "(\<lambda>i. PortStart (block_alloc a i)) ` (free - set ch) =
    (\<lambda>i. PortStart (block_alloc a i)) ` free - (\<lambda>i. PortStart (block_alloc a i)) ` set ch"
proof -
  have "inj_on (\<lambda>i. PortStart (block_alloc a i)) free"
    using alloc_invD(4) [OF assms(1,2)] PortStart_inj [OF assms(1)] by (intro inj_onI) blast
  then show ?thesis using assms(3) by (rule inj_on_image_set_diff [OF _ Diff_subset])
qed

lemma alloc_items_block_alloc:
  "{ps. (ip, ps) \<in> alloc_items R} =
     (case R ip of None \<Rightarrow> {} | Some als \<Rightarrow> PortStart ` set als)"
  by (auto simp: alloc_items_def split: option.splits)

lemma block_avail_fields [simp]:
  "block_avail (a\<lparr>exhaustedCalls := n\<rparr>) = block_avail a"
  "block_starts (a\<lparr>exhaustedCalls := n\<rparr>) = block_starts a"
  "block_starts (a\<lparr>ips := m\<rparr>) = block_starts a"
  by (simp_all add: block_avail_def block_starts_def fun_eq_iff)

lemma offered_block_avail:
  "offered (block_avail a) =
     {(ip, ps). \<exists>free i. ips a ip = Some free \<and> i \<in> free \<and> ps = PortStart (block_alloc a i)}"
  by (auto simp: offered_def block_avail_def)

lemma offered_block_starts: "alloc_inv a \<Longrightarrow> snd ` offered (block_avail a) \<subseteq> block_starts a"
  using alloc_invD(4) by (fastforce simp: offered_block_avail block_starts_def)

lemma AllocateForPod_items:
  assumes "alloc_inv a" "AllocateForPod ord a xs cnt exports = (Inr R, a')"
  shows "alloc_items R \<subseteq> offered (block_avail a)" "finite (alloc_items R)" "dom R = set xs"
    "block_avail a' = take_items (alloc_items R) (block_avail a)"
proof -
  note a' = AllocateForPod_Inr(4) [OF assms(2)] and frame = AllocateForPod_Inr(5) [OF assms(2)]
  obtain ch where ch: "pod_choice cnt xs (excludeSetFor a exports) a ch R a'"
    using AllocateForPod_Inr(1) [OF assms(2)] by blast
  have ba: "block_alloc a' = block_alloc a" by (subst a') simp
  have on: "\<exists>free. ips a ip = Some free \<and> set (ch ip) \<subseteq> free \<and>
      ips a' ip = Some (free - set (ch ip)) \<and> R ip = Some (map (block_alloc a) (ch ip))"
    if "ip \<in> set xs" for ip
    using ch [unfolded pod_choice_def, THEN conjunct1, rule_format, OF that] by auto
  show "dom R = set xs" using on frame by (fastforce simp: dom_def)
  show sub: "alloc_items R \<subseteq> offered (block_avail a)"
  proof (clarify)
    fix ip ps
    assume "(ip, ps) \<in> alloc_items R"
    then obtain als al where "R ip = Some als" "al \<in> set als" "ps = PortStart al"
      by (auto simp: alloc_items_def)
    moreover from this frame have "ip \<in> set xs" by fastforce
    ultimately show "(ip, ps) \<in> offered (block_avail a)"
      using on [of ip] by (auto simp: offered_block_avail) blast
  qed
  have "alloc_items R \<subseteq> set xs \<times> UNIV" using frame by (fastforce simp: alloc_items_def)
  then show "finite (alloc_items R)" by (rule finite_subset) simp
  have "block_avail a' ip = take_items (alloc_items R) (block_avail a) ip" for ip
  proof (cases "ip \<in> set xs")
    case True
    with on obtain free where f: "ips a ip = Some free" "set (ch ip) \<subseteq> free"
      "ips a' ip = Some (free - set (ch ip))" "R ip = Some (map (block_alloc a) (ch ip))" by blast
    show ?thesis
      by (simp add: block_avail_def take_items_def alloc_items_block_alloc f ba image_image
          block_avail_shrink [OF assms(1) f(1,2)])
  next
    case False
    with frame show ?thesis
      by (simp add: block_avail_def take_items_def alloc_items_block_alloc ba option.map_ident)
  qed
  then show "block_avail a' = take_items (alloc_items R) (block_avail a)" by blast
qed

lemma AllocateForIP_items:
  assumes "alloc_inv a" "cnt \<noteq> 0" "AllocateForIP ord a ip cnt starts exports = (Inr als, a')"
  shows "alloc_items [ip \<mapsto> als] \<subseteq> offered (block_avail a)" "finite (alloc_items [ip \<mapsto> als])"
    "block_avail a' = take_items (alloc_items [ip \<mapsto> als]) (block_avail a)"
proof -
  from assms(2,3) obtain free ex ch where f: "ips a ip = Some free" and sub: "set ch \<subseteq> free - ex"
    and als: "als = map (block_alloc a) ch" and a': "a' = a\<lparr>ips := (ips a)(ip \<mapsto> free - set ch)\<rparr>"
    by (rule AllocateForIP_Inr)
  from sub have sub': "set ch \<subseteq> free" by blast
  show "alloc_items [ip \<mapsto> als] \<subseteq> offered (block_avail a)"
    using f sub' by (auto simp: alloc_items_def offered_block_avail als split: if_splits) blast
  have "alloc_items [ip \<mapsto> als] \<subseteq> {ip} \<times> UNIV" by (auto simp: alloc_items_def split: if_splits)
  then show "finite (alloc_items [ip \<mapsto> als])" by (rule finite_subset) simp
  have "block_avail a' ip' = take_items (alloc_items [ip \<mapsto> als]) (block_avail a) ip'" for ip'
    by (cases "ip' = ip")
      (simp_all add: block_avail_def take_items_def alloc_items_block_alloc f a' als image_image
        block_avail_shrink [OF assms(1) f sub'] option.map_ident)
  then show "block_avail a' = take_items (alloc_items [ip \<mapsto> als]) (block_avail a)" by blast
qed

text \<open>\<open>Free\<close> of allocations that start at blocks of this allocator never fails and gives them back.\<close>

lemma freed_idx_PortStart:
  assumes "alloc_inv a" "snd ` alloc_items allocs \<subseteq> block_starts a"
  shows "(\<lambda>i. PortStart (block_alloc a i)) ` freed_idx a allocs ip = {ps. (ip, ps) \<in> alloc_items allocs}"
proof (intro subset_antisym subsetI)
  fix ps
  assume "ps \<in> (\<lambda>i. PortStart (block_alloc a i)) ` freed_idx a allocs ip"
  then show "ps \<in> {ps. (ip, ps) \<in> alloc_items allocs}"
    by (auto simp: freed_idx_def alloc_items_def blockIndexOf_iff [OF assms(1)]) metis
next
  fix ps
  assume ps: "ps \<in> {ps. (ip, ps) \<in> alloc_items allocs}"
  with assms(2) obtain i where i: "i < totalBlocks a" "ps = PortStart (block_alloc a i)"
    by (force simp: block_starts_def)
  with ps have "i \<in> freed_idx a allocs ip"
    by (auto simp: freed_idx_def alloc_items_def blockIndexOf_iff [OF assms(1)])
  with i(2) show "ps \<in> (\<lambda>i. PortStart (block_alloc a i)) ` freed_idx a allocs ip" by blast
qed

lemma Free_items:
  assumes "alloc_inv a" "finite (dom allocs)" "snd ` alloc_items allocs \<subseteq> block_starts a"
  obtains a' where "Free kord a allocs = (None, a')"
    "block_avail a' = give_items (alloc_items allocs) (block_avail a)" "a' = a\<lparr>ips := ips a'\<rparr>"
proof -
  have "\<exists>idx. blockIndexOf a (PortStart al) = Inr idx"
    if "allocs ip = Some als" "al \<in> set als" for ip als al
  proof -
    have "(ip, PortStart al) \<in> alloc_items allocs" using that by (auto simp: alloc_items_def)
    with assms(3) have "PortStart al \<in> block_starts a" by force
    then show ?thesis by (auto simp: block_starts_def blockIndexOf_iff [OF assms(1)])
  qed
  then obtain a' where F: "Free kord a allocs = (None, a')" using Free_total by metis
  note a' = Free_eq [OF assms(2) F]
  have "block_avail a' ip = give_items (alloc_items allocs) (block_avail a) ip" for ip
    using freed_idx_PortStart [OF assms(1,3), of ip]
    by (simp add: a' block_avail_def give_items_def option.map_comp comp_def image_Un)
  then have "block_avail a' = give_items (alloc_items allocs) (block_avail a)" by blast
  moreover have "a' = a\<lparr>ips := ips a'\<rparr>" by (simp add: a')
  ultimately show ?thesis using F that by blast
qed

lemma alloc_items_items_map: "finite G \<Longrightarrow> alloc_items (items_map G) = G"
  by (auto simp: alloc_items_def items_map_def image_iff split: if_splits) (force, metis fst_conv)

lemma finite_dom_items_map: "finite G \<Longrightarrow> finite (dom (items_map G))"
  by (rule finite_subset [of _ "fst ` G"]) (auto simp: items_map_def split: if_splits)

lemma free_release_pool:
  assumes "alloc_inv a" "finite G" "snd ` G \<subseteq> block_starts a"
  shows "alloc_inv (free_release kord G a)"
    "block_avail (free_release kord G a) = give_items G (block_avail a)"
proof -
  obtain a' where F: "Free kord a (items_map G) = (None, a')"
    and "block_avail a' = give_items G (block_avail a)"
    using Free_items [OF assms(1) finite_dom_items_map [OF assms(2)], of kord] assms(2,3)
    by (metis alloc_items_items_map)
  with Free_inv [OF assms(1) finite_dom_items_map [OF assms(2)] F] show
    "alloc_inv (free_release kord G a)"
    "block_avail (free_release kord G a) = give_items G (block_avail a)"
    by (simp_all add: free_release_def)
qed

lemma AllocateForPod_refuse:
  "AllocateForPod ord a xs cnt exports = (Inl e, a') \<Longrightarrow>
     block_avail a' = block_avail a \<and> block_starts a' = block_starts a"
  using AllocateForPod_Inl by fastforce

lemma AllocateForPod_block_starts:
  "AllocateForPod ord a xs cnt exports = (r, a') \<Longrightarrow> block_starts a' = block_starts a"
  by (cases r) (use AllocateForPod_refuse AllocateForPod_Inr(4) block_avail_fields(3) in metis)+

lemma AllocateForIP_refuse:
  "AllocateForIP ord a ip cnt starts exports = (Inl e, a') \<Longrightarrow>
     block_avail a' = block_avail a \<and> block_starts a' = block_starts a"
  using AllocateForIP_Inl by fastforce

lemma AllocateForIP_block_starts:
  assumes "AllocateForIP ord a ip cnt starts exports = (r, a')"
  shows "block_starts a' = block_starts a"
  using assms by (auto simp: AllocateForIP_def notify_exhausted_def
      split: option.splits sum.splits if_splits)

lemma pod_grant_SomeD:
  "pod_grant ord r a = (Some G, a') \<Longrightarrow>
     \<exists>xs cnt ex R. AllocateForPod ord a xs cnt ex = (Inr R, a') \<and> G = alloc_items R"
  by (auto simp: pod_grant_def split: prod.splits sum.splits)

lemma ip_grant_SomeD:
  "ip_grant ord r a = (Some G, a') \<Longrightarrow>
     \<exists>ip cnt st ex als. cnt \<noteq> 0 \<and> AllocateForIP ord a ip cnt st ex = (Inr als, a') \<and>
       G = alloc_items [ip \<mapsto> als]"
  by (auto simp: ip_grant_def split: prod.splits sum.splits if_splits) blast

interpretation pod_pool: port_pool alloc_inv block_avail block_starts "pod_grant ord" "free_release kord"
  for ord :: "string \<Rightarrow> u16 go_order" and kord :: "string go_order"
proof unfold_locales
  show "alloc_inv a'" if "alloc_inv a" "pod_grant ord r a = (res, a')" for a r res a'
    using that by (auto simp: pod_grant_def split: prod.splits sum.splits intro: AllocateForPod_inv)
  show "block_starts a' = block_starts a" if "alloc_inv a" "pod_grant ord r a = (res, a')" for a r res a'
    using that by (auto simp: pod_grant_def split: prod.splits sum.splits dest: AllocateForPod_block_starts)
  show "G \<subseteq> offered (block_avail a)" "finite G" "block_avail a' = take_items G (block_avail a)"
    if "alloc_inv a" "pod_grant ord r a = (Some G, a')" for a r G a'
    using that(1) pod_grant_SomeD [OF that(2)] AllocateForPod_items(1,2,4) by metis+
  show "block_avail a' = block_avail a" if "alloc_inv a" "pod_grant ord r a = (None, a')" for a r a'
    using that by (auto simp: pod_grant_def split: prod.splits sum.splits dest: AllocateForPod_refuse)
qed (use offered_block_starts free_release_pool in auto)

interpretation ip_pool: port_pool alloc_inv block_avail block_starts "ip_grant ord" "free_release kord"
  for ord :: "u16 go_order" and kord :: "string go_order"
proof unfold_locales
  show "alloc_inv a'" if "alloc_inv a" "ip_grant ord r a = (res, a')" for a r res a'
    using that by (auto simp: ip_grant_def split: prod.splits sum.splits if_splits intro: AllocateForIP_inv)
  show "block_starts a' = block_starts a" if "alloc_inv a" "ip_grant ord r a = (res, a')" for a r res a'
    using that by (auto simp: ip_grant_def split: prod.splits sum.splits if_splits
        dest: AllocateForIP_block_starts)
  show "G \<subseteq> offered (block_avail a)" "finite G" "block_avail a' = take_items G (block_avail a)"
    if "alloc_inv a" "ip_grant ord r a = (Some G, a')" for a r G a'
    using that(1) ip_grant_SomeD [OF that(2)] AllocateForIP_items by metis+
  show "block_avail a' = block_avail a" if "alloc_inv a" "ip_grant ord r a = (None, a')" for a r a'
    using that by (auto simp: ip_grant_def split: prod.splits sum.splits if_splits
        dest: AllocateForIP_refuse)
qed (use offered_block_starts free_release_pool in auto)

end
