(* ===== verification/Allocator_Props.thy ===== *)
theory Allocator_Props
  imports Allocator
begin

text \<open>
  The properties of the block allocator, stated over the definitions of \<open>Allocator\<close>, and the concrete
  allocator on which their witnesses evaluate: four blocks of 4096 ports from port 49152, so that the
  last block ends at port 65535, on two external IPs.
\<close>

definition ex_alloc :: BlockAllocator where
  "ex_alloc =
     \<lparr>blockSize = 4096, minPort = 49152, totalBlocks = 4, natConfigName = ''prod'',
      onExhausted = True, exhaustedCalls = 0,
      ips = [''10.0.0.1'' \<mapsto> {0, 1, 2, 3}, ''10.0.0.2'' \<mapsto> {0, 1, 2, 3}], reserved = {}\<rparr>"

definition ranges_disjoint :: "(string \<rightharpoonup> Allocation list) \<Rightarrow> bool" where
  "ranges_disjoint R \<longleftrightarrow>
     (\<forall>ip als ip' als' i j. R ip = Some als \<longrightarrow> R ip' = Some als' \<longrightarrow>
        i < length als \<longrightarrow> j < length als' \<longrightarrow> (ip, i) \<noteq> (ip', j) \<longrightarrow>
        alloc_ports (als ! i) \<inter> alloc_ports (als' ! j) = {})"

lemma ex_alloc_inv: "alloc_inv ex_alloc"
  by (auto simp: ex_alloc_def alloc_inv_def split: if_splits)

lemma ex_alloc_simps:
  "blockSize ex_alloc = 4096" "minPort ex_alloc = 49152" "totalBlocks ex_alloc = 4"
  "ips ex_alloc = [''10.0.0.1'' \<mapsto> {0, 1, 2, 3}, ''10.0.0.2'' \<mapsto> {0, 1, 2, 3}]"
  "reserved ex_alloc = {}" "natConfigName ex_alloc = ''prod''"
  by (simp_all add: ex_alloc_def)

lemmas alloc_eval =
  ex_alloc_simps AllocateForPod_def excludeSetFor_def blockIndexContaining_def pickFromSet_def
  sorted_order.rep_eq block_alloc_def

lemma ex_run:
  "AllocateForPod (\<lambda>_. sorted_order) ex_alloc [''10.0.0.1'', ''10.0.0.2''] 1 [49200] =
     (Inr [''10.0.0.1'' \<mapsto> [\<lparr>PortStart = 53248, PortEnd = 57343\<rparr>],
           ''10.0.0.2'' \<mapsto> [\<lparr>PortStart = 57344, PortEnd = 61439\<rparr>]],
      ex_alloc\<lparr>ips := [''10.0.0.1'' \<mapsto> {0, 2, 3}, ''10.0.0.2'' \<mapsto> {0, 1, 3}]\<rparr>)"
  by (simp add: alloc_eval insert_Diff_if) 

section \<open>Allocating for a pod\<close>

lemma excluded_ports_avoided:
  assumes "alloc_inv a" "idx < totalBlocks a" "idx \<notin> excludeSetFor a excl"
  shows "alloc_ports (block_alloc a idx) \<inter> set excl = {}"
    "i \<in> reserved a \<Longrightarrow> alloc_ports (block_alloc a idx) \<inter> alloc_ports (block_alloc a i) = {}"
proof -
  show "alloc_ports (block_alloc a idx) \<inter> set excl = {}"
    using assms blockIndexContaining_iff [OF assms(1), of _ idx] by (auto simp: excludeSetFor_iff)
  show "alloc_ports (block_alloc a idx) \<inter> alloc_ports (block_alloc a i) = {}" if "i \<in> reserved a"
  proof (rule block_ports_disjoint [OF assms(1,2)])
    show "i < totalBlocks a" using that alloc_invD(6) [OF assms(1)] by blast
    show "idx \<noteq> i" using that assms(3) by (auto simp: excludeSetFor_iff)
  qed
qed

lemma pod_choice_disjoint:
  assumes "alloc_inv a" "pod_choice cnt xs ex a ch R a'" "dom R = set xs"
  shows "ranges_disjoint R"
  unfolding ranges_disjoint_def
proof (intro allI impI)
  fix ip als ip' als' i j
  assume R: "R ip = Some als" "R ip' = Some als'" and l: "i < length als" "j < length als'"
    and ne: "(ip, i) \<noteq> (ip', j)"
  from R assms(3) have xs: "ip \<in> set xs" "ip' \<in> set xs" by auto
  note at = assms(2) [unfolded pod_choice_def, THEN conjunct1, rule_format]
  have als: "als = map (block_alloc a) (ch ip)" "als' = map (block_alloc a) (ch ip')"
    and dist: "distinct (ch ip)" using at [OF xs(1)] at [OF xs(2)] R by auto
  have chosen: "k < totalBlocks a" if "x \<in> set xs" "k \<in> set (ch x)" for x k
    using at [OF that(1)] that(2) alloc_invD(4) [OF assms(1), of x] by blast
  have lt: "ch ip ! i < totalBlocks a" "ch ip' ! j < totalBlocks a"
    using l als by (auto intro: chosen [OF xs(1)] chosen [OF xs(2)])
  have "ch ip ! i \<noteq> ch ip' ! j"
  proof (cases "ip = ip'")
    case True
    with ne l als dist show ?thesis by (simp add: nth_eq_iff_index_eq)
  next
    case False
    with assms(2) xs have "set (ch ip) \<inter> set (ch ip') = {}" by (simp add: pod_choice_def)
    with l als show ?thesis by (metis disjoint_iff length_map nth_mem)
  qed
  with lt show "alloc_ports (als ! i) \<inter> alloc_ports (als' ! j) = {}"
    using l als by (simp add: block_ports_disjoint [OF assms(1)])
qed

text \<open>
  C10: A successful \<open>AllocateForPod\<close> returns exactly the requested external IPs, exactly
  \<open>portRangeCount\<close> ranges on each of them, and no two of the pod's ranges share a port, be they on the
  same IP or on different ones; no range contains an excluded port or meets a reserved block; and every
  range is a block that was free on its IP before the call and is not free after it.
\<close>

theorem AllocateForPod_correct:
  assumes "alloc_inv a" and "AllocateForPod ord a extIPs cnt excl = (Inr R, a')"
  shows "dom R = set extIPs \<and>
    (\<forall>ip als. R ip = Some als \<longrightarrow> length als = unat cnt) \<and>
    ranges_disjoint R \<and>
    (\<forall>ip als al. R ip = Some als \<longrightarrow> al \<in> set als \<longrightarrow>
       alloc_ports al \<inter> set excl = {} \<and>
       (\<forall>i \<in> reserved a. alloc_ports al \<inter> alloc_ports (block_alloc a i) = {}) \<and>
       (\<exists>idx free free'. al = block_alloc a idx \<and> ips a ip = Some free \<and> idx \<in> free \<and>
          ips a' ip = Some free' \<and> idx \<notin> free'))"
proof -
  obtain ch where ch: "pod_choice cnt extIPs (excludeSetFor a excl) a ch R a'"
    using AllocateForPod_Inr(1) [OF assms(2)] by blast
  note dom = AllocateForPod_items(3) [OF assms]
  note at = ch [unfolded pod_choice_def, THEN conjunct1, rule_format]
  have len: "length als = unat cnt" if "R ip = Some als" for ip als
  proof -
    from that dom have "ip \<in> set extIPs" by blast
    from at [OF this] that show ?thesis by auto
  qed
  have "alloc_ports al \<inter> set excl = {} \<and>
      (\<forall>i \<in> reserved a. alloc_ports al \<inter> alloc_ports (block_alloc a i) = {}) \<and>
      (\<exists>idx free free'. al = block_alloc a idx \<and> ips a ip = Some free \<and> idx \<in> free \<and>
          ips a' ip = Some free' \<and> idx \<notin> free')"
    if R: "R ip = Some als" and al: "al \<in> set als" for ip als al
  proof -
    from R dom have "ip \<in> set extIPs" by auto
    from at [OF this] R obtain free where f: "ips a ip = Some free" "als = map (block_alloc a) (ch ip)"
      "set (ch ip) \<subseteq> free - excludeSetFor a excl" "ips a' ip = Some (free - set (ch ip))" by auto
    from f(2) al obtain idx where idx: "idx \<in> set (ch ip)" "al = block_alloc a idx" by auto
    with f(3) have in_free: "idx \<in> free" "idx \<notin> excludeSetFor a excl" by auto
    then have "idx < totalBlocks a" using alloc_invD(4) [OF assms(1) f(1)] by blast
    with f(1,4) idx in_free excluded_ports_avoided [OF assms(1)] show ?thesis by blast
  qed
  with len dom pod_choice_disjoint [OF assms(1) ch dom] show ?thesis by blast
qed

theorem AllocateForPod_correct_witness:
  "alloc_inv ex_alloc \<and>
   (\<exists>R a'. AllocateForPod (\<lambda>_. sorted_order) ex_alloc [''10.0.0.1'', ''10.0.0.2''] 1 [49200] = (Inr R, a') \<and>
     ranges_disjoint R \<and> R ''10.0.0.1'' = Some [\<lparr>PortStart = 53248, PortEnd = 57343\<rparr>])"
  using AllocateForPod_correct [OF ex_alloc_inv ex_run] ex_alloc_inv ex_run by simp

text \<open>
  C11: A failing \<open>AllocateForPod\<close> changes no free set, whichever IP it fails on and however many IPs it
  had already served: the allocation is rolled back completely. At most the exhaustion callback's
  counter differs.
\<close>

theorem AllocateForPod_atomic:
  assumes "AllocateForPod ord a extIPs cnt excl = (Inl e, a')"
  shows "ips a' = ips a \<and> a' = a\<lparr>exhaustedCalls := exhaustedCalls a'\<rparr>"
  using AllocateForPod_Inl [OF assms] by auto

lemma ex_exhausted:
  "AllocateForPod (\<lambda>_. sorted_order) ex_alloc [''10.0.0.1'', ''10.0.0.2''] 3 [] =
     (Inl (AtNATConfigIP ''prod'' ''10.0.0.2'' (NotEnoughFreeBlocks 3 1 3)),
      ex_alloc\<lparr>exhaustedCalls := 1\<rparr>)"
  by (simp add: alloc_eval insert_Diff_if notify_exhausted_def rollback_def)
    (auto simp: ex_alloc_def fun_eq_iff)

theorem AllocateForPod_atomic_witness:
  "\<exists>e a'. AllocateForPod (\<lambda>_. sorted_order) ex_alloc [''10.0.0.1'', ''10.0.0.2''] 3 [] = (Inl e, a') \<and>
     ips a' = ips ex_alloc \<and> exhaustedCalls a' = 1"
  using AllocateForPod_atomic [OF ex_exhausted] ex_exhausted by simp

text \<open>
  C12: \<open>AllocateForPod\<close> does not fail while there is room: with a positive count, distinct registered
  IPs, and on each of them at least \<open>length extIPs * portRangeCount\<close> free blocks that are neither
  reserved nor excluded, it succeeds whatever order Go visits the free sets in.
\<close>

theorem AllocateForPod_enough_room:
  assumes "cnt \<noteq> 0" "distinct extIPs"
    and "\<And>ip. ip \<in> set extIPs \<Longrightarrow>
      \<exists>free. ips a ip = Some free \<and> length extIPs * unat cnt \<le> card (free - excludeSetFor a excl)"
  shows "\<exists>R a'. AllocateForPod ord a extIPs cnt excl = (Inr R, a')"
proof -
  have "first_duplicate extIPs {} = None" using assms(2) by (simp add: first_duplicate_None)
  then show ?thesis
    using alloc_pod_loop_total [OF assms(1,2), of a "excludeSetFor a excl" ord Map.empty Map.empty] assms(1,3)
    by (simp add: AllocateForPod_def)
qed

theorem AllocateForPod_enough_room_witness:
  "\<exists>R a'. AllocateForPod (\<lambda>_. sorted_order) ex_alloc [''10.0.0.1'', ''10.0.0.2''] 2 [] = (Inr R, a')"
  by (rule AllocateForPod_enough_room)
    (auto simp: ex_alloc_simps excludeSetFor_def)

section \<open>Freeing\<close>

text \<open>
  C13: \<open>Free\<close> undoes \<open>AllocateForPod\<close>: freeing what a successful call returned cannot fail and restores
  the allocator exactly, for every order in which \<open>Free\<close> ranges over the IPs.
\<close>

theorem Free_undoes_AllocateForPod:
  assumes "alloc_inv a" and "AllocateForPod ord a extIPs cnt excl = (Inr R, a')"
  shows "Free kord a' R = (None, a)"
proof -
  note a' = AllocateForPod_Inr(4) [OF assms(2)] and frame = AllocateForPod_Inr(5) [OF assms(2)]
  obtain ch where ch: "pod_choice cnt extIPs (excludeSetFor a excl) a ch R a'"
    using AllocateForPod_Inr(1) [OF assms(2)] by blast
  note at = ch [unfolded pod_choice_def, THEN conjunct1, rule_format]
  have inv': "alloc_inv a'" by (rule AllocateForPod_inv [OF assms])
  have geo: "blockIndexOf a' = blockIndexOf a" by (subst a') simp
  have items: "snd ` alloc_items R \<subseteq> block_starts a'"
    unfolding AllocateForPod_block_starts [OF assms(2)]
    using image_mono [OF AllocateForPod_items(1) [OF assms], of snd] offered_block_starts [OF assms(1)]
    by (rule subset_trans)
  have fin: "finite (dom R)" using AllocateForPod_items(3) [OF assms] by simp
  from Free_items [OF inv' fin items] obtain a'' where F: "Free kord a' R = (None, a'')" by blast
  have "map_option (\<lambda>free. free \<union> freed_idx a' R ip) (ips a' ip) = ips a ip" for ip
  proof (cases "ip \<in> set extIPs")
    case True
    from at [OF True] obtain free where f: "ips a ip = Some free" "set (ch ip) \<subseteq> free"
      "ips a' ip = Some (free - set (ch ip))" "R ip = Some (map (block_alloc a) (ch ip))" by auto
    have lt: "i < totalBlocks a" if "i \<in> set (ch ip)" for i
      using that f(2) alloc_invD(4) [OF assms(1) f(1)] by blast
    then have "freed_idx a' R ip = set (ch ip)"
      using PortStart_inj [OF assms(1)] by (auto simp: freed_idx_def geo f(4) blockIndexOf_iff [OF assms(1)])
    with f show ?thesis by auto
  next
    case False
    with frame [OF False] show ?thesis by (simp add: freed_idx_def option.map_ident)
  qed
  then have "a'' = a'\<lparr>ips := ips a\<rparr>" using Free_eq [OF fin F] by simp
  also have "\<dots> = a" by (subst a') simp
  finally show ?thesis using F by simp
qed

theorem Free_undoes_AllocateForPod_witness:
  "Free sorted_order (ex_alloc\<lparr>ips := [''10.0.0.1'' \<mapsto> {0, 2, 3}, ''10.0.0.2'' \<mapsto> {0, 1, 3}]\<rparr>)
     [''10.0.0.1'' \<mapsto> [\<lparr>PortStart = 53248, PortEnd = 57343\<rparr>],
      ''10.0.0.2'' \<mapsto> [\<lparr>PortStart = 57344, PortEnd = 61439\<rparr>]] = (None, ex_alloc)"
  by (rule Free_undoes_AllocateForPod [OF ex_alloc_inv ex_run])

lemma pending_of_valid:
  "pending_of a ip als = Inr p \<Longrightarrow> al \<in> set als \<Longrightarrow> \<exists>idx. blockIndexOf a (PortStart al) = Inr idx"
  by (induction als arbitrary: p) (auto split: sum.splits)

lemma free_pending_valid:
  "free_pending a allocs ks = Inr p \<Longrightarrow> ip \<in> set ks \<Longrightarrow> ips a ip \<noteq> None \<Longrightarrow> allocs ip = Some als \<Longrightarrow>
     al \<in> set als \<Longrightarrow> \<exists>idx. blockIndexOf a (PortStart al) = Inr idx"
proof (induction ks arbitrary: p)
  case (Cons k ks)
  then show ?case
    by (cases "k = ip") (auto split: if_splits sum.splits dest: pending_of_valid)
qed simp

text \<open>
  \<open>Free\<close> is all or nothing and idempotent. It succeeds exactly when every range on a registered IP
  starts at a block boundary of the port space; if it fails, the allocator is unchanged; if it succeeds,
  each registered IP's free set gains exactly the freed blocks, unregistered IPs are ignored, and
  freeing the same ranges again changes nothing.
\<close>

theorem Free_all_or_nothing:
  assumes "finite (dom allocs)" and "Free kord a allocs = (r, a')"
  shows "(r = None \<longleftrightarrow>
      (\<forall>ip als al. ips a ip \<noteq> None \<longrightarrow> allocs ip = Some als \<longrightarrow> al \<in> set als \<longrightarrow>
         (\<exists>idx. blockIndexOf a (PortStart al) = Inr idx))) \<and>
    (r \<noteq> None \<longrightarrow> a' = a) \<and>
    (r = None \<longrightarrow>
       ips a' = (\<lambda>ip. map_option (\<lambda>free. free \<union> freed_idx a allocs ip) (ips a ip)) \<and>
       Free kord a' allocs = (None, a'))"
proof (cases r)
  case None
  with assms(2) have F: "Free kord a allocs = (None, a')" by simp
  note a' = Free_eq [OF assms(1) F]
  have valid: "\<exists>idx. blockIndexOf a (PortStart al) = Inr idx"
    if "ips a ip \<noteq> None" "allocs ip = Some als" "al \<in> set als" for ip als al
  proof -
    from F obtain p where "free_pending a allocs (visit kord (dom allocs)) = Inr p"
      by (auto simp: Free_def split: sum.splits)
    then show ?thesis
      using that assms(1) by (intro free_pending_valid [of a allocs _ p ip als al]) auto
  qed
  have "\<exists>a2. Free kord a' allocs = (None, a2)"
    using valid by (intro Free_total) (auto simp: a')
  then obtain a2 where F2: "Free kord a' allocs = (None, a2)" by blast
  have "a2 = a'"
    by (subst Free_eq [OF assms(1) F2]) (simp add: a' freed_idx_def option.map_comp comp_def Un_assoc)
  with None F2 valid show ?thesis by (simp add: a')
next
  case (Some e)
  with assms(2) have F: "Free kord a allocs = (Some e, a')" by simp
  then have "a' = a" by (rule Free_error_unchanged)
  moreover have "\<not> (\<forall>ip als al. ips a ip \<noteq> None \<longrightarrow> allocs ip = Some als \<longrightarrow> al \<in> set als \<longrightarrow>
         (\<exists>idx. blockIndexOf a (PortStart al) = Inr idx))"
    using Free_total [of a allocs kord] F by (metis option.distinct(1) prod.inject)
  ultimately show ?thesis using Some by simp
qed

theorem Free_all_or_nothing_witness:
  "Free sorted_order ex_alloc [''10.0.0.1'' \<mapsto> [\<lparr>PortStart = 53248, PortEnd = 57343\<rparr>, \<lparr>PortStart = 49153, PortEnd = 0\<rparr>]] =
     (Some (AtIP ''10.0.0.1'' (PortStartNotAligned 49153 4096 49152)), ex_alloc)"
proof -
  let ?m = "[''10.0.0.1'' \<mapsto> [\<lparr>PortStart = 53248, PortEnd = 57343\<rparr>, \<lparr>PortStart = 49153, PortEnd = 0\<rparr>]]"
  have run: "Free sorted_order ex_alloc ?m =
      (Some (AtIP ''10.0.0.1'' (PortStartNotAligned 49153 4096 49152)), snd (Free sorted_order ex_alloc ?m))"
    by (simp add: Free_def alloc_eval blockIndexOf_def word_le_nat_alt)
  from Free_all_or_nothing [OF _ run] have "snd (Free sorted_order ex_alloc ?m) = ex_alloc" by simp
  with run show ?thesis by simp
qed

section \<open>Allocating on one IP\<close>

text \<open>The blocks \<open>AllocateForIP\<close> leaves out.\<close>

abbreviation exclude_of :: "BlockAllocator \<Rightarrow> u16 list \<Rightarrow> u16 list \<Rightarrow> u16 set" where
  "exclude_of a existing excl \<equiv> excludeSetFor a excl \<union> {idx. \<exists>ps \<in> set existing. blockIndexOf a ps = Inr idx}"

lemma AllocateForIP_granted:
  assumes inv: "alloc_inv a" and cnt: "cnt \<noteq> 0" and run: "AllocateForIP ord a extIP cnt existing excl = (Inr als, a')"
  shows "length als = unat cnt \<and> ranges_disjoint [extIP \<mapsto> als] \<and>
     (\<forall>al \<in> set als. alloc_ports al \<inter> set excl = {} \<and> PortStart al \<notin> set existing) \<and>
     block_avail a' = take_items (alloc_items [extIP \<mapsto> als]) (block_avail a)"
proof -
  from cnt run obtain free ex ch where f: "ips a extIP = Some free" and ex: "ex = exclude_of a existing excl"
    and "\<forall>ps \<in> set existing. \<exists>idx. blockIndexOf a ps = Inr idx"
    and ch: "distinct ch" "length ch = unat cnt" "set ch \<subseteq> free - ex"
    and als: "als = map (block_alloc a) ch" and "a' = a\<lparr>ips := (ips a)(extIP \<mapsto> free - set ch)\<rparr>"
    by (rule AllocateForIP_Inr)
  have lt: "i < totalBlocks a" if "i \<in> set ch" for i
    using that ch(3) alloc_invD(4) [OF inv f] by blast
  have "alloc_ports (als ! i) \<inter> alloc_ports (als ! j) = {}"
    if "i < length als" "j < length als" "i \<noteq> j" for i j
    using that lt ch(1) block_ports_disjoint [OF inv, of "ch ! i" "ch ! j"]
    by (simp add: als nth_eq_iff_index_eq)
  then have "ranges_disjoint [extIP \<mapsto> als]"
    unfolding ranges_disjoint_def by (simp split: if_splits)
  moreover have "alloc_ports al \<inter> set excl = {} \<and> PortStart al \<notin> set existing" if "al \<in> set als" for al
  proof -
    from that als obtain i where i: "i \<in> set ch" "al = block_alloc a i" by auto
    with ch(3) ex have "i \<notin> excludeSetFor a excl" "i \<notin> {idx. \<exists>ps \<in> set existing. blockIndexOf a ps = Inr idx}"
      by auto
    with i lt show ?thesis
      using excluded_ports_avoided(1) [OF inv] blockIndexOf_block [OF inv] by blast
  qed
  ultimately show ?thesis using ch als AllocateForIP_items(3) [OF inv cnt run] by simp
qed

lemma AllocateForIP_granted_iff:
  assumes cnt: "cnt \<noteq> 0" and run: "AllocateForIP ord a extIP cnt existing excl = (r, a')"
  shows "(\<exists>als. r = Inr als) \<longleftrightarrow> (\<exists>free. ips a extIP = Some free \<and>
      (\<forall>ps \<in> set existing. \<exists>idx. blockIndexOf a ps = Inr idx) \<and> unat cnt \<le> card (free - exclude_of a existing excl))"
proof
  assume "\<exists>als. r = Inr als"
  then obtain als where "AllocateForIP ord a extIP cnt existing excl = (Inr als, a')"
    using run by auto
  with cnt obtain free ex ch where f: "ips a extIP = Some free" "ex = exclude_of a existing excl"
    "\<forall>ps \<in> set existing. \<exists>idx. blockIndexOf a ps = Inr idx"
    "distinct ch" "length ch = unat cnt" "set ch \<subseteq> free - ex"
    by (rule AllocateForIP_Inr)
  from f(4,5) have "unat cnt = card (set ch)" by (simp add: distinct_card)
  also have "\<dots> \<le> card (free - exclude_of a existing excl)" using f(2,6) by (intro card_mono) auto
  finally show "\<exists>free. ips a extIP = Some free \<and>
      (\<forall>ps \<in> set existing. \<exists>idx. blockIndexOf a ps = Inr idx) \<and> unat cnt \<le> card (free - exclude_of a existing excl)"
    using f(1,3) by blast
next
  assume "\<exists>free. ips a extIP = Some free \<and>
      (\<forall>ps \<in> set existing. \<exists>idx. blockIndexOf a ps = Inr idx) \<and> unat cnt \<le> card (free - exclude_of a existing excl)"
  then obtain free where f: "ips a extIP = Some free"
    "\<And>ps. ps \<in> set existing \<Longrightarrow> \<exists>idx. blockIndexOf a ps = Inr idx" "unat cnt \<le> card (free - exclude_of a existing excl)" by blast
  from exclude_starts_Inr [OF f(2)] obtain ex where
    ex: "exclude_starts a existing (excludeSetFor a excl) = Inr ex" by blast
  with f(3) exclude_starts_InrD [OF ex] pickFromSet_eq [OF cnt, of ord free ex]
  obtain ch where "pickFromSet ord free cnt ex = Inr ch" by auto
  with run f(1) ex show "\<exists>als. r = Inr als" by (auto simp: AllocateForIP_def)
qed


lemma ex_ip_run:
  "AllocateForIP sorted_order ex_alloc ''10.0.0.2'' 1 [49152] [53248] =
     (Inr [\<lparr>PortStart = 57344, PortEnd = 61439\<rparr>],
      ex_alloc\<lparr>ips := [''10.0.0.1'' \<mapsto> {0, 1, 2, 3}, ''10.0.0.2'' \<mapsto> {0, 1, 3}]\<rparr>)"
  by (simp add: AllocateForIP_def alloc_eval blockIndexOf_def insert_Diff_if word_le_nat_alt)


lemma pick_loop_zero:
  "length chosen + length xs < 65536 \<Longrightarrow> pick_loop xs 0 ex chosen = chosen @ filter (\<lambda>i. i \<notin> ex) xs"
proof (induction xs arbitrary: chosen)
  case (Cons x xs)
  have "(word_of_nat (length (chosen @ [x])) :: u16) \<noteq> 0"
    using Cons.prems unat_u16_of_nat [of "length (chosen @ [x])"] by (auto simp del: of_nat_Suc)
  with Cons show ?case by (simp add: Let_def del: of_nat_Suc)
qed simp

text \<open>
  A count of zero is not refused by \<open>AllocateForIP\<close>: unlike \<open>AllocateForPod\<close>, which rejects it, the
  pick loop never reaches the count and the call takes every allocatable block of the IP.
\<close>

theorem AllocateForIP_zero_takes_all:
  assumes "alloc_inv a" and "ips a extIP = Some free"
  shows "\<exists>als a'. AllocateForIP ord a extIP 0 [] excl = (Inr als, a') \<and>
    PortStart ` set als = (\<lambda>i. PortStart (block_alloc a i)) ` (free - excludeSetFor a excl) \<and>
    ips a' extIP = Some (free \<inter> excludeSetFor a excl)"
proof -
  let ?ex = "excludeSetFor a excl" and ?ch = "filter (\<lambda>i. i \<notin> excludeSetFor a excl) (visit ord free)"
  have fin: "finite free" by simp
  have "card free \<le> card {idx. idx < totalBlocks a}"
    by (rule card_mono) (use alloc_invD(4) [OF assms] in auto)
  also have "\<dots> < 65536"
  proof -
    have "{idx. idx < totalBlocks a} \<subset> (UNIV :: u16 set)" by auto
    from psubset_card_mono [OF _ this] show ?thesis by (simp add: card_word)
  qed
  finally have "pick_loop (visit ord free) 0 ?ex [] = ?ch" by (simp add: pick_loop_zero fin)
  then have pick: "pickFromSet ord free 0 ?ex = Inr ?ch" by (simp add: pickFromSet_def)
  have "set ?ch = free - ?ex" using fin by auto
  moreover have "free - (free - ?ex) = free \<inter> ?ex" by blast
  ultimately show ?thesis
    using assms(2) pick by (simp add: AllocateForIP_def image_image)
qed

theorem AllocateForIP_zero_takes_all_witness:
  "\<exists>als a'. AllocateForIP sorted_order ex_alloc ''10.0.0.1'' 0 [] [] = (Inr als, a') \<and>
    ips a' ''10.0.0.1'' = Some {}"
proof -
  have "ips ex_alloc ''10.0.0.1'' = Some {0, 1, 2, 3}" by (simp add: ex_alloc_simps)
  from AllocateForIP_zero_takes_all [OF ex_alloc_inv this, of sorted_order "[]"]
  show ?thesis by (auto simp: excludeSetFor_def ex_alloc_simps)
qed

section \<open>Port space\<close>

text \<open>
  \<open>New\<close> succeeds exactly for a positive block size, \<open>minPort < maxPort\<close> and a port count (computed
  in 16 bits, so that 65536 ports count as none) that holds at least one block; the allocator it builds
  is well-formed, has \<open>floor(ports / blockSize)\<close> blocks and no external IP.
\<close>

theorem New_spec:
  "(\<exists>a. New bs mn mx name cb = Inr a \<and> alloc_inv a \<and> ips a = Map.empty \<and>
      unat (totalBlocks a) = (unat mx - unat mn + 1) div unat bs) \<longleftrightarrow>
   bs \<noteq> 0 \<and> mn < mx \<and> unat bs \<le> (unat mx - unat mn + 1) mod 65536"
proof -
  have u: "unat (mx - mn + 1) = (unat mx - unat mn + 1) mod 65536" if "mn < mx"
    using that by (simp add: unat_word_ariths unat_sub order_less_imp_le)
  have z: "(mx - mn + 1) div bs \<noteq> 0 \<longleftrightarrow> unat bs \<le> (unat mx - unat mn + 1) mod 65536"
    if "mn < mx" "bs \<noteq> 0"
  proof -
    have "0 < unat bs" using that(2) unat_gt_0 by blast
    moreover have "(mx - mn + 1) div bs \<noteq> 0 \<longleftrightarrow> unat ((mx - mn + 1) div bs) \<noteq> 0" by (simp add: unat_eq_zero)
    moreover have "unat ((mx - mn + 1) div bs) = (unat mx - unat mn + 1) mod 65536 div unat bs"
      unfolding unat_div u [OF that(1)] ..
    ultimately show ?thesis by (simp add: div_eq_0_iff not_less)
  qed
  show ?thesis
  proof
    assume "\<exists>a. New bs mn mx name cb = Inr a \<and> alloc_inv a \<and> ips a = Map.empty \<and>
      unat (totalBlocks a) = (unat mx - unat mn + 1) div unat bs"
    then obtain a where "New bs mn mx name cb = Inr a" by blast
    then have "bs \<noteq> 0" "mn < mx" "(mx - mn + 1) div bs \<noteq> 0"
      by (auto simp: New_def Let_def split: if_splits)
    with z show "bs \<noteq> 0 \<and> mn < mx \<and> unat bs \<le> (unat mx - unat mn + 1) mod 65536" by simp
  next
    assume r: "bs \<noteq> 0 \<and> mn < mx \<and> unat bs \<le> (unat mx - unat mn + 1) mod 65536"
    with z have "(mx - mn + 1) div bs \<noteq> 0" by blast
    with r have "\<exists>a. New bs mn mx name cb = Inr a"
      by (simp add: New_def Let_def not_le [symmetric] del: not_le)
    then obtain a where a: "New bs mn mx name cb = Inr a" by blast
    have "0 < unat bs" using r unat_gt_0 by blast
    then have "(unat mx - unat mn + 1) mod 65536 = unat mx - unat mn + 1"
      using r unat_u16_less [of mx] by (cases "unat mx - unat mn + 1 = 65536") auto
    with a u r New_alloc_inv [OF a] show "\<exists>a. New bs mn mx name cb = Inr a \<and> alloc_inv a \<and>
      ips a = Map.empty \<and> unat (totalBlocks a) = (unat mx - unat mn + 1) div unat bs"
      by (auto simp: unat_div)
  qed
qed

text \<open>
  C15: The blocks partition the port space without wrap-around, even when the last block ends at port
  65535: a port lies in exactly one block if it is in \<open>[minPort, minPort + totalBlocks * blockSize)\<close> and
  in none otherwise, and every block has exactly \<open>blockSize\<close> ports.
\<close>

theorem blocks_partition_ports:
  assumes "alloc_inv a"
  shows "((\<exists>!idx. idx < totalBlocks a \<and> p \<in> alloc_ports (block_alloc a idx)) \<longleftrightarrow>
      unat (minPort a) \<le> unat p \<and>
      unat p < unat (minPort a) + unat (totalBlocks a) * unat (blockSize a)) \<and>
    (\<forall>idx < totalBlocks a. card (alloc_ports (block_alloc a idx)) = unat (blockSize a))"
proof -
  let ?m = "unat (minPort a)" and ?b = "unat (blockSize a)" and ?t = "unat (totalBlocks a)"
  have b: "0 < ?b" by (rule unat_blockSize_pos [OF assms])
  have bound: "unat p < ?m + ?t * ?b" if "idx < totalBlocks a" "p \<in> alloc_ports (block_alloc a idx)" for idx
    using that mult_Suc_le_mono [of "unat idx" ?t ?b]
    by (simp add: in_block_ports [OF assms] word_less_nat_alt)
  have ex: "\<exists>idx. idx < totalBlocks a \<and> p \<in> alloc_ports (block_alloc a idx)"
    if "?m \<le> unat p" "unat p < ?m + ?t * ?b"
  proof -
    let ?i = "(unat p - ?m) div ?b"
    have i: "?i < ?t" using that b by (simp add: div_less_iff_less_mult)
    then have u: "unat (word_of_nat ?i :: u16) = ?i" using unat_u16_less [of "totalBlocks a"] by (simp add: unat_u16_of_nat)
    have "?i * ?b \<le> unat p - ?m" "unat p - ?m < Suc ?i * ?b"
      using b by (simp_all add: dividend_less_div_times)
    moreover have lt: "(word_of_nat ?i :: u16) < totalBlocks a" using u i by (simp add: word_less_nat_alt)
    ultimately have "p \<in> alloc_ports (block_alloc a (word_of_nat ?i))"
      unfolding in_block_ports [OF assms lt] u using that(1) by linarith
    with lt show ?thesis by blast
  qed
  have uniq: "i = j" if "i < totalBlocks a" "p \<in> alloc_ports (block_alloc a i)"
    "j < totalBlocks a" "p \<in> alloc_ports (block_alloc a j)" for i j
    using that block_ports_disjoint [OF assms] by blast
  have "(\<exists>!idx. idx < totalBlocks a \<and> p \<in> alloc_ports (block_alloc a idx)) \<longleftrightarrow>
      ?m \<le> unat p \<and> unat p < ?m + ?t * ?b"
    using bound ex uniq by (auto simp: in_block_ports [OF assms])
  moreover have "card (alloc_ports (block_alloc a idx)) = ?b" if i: "idx < totalBlocks a" for idx
  proof -
    have "unat ` alloc_ports (block_alloc a idx) = {?m + unat idx * ?b ..< ?m + Suc (unat idx) * ?b}"
    proof (intro subset_antisym subsetI)
      fix n assume n: "n \<in> {?m + unat idx * ?b ..< ?m + Suc (unat idx) * ?b}"
      then have "unat (word_of_nat n :: u16) = n"
        using block_space [OF assms i] by (simp add: unat_u16_of_nat)
      with n show "n \<in> unat ` alloc_ports (block_alloc a idx)"
        by (intro image_eqI [of _ _ "word_of_nat n"]) (simp_all add: in_block_ports [OF assms i])
    qed (auto simp: in_block_ports [OF assms i])
    moreover have "inj_on unat (alloc_ports (block_alloc a idx))"
      by (rule inj_onI) (simp add: word_unat_eq_iff)
    ultimately show ?thesis using card_image by fastforce
  qed
  ultimately show ?thesis by blast
qed

theorem blocks_partition_ports_witness:
  "\<exists>!idx. idx < totalBlocks ex_alloc \<and> (65535::u16) \<in> alloc_ports (block_alloc ex_alloc idx)"
  using blocks_partition_ports [OF ex_alloc_inv, of 65535] by (simp add: ex_alloc_simps)

text \<open>
  C16: Every operation of the allocator keeps it well-formed: registering and removing an IP, replacing
  the reserved ports, marking a block used, both allocations and \<open>Free\<close>, on success and on every error.
\<close>

theorem allocator_invariant:
  assumes "alloc_inv a"
  shows "alloc_inv (EnsureIP a ip) \<and> alloc_inv (RemoveIP a ip) \<and> alloc_inv (SetReservedPorts a ports) \<and>
    alloc_inv (snd (MarkUsed a ip ps)) \<and>
    alloc_inv (snd (AllocateForPod ord a extIPs cnt excl)) \<and>
    alloc_inv (snd (AllocateForIP ord' a ip cnt existing excl)) \<and>
    (finite (dom allocs) \<longrightarrow> alloc_inv (snd (Free kord a allocs)))"
  using assms EnsureIP_inv RemoveIP_inv SetReservedPorts_inv MarkUsed_inv AllocateForPod_inv
    AllocateForIP_inv Free_inv
  by (metis prod.collapse)

theorem allocator_invariant_witness:
  "alloc_inv (snd (AllocateForPod (\<lambda>_. sorted_order) ex_alloc [''10.0.0.1''] 1 []))"
  using allocator_invariant [OF ex_alloc_inv] by simp

end
