(* ===== verification/API.thy ===== *)
theory API
  imports Prelude
begin

text \<open>
  The custom resources of \<open>api/v1alpha1\<close>, one record per Go struct, and the outcome of a call to the
  Kubernetes API as the controllers distinguish it (\<open>apierrors.IsNotFound\<close>, \<open>IsAlreadyExists\<close>,
  \<open>IsConflict\<close>, anything else).

  Of \<open>metav1.ObjectMeta\<close> the records keep the fields the sources read or write: the name, the
  finalizers, the deletion timestamp (\<open>None\<close> for the zero time) and the resource version, which the API
  server uses for optimistic concurrency. Times are nanoseconds.
\<close>

type_synonym gotime = int

datatype api_error = NotFound | AlreadyExists | Conflict | OtherError string

section \<open>NATConfig\<close>

text \<open>Of \<open>metav1.LabelSelector\<close> only the contents matter here; how it matches is not mooring's code.\<close>

record LabelSelector =
  MatchLabels :: "(string \<times> string) list"
  MatchExpressions :: "(string \<times> string \<times> string list) list"

record NATConfigSpec =
  ExternalIPPool :: "string list"
  PortRangeSize :: i32
  nc_TargetCIDRs :: "string list"
  ReservedPorts :: "i32 list"
  AllowRegisteredPorts :: bool
  PodSelector :: LabelSelector
  NodeSelector :: "LabelSelector option"

record NATConfig =
  nc_Name :: string
  nc_Spec :: NATConfigSpec

section \<open>NATPortRange\<close>

record PortAllocation =
  ExternalIP :: string
  pa_PortStart :: i32
  pa_PortEnd :: i32

record NATPortRangeSpec =
  npr_PodName :: string
  npr_PodNamespace :: string
  npr_PodIP :: string
  npr_NodeName :: string
  npr_NATConfig :: string
  npr_TargetCIDRs :: "string list"
  npr_PortRangeCount :: i32
  npr_ExcludePorts :: "i32 list"
  npr_Allocations :: "PortAllocation list"
  npr_StaleSince :: "gotime option"

record NATPortRange =
  npr_Name :: string
  npr_Finalizers :: "string list"
  npr_DeletionTimestamp :: "gotime option"
  npr_ResourceVersion :: nat
  npr_Spec :: NATPortRangeSpec

section \<open>NATPortRangeRequest\<close>

record NATPortRangeRequestSpec =
  nprr_PodName :: string
  nprr_PodNamespace :: string
  nprr_PodIP :: string
  nprr_NodeName :: string
  nprr_NATConfig :: string
  nprr_PortRangeCount :: "i32 option"
  nprr_ExcludePorts :: "i32 list"

record NATPortRangeRequestStatus =
  DeletionGracePeriodExpiry :: "gotime option"

record NATPortRangeRequest =
  nprr_Name :: string
  nprr_DeletionTimestamp :: "gotime option"
  nprr_ResourceVersion :: nat
  nprr_Spec :: NATPortRangeRequestSpec
  nprr_Status :: NATPortRangeRequestStatus

end
