(* ===== verification/NetIP.thy ===== *)
theory NetIP
  imports Prelude
begin

text \<open>
  What the sources use of Go's packages \<open>net\<close> and \<open>net/netip\<close>: an \<open>IP\<close> is a byte slice (\<open>[]\<close> is the nil
  IP; 4 bytes or 16 bytes otherwise), an \<open>IPNet\<close> an address and a mask. \<open>ParseIP\<close>, \<open>ParseCIDR\<close>,
  \<open>IP.To4\<close>, \<open>IP.String\<close>, \<open>IPNet.Contains\<close> and \<open>IPMask.Size\<close> follow the standard library, IPv6 included.
  \<open>cloneIP\<close> and \<open>incrementIP\<close> (the same text in \<open>internal/controller/operator/util.go\<close> and
  \<open>internal/maps/maps.go\<close>) and the address loop both files share, \<open>expand_from\<close>, are the program's own.

  The loop need not end (a /0 network contains every address), so it is a
  \<open>partial_function (option)\<close>: \<open>None\<close> is a loop that runs forever.
\<close>

unbundle bit_operations_syntax

section \<open>Addresses\<close>

type_synonym net_IP = "u8 list"

record IPNet =
  net_addr :: net_IP
  net_mask :: "u8 list"

datatype Addr = Addr4 net_IP | Addr6 net_IP string

definition v4InV6Prefix :: "u8 list" where
  "v4InV6Prefix = [0, 0, 0, 0, 0, 0, 0, 0, 0, 0, 255, 255]"

definition To4 :: "net_IP \<Rightarrow> net_IP" where
  "To4 ip =
     (if length ip = 4 then ip
      else if length ip = 16 \<and> take 12 ip = v4InV6Prefix then drop 12 ip
      else [])"

definition CIDRMask :: "nat \<Rightarrow> nat \<Rightarrow> u8 list" where
  "CIDRMask ones bits =
     map (\<lambda>i. let n = ones - 8 * i in if n \<ge> 8 then 255 else NOT (drop_bit n 255)) [0..<bits div 8]"

definition IP_Mask :: "net_IP \<Rightarrow> u8 list \<Rightarrow> net_IP" where
  "IP_Mask ip msk =
     (let msk' = (if length msk = 16 \<and> length ip = 4 \<and> take 12 msk = replicate 12 255
                   then drop 12 msk else msk);
          ip' = (if length msk' = 4 \<and> length ip = 16 \<and> take 12 ip = v4InV6Prefix
                 then drop 12 ip else ip)
      in if length ip' \<noteq> length msk' then [] else map2 (AND) ip' msk')"

fun leading_ones :: "nat \<Rightarrow> u8 \<Rightarrow> nat \<times> u8" where
  "leading_ones 0 v = (0, v)"
| "leading_ones (Suc k) v =
     (if v AND 128 \<noteq> 0 then (case leading_ones k (push_bit 1 v) of (n, v') \<Rightarrow> (Suc n, v')) else (0, v))"

fun simpleMaskLength :: "u8 list \<Rightarrow> nat option" where
  "simpleMaskLength [] = Some 0"
| "simpleMaskLength (v # msk) =
     (if v = 255 then map_option ((+) 8) (simpleMaskLength msk)
      else (case leading_ones 8 v of (n, v') \<Rightarrow>
        if v' \<noteq> 0 then None else if \<exists>b \<in> set msk. b \<noteq> 0 then None else Some n))"

definition Mask_Size :: "u8 list \<Rightarrow> nat \<times> nat" where
  "Mask_Size m = (case simpleMaskLength m of None \<Rightarrow> (0, 0) | Some n \<Rightarrow> (n, 8 * length m))"

definition networkNumberAndMask :: "IPNet \<Rightarrow> net_IP \<times> u8 list" where
  "networkNumberAndMask n =
     (let ip = (if To4 (net_addr n) = [] then net_addr n else To4 (net_addr n)) in
      if To4 (net_addr n) = [] \<and> length ip \<noteq> 16 then ([], [])
      else if length (net_mask n) = 4 then (if length ip \<noteq> 4 then ([], []) else (ip, net_mask n))
      else if length (net_mask n) = 16
        then (ip, if length ip = 4 then drop 12 (net_mask n) else net_mask n)
      else ([], []))"

definition Contains :: "IPNet \<Rightarrow> net_IP \<Rightarrow> bool" where
  "Contains n ip =
     (let (nn, m) = networkNumberAndMask n; x = (if To4 ip = [] then ip else To4 ip) in
      length x = length nn \<and> (\<forall>i < length x. nn ! i AND m ! i = x ! i AND m ! i))"

section \<open>Parsing\<close>

definition is_digit :: "char \<Rightarrow> bool" where
  "is_digit c \<longleftrightarrow> 48 \<le> (of_char c :: nat) \<and> (of_char c :: nat) \<le> 57"

definition digit_val :: "char \<Rightarrow> nat" where
  "digit_val c = of_char c - 48"

fun parseIPv4Fields :: "string \<Rightarrow> nat \<Rightarrow> nat \<Rightarrow> u8 list \<Rightarrow> u8 list option" where
  "parseIPv4Fields [] val digLen flds =
     (if length flds < 3 then None else Some (flds @ [word_of_nat val]))"
| "parseIPv4Fields (c # s) val digLen flds =
     (if is_digit c then
        (if digLen = 1 \<and> val = 0 then None
         else let v = val * 10 + digit_val c in
           if v > 255 then None else parseIPv4Fields s v (Suc digLen) flds)
      else if c = CHR ''.'' then
        (if digLen = 0 \<or> s = [] then None
         else if length flds = 3 then None
         else parseIPv4Fields s 0 0 (flds @ [word_of_nat val]))
      else None)"

definition hex_val :: "char \<Rightarrow> nat option" where
  "hex_val c =
     (let k = (of_char c :: nat) in
      if 48 \<le> k \<and> k \<le> 57 then Some (k - 48)
      else if 97 \<le> k \<and> k \<le> 102 then Some (k - 87)
      else if 65 \<le> k \<and> k \<le> 70 then Some (k - 55)
      else None)"

fun hex_group :: "string \<Rightarrow> nat \<Rightarrow> nat \<Rightarrow> (nat \<times> nat \<times> string) option" where
  "hex_group [] off acc = Some (off, acc, [])"
| "hex_group (c # s) off acc =
     (case hex_val c of
        None \<Rightarrow> Some (off, acc, c # s)
      | Some d \<Rightarrow>
          (let acc' = acc * 16 + d in
           if off > 3 then None else if acc' > 65535 then None else hex_group s (Suc off) acc'))"

fun parse6_loop ::
    "nat \<Rightarrow> string \<Rightarrow> u8 list \<Rightarrow> nat option \<Rightarrow> (string \<times> u8 list \<times> nat option) option" where
  "parse6_loop 0 s bs ellipsis = Some (s, bs, ellipsis)"
| "parse6_loop (Suc k) s bs ellipsis =
     (case hex_group s 0 0 of
        None \<Rightarrow> None
      | Some (off, acc, rest) \<Rightarrow>
          if off = 0 then None
          else if rest \<noteq> [] \<and> hd rest = CHR ''.'' then
            (if ellipsis = None \<and> length bs \<noteq> 12 then None
             else if length bs + 4 > 16 then None
             else (case parseIPv4Fields s 0 0 [] of
                     None \<Rightarrow> None | Some f \<Rightarrow> Some ([], bs @ f, ellipsis)))
          else let bs' = bs @ [word_of_nat (acc div 256), word_of_nat acc] in
            (case rest of
               [] \<Rightarrow> Some ([], bs', ellipsis)
             | c # r \<Rightarrow>
                 if c \<noteq> CHR '':'' then None
                 else if r = [] then None
                 else if hd r = CHR '':'' then
                   (if ellipsis \<noteq> None then None
                    else if tl r = [] then Some ([], bs', Some (length bs'))
                    else parse6_loop k (tl r) bs' (Some (length bs')))
                 else parse6_loop k r bs' ellipsis))"

definition parseIPv6 :: "string \<Rightarrow> Addr option" where
  "parseIPv6 inp =
     (let s = takeWhile (\<lambda>c. c \<noteq> CHR ''%'') inp;
          has_zone = (CHR ''%'' \<in> set inp);
          zone = drop (Suc (length s)) inp
      in if has_zone \<and> zone = [] then None
      else let s' = (if take 2 s = ''::'' then drop 2 s else s);
               el = (if take 2 s = ''::'' then Some 0 else None)
      in if take 2 s = ''::'' \<and> s' = [] then Some (Addr6 (replicate 16 0) zone)
      else (case parse6_loop 8 s' [] el of
          None \<Rightarrow> None
        | Some (rest, bs, ellipsis) \<Rightarrow>
            if rest \<noteq> [] then None
            else if length bs < 16 then
              (case ellipsis of
                 None \<Rightarrow> None
               | Some e \<Rightarrow> Some (Addr6 (take e bs @ replicate (16 - length bs) 0 @ drop e bs) zone))
            else if ellipsis \<noteq> None then None
            else Some (Addr6 bs zone)))"

fun addr_kind :: "string \<Rightarrow> char option" where
  "addr_kind [] = None"
| "addr_kind (c # s) =
     (if c = CHR ''.'' \<or> c = CHR '':'' \<or> c = CHR ''%'' then Some c else addr_kind s)"

definition ParseAddr :: "string \<Rightarrow> Addr option" where
  "ParseAddr s =
     (case addr_kind s of
        None \<Rightarrow> None
      | Some c \<Rightarrow>
          if c = CHR ''.'' then map_option Addr4 (parseIPv4Fields s 0 0 [])
          else if c = CHR '':'' then parseIPv6 s
          else None)"

definition ParseIP :: "string \<Rightarrow> net_IP" where
  "ParseIP s =
     (case ParseAddr s of
        None \<Rightarrow> []
      | Some (Addr4 b) \<Rightarrow> v4InV6Prefix @ b
      | Some (Addr6 b zone) \<Rightarrow> if zone = [] then b else [])"

fun dtoi :: "string \<Rightarrow> nat \<Rightarrow> nat option" where
  "dtoi [] n = Some n"
| "dtoi (c # s) n =
     (if is_digit c then
        (let n' = n * 10 + digit_val c in if n' \<ge> 16777215 then None else dtoi s n')
      else None)"

definition ParseCIDR :: "string \<Rightarrow> (net_IP \<times> IPNet) option" where
  "ParseCIDR s =
     (let addr = takeWhile (\<lambda>c. c \<noteq> CHR ''/'') s; msk = drop (Suc (length addr)) s in
      if CHR ''/'' \<notin> set s then None
      else (case ParseAddr addr of
          None \<Rightarrow> None
        | Some (Addr4 b) \<Rightarrow>
            (case (if msk = [] then None else dtoi msk 0) of
               None \<Rightarrow> None
             | Some n \<Rightarrow>
                 if n > 32 then None
                 else (let ip = v4InV6Prefix @ b; m = CIDRMask n 32
                       in Some (ip, \<lparr>net_addr = IP_Mask ip m, net_mask = m\<rparr>)))
        | Some (Addr6 b zone) \<Rightarrow>
            if zone \<noteq> [] then None
            else (case (if msk = [] then None else dtoi msk 0) of
               None \<Rightarrow> None
             | Some n \<Rightarrow>
                 if n > 128 then None
                 else (let m = CIDRMask n 128
                       in Some (b, \<lparr>net_addr = IP_Mask b m, net_mask = m\<rparr>)))))"

section \<open>Printing\<close>

fun show_nat :: "nat \<Rightarrow> string" where
  "show_nat n = (if n < 10 then [char_of (48 + n)] else show_nat (n div 10) @ [char_of (48 + n mod 10)])"

declare show_nat.simps [simp del]

text \<open>An \<open>int32\<close> in decimal: \<open>%d\<close> and \<open>strconv.Itoa\<close>.\<close>

definition show_i32 :: "i32 \<Rightarrow> string" where
  "show_i32 i = (let n = sint i in if n < 0 then CHR ''-'' # show_nat (nat (- n)) else show_nat (nat n))"

definition hex_digit :: "nat \<Rightarrow> char" where
  "hex_digit n = (if n < 10 then char_of (48 + n) else char_of (87 + n))"

fun show_hex :: "nat \<Rightarrow> string" where
  "show_hex n = (if n < 16 then [hex_digit n] else show_hex (n div 16) @ [hex_digit (n mod 16)])"

declare show_hex.simps [simp del]

definition v6u16 :: "net_IP \<Rightarrow> nat \<Rightarrow> nat" where
  "v6u16 ip i = unat (ip ! (2 * i)) * 256 + unat (ip ! (2 * i + 1))"

fun zero_run :: "net_IP \<Rightarrow> nat \<Rightarrow> nat \<Rightarrow> nat" where
  "zero_run ip 0 j = j"
| "zero_run ip (Suc k) j = (if v6u16 ip j = 0 then zero_run ip k (Suc j) else j)"

fun best_run :: "net_IP \<Rightarrow> nat list \<Rightarrow> (nat \<times> nat) option \<Rightarrow> (nat \<times> nat) option" where
  "best_run ip [] best = best"
| "best_run ip (i # is) best =
     (let j = zero_run ip (8 - i) i; l = j - i;
          cur = (case best of None \<Rightarrow> 0 | Some (a, b) \<Rightarrow> b - a)
      in best_run ip is (if l \<ge> 2 \<and> l > cur then Some (i, j) else best))"

fun show6 :: "net_IP \<Rightarrow> (nat \<times> nat) option \<Rightarrow> nat \<Rightarrow> nat \<Rightarrow> string" where
  "show6 ip run 0 i = []"
| "show6 ip run (Suc k) i =
     (if i \<ge> 8 then []
      else (case run of
         Some (zs, ze) \<Rightarrow>
           if i = zs then
             (if ze \<ge> 8 then ''::'' else ''::'' @ show_hex (v6u16 ip ze) @ show6 ip run k (Suc ze))
           else (if i > 0 then '':'' else []) @ show_hex (v6u16 ip i) @ show6 ip run k (Suc i)
       | None \<Rightarrow> (if i > 0 then '':'' else []) @ show_hex (v6u16 ip i) @ show6 ip run k (Suc i)))"

definition show4 :: "net_IP \<Rightarrow> string" where
  "show4 b =
     show_nat (unat (b ! 0)) @ ''.'' @ show_nat (unat (b ! 1)) @ ''.'' @
     show_nat (unat (b ! 2)) @ ''.'' @ show_nat (unat (b ! 3))"

definition hex_byte :: "u8 \<Rightarrow> string" where
  "hex_byte b = [hex_digit (unat b div 16), hex_digit (unat b mod 16)]"

definition IP_String :: "net_IP \<Rightarrow> string" where
  "IP_String ip =
     (if ip = [] then ''<nil>''
      else if length ip \<noteq> 4 \<and> length ip \<noteq> 16 then CHR ''?'' # concat (map hex_byte ip)
      else if To4 ip \<noteq> [] then show4 (To4 ip)
      else show6 ip (best_run ip [0..<8] None) 8 0)"

section \<open>The address loop of the program\<close>

definition cloneIP :: "net_IP \<Rightarrow> net_IP" where
  "cloneIP ip = ip"

fun inc_rev :: "u8 list \<Rightarrow> u8 list" where
  "inc_rev [] = []"
| "inc_rev (b # bs) = (let b' = b + 1 in if b' \<noteq> 0 then b' # bs else b' # inc_rev bs)"

definition incrementIP :: "net_IP \<Rightarrow> net_IP" where
  "incrementIP ip = rev (inc_rev (rev ip))"

partial_function (option) expand_from :: "IPNet \<Rightarrow> net_IP \<Rightarrow> net_IP list \<Rightarrow> net_IP list option" where
  "expand_from n ip ips =
     (if Contains n ip then expand_from n (incrementIP ip) (ips @ [ip]) else Some ips)"

end
