(* ===== verification/OpUtil.thy ===== *)
theory OpUtil
  imports API NetIP Allocator
begin

text \<open>
  The helpers of \<open>internal/controller/operator/util.go\<close>. Conversions between the \<open>int32\<close> fields of the
  resources and the allocator's \<open>uint16\<close> ports truncate and extend as Go does (\<open>ucast\<close>).
\<close>

definition finalizerName :: string where
  "finalizerName = ''mooring.hanapedia.link/allocation''"

definition defaultPortRangeCount :: u16 where
  "defaultPortRangeCount = 1"

section \<open>Pools\<close>

fun add_unseen :: "net_IP list \<Rightarrow> string list \<Rightarrow> string set \<Rightarrow> string list \<times> string set" where
  "add_unseen [] out seen = (out, seen)"
| "add_unseen (ip # rest) out seen =
     (let s = IP_String ip in
      if s \<in> seen then add_unseen rest out seen else add_unseen rest (out @ [s]) (insert s seen))"

text \<open>\<open>Inl cidr\<close> is the error for a CIDR that does not parse; \<open>None\<close> is an expansion that never ends.\<close>

fun expand_cidrs :: "string list \<Rightarrow> string list \<Rightarrow> string set \<Rightarrow> (string + string list) option" where
  "expand_cidrs [] out seen = Some (Inr out)"
| "expand_cidrs (cidr # rest) out seen =
     (case ParseCIDR cidr of
        None \<Rightarrow> Some (Inl cidr)
      | Some (_, network) \<Rightarrow>
          (case expand_from network (cloneIP (net_addr network)) [] of
             None \<Rightarrow> None
           | Some addrs \<Rightarrow>
               (case add_unseen addrs out seen of (out', seen') \<Rightarrow> expand_cidrs rest out' seen')))"

definition expandCIDRs :: "string list \<Rightarrow> (string + string list) option" where
  "expandCIDRs cidrs = expand_cidrs cidrs [] {}"

definition stringSet :: "string list \<Rightarrow> string set" where
  "stringSet ss = set ss"

section \<open>Allocations\<close>

fun groupAllocsByIP :: "PortAllocation list \<Rightarrow> (string \<rightharpoonup> PortAllocation list) \<Rightarrow>
    (string \<rightharpoonup> PortAllocation list)" where
  "groupAllocsByIP [] m = m"
| "groupAllocsByIP (a # rest) m =
     groupAllocsByIP rest
       (m(ExternalIP a \<mapsto> (case m (ExternalIP a) of None \<Rightarrow> [] | Some l \<Rightarrow> l) @ [a]))"

definition collectPortStarts :: "PortAllocation list \<Rightarrow> u16 list" where
  "collectPortStarts allocs = map (\<lambda>a. ucast (pa_PortStart a)) allocs"

definition toUint16Ports :: "i32 list \<Rightarrow> u16 list" where
  "toUint16Ports ports = map ucast ports"

definition port_allocation :: "string \<Rightarrow> Allocation \<Rightarrow> PortAllocation" where
  "port_allocation ip al =
     \<lparr>ExternalIP = ip, pa_PortStart = ucast (PortStart al), pa_PortEnd = ucast (PortEnd al)\<rparr>"

definition to_alloc :: "PortAllocation \<Rightarrow> Allocation" where
  "to_alloc a = \<lparr>PortStart = ucast (pa_PortStart a), PortEnd = ucast (pa_PortEnd a)\<rparr>"

definition buildPortAllocations ::
    "string go_order \<Rightarrow> (string \<rightharpoonup> Allocation list) \<Rightarrow> PortAllocation list" where
  "buildPortAllocations kord allocations =
     concat (map (\<lambda>ip. map (port_allocation ip) (case allocations ip of None \<Rightarrow> [] | Some als \<Rightarrow> als))
       (visit kord (dom allocations)))"

section \<open>Lemmas\<close>

lemma ucast_u16_i32_u16 [simp]: "(ucast (ucast (x :: u16) :: i32) :: u16) = x"
  by (rule bit_word_eqI) (simp add: bit_simps)

lemma to_alloc_port_allocation [simp]: "to_alloc (port_allocation ip al) = al"
  by (simp add: to_alloc_def port_allocation_def)

lemma add_unseen_inv:
  "add_unseen addrs out seen = (out', seen') \<Longrightarrow> distinct out \<Longrightarrow> set out = seen \<Longrightarrow>
     distinct out' \<and> set out' = seen'"
  by (induction addrs out seen rule: add_unseen.induct) (auto simp: Let_def split: if_splits)

lemma expand_cidrs_distinct:
  "expand_cidrs cidrs out seen = Some (Inr res) \<Longrightarrow> distinct out \<Longrightarrow> set out = seen \<Longrightarrow> distinct res"
proof (induction cidrs out seen rule: expand_cidrs.induct)
  case (2 cidr rest out seen)
  from 2(2) obtain a network addrs out' seen' where
    p: "ParseCIDR cidr = Some (a, network)"
    "expand_from network (cloneIP (net_addr network)) [] = Some addrs"
    "add_unseen addrs out seen = (out', seen')" "expand_cidrs rest out' seen' = Some (Inr res)"
    by (auto split: option.splits prod.splits)
  with add_unseen_inv [OF p(3) 2(3,4)] show ?case using 2(1) by metis
qed simp

lemma expandCIDRs_distinct: "expandCIDRs cidrs = Some (Inr out) \<Longrightarrow> distinct out"
  by (auto simp: expandCIDRs_def intro: expand_cidrs_distinct)

end
