(* ===== verification/Registry.thy ===== *)
theory Registry
  imports OpUtil
begin

text \<open>
  \<open>AllocatorRegistry\<close> of \<open>internal/controller/operator/registry.go\<close>: one allocator per NATConfig and the
  reconstruction gate, a channel that is closed once.

  What the operator uses of the outside is the record \<open>opEnv\<close> over a world type \<open>'w\<close>: the Kubernetes
  client (its cache-backed reads and its writes), the clock and the Prometheus vectors. They are not
  code of this repository, so they are a parameter; \<open>metric_call\<close> lists the calls the sources make on
  the metric vectors of \<open>internal/metrics\<close>.
\<close>

datatype metric_call =
    SetNATConfigPortsFree string string nat
  | SetNATConfigPortsTotal string string nat
  | DelNATConfigPortsFree string string
  | DelNATConfigPortsTotal string string
  | DelConfigPortsFree string
  | DelConfigPortsTotal string
  | IncAllocationFailures string
  | DelAllocationFailures string
  | SetNATConfigInfo string i32
  | DelNATConfigInfo string
  | SetPortsAllocated string string string string i32
  | DelPortsAllocated string string string string
  | SetNATPortRangeInfo string string string string string
  | DelNATPortRangeInfo string string string string string
  | DelAnyNATPortRangeInfo string string string string
  | SetRequestInfo string string string string string
  | DelRequestInfo string
  | SetOperatorLeader

record 'w opEnv =
  GetNATConfig :: "'w \<Rightarrow> string \<Rightarrow> api_error + NATConfig"
  GetNPRR :: "'w \<Rightarrow> string \<Rightarrow> api_error + NATPortRangeRequest"
  GetNPR :: "'w \<Rightarrow> string \<Rightarrow> api_error + NATPortRange"
  ListNATConfigs :: "'w \<Rightarrow> api_error + NATConfig list"
  ListNPRs :: "'w \<Rightarrow> api_error + NATPortRange list"
  ListNPRsOfConfig :: "'w \<Rightarrow> string \<Rightarrow> api_error + NATPortRange list"
  CreateNPR :: "NATPortRange \<Rightarrow> 'w \<Rightarrow> api_error option \<times> 'w"
  UpdateNPR :: "NATPortRange \<Rightarrow> 'w \<Rightarrow> api_error option \<times> 'w"
  DeleteNPR :: "NATPortRange \<Rightarrow> 'w \<Rightarrow> api_error option \<times> 'w"
  Now :: "'w \<Rightarrow> gotime"
  Metric :: "metric_call \<Rightarrow> 'w \<Rightarrow> 'w"

text \<open>
  Errors of the operator, one constructor per \<open>fmt.Errorf\<close> and per error passed on, and what a
  reconcile comes back with: \<open>Return d\<close> is \<open>ctrl.Result{RequeueAfter: d}\<close> without an error. \<open>Blocked\<close>
  is a reconcile that still waits for the reconstruction gate, \<open>Hangs\<close> one whose pool expansion never
  ends, \<open>Panics\<close> a run-time panic.
\<close>

datatype op_error =
    ErrAPI api_error
  | ErrCreateAllocator string alloc_error
  | ErrParseCIDR string
  | ErrAllocateForPod alloc_error
  | ErrAllocateAdditional string alloc_error
  | ErrAllocateNewIP string string alloc_error
  | ErrFree alloc_error
  | ErrListNATConfigs api_error
  | ErrListNATPortRanges api_error
  | ErrNATConfigPool string op_error

datatype outcome = Blocked | Hangs | Panics | Return gotime | Fail op_error

text \<open>
  The iteration orders of the Go maps a handler ranges over: the free set a block is picked from (per
  NATPortRange and IP), the map given to \<open>Free\<close>, the map given to \<open>buildPortAllocations\<close>, and the
  map of IPs behind \<open>ListIPs\<close>.
\<close>

record orders =
  pickOrder :: "string \<Rightarrow> string \<Rightarrow> u16 go_order"
  freeOrder :: "string go_order"
  buildOrder :: "string go_order"
  listOrder :: "string go_order"

record AllocatorRegistry =
  allocators :: "string \<rightharpoonup> BlockAllocator"
  reconstructed :: bool

definition NewAllocatorRegistry :: AllocatorRegistry where
  "NewAllocatorRegistry = \<lparr>allocators = Map.empty, reconstructed = False\<rparr>"

definition set_alloc :: "AllocatorRegistry \<Rightarrow> string \<Rightarrow> BlockAllocator \<Rightarrow> AllocatorRegistry" where
  "set_alloc r name a = r\<lparr>allocators := (allocators r)(name \<mapsto> a)\<rparr>"

text \<open>
  The result is the allocator (a pointer into the registry in Go, so callers write their updates back
  with \<open>set_alloc\<close>) and the registry.
\<close>

definition EnsureAllocator ::
    "AllocatorRegistry \<Rightarrow> string \<Rightarrow> u16 \<Rightarrow> bool \<Rightarrow> u16 list \<Rightarrow>
     (op_error + BlockAllocator) \<times> AllocatorRegistry" where
  "EnsureAllocator r cfg bs allowRegisteredPorts reservedPorts =
     (case allocators r cfg of
        Some a \<Rightarrow>
          (let a' = SetReservedPorts a reservedPorts in (Inr a', set_alloc r cfg a'))
      | None \<Rightarrow>
          (case New bs (if allowRegisteredPorts then MinPortFull else MinPortDynamic) MaxPort
                  cfg True of
             Inl e \<Rightarrow> (Inl (ErrCreateAllocator cfg e), r)
           | Inr a \<Rightarrow>
               (let a' = SetReservedPorts a reservedPorts in (Inr a', set_alloc r cfg a'))))"

definition Get :: "AllocatorRegistry \<Rightarrow> string \<Rightarrow> BlockAllocator option" where
  "Get r cfg = allocators r cfg"

definition Remove :: "AllocatorRegistry \<Rightarrow> string \<Rightarrow> AllocatorRegistry" where
  "Remove r cfg = r\<lparr>allocators := (allocators r)(cfg := None)\<rparr>"

text \<open>Closing a channel twice panics: \<open>None\<close>.\<close>

definition MarkReconstructed :: "AllocatorRegistry \<Rightarrow> AllocatorRegistry option" where
  "MarkReconstructed r = (if reconstructed r then None else Some (r\<lparr>reconstructed := True\<rparr>))"

definition Reconstructed :: "AllocatorRegistry \<Rightarrow> bool" where
  "Reconstructed r = reconstructed r"

fun record_ips :: "'w opEnv \<Rightarrow> string \<Rightarrow> BlockAllocator \<Rightarrow> string list \<Rightarrow> 'w \<Rightarrow> 'w" where
  "record_ips E name a [] w = w"
| "record_ips E name a (ip # rest) w =
     (case FreeCount a ip of
        None \<Rightarrow> record_ips E name a rest w
      | Some freeBlocks \<Rightarrow>
          record_ips E name a rest
            (Metric E (SetNATConfigPortsTotal name ip (unat (TotalBlocks a) * unat (BlockSize a)))
              (Metric E (SetNATConfigPortsFree name ip (unat freeBlocks * unat (BlockSize a))) w)))"

definition RecordAvailability ::
    "'w opEnv \<Rightarrow> string go_order \<Rightarrow> AllocatorRegistry \<Rightarrow> string \<Rightarrow> 'w \<Rightarrow> 'w" where
  "RecordAvailability E kord r cfg w =
     (case Get r cfg of
        None \<Rightarrow> w
      | Some a \<Rightarrow> record_ips E cfg a (ListIPs kord a) w)"

end
