(* ===== verification/Requests.thy ===== *)
theory Requests
  imports Registry
begin

text \<open>
  The operator's controller of NATPortRangeRequests,
  \<open>internal/controller/operator/natportrangerequest_controller.go\<close>.

  Every handler takes the registry and the world and returns an outcome with both. The allocator a
  handler works on is a pointer in Go; here it is the pair of the registry key \<open>cfg\<close> and its current
  value \<open>a\<close>, and \<open>set_alloc\<close> stores the value back. A rollback map grows by \<open>push_alloc\<close>.
\<close>

definition push_alloc :: "string \<Rightarrow> 'a \<Rightarrow> (string \<rightharpoonup> 'a list) \<Rightarrow> (string \<rightharpoonup> 'a list)" where
  "push_alloc ip al m = m(ip \<mapsto> (case m ip of None \<Rightarrow> [] | Some l \<Rightarrow> l) @ [al])"

type_synonym 'w op_result = "outcome \<times> AllocatorRegistry \<times> 'w"

section \<open>Creating a NATPortRange\<close>

definition new_npr ::
    "orders \<Rightarrow> NATPortRangeRequest \<Rightarrow> NATConfig \<Rightarrow> u16 \<Rightarrow> (string \<rightharpoonup> Allocation list) \<Rightarrow> NATPortRange" where
  "new_npr Ord nprr nc portRangeCount allocations =
     \<lparr>npr_Name = nprr_Name nprr, npr_Finalizers = [finalizerName], npr_DeletionTimestamp = None,
      npr_ResourceVersion = 0,
      npr_Spec = \<lparr>npr_PodName = nprr_PodName (nprr_Spec nprr),
        npr_PodNamespace = nprr_PodNamespace (nprr_Spec nprr),
        npr_PodIP = nprr_PodIP (nprr_Spec nprr), npr_NodeName = nprr_NodeName (nprr_Spec nprr),
        npr_NATConfig = nprr_NATConfig (nprr_Spec nprr),
        npr_TargetCIDRs = nc_TargetCIDRs (nc_Spec nc),
        npr_PortRangeCount = ucast portRangeCount,
        npr_ExcludePorts = nprr_ExcludePorts (nprr_Spec nprr),
        npr_Allocations = buildPortAllocations (buildOrder Ord) allocations,
        npr_StaleSince = None\<rparr>\<rparr>"

definition createNPR ::
    "'w opEnv \<Rightarrow> orders \<Rightarrow> AllocatorRegistry \<Rightarrow> NATPortRangeRequest \<Rightarrow> NATConfig \<Rightarrow> BlockAllocator \<Rightarrow>
     string list \<Rightarrow> u16 \<Rightarrow> 'w \<Rightarrow> 'w op_result" where
  "createNPR E Ord reg nprr nc a extIPs portRangeCount w =
     (case AllocateForPod (pickOrder Ord (nprr_Name nprr)) a extIPs portRangeCount
             (toUint16Ports (nprr_ExcludePorts (nprr_Spec nprr))) of
        (Inl e, a1) \<Rightarrow> (Fail (ErrAllocateForPod e), set_alloc reg (nc_Name nc) a1, w)
      | (Inr allocations, a1) \<Rightarrow>
          (case CreateNPR E (new_npr Ord nprr nc portRangeCount allocations) w of
             (Some err, w1) \<Rightarrow>
               (let (_, a2) = Free (freeOrder Ord) a1 allocations in
                if err = AlreadyExists then (Return 0, set_alloc reg (nc_Name nc) a2, w1)
                else (Fail (ErrAPI err), set_alloc reg (nc_Name nc) a2, w1))
           | (None, w1) \<Rightarrow>
               (let reg1 = set_alloc reg (nc_Name nc) a1 in
                (Return 0, reg1, RecordAvailability E (listOrder Ord) reg1 (nc_Name nc) w1))))"

section \<open>Changing the number of port ranges\<close>

text \<open>
  The loop of \<open>increaseCount\<close> and of \<open>reconcileNPRAllocations\<close> over the IPs that need blocks: the state
  is the allocator, \<open>newAllocs\<close>, \<open>existing\<close> and \<open>rollback\<close>; the first refusal ends it.
\<close>

fun add_blocks ::
    "(string \<Rightarrow> u16 go_order) \<Rightarrow> u16 \<Rightarrow> u16 list \<Rightarrow> string list \<Rightarrow> BlockAllocator \<Rightarrow> PortAllocation list \<Rightarrow>
     u16 list \<Rightarrow> (string \<rightharpoonup> Allocation list) \<Rightarrow>
     (string \<times> alloc_error) option \<times> BlockAllocator \<times> PortAllocation list \<times> (string \<rightharpoonup> Allocation list)"
where
  "add_blocks ord cnt excludePorts [] a newAllocs existing rb = (None, a, newAllocs, rb)"
| "add_blocks ord cnt excludePorts (ip # rest) a newAllocs existing rb =
     (case AllocateForIP (ord ip) a ip cnt existing excludePorts of
        (Inl e, a1) \<Rightarrow> (Some (ip, e), a1, newAllocs, rb)
      | (Inr als, a1) \<Rightarrow>
          add_blocks ord cnt excludePorts rest a1
            (newAllocs @ map (port_allocation ip) als) (existing @ map PortStart als)
            (fold (push_alloc ip) als rb))"

definition increaseCount ::
    "'w opEnv \<Rightarrow> orders \<Rightarrow> AllocatorRegistry \<Rightarrow> NATPortRange \<Rightarrow> string \<Rightarrow> BlockAllocator \<Rightarrow> string list \<Rightarrow>
     u16 \<Rightarrow> u16 list \<Rightarrow> 'w \<Rightarrow> 'w op_result" where
  "increaseCount E Ord reg npr cfg a extIPs delta excludePorts w =
     (case add_blocks (pickOrder Ord (npr_Name npr)) delta excludePorts extIPs a []
             (collectPortStarts (npr_Allocations (npr_Spec npr))) Map.empty of
        (Some (ip, e), a1, _, rb) \<Rightarrow>
          (Fail (ErrAllocateAdditional ip e), set_alloc reg cfg (snd (Free (freeOrder Ord) a1 rb)), w)
      | (None, a1, newAllocs, rb) \<Rightarrow>
          (let npr1 = npr\<lparr>npr_Spec := (npr_Spec npr)\<lparr>
                 npr_Allocations := npr_Allocations (npr_Spec npr) @ newAllocs,
                 npr_PortRangeCount := npr_PortRangeCount (npr_Spec npr) + ucast delta\<rparr>\<rparr> in
           case UpdateNPR E npr1 w of
             (Some err, w1) \<Rightarrow>
               (Fail (ErrAPI err), set_alloc reg cfg (snd (Free (freeOrder Ord) a1 rb)), w1)
           | (None, w1) \<Rightarrow>
               (let reg1 = set_alloc reg cfg a1 in
                (Return 0, reg1,
                 RecordAvailability E (listOrder Ord) reg1 (npr_NATConfig (npr_Spec npr)) w1))))"

text \<open>
  \<open>trim_blocks\<close> is the loop of \<open>decreaseCount\<close>: per pool IP it keeps the \<open>desired\<close> lowest ranges. The
  comparison \<open>als[i].PortStart < als[j].PortStart\<close> is on \<open>int32\<close>, and the length is cut to \<open>uint16\<close>.
\<close>

fun trim_blocks ::
    "(string \<rightharpoonup> PortAllocation list) \<Rightarrow> u16 \<Rightarrow> string list \<Rightarrow> (string \<rightharpoonup> Allocation list) \<Rightarrow>
     PortAllocation list \<Rightarrow> (string \<rightharpoonup> Allocation list) \<times> PortAllocation list" where
  "trim_blocks byIP desired [] toFree newAllocs = (toFree, newAllocs)"
| "trim_blocks byIP desired (ip # rest) toFree newAllocs =
     (let als = sort_key (\<lambda>pa. sint (pa_PortStart pa)) (case byIP ip of None \<Rightarrow> [] | Some l \<Rightarrow> l) in
      if (word_of_nat (length als) :: u16) > desired
      then trim_blocks byIP desired rest
             (fold (\<lambda>pa. push_alloc ip (to_alloc pa)) (drop (unat desired) als) toFree)
             (newAllocs @ take (unat desired) als)
      else trim_blocks byIP desired rest toFree (newAllocs @ als))"

definition decreaseCount ::
    "'w opEnv \<Rightarrow> orders \<Rightarrow> AllocatorRegistry \<Rightarrow> NATPortRange \<Rightarrow> string \<Rightarrow> BlockAllocator \<Rightarrow> string list \<Rightarrow>
     u16 \<Rightarrow> 'w \<Rightarrow> 'w op_result" where
  "decreaseCount E Ord reg npr cfg a extIPs desired w =
     (case trim_blocks (groupAllocsByIP (npr_Allocations (npr_Spec npr)) Map.empty) desired extIPs
             Map.empty [] of
        (toFree, newAllocs) \<Rightarrow>
          (let npr1 = npr\<lparr>npr_Spec := (npr_Spec npr)\<lparr>
                 npr_Allocations := newAllocs, npr_PortRangeCount := ucast desired\<rparr>\<rparr> in
           case UpdateNPR E npr1 w of
             (Some err, w1) \<Rightarrow> (Fail (ErrAPI err), set_alloc reg cfg a, w1)
           | (None, w1) \<Rightarrow>
               (let reg1 = set_alloc reg cfg (snd (Free (freeOrder Ord) a toFree)) in
                (Return 0, reg1,
                 RecordAvailability E (listOrder Ord) reg1 (npr_NATConfig (npr_Spec npr)) w1))))"

section \<open>Marking a NATPortRange stale\<close>

definition IgnoreNotFound :: "api_error \<Rightarrow> outcome" where
  "IgnoreNotFound err = (if err = NotFound then Return 0 else Fail (ErrAPI err))"

definition set_stale :: "gotime \<Rightarrow> NATPortRange \<Rightarrow> NATPortRange" where
  "set_stale t npr = npr\<lparr>npr_Spec := (npr_Spec npr)\<lparr>npr_StaleSince := Some t\<rparr>\<rparr>"

definition markNPRStale :: "'w opEnv \<Rightarrow> AllocatorRegistry \<Rightarrow> string \<Rightarrow> 'w \<Rightarrow> 'w op_result" where
  "markNPRStale E reg name w =
     (case GetNPR E w name of
        Inl err \<Rightarrow> (IgnoreNotFound err, reg, w)
      | Inr npr \<Rightarrow>
          (if npr_StaleSince (npr_Spec npr) \<noteq> None then (Return 0, reg, w)
           else (case UpdateNPR E (set_stale (Now E w) npr) w of
                   (Some err, w1) \<Rightarrow> (Fail (ErrAPI err), reg, w1)
                 | (None, w1) \<Rightarrow> (Return 0, reg, w1))))"

section \<open>The reconciler\<close>

definition requested_count :: "NATPortRangeRequest \<Rightarrow> u16" where
  "requested_count nprr =
     (case nprr_PortRangeCount (nprr_Spec nprr) of None \<Rightarrow> defaultPortRangeCount | Some c \<Rightarrow> ucast c)"

text \<open>The second half of \<open>Reconcile\<close>: create the range, or drive its \<open>portRangeCount\<close> to the request's.\<close>

definition driveNPR ::
    "'w opEnv \<Rightarrow> orders \<Rightarrow> AllocatorRegistry \<Rightarrow> NATPortRangeRequest \<Rightarrow> NATConfig \<Rightarrow> BlockAllocator \<Rightarrow>
     string list \<Rightarrow> string \<Rightarrow> 'w \<Rightarrow> 'w op_result" where
  "driveNPR E Ord reg nprr nc a extIPs name w =
     (let cnt = requested_count nprr in
      case GetNPR E w name of
        Inl NotFound \<Rightarrow> createNPR E Ord reg nprr nc a extIPs cnt w
      | Inl err \<Rightarrow> (Fail (ErrAPI err), reg, w)
      | Inr npr \<Rightarrow>
          (let current = (ucast (npr_PortRangeCount (npr_Spec npr)) :: u16) in
           if cnt = current then (Return 0, reg, w)
           else if cnt > current
           then increaseCount E Ord reg npr (nc_Name nc) a extIPs (cnt - current)
                  (toUint16Ports (npr_ExcludePorts (npr_Spec npr))) w
           else decreaseCount E Ord reg npr (nc_Name nc) a extIPs cnt w))"

definition reconcileNPRR :: "'w opEnv \<Rightarrow> orders \<Rightarrow> AllocatorRegistry \<Rightarrow> string \<Rightarrow> 'w \<Rightarrow> 'w op_result" where
  "reconcileNPRR E Ord reg name w =
     (if \<not> Reconstructed reg then (Blocked, reg, w)
      else case GetNPRR E w name of
        Inl NotFound \<Rightarrow> markNPRStale E reg name (Metric E (DelRequestInfo name) w)
      | Inl err \<Rightarrow> (Fail (ErrAPI err), reg, w)
      | Inr nprr \<Rightarrow>
          (let w0 = Metric E (SetRequestInfo (nprr_Name nprr) (nprr_PodName (nprr_Spec nprr))
                     (nprr_PodNamespace (nprr_Spec nprr)) (nprr_NodeName (nprr_Spec nprr))
                     (nprr_NATConfig (nprr_Spec nprr))) w in
           case GetNATConfig E w0 (nprr_NATConfig (nprr_Spec nprr)) of
             Inl NotFound \<Rightarrow> (Return (10 * 1000000000), reg, w0)
           | Inl err \<Rightarrow> (Fail (ErrAPI err), reg, w0)
           | Inr nc \<Rightarrow>
               (case EnsureAllocator reg (nc_Name nc) (ucast (PortRangeSize (nc_Spec nc)))
                       (AllowRegisteredPorts (nc_Spec nc)) (toUint16Ports (ReservedPorts (nc_Spec nc))) of
                  (Inl e, reg1) \<Rightarrow> (Fail e, reg1, w0)
                | (Inr a0, reg1) \<Rightarrow>
                    (case expandCIDRs (ExternalIPPool (nc_Spec nc)) of
                       None \<Rightarrow> (Hangs, reg1, w0)
                     | Some (Inl cidr) \<Rightarrow> (Fail (ErrParseCIDR cidr), reg1, w0)
                     | Some (Inr extIPs) \<Rightarrow>
                         (let a = foldl EnsureIP a0 extIPs in
                          driveNPR E Ord (set_alloc reg1 (nc_Name nc) a) nprr nc a extIPs name w0)))))"

end
