(* ===== verification/Ranges.thy ===== *)
theory Ranges
  imports Requests
begin

text \<open>
  The operator's controller of NATPortRanges, \<open>internal/controller/operator/natportrange_controller.go\<close>:
  a range that is deleted or stale is kept for the cleanup window, so that the daemons can remove it
  from their eBPF maps, and only then are its blocks given back and its finalizer removed.
\<close>

definition sumAllocatedPorts :: "PortAllocation list \<Rightarrow> i32" where
  "sumAllocatedPorts allocs = foldl (\<lambda>total pa. total + (pa_PortEnd pa - pa_PortStart pa + 1)) 0 allocs"

definition DefaultBPFCleanupWindow :: gotime where
  "DefaultBPFCleanupWindow = 60 * 1000000000"

definition cleanupWindow :: "gotime \<Rightarrow> gotime" where
  "cleanupWindow bpfCleanupWindow =
     (if bpfCleanupWindow > 0 then bpfCleanupWindow else DefaultBPFCleanupWindow)"

definition ContainsFinalizer :: "NATPortRange \<Rightarrow> string \<Rightarrow> bool" where
  "ContainsFinalizer npr f \<longleftrightarrow> f \<in> set (npr_Finalizers npr)"

definition RemoveFinalizer :: "NATPortRange \<Rightarrow> string \<Rightarrow> NATPortRange" where
  "RemoveFinalizer npr f = npr\<lparr>npr_Finalizers := removeAll f (npr_Finalizers npr)\<rparr>"

definition allocs_to_free :: "PortAllocation list \<Rightarrow> (string \<rightharpoonup> Allocation list)" where
  "allocs_to_free pas = fold (\<lambda>pa. push_alloc (ExternalIP pa) (to_alloc pa)) pas Map.empty"

definition finish_release :: "'w opEnv \<Rightarrow> orders \<Rightarrow> AllocatorRegistry \<Rightarrow> NATPortRange \<Rightarrow> 'w \<Rightarrow> 'w op_result"
where
  "finish_release E Ord reg npr w =
     (let sp = npr_Spec npr in
      case UpdateNPR E (RemoveFinalizer npr finalizerName) w of
        (Some err, w1) \<Rightarrow> (Fail (ErrAPI err), reg, w1)
      | (None, w1) \<Rightarrow>
          (let w2 = Metric E (DelPortsAllocated (npr_PodName sp) (npr_PodNamespace sp)
                      (npr_NodeName sp) (npr_NATConfig sp)) w1;
               w3 = Metric E (DelAnyNATPortRangeInfo (npr_PodName sp) (npr_PodNamespace sp)
                      (npr_NodeName sp) (npr_NATConfig sp)) w2 in
           (Return 0, reg, RecordAvailability E (listOrder Ord) reg (npr_NATConfig sp) w3)))"

definition releaseAndFinalize ::
    "'w opEnv \<Rightarrow> orders \<Rightarrow> AllocatorRegistry \<Rightarrow> NATPortRange \<Rightarrow> 'w \<Rightarrow> 'w op_result" where
  "releaseAndFinalize E Ord reg npr w =
     (if \<not> ContainsFinalizer npr finalizerName then (Return 0, reg, w)
      else case Get reg (npr_NATConfig (npr_Spec npr)) of
        None \<Rightarrow> finish_release E Ord reg npr w
      | Some a \<Rightarrow>
          (case Free (freeOrder Ord) a (allocs_to_free (npr_Allocations (npr_Spec npr))) of
             (Some e, a1) \<Rightarrow> (Fail (ErrFree e), set_alloc reg (npr_NATConfig (npr_Spec npr)) a1, w)
           | (None, a1) \<Rightarrow>
               finish_release E Ord (set_alloc reg (npr_NATConfig (npr_Spec npr)) a1) npr w))"

definition range_metrics :: "'w opEnv \<Rightarrow> NATPortRange \<Rightarrow> 'w \<Rightarrow> 'w" where
  "range_metrics E npr w =
     (let sp = npr_Spec npr;
          (state, otherState) =
            (if npr_StaleSince sp \<noteq> None then (''stale_pending_cleanup'', ''active'')
             else (''active'', ''stale_pending_cleanup''));
          w1 = Metric E (SetPortsAllocated (npr_PodName sp) (npr_PodNamespace sp) (npr_NodeName sp)
                 (npr_NATConfig sp) (sumAllocatedPorts (npr_Allocations sp))) w;
          w2 = Metric E (SetNATPortRangeInfo (npr_PodName sp) (npr_PodNamespace sp) (npr_NodeName sp)
                 (npr_NATConfig sp) state) w1 in
      Metric E (DelNATPortRangeInfo (npr_PodName sp) (npr_PodNamespace sp) (npr_NodeName sp)
        (npr_NATConfig sp) otherState) w2)"

definition reconcileNPR ::
    "'w opEnv \<Rightarrow> orders \<Rightarrow> gotime \<Rightarrow> AllocatorRegistry \<Rightarrow> string \<Rightarrow> 'w \<Rightarrow> 'w op_result" where
  "reconcileNPR E Ord bpfCleanupWindow reg name w =
     (if \<not> Reconstructed reg then (Blocked, reg, w)
      else case GetNPR E w name of
        Inl err \<Rightarrow> (IgnoreNotFound err, reg, w)
      | Inr npr \<Rightarrow>
          (let w0 = range_metrics E npr w in
           if npr_DeletionTimestamp npr \<noteq> None then
             (case npr_StaleSince (npr_Spec npr) of
                None \<Rightarrow>
                  (case UpdateNPR E (set_stale (Now E w0) npr) w0 of
                     (Some err, w1) \<Rightarrow> (Fail (ErrAPI err), reg, w1)
                   | (None, w1) \<Rightarrow> (Return (cleanupWindow bpfCleanupWindow), reg, w1))
              | Some t \<Rightarrow>
                  (let remaining = t + cleanupWindow bpfCleanupWindow - Now E w0 in
                   if remaining > 0 then (Return remaining, reg, w0)
                   else releaseAndFinalize E Ord reg npr w0))
           else
             (case npr_StaleSince (npr_Spec npr) of
                None \<Rightarrow> (Return 0, reg, w0)
              | Some t \<Rightarrow>
                  (let remaining = t + cleanupWindow bpfCleanupWindow - Now E w0 in
                   if remaining > 0 then (Return remaining, reg, w0)
                   else (case DeleteNPR E npr w0 of
                           (Some err, w1) \<Rightarrow> (IgnoreNotFound err, reg, w1)
                         | (None, w1) \<Rightarrow> (Return 0, reg, w1))))))"

end
