(* ===== verification/Configs.thy ===== *)
theory Configs
  imports Requests
begin

text \<open>
  The operator's controller of NATConfigs, \<open>internal/controller/operator/natconfig_controller.go\<close>, and
  the start-up replay of \<open>internal/controller/operator/reconstruction.go\<close>.
\<close>

section \<open>Bringing one NATPortRange to the pool of its NATConfig\<close>

definition reconcileNPRAllocations ::
    "'w opEnv \<Rightarrow> orders \<Rightarrow> NATPortRange \<Rightarrow> string list \<Rightarrow> string set \<Rightarrow> BlockAllocator \<times> 'w \<Rightarrow>
     op_error option \<times> BlockAllocator \<times> 'w" where
  "reconcileNPRAllocations E Ord npr desiredIPs desiredSet aw =
     (let (a, w) = aw; sp = npr_Spec npr;
          byIP = groupAllocsByIP (npr_Allocations sp) Map.empty;
          toAdd = filter (\<lambda>ip. byIP ip = None) desiredIPs;
          needsRemoval = (\<exists>ip \<in> dom byIP. ip \<notin> desiredSet) in
      if toAdd = [] \<and> \<not> needsRemoval then (None, a, w)
      else
        (let kept = filter (\<lambda>pa. ExternalIP pa \<in> desiredSet) (npr_Allocations sp);
             cnt0 = (ucast (npr_PortRangeCount sp) :: u16);
             cnt = (if cnt0 = 0 then defaultPortRangeCount else cnt0) in
         case add_blocks (pickOrder Ord (npr_Name npr)) cnt (toUint16Ports (npr_ExcludePorts sp)) toAdd a
                kept (collectPortStarts kept) Map.empty of
           (Some (ip, e), a1, _, rb) \<Rightarrow>
             (Some (ErrAllocateNewIP ip (npr_Name npr) e), snd (Free (freeOrder Ord) a1 rb), w)
         | (None, a1, newAllocs, rb) \<Rightarrow>
             (case UpdateNPR E (npr\<lparr>npr_Spec := sp\<lparr>npr_Allocations := newAllocs\<rparr>\<rparr>) w of
                (Some err, w1) \<Rightarrow> (Some (ErrAPI err), snd (Free (freeOrder Ord) a1 rb), w1)
              | (None, w1) \<Rightarrow> (None, a1, w1))))"

text \<open>The loop of \<open>Reconcile\<close> over the NATPortRanges of the NATConfig, as the source skips them.\<close>

definition reconcile_ranges ::
    "'w opEnv \<Rightarrow> orders \<Rightarrow> string list \<Rightarrow> string set \<Rightarrow> NATPortRange list \<Rightarrow> BlockAllocator \<times> 'w \<Rightarrow>
     op_error option \<times> BlockAllocator \<times> 'w" where
  "reconcile_ranges E Ord desiredIPs desiredSet nprs aw =
     for_ret (\<lambda>npr v.
        if npr_DeletionTimestamp npr \<noteq> None \<or> npr_StaleSince (npr_Spec npr) \<noteq> None then (None, v)
        else reconcileNPRAllocations E Ord npr desiredIPs desiredSet v) nprs aw"

definition drop_ips :: "'w opEnv \<Rightarrow> string \<Rightarrow> string list \<Rightarrow> BlockAllocator \<times> 'w \<Rightarrow> BlockAllocator \<times> 'w" where
  "drop_ips E cfg removedIPs aw =
     foldl (\<lambda>(a, w) ip. (RemoveIP a ip,
        Metric E (DelNATConfigPortsTotal cfg ip) (Metric E (DelNATConfigPortsFree cfg ip) w)))
       aw removedIPs"

section \<open>The reconciler\<close>

definition forget_config_metrics :: "'w opEnv \<Rightarrow> string \<Rightarrow> 'w \<Rightarrow> 'w" where
  "forget_config_metrics E name w =
     Metric E (DelNATConfigInfo name) (Metric E (DelAllocationFailures name)
       (Metric E (DelConfigPortsTotal name) (Metric E (DelConfigPortsFree name) w)))"

text \<open>
  The second half of \<open>Reconcile\<close>: register the IPs of the pool, bring every range of the NATConfig to
  the pool, and only then drop the IPs that left it.
\<close>

definition reconcile_pool ::
    "'w opEnv \<Rightarrow> orders \<Rightarrow> AllocatorRegistry \<Rightarrow> string \<Rightarrow> BlockAllocator \<Rightarrow> string list \<Rightarrow> 'w \<Rightarrow> 'w op_result" where
  "reconcile_pool E Ord reg cfg a0 desiredIPs w =
     (let desiredSet = stringSet desiredIPs;
          a = foldl EnsureIP a0 desiredIPs;
          removedIPs = filter (\<lambda>ip. ip \<notin> desiredSet)
            (visit (listOrder Ord) (stringSet (ListIPs (listOrder Ord) a))) in
      case ListNPRsOfConfig E w cfg of
        Inl err \<Rightarrow> (Fail (ErrAPI err), set_alloc reg cfg a, w)
      | Inr nprs \<Rightarrow>
          (case reconcile_ranges E Ord desiredIPs desiredSet nprs (a, w) of
             (Some e, a1, w1) \<Rightarrow> (Fail e, set_alloc reg cfg a1, w1)
           | (None, a1, w1) \<Rightarrow>
               (let (a2, w2) = drop_ips E cfg removedIPs (a1, w1);
                    reg2 = set_alloc reg cfg a2 in
                (Return 0, reg2, RecordAvailability E (listOrder Ord) reg2 cfg w2))))"

definition reconcileNATConfig ::
    "'w opEnv \<Rightarrow> orders \<Rightarrow> AllocatorRegistry \<Rightarrow> string \<Rightarrow> 'w \<Rightarrow> 'w op_result" where
  "reconcileNATConfig E Ord reg name w =
     (if \<not> Reconstructed reg then (Blocked, reg, w)
      else case GetNATConfig E w name of
        Inl NotFound \<Rightarrow> (Return 0, Remove reg name, forget_config_metrics E name w)
      | Inl err \<Rightarrow> (Fail (ErrAPI err), reg, w)
      | Inr nc \<Rightarrow>
          (let w0 = Metric E (SetNATConfigInfo (nc_Name nc) (PortRangeSize (nc_Spec nc))) w in
           case EnsureAllocator reg (nc_Name nc) (ucast (PortRangeSize (nc_Spec nc)))
                  (AllowRegisteredPorts (nc_Spec nc)) (toUint16Ports (ReservedPorts (nc_Spec nc))) of
             (Inl e, reg1) \<Rightarrow> (Fail e, reg1, w0)
           | (Inr a0, reg1) \<Rightarrow>
               (case expandCIDRs (ExternalIPPool (nc_Spec nc)) of
                  None \<Rightarrow> (Hangs, reg1, w0)
                | Some (Inl cidr) \<Rightarrow> (Fail (ErrParseCIDR cidr), reg1, w0)
                | Some (Inr desiredIPs) \<Rightarrow>
                    reconcile_pool E Ord reg1 (nc_Name nc) a0 desiredIPs w0)))"

section \<open>Reconstruction\<close>

definition register_config ::
    "NATConfig \<Rightarrow> AllocatorRegistry \<Rightarrow> outcome option \<times> AllocatorRegistry" where
  "register_config nc reg =
     (case EnsureAllocator reg (nc_Name nc) (ucast (PortRangeSize (nc_Spec nc)))
             (AllowRegisteredPorts (nc_Spec nc)) (toUint16Ports (ReservedPorts (nc_Spec nc))) of
        (Inl e, reg1) \<Rightarrow> (Some (Fail e), reg1)
      | (Inr a, reg1) \<Rightarrow>
          (case expandCIDRs (ExternalIPPool (nc_Spec nc)) of
             None \<Rightarrow> (Some Hangs, reg1)
           | Some (Inl cidr) \<Rightarrow> (Some (Fail (ErrNATConfigPool (nc_Name nc) (ErrParseCIDR cidr))), reg1)
           | Some (Inr addrs) \<Rightarrow> (None, set_alloc reg1 (nc_Name nc) (foldl EnsureIP a addrs))))"

text \<open>A failing \<open>MarkUsed\<close> is logged and skipped; it leaves the allocator as it is.\<close>

definition mark_allocs :: "PortAllocation list \<Rightarrow> BlockAllocator \<Rightarrow> BlockAllocator" where
  "mark_allocs pas a = foldl (\<lambda>a pa. snd (MarkUsed a (ExternalIP pa) (ucast (pa_PortStart pa)))) a pas"

definition replay_range :: "AllocatorRegistry \<Rightarrow> NATPortRange \<Rightarrow> AllocatorRegistry" where
  "replay_range reg npr =
     (if npr_DeletionTimestamp npr \<noteq> None then reg
      else case Get reg (npr_NATConfig (npr_Spec npr)) of
        None \<Rightarrow> reg
      | Some a \<Rightarrow>
          set_alloc reg (npr_NATConfig (npr_Spec npr)) (mark_allocs (npr_Allocations (npr_Spec npr)) a))"

definition Start :: "'w opEnv \<Rightarrow> orders \<Rightarrow> AllocatorRegistry \<Rightarrow> 'w \<Rightarrow> 'w op_result" where
  "Start E Ord reg w =
     (case ListNATConfigs E w of
        Inl err \<Rightarrow> (Fail (ErrListNATConfigs err), reg, w)
      | Inr configs \<Rightarrow>
          (case for_ret register_config configs reg of
             (Some oc, reg1) \<Rightarrow> (oc, reg1, w)
           | (None, reg1) \<Rightarrow>
               (case ListNPRs E w of
                  Inl err \<Rightarrow> (Fail (ErrListNATPortRanges err), reg1, w)
                | Inr nprs \<Rightarrow>
                    (let reg2 = foldl replay_range reg1 nprs;
                         w1 = foldl (\<lambda>v nc. RecordAvailability E (listOrder Ord) reg2 (nc_Name nc) v) w configs in
                     case MarkReconstructed reg2 of
                       None \<Rightarrow> (Panics, reg2, w1)
                     | Some reg3 \<Rightarrow> (Return 0, reg3, w1)))))"

definition NeedLeaderElection :: bool where
  "NeedLeaderElection = True"

end
