(* ===== verification/OpSystem.thy ===== *)
theory OpSystem
  imports Ranges Configs
begin

text \<open>
  The operator as a system: the NATPortRanges stored by the API server, the allocators of the registry,
  and what ties them together.

  \<^item> \<open>owned V cfg\<close> is the ledger's owner map: what each stored NATPortRange of a NATConfig holds, as
    pairs of external IP and first port.
  \<^item> \<open>op_inv V reg\<close> is the invariant: for every NATConfig the stored ranges and the free blocks of its
    allocator form a ledger, all held blocks are blocks of the allocator on IPs it tracks, the ranges of
    one pod start at pairwise different ports, even on different IPs, and every stored range carries the
    finalizer of the operator and no other.
  \<^item> \<open>api_server E view\<close> states what the handlers rely on in the API server: optimistic concurrency on
    the resource version, reads from a cache that may lag behind, and failing calls without effect.
\<close>

section \<open>What the stored ranges hold\<close>

definition held :: "PortAllocation list \<Rightarrow> (string \<times> u16) set" where
  "held pas = (\<lambda>pa. (ExternalIP pa, ucast (pa_PortStart pa))) ` set pas"

abbreviation allocs_of :: "NATPortRange \<Rightarrow> PortAllocation list" where
  "allocs_of npr \<equiv> npr_Allocations (npr_Spec npr)"

abbreviation config_of :: "NATPortRange \<Rightarrow> string" where
  "config_of npr \<equiv> npr_NATConfig (npr_Spec npr)"

type_synonym npr_store = "string \<rightharpoonup> NATPortRange"

definition holds :: "string \<Rightarrow> NATPortRange \<Rightarrow> bool" where
  "holds cfg npr \<longleftrightarrow> config_of npr = cfg"

definition owned :: "npr_store \<Rightarrow> string \<Rightarrow> (string, string, u16) owner_map" where
  "owned V cfg name =
     (case V name of None \<Rightarrow> {} | Some npr \<Rightarrow> if holds cfg npr then held (allocs_of npr) else {})"

text \<open>The blocks of an allocator. Allocated ranges are such blocks, from first to last port.\<close>

definition blocks :: "BlockAllocator \<Rightarrow> Allocation set" where
  "blocks a = block_alloc a ` {i. i < totalBlocks a}"

definition good_allocs :: "BlockAllocator \<Rightarrow> PortAllocation list \<Rightarrow> bool" where
  "good_allocs a pas \<longleftrightarrow>
     distinct (collectPortStarts pas) \<and> to_alloc ` set pas \<subseteq> blocks a \<and>
     (\<forall>pa \<in> set pas. ips a (ExternalIP pa) \<noteq> None)"

definition cfg_inv :: "npr_store \<Rightarrow> string \<Rightarrow> BlockAllocator \<Rightarrow> bool" where
  "cfg_inv V cfg a \<longleftrightarrow> alloc_inv a \<and> ledger (block_avail a) (owned V cfg) \<and>
     (\<forall>name npr. V name = Some npr \<longrightarrow> holds cfg npr \<longrightarrow> good_allocs a (allocs_of npr))"

definition op_inv :: "npr_store \<Rightarrow> AllocatorRegistry \<Rightarrow> bool" where
  "op_inv V reg \<longleftrightarrow>
     (\<forall>cfg a. allocators reg cfg = Some a \<longrightarrow> cfg_inv V cfg a) \<and>
     (\<forall>cfg name. allocators reg cfg = None \<longrightarrow> owned V cfg name = {}) \<and>
     (\<forall>name npr. V name = Some npr \<longrightarrow> set (npr_Finalizers npr) = {finalizerName})"

section \<open>The API server\<close>

text \<open>\<open>stored_as x s\<close>: the server stores a submitted object, with a version of its own and the time cut to seconds.\<close>

definition stored_as :: "NATPortRange \<Rightarrow> NATPortRange \<Rightarrow> bool" where
  "stored_as x s \<longleftrightarrow>
     npr_Name s = npr_Name x \<and> npr_Finalizers s = npr_Finalizers x \<and>
     npr_DeletionTimestamp s = npr_DeletionTimestamp x \<and>
     (\<exists>st. npr_Spec s = (npr_Spec x)\<lparr>npr_StaleSince := st\<rparr> \<and>
       (st = None \<longleftrightarrow> npr_StaleSince (npr_Spec x) = None))"

definition same_version :: "npr_store \<Rightarrow> NATPortRange \<Rightarrow> bool" where
  "same_version V npr \<longleftrightarrow>
     (\<forall>cur. V (npr_Name npr) = Some cur \<longrightarrow> npr_ResourceVersion cur = npr_ResourceVersion npr \<longrightarrow> cur = npr)"

definition create_law :: "'w opEnv \<Rightarrow> ('w \<Rightarrow> npr_store) \<Rightarrow> bool" where
  "create_law E view \<longleftrightarrow> (\<forall>x w w'. CreateNPR E x w = (None, w') \<longrightarrow>
     view w (npr_Name x) = None \<and> (\<exists>s. stored_as x s \<and> view w' = (view w)(npr_Name x \<mapsto> s)))"

definition update_law :: "'w opEnv \<Rightarrow> ('w \<Rightarrow> npr_store) \<Rightarrow> bool" where
  "update_law E view \<longleftrightarrow> (\<forall>x w w'. UpdateNPR E x w = (None, w') \<longrightarrow>
     (\<exists>cur. view w (npr_Name x) = Some cur \<and> npr_ResourceVersion cur = npr_ResourceVersion x) \<and>
     (if npr_DeletionTimestamp x \<noteq> None \<and> npr_Finalizers x = []
      then view w' = (view w)(npr_Name x := None)
      else \<exists>s. stored_as x s \<and> view w' = (view w)(npr_Name x \<mapsto> s)))"

definition delete_law :: "'w opEnv \<Rightarrow> ('w \<Rightarrow> npr_store) \<Rightarrow> bool" where
  "delete_law E view \<longleftrightarrow> (\<forall>x w w'. DeleteNPR E x w = (None, w') \<longrightarrow>
     (\<exists>cur. view w (npr_Name x) = Some cur \<and>
       (if npr_Finalizers cur = [] then view w' = (view w)(npr_Name x := None)
        else \<exists>t v. t \<noteq> None \<and> view w' = (view w)(npr_Name x \<mapsto>
          cur\<lparr>npr_DeletionTimestamp := t, npr_ResourceVersion := v\<rparr>))))"

definition no_effect_law :: "'w opEnv \<Rightarrow> ('w \<Rightarrow> npr_store) \<Rightarrow> bool" where
  "no_effect_law E view \<longleftrightarrow>
     (\<forall>x w w' e. CreateNPR E x w = (Some e, w') \<or> UpdateNPR E x w = (Some e, w') \<or>
        DeleteNPR E x w = (Some e, w') \<longrightarrow> view w' = view w) \<and>
     (\<forall>m w. view (Metric E m w) = view w) \<and>
     (\<forall>m w cfg. ListNPRsOfConfig E (Metric E m w) cfg = ListNPRsOfConfig E w cfg)"

definition read_law :: "'w opEnv \<Rightarrow> ('w \<Rightarrow> npr_store) \<Rightarrow> bool" where
  "read_law E view \<longleftrightarrow>
     (\<forall>w name npr. GetNPR E w name = Inr npr \<longrightarrow> npr_Name npr = name \<and> same_version (view w) npr) \<and>
     (\<forall>w cfg nprs. ListNPRsOfConfig E w cfg = Inr nprs \<longrightarrow> distinct (map npr_Name nprs) \<and>
        (\<forall>npr \<in> set nprs. config_of npr = cfg \<and> same_version (view w) npr)) \<and>
     (\<forall>w name nprr. GetNPRR E w name = Inr nprr \<longrightarrow> nprr_Name nprr = name) \<and>
     (\<forall>w name nc. GetNATConfig E w name = Inr nc \<longrightarrow> nc_Name nc = name) \<and>
     (\<forall>w name npr. view w name = Some npr \<longrightarrow> npr_Name npr = name)"

definition api_server :: "'w opEnv \<Rightarrow> ('w \<Rightarrow> npr_store) \<Rightarrow> bool" where
  "api_server E view \<longleftrightarrow> create_law E view \<and> update_law E view \<and> delete_law E view \<and>
     no_effect_law E view \<and> read_law E view"

lemma api_create:
  "api_server E view \<Longrightarrow> CreateNPR E x w = (None, w') \<Longrightarrow>
     view w (npr_Name x) = None \<and> (\<exists>s. stored_as x s \<and> view w' = (view w)(npr_Name x \<mapsto> s))"
  unfolding api_server_def create_law_def by blast

lemma api_update:
  "api_server E view \<Longrightarrow> UpdateNPR E x w = (None, w') \<Longrightarrow>
     (\<exists>cur. view w (npr_Name x) = Some cur \<and> npr_ResourceVersion cur = npr_ResourceVersion x) \<and>
     (if npr_DeletionTimestamp x \<noteq> None \<and> npr_Finalizers x = []
      then view w' = (view w)(npr_Name x := None)
      else \<exists>s. stored_as x s \<and> view w' = (view w)(npr_Name x \<mapsto> s))"
  unfolding api_server_def update_law_def by metis

lemma api_delete:
  "api_server E view \<Longrightarrow> DeleteNPR E x w = (None, w') \<Longrightarrow>
     \<exists>cur. view w (npr_Name x) = Some cur \<and>
       (if npr_Finalizers cur = [] then view w' = (view w)(npr_Name x := None)
        else \<exists>t v. t \<noteq> None \<and> view w' = (view w)(npr_Name x \<mapsto>
          cur\<lparr>npr_DeletionTimestamp := t, npr_ResourceVersion := v\<rparr>))"
  unfolding api_server_def delete_law_def by metis

lemma api_failed:
  assumes "api_server E view"
  shows "CreateNPR E x w = (Some e, w') \<Longrightarrow> view w' = view w"
    "UpdateNPR E x w = (Some e, w') \<Longrightarrow> view w' = view w"
    "DeleteNPR E x w = (Some e, w') \<Longrightarrow> view w' = view w"
  using assms unfolding api_server_def no_effect_law_def by metis+

lemma api_metric: "api_server E view \<Longrightarrow> view (Metric E m w) = view w"
  unfolding api_server_def no_effect_law_def by blast

lemma api_metric_list:
  "api_server E view \<Longrightarrow> ListNPRsOfConfig E (Metric E m w) cfg = ListNPRsOfConfig E w cfg"
  unfolding api_server_def no_effect_law_def by blast

lemma api_keyed: "api_server E view \<Longrightarrow> view w name = Some npr \<Longrightarrow> npr_Name npr = name"
  unfolding api_server_def read_law_def by blast

lemma api_get:
  assumes "api_server E view"
  shows "GetNPR E w name = Inr npr \<Longrightarrow> npr_Name npr = name \<and> same_version (view w) npr"
    "GetNPRR E w name = Inr nprr \<Longrightarrow> nprr_Name nprr = name"
    "GetNATConfig E w name = Inr nc \<Longrightarrow> nc_Name nc = name"
  using assms unfolding api_server_def read_law_def by blast+

lemma api_list:
  assumes "api_server E view" "ListNPRsOfConfig E w cfg = Inr nprs"
  shows "distinct (map npr_Name nprs)"
    "npr \<in> set nprs \<Longrightarrow> config_of npr = cfg \<and> same_version (view w) npr"
  using assms unfolding api_server_def read_law_def by blast+

lemma api_record_ips: "api_server E view \<Longrightarrow> view (record_ips E name a xs w) = view w"
  by (induction E name a xs w rule: record_ips.induct) (simp_all add: api_metric split: option.splits)

lemma api_record: "api_server E view \<Longrightarrow> view (RecordAvailability E kord reg name w) = view w"
  by (simp add: RecordAvailability_def api_record_ips split: option.splits)

end
