(* ===== verification/OpBlocks.thy ===== *)
theory OpBlocks
  imports OpSystem
begin

text \<open>
  What the operator's handlers do to the blocks: the lists and maps of allocations they build, the blocks
  they take (\<open>grants\<close>) and give back, the loop that adds blocks on more IPs, and the trimming of
  \<open>decreaseCount\<close>.
\<close>

lemma dom_block_avail [simp]: "dom (block_avail a) = dom (ips a)"
  by (auto simp: block_avail_def)

lemma block_starts_blocks: "block_starts a = PortStart ` blocks a"
  by (auto simp: block_starts_def blocks_def)

lemma blocks_starts: "blocks a' = blocks a \<Longrightarrow> block_starts a' = block_starts a"
  by (simp add: block_starts_blocks)

lemma starts_in_blocks: "to_alloc ` set pas \<subseteq> blocks a \<Longrightarrow> set (collectPortStarts pas) \<subseteq> block_starts a"
  by (force simp: collectPortStarts_def block_starts_blocks to_alloc_def)

lemma blocks_update [simp]:
  "blocks (a\<lparr>exhaustedCalls := n\<rparr>) = blocks a" "blocks (a\<lparr>ips := m\<rparr>) = blocks a"
  "blocks (a\<lparr>reserved := r\<rparr>) = blocks a"
  by (simp_all add: blocks_def block_alloc_def)

lemma AllocateForIP_blocks: "AllocateForIP ord a ip cnt starts exports = (r, a') \<Longrightarrow> blocks a' = blocks a"
  by (auto simp: AllocateForIP_def notify_exhausted_def split: option.splits sum.splits if_splits)

lemma AllocateForPod_blocks: "AllocateForPod ord a xs cnt exports = (r, a') \<Longrightarrow> blocks a' = blocks a"
  by (cases r) (use AllocateForPod_Inl AllocateForPod_Inr(4) blocks_update in metis)+

section \<open>Lists of allocations\<close>

lemma held_simps [simp]:
  "held [] = {}" "held (xs @ ys) = held xs \<union> held ys"
  "held (pa # xs) = insert (ExternalIP pa, ucast (pa_PortStart pa)) (held xs)"
  by (auto simp: held_def)

lemma held_port_allocation: "held (map (port_allocation ip) als) = Pair ip ` PortStart ` set als"
  by (force simp: held_def port_allocation_def)

lemma collectPortStarts_simps [simp]:
  "collectPortStarts [] = []" "collectPortStarts (xs @ ys) = collectPortStarts xs @ collectPortStarts ys"
  "collectPortStarts (map (port_allocation ip) als) = map PortStart als"
  by (simp_all add: collectPortStarts_def port_allocation_def)

lemma snd_held: "snd ` held pas = set (collectPortStarts pas)"
  by (force simp: held_def collectPortStarts_def)

lemma alloc_items_iff:
  "(ip, ps) \<in> alloc_items R \<longleftrightarrow> ps \<in> PortStart ` (case R ip of None \<Rightarrow> {} | Some als \<Rightarrow> set als)"
  by (auto simp: alloc_items_def split: option.splits)

lemma alloc_items_push [simp]:
  "alloc_items (push_alloc ip al m) = insert (ip, PortStart al) (alloc_items m)"
  by (auto simp: alloc_items_iff push_alloc_def split: option.splits if_splits)

lemma alloc_items_push_fold:
  "alloc_items (fold (push_alloc ip) als m) = Pair ip ` PortStart ` set als \<union> alloc_items m"
  by (induction als arbitrary: m) auto

lemma dom_push [simp]: "dom (push_alloc ip al m) = insert ip (dom m)"
  by (auto simp: push_alloc_def)

lemma finite_dom_push_fold: "finite (dom m) \<Longrightarrow> finite (dom (fold (push_alloc ip) als m))"
  by (induction als arbitrary: m) auto

lemma alloc_items_empty [simp]: "alloc_items Map.empty = {}"
  by (simp add: alloc_items_def)

lemma groupAllocsByIP_gen:
  "groupAllocsByIP pas m ip =
     (let l = (case m ip of None \<Rightarrow> [] | Some l \<Rightarrow> l) @ filter (\<lambda>pa. ExternalIP pa = ip) pas in
      if m ip = None \<and> l = [] then None else Some l)"
proof (induction pas arbitrary: m ip)
  case (Cons pa pas)
  show ?case by (cases "ip = ExternalIP pa") (simp_all add: Cons.IH Let_def split: option.splits)
qed (simp split: option.splits)

lemma groupAllocsByIP_eq:
  "groupAllocsByIP pas Map.empty ip =
     (let l = filter (\<lambda>pa. ExternalIP pa = ip) pas in if l = [] then None else Some l)"
  by (simp add: groupAllocsByIP_gen Let_def)

lemma alloc_items_allocs_to_free: "alloc_items (allocs_to_free pas) = held pas"
proof -
  have "alloc_items (fold (\<lambda>pa. push_alloc (ExternalIP pa) (to_alloc pa)) pas m) = held pas \<union> alloc_items m" for m
    by (induction pas arbitrary: m) (auto simp: to_alloc_def)
  then show ?thesis by (simp add: allocs_to_free_def)
qed

lemma finite_dom_allocs_to_free: "finite (dom (allocs_to_free pas))"
proof -
  have "finite (dom m) \<Longrightarrow> finite (dom (fold (\<lambda>pa. push_alloc (ExternalIP pa) (to_alloc pa)) pas m))" for m
    by (induction pas arbitrary: m) auto
  then show ?thesis by (simp add: allocs_to_free_def)
qed

text \<open>What \<open>AllocateForIP\<close> hands out starts at blocks that differ from each other and from \<open>existing\<close>.\<close>

lemma AllocateForIP_starts:
  assumes "alloc_inv a" "cnt \<noteq> 0" "AllocateForIP ord a ip cnt starts exports = (Inr als, a')"
  shows "distinct (map PortStart als)" "set (map PortStart als) \<inter> set starts = {}"
    "set als \<subseteq> blocks a" "ips a ip \<noteq> None" "dom (ips a') = dom (ips a)"
proof -
  from assms(2,3) obtain free ex ch where f: "ips a ip = Some free"
    "ex = excludeSetFor a exports \<union> {idx. \<exists>ps \<in> set starts. blockIndexOf a ps = Inr idx}"
    "\<forall>ps \<in> set starts. \<exists>idx. blockIndexOf a ps = Inr idx"
    "distinct ch" "length ch = unat cnt" "set ch \<subseteq> free - ex"
    "als = map (block_alloc a) ch" "a' = a\<lparr>ips := (ips a)(ip \<mapsto> free - set ch)\<rparr>"
    by (rule AllocateForIP_Inr)
  have lt: "i < totalBlocks a" if "i \<in> set ch" for i
    using that f(6) alloc_invD(4) [OF assms(1) f(1)] by blast
  then have "inj_on (\<lambda>i. PortStart (block_alloc a i)) (set ch)"
    using PortStart_inj [OF assms(1)] by (intro inj_onI) blast
  with f(4) show "distinct (map PortStart als)" by (simp add: f(7) distinct_map o_def)
  show "set als \<subseteq> blocks a"
    using lt by (auto simp: f(7) blocks_def)
  show "set (map PortStart als) \<inter> set starts = {}"
  proof (rule ccontr)
    assume "set (map PortStart als) \<inter> set starts \<noteq> {}"
    then obtain i where i: "i \<in> set ch" "PortStart (block_alloc a i) \<in> set starts" by (auto simp: f(7))
    with blockIndexOf_block [OF assms(1) lt [OF i(1)]] f(2) have "i \<in> ex" by blast
    with i(1) f(6) show False by blast
  qed
  show "ips a ip \<noteq> None" "dom (ips a') = dom (ips a)" using f(1,8) by auto
qed


section \<open>Taking blocks and giving them back\<close>

definition grants :: "BlockAllocator \<Rightarrow> (string \<times> u16) set \<Rightarrow> BlockAllocator \<Rightarrow> bool" where
  "grants a G a' \<longleftrightarrow> alloc_inv a' \<and> blocks a' = blocks a \<and> dom (ips a') = dom (ips a) \<and>
     G \<subseteq> offered (block_avail a) \<and> finite G \<and> block_avail a' = take_items G (block_avail a)"

lemma grants_refl: "alloc_inv a \<Longrightarrow> grants a {} a"
  by (simp add: grants_def)

lemma grants_trans: "grants a G a1 \<Longrightarrow> grants a1 H a2 \<Longrightarrow> grants a (G \<union> H) a2"
  using offered_take unfolding grants_def by (auto simp: take_items_Un) blast

lemma AllocateForIP_grants:
  assumes "alloc_inv a" "cnt \<noteq> 0" "AllocateForIP ord a ip cnt starts exports = (Inr als, a')"
  shows "grants a (Pair ip ` PortStart ` set als) a'"
proof -
  have "alloc_items [ip \<mapsto> als] = Pair ip ` PortStart ` set als"
    by (auto simp: alloc_items_iff split: if_splits)
  then show ?thesis
    using AllocateForIP_items [OF assms] AllocateForIP_starts(5) [OF assms]
      AllocateForIP_inv [OF assms(1,3)] AllocateForIP_blocks [OF assms(3)]
    by (simp add: grants_def)
qed

lemma AllocateForIP_no_grant:
  assumes "alloc_inv a" "AllocateForIP ord a ip cnt starts exports = (Inl e, a')"
  shows "grants a {} a'"
  using AllocateForIP_refuse [OF assms(2)] AllocateForIP_blocks [OF assms(2)] AllocateForIP_inv [OF assms] AllocateForIP_Inl [OF assms(2)]
  by (auto simp: grants_def)

lemma AllocateForPod_grants:
  assumes "alloc_inv a" "AllocateForPod ord a xs cnt exports = (Inr R, a')"
  shows "grants a (alloc_items R) a'"
proof -
  have "dom (ips a') = dom (ips a)"
    using AllocateForPod_Inr(1,5) [OF assms(2)] unfolding pod_choice_def
    by (intro set_eqI) (metis domIff option.distinct(1))
  then show ?thesis
    using AllocateForPod_items [OF assms] AllocateForPod_inv [OF assms]
      AllocateForPod_blocks [OF assms(2)] by (simp add: grants_def)
qed

lemma AllocateForPod_ips:
  "AllocateForPod ord a xs cnt exports = (Inr R, a') \<Longrightarrow> R ip = Some als \<Longrightarrow> \<exists>free. ips a ip = Some free"
  using AllocateForPod_Inr(1,5) [of ord a xs cnt exports R a'] unfolding pod_choice_def
  by (metis option.distinct(1))

lemma AllocateForPod_no_grant:
  assumes "alloc_inv a" "AllocateForPod ord a xs cnt exports = (Inl e, a')"
  shows "grants a {} a'"
  using AllocateForPod_refuse [OF assms(2)] AllocateForPod_blocks [OF assms(2)] AllocateForPod_inv [OF assms] AllocateForPod_Inl [OF assms(2)]
  by (auto simp: grants_def)

lemma Free_gives:
  assumes "alloc_inv a" "finite (dom m)" "snd ` alloc_items m \<subseteq> block_starts a"
    "Free kord a m = (r, a')"
  shows "r = None" "alloc_inv a'" "block_avail a' = give_items (alloc_items m) (block_avail a)"
    "blocks a' = blocks a" "dom (ips a') = dom (ips a)"
proof -
  obtain a2 where F: "Free kord a m = (None, a2)"
    "block_avail a2 = give_items (alloc_items m) (block_avail a)" "a2 = a\<lparr>ips := ips a2\<rparr>"
    using Free_items [OF assms(1-3)] by blast
  with assms(4) show "r = None" "block_avail a' = give_items (alloc_items m) (block_avail a)" by auto
  from F assms(4) have "a' = a\<lparr>ips := ips a'\<rparr>" by simp
  then show "blocks a' = blocks a" by (metis blocks_update(2))
  show "alloc_inv a'" by (rule Free_inv [OF assms(1,2,4)])
  from \<open>block_avail a' = give_items (alloc_items m) (block_avail a)\<close>
  have "dom (block_avail a') = dom (block_avail a)" by simp
  then show "dom (ips a') = dom (ips a)" by simp
qed

lemma grants_rollback:
  assumes "alloc_inv a" "grants a G a1" "finite (dom m)" "alloc_items m = G"
  shows "grants a {} (snd (Free kord a1 m))"
proof -
  obtain r a2 where F: "Free kord a1 m = (r, a2)" by fastforce
  have inv1: "alloc_inv a1" and G: "G \<subseteq> offered (block_avail a)"
    and ba: "block_avail a1 = take_items G (block_avail a)"
    and bs: "blocks a1 = blocks a" "dom (ips a1) = dom (ips a)"
    using assms(2) by (auto simp: grants_def)
  have "snd ` alloc_items m \<subseteq> block_starts a1"
    unfolding assms(4) blocks_starts [OF bs(1)]
    by (rule order_trans [OF image_mono [OF G] offered_block_starts [OF assms(1)]])
  from Free_gives [OF inv1 assms(3) this F] show ?thesis
    by (simp add: F grants_def assms(4) ba give_take_items [OF G] bs)
qed

text \<open>
  The loop of \<open>increaseCount\<close> and \<open>reconcileNPRAllocations\<close>, whether it is served in full or stopped by
  a refusal: what it added is what it took and what \<open>rollback\<close> records.
\<close>

lemma add_blocks_spec:
  assumes "add_blocks ord cnt exports xs a new existing rb = (r, a', new', rb')"
    "alloc_inv a" "cnt \<noteq> 0" "finite (dom rb)"
  shows "\<exists>added. new' = new @ added \<and> grants a (held added) a' \<and>
    alloc_items rb' = alloc_items rb \<union> held added \<and> finite (dom rb') \<and>
    distinct (collectPortStarts added) \<and> set (collectPortStarts added) \<inter> set existing = {} \<and>
    to_alloc ` set added \<subseteq> blocks a \<and>
    (\<forall>pa \<in> set added. ips a (ExternalIP pa) \<noteq> None \<and> ExternalIP pa \<in> set xs)"
  using assms
proof (induction ord cnt exports xs a new existing rb rule: add_blocks.induct)
  case (1 ord cnt exports a new existing rb)
  then show ?case by (intro exI [of _ "[]"]) (auto intro: grants_refl)
next
  case (2 ord cnt exports ip rest a new existing rb)
  obtain res a1 where A: "AllocateForIP (ord ip) a ip cnt existing exports = (res, a1)" by fastforce
  show ?case
  proof (cases res)
    case (Inl e)
    with 2(2-5) A show ?thesis
      using AllocateForIP_no_grant [OF 2(3)] by (intro exI [of _ "[]"]) auto
  next
    case (Inr als)
    note A' = A [unfolded Inr]
    note g = AllocateForIP_grants [OF 2(3,4) A'] and st = AllocateForIP_starts [OF 2(3,4) A']
    let ?one = "map (port_allocation ip) als"
    from g have a1: "alloc_inv a1" "blocks a1 = blocks a" "dom (ips a1) = dom (ips a)"
      by (auto simp: grants_def)
    have "add_blocks ord cnt exports rest a1 (new @ ?one) (existing @ map PortStart als)
        (fold (push_alloc ip) als rb) = (r, a', new', rb')"
      using 2(2) A' by simp
    then obtain added where h: "new' = (new @ ?one) @ added" "grants a1 (held added) a'"
      "alloc_items rb' = alloc_items (fold (push_alloc ip) als rb) \<union> held added" "finite (dom rb')"
      "distinct (collectPortStarts added)"
      "set (collectPortStarts added) \<inter> set (existing @ map PortStart als) = {}"
      "to_alloc ` set added \<subseteq> blocks a1"
      "\<forall>pa \<in> set added. ips a1 (ExternalIP pa) \<noteq> None \<and> ExternalIP pa \<in> set rest"
      using 2(1) [OF A' [symmetric] refl _ a1(1) 2(4)] finite_dom_push_fold [OF 2(5)] by blast
    have "grants a (held (?one @ added)) a'"
      using grants_trans [OF g h(2)] by (simp add: held_port_allocation)
    moreover have "\<forall>pa \<in> set added. ips a (ExternalIP pa) \<noteq> None" using h(8) a1(3) by blast
    moreover have "\<forall>pa \<in> set ?one. ExternalIP pa = ip" by (auto simp: port_allocation_def)
    ultimately show ?thesis
      using h st a1(2) by (intro exI [of _ "?one @ added"])
        (auto simp: alloc_items_push_fold held_port_allocation)
  qed
qed

section \<open>Trimming\<close>

text \<open>What \<open>decreaseCount\<close> keeps and what it drops on one IP.\<close>

definition ranges_on :: "PortAllocation list \<Rightarrow> string \<Rightarrow> PortAllocation list" where
  "ranges_on pas ip = sort_key (\<lambda>pa. sint (pa_PortStart pa)) (filter (\<lambda>pa. ExternalIP pa = ip) pas)"

definition kept_on :: "u16 \<Rightarrow> PortAllocation list \<Rightarrow> string \<Rightarrow> PortAllocation list" where
  "kept_on d pas ip =
     (if (word_of_nat (length (ranges_on pas ip)) :: u16) > d then take (unat d) (ranges_on pas ip)
      else ranges_on pas ip)"

definition dropped_on :: "u16 \<Rightarrow> PortAllocation list \<Rightarrow> string \<Rightarrow> PortAllocation list" where
  "dropped_on d pas ip =
     (if (word_of_nat (length (ranges_on pas ip)) :: u16) > d then drop (unat d) (ranges_on pas ip) else [])"

lemma set_ranges_on: "set (ranges_on pas ip) = {pa \<in> set pas. ExternalIP pa = ip}"
  by (auto simp: ranges_on_def)

lemma kept_dropped: "kept_on d pas ip @ dropped_on d pas ip = ranges_on pas ip"
  by (simp add: kept_on_def dropped_on_def)

lemma kept_on_set: "set (kept_on d pas ip) \<subseteq> {pa \<in> set pas. ExternalIP pa = ip}"
  "set (dropped_on d pas ip) \<subseteq> {pa \<in> set pas. ExternalIP pa = ip}"
  using set_ranges_on [of pas ip] kept_dropped [of d pas ip] by (metis set_append Un_upper1 Un_upper2)+

lemma alloc_items_to_alloc_fold:
  "alloc_items (fold (\<lambda>pa. push_alloc ip (to_alloc pa)) pas m) =
     (\<lambda>pa. (ip, ucast (pa_PortStart pa))) ` set pas \<union> alloc_items m"
  by (induction pas arbitrary: m) (auto simp: to_alloc_def)

lemma finite_dom_to_alloc_fold:
  "finite (dom m) \<Longrightarrow> finite (dom (fold (\<lambda>pa. push_alloc ip (to_alloc pa)) pas m))"
  by (induction pas arbitrary: m) auto

lemma group_ranges_on:
  "sort_key (\<lambda>pa. sint (pa_PortStart pa))
     (case groupAllocsByIP pas Map.empty ip of None \<Rightarrow> [] | Some l \<Rightarrow> l) = ranges_on pas ip"
  by (simp add: groupAllocsByIP_eq ranges_on_def Let_def)

lemma trim_blocks_gen:
  assumes "trim_blocks (groupAllocsByIP pas Map.empty) d xs toFree new = (toFree', new')"
  shows "new' = new @ concat (map (kept_on d pas) xs) \<and>
    alloc_items toFree' = alloc_items toFree \<union> (\<Union>ip \<in> set xs. held (dropped_on d pas ip)) \<and>
    (finite (dom toFree) \<longrightarrow> finite (dom toFree'))"
  using assms
proof (induction xs arbitrary: toFree new)
  case (Cons ip xs)
  have same: "(\<lambda>pa. (ip, ucast (pa_PortStart pa))) ` set (dropped_on d pas ip) = held (dropped_on d pas ip)"
    using kept_on_set(2) [of d pas ip] by (force simp: held_def)
  show ?case
  proof (cases "(word_of_nat (length (ranges_on pas ip)) :: u16) > d")
    case True
    have eqs: "kept_on d pas ip = take (unat d) (ranges_on pas ip)"
      "dropped_on d pas ip = drop (unat d) (ranges_on pas ip)"
      using True by (simp_all add: kept_on_def dropped_on_def)
    from Cons.prems True have "trim_blocks (groupAllocsByIP pas Map.empty) d xs
        (fold (\<lambda>pa. push_alloc ip (to_alloc pa)) (dropped_on d pas ip) toFree) (new @ kept_on d pas ip) =
        (toFree', new')"
      by (simp add: group_ranges_on Let_def eqs)
    from Cons.IH [OF this] same show ?thesis
      by (auto simp: alloc_items_to_alloc_fold finite_dom_to_alloc_fold)
  next
    case False
    with Cons.prems have "trim_blocks (groupAllocsByIP pas Map.empty) d xs toFree (new @ kept_on d pas ip) =
        (toFree', new')"
      by (simp add: group_ranges_on Let_def kept_on_def)
    from Cons.IH [OF this] False show ?thesis by (simp add: dropped_on_def)
  qed
qed simp

lemma distinct_concat_kept:
  assumes "distinct pas" "distinct xs"
  shows "distinct (concat (map (kept_on d pas) xs))"
  using assms(2)
proof (induction xs)
  case (Cons ip xs)
  have "distinct (ranges_on pas ip)" using assms(1) by (simp add: ranges_on_def)
  then have "distinct (kept_on d pas ip)" by (metis kept_dropped distinct_append)
  moreover have "set (kept_on d pas ip) \<inter> set (concat (map (kept_on d pas) xs)) = {}"
  proof -
    have "ExternalIP pa = k" if "pa \<in> set (kept_on d pas k)" for pa k using that kept_on_set(1) by blast
    then show ?thesis using Cons.prems by auto
  qed
  ultimately show ?case using Cons by simp
qed simp

lemma trim_blocks_spec:
  assumes "trim_blocks (groupAllocsByIP pas Map.empty) d xs Map.empty [] = (toFree, new)"
    and "distinct xs" and dist: "distinct (collectPortStarts pas)"
  shows "set new \<subseteq> set pas" "distinct (collectPortStarts new)" "finite (dom toFree)"
    "alloc_items toFree \<subseteq> held pas" "alloc_items toFree \<inter> held new = {}"
proof -
  from trim_blocks_gen [OF assms(1)] have new: "new = concat (map (kept_on d pas) xs)"
    and items: "alloc_items toFree = (\<Union>ip \<in> set xs. held (dropped_on d pas ip))"
    and "finite (dom toFree)" by auto
  then show "finite (dom toFree)" by simp
  from new kept_on_set(1) show sub: "set new \<subseteq> set pas" by fastforce
  from dist have dp: "distinct pas" and inj: "inj_on (\<lambda>pa. ucast (pa_PortStart pa) :: u16) (set pas)"
    by (auto simp: collectPortStarts_def distinct_map)
  show "distinct (collectPortStarts new)"
    using distinct_concat_kept [OF dp assms(2), of d] inj_on_subset [OF inj sub] new
    by (auto simp: collectPortStarts_def distinct_map)
  show "alloc_items toFree \<subseteq> held pas"
    unfolding items held_def using kept_on_set(2) by fastforce
  show "alloc_items toFree \<inter> held new = {}"
  proof (rule ccontr)
    assume "alloc_items toFree \<inter> held new \<noteq> {}"
    then obtain ip pa pb where "pa \<in> set (dropped_on d pas ip)" "pb \<in> set new"
      "(ExternalIP pa, ucast (pa_PortStart pa) :: u16) = (ExternalIP pb, ucast (pa_PortStart pb))"
      by (fastforce simp: items held_def)
    moreover from this have "pa \<in> set pas" "ExternalIP pa = ip" "pb \<in> set pas"
      using kept_on_set(2) sub by fastforce+
    ultimately have eq: "pa = pb" using inj by (auto dest: inj_onD)
    from \<open>pb \<in> set new\<close> eq new have "pa \<in> set (kept_on d pas (ExternalIP pa))"
      using kept_on_set(1) by fastforce
    moreover have "distinct (kept_on d pas ip @ dropped_on d pas ip)"
      using dp by (simp add: kept_dropped ranges_on_def)
    ultimately show False
      using \<open>pa \<in> set (dropped_on d pas ip)\<close> \<open>ExternalIP pa = ip\<close> by auto
  qed
qed

section \<open>Blocks of a new range\<close>

lemma held_build:
  assumes "finite (dom R)"
  shows "held (buildPortAllocations kord R) = alloc_items R"
proof -
  have "held (concat (map (\<lambda>ip. map (port_allocation ip) (case R ip of None \<Rightarrow> [] | Some als \<Rightarrow> als)) ks)) =
      {(ip, ps) \<in> alloc_items R. ip \<in> set ks}" for ks
  proof (induction ks)
    case (Cons k ks)
    then show ?case by (cases "R k") (auto simp: held_port_allocation alloc_items_iff)
  qed simp
  then show ?thesis
    using assms by (auto simp: buildPortAllocations_def alloc_items_iff split: option.splits)
qed

lemma ips_build:
  assumes "finite (dom R)" "pa \<in> set (buildPortAllocations kord R)"
  shows "ExternalIP pa \<in> dom R"
  using assms by (auto simp: buildPortAllocations_def port_allocation_def split: option.splits)

lemma AllocateForPod_build_distinct:
  assumes "alloc_inv a" "AllocateForPod ord a xs cnt exports = (Inr R, a')"
  shows "distinct (collectPortStarts (buildPortAllocations kord R))"
proof -
  obtain ch where ch: "pod_choice cnt xs (excludeSetFor a exports) a ch R a'"
    using AllocateForPod_Inr(1) [OF assms(2)] by blast
  note at = ch [unfolded pod_choice_def, THEN conjunct1, rule_format]
  have dom: "dom R = set xs" by (rule AllocateForPod_items(3) [OF assms])
  have lt: "i < totalBlocks a" if "ip \<in> set xs" "i \<in> set (ch ip)" for ip i
    using at [OF that(1)] that(2) alloc_invD(4) [OF assms(1), of ip] by blast
  let ?st = "\<lambda>ip. map (\<lambda>i. PortStart (block_alloc a i)) (ch ip)"
  have "distinct (concat (map ?st ks))" if "set ks \<subseteq> set xs" "distinct ks" for ks
    using that
  proof (induction ks)
    case (Cons k ks)
    then have k: "k \<in> set xs" "k \<notin> set ks" by auto
    have "inj_on (\<lambda>i. PortStart (block_alloc a i)) (set (ch k))"
      using PortStart_inj [OF assms(1)] lt [OF k(1)] by (intro inj_onI) blast
    moreover have "distinct (ch k)" using at [OF k(1)] by blast
    moreover have "set (?st k) \<inter> set (?st k') = {}" if "k' \<in> set ks" for k'
    proof -
      from that k Cons.prems have k': "k' \<in> set xs" "k' \<noteq> k" by auto
      with ch k(1) have "set (ch k) \<inter> set (ch k') = {}" by (auto simp: pod_choice_def)
      moreover have "i = j" if "i \<in> set (ch k)" "j \<in> set (ch k')"
        "PortStart (block_alloc a i) = PortStart (block_alloc a j)" for i j
        using PortStart_inj [OF assms(1) lt [OF k(1) that(1)] lt [OF k'(1) that(2)] that(3)] .
      ultimately show ?thesis by auto
    qed
    ultimately show ?case using Cons by (auto simp: distinct_map)
  qed simp
  moreover have "collectPortStarts (buildPortAllocations kord R) = concat (map ?st (visit kord (set xs)))"
  proof -
    have "collectPortStarts (concat (map f ks)) = concat (map (collectPortStarts \<circ> f) ks)" for f and ks :: "string list"
      by (induction ks) auto
    moreover have "concat (map (collectPortStarts \<circ> (\<lambda>ip. map (port_allocation ip)
        (case R ip of None \<Rightarrow> [] | Some als \<Rightarrow> als))) (visit kord (set xs))) = concat (map ?st (visit kord (set xs)))"
      by (intro arg_cong [where f = concat] map_cong) (auto simp: o_def dest: at)
    ultimately show ?thesis by (simp add: buildPortAllocations_def dom)
  qed
  ultimately show ?thesis by simp
qed

lemma build_blocks:
  assumes "alloc_inv a" "AllocateForPod ord a xs cnt exports = (Inr R, a')"
  shows "to_alloc ` set (buildPortAllocations kord R) \<subseteq> blocks a"
proof -
  obtain ch where ch: "pod_choice cnt xs (excludeSetFor a exports) a ch R a'"
    using AllocateForPod_Inr(1) [OF assms(2)] by blast
  note at = ch [unfolded pod_choice_def, THEN conjunct1, rule_format]
  have dom: "dom R = set xs" by (rule AllocateForPod_items(3) [OF assms])
  have "al \<in> blocks a" if "R ip = Some als" "al \<in> set als" for ip als al
  proof -
    from that dom have "ip \<in> set xs" by blast
    from at [OF this] that alloc_invD(4) [OF assms(1)] show ?thesis by (fastforce simp: blocks_def)
  qed
  moreover have "\<exists>ip als al. R ip = Some als \<and> al \<in> set als \<and> pa = port_allocation ip al"
    if pa: "pa \<in> set (buildPortAllocations kord R)" for pa
  proof -
    from pa dom obtain ip where "pa \<in> port_allocation ip ` set (case R ip of None \<Rightarrow> [] | Some als \<Rightarrow> als)"
      by (auto simp: buildPortAllocations_def)
    then show ?thesis by (cases "R ip") auto
  qed
  ultimately show ?thesis by fastforce
qed

lemma built_good:
  assumes "alloc_inv a" "AllocateForPod ord a xs cnt exports = (Inr R, a')"
  shows "good_allocs a (buildPortAllocations kord R)"
proof -
  have fin: "finite (dom R)" using AllocateForPod_items(3) [OF assms] by simp
  have "ips a (ExternalIP pa) \<noteq> None" if "pa \<in> set (buildPortAllocations kord R)" for pa
    using ips_build [OF fin that] AllocateForPod_ips [OF assms(2)] by auto
  then show ?thesis
    using AllocateForPod_build_distinct [OF assms] build_blocks [OF assms] by (auto simp: good_allocs_def)
qed

end
