(* ===== verification/OpInv.thy ===== *)
theory OpInv
  imports OpBlocks
begin

text \<open>
  Every handler of the operator keeps \<open>op_inv\<close>. The first part says how the invariant moves when one
  stored range or one allocator changes; the rest applies it to the handlers, with the API server's
  optimistic concurrency (\<open>api_update_current\<close>) making an accepted update a change of the current
  object however stale the read was.
\<close>

section \<open>Moving the invariant\<close>

lemma holds_stored: "stored_as x s \<Longrightarrow> holds cfg s = holds cfg x \<and> npr_Finalizers s = npr_Finalizers x \<and> allocs_of s = allocs_of x \<and> config_of s = config_of x"
  by (auto simp: stored_as_def holds_def ContainsFinalizer_def)

lemma owned_other: "V' n = V n \<Longrightarrow> owned V' cfg n = owned V cfg n"
  by (simp add: owned_def)

lemma owned_Some: "V n = Some npr \<Longrightarrow> owned V cfg n = (if holds cfg npr then held (allocs_of npr) else {})"
  by (simp add: owned_def)

lemma owned_None: "V n = None \<Longrightarrow> owned V cfg n = {}"
  by (simp add: owned_def)

lemma cfg_invD:
  assumes "cfg_inv V cfg a"
  shows "alloc_inv a" "ledger (block_avail a) (owned V cfg)"
    "V name = Some npr \<Longrightarrow> holds cfg npr \<Longrightarrow> good_allocs a (allocs_of npr)"
  using assms by (auto simp: cfg_inv_def)

lemma good_allocs_mono:
  "good_allocs a pas \<Longrightarrow> blocks a' = blocks a \<Longrightarrow> dom (ips a) \<subseteq> dom (ips a') \<Longrightarrow> good_allocs a' pas"
  unfolding good_allocs_def by (metis domIff subsetD)

text \<open>A grant that no range records keeps the invariant: the blocks are only lost to the pool.\<close>

lemma cfg_inv_grants:
  assumes "cfg_inv V cfg a" "grants a G a'"
  shows "cfg_inv V cfg a'"
proof -
  note inv = cfg_invD [OF assms(1)]
  from assms(2) have g: "alloc_inv a'" "blocks a' = blocks a" "dom (ips a') = dom (ips a)"
    "G \<subseteq> offered (block_avail a)" "block_avail a' = take_items G (block_avail a)"
    by (auto simp: grants_def)
  have "ledger (block_avail a') (owned V cfg)"
    using ledger_take [OF inv(2) g(4), of undefined] unfolding g(5)
    by (rule ledger_subset) auto
  moreover have "good_allocs a' pas" if "good_allocs a pas" for pas
    using good_allocs_mono [OF that g(2)] g(3) by simp
  ultimately show ?thesis using g(1) inv(3) unfolding cfg_inv_def by blast
qed

text \<open>
  The stored range \<open>name\<close> changes to \<open>new\<close> (or disappears), after the allocator granted \<open>G\<close>: it may then
  hold \<open>G\<close> beside what it held.
\<close>

lemma cfg_inv_store:
  assumes "cfg_inv V cfg a" "grants a G a'"
    and new: "\<And>npr. new = Some npr \<Longrightarrow> holds cfg npr \<Longrightarrow>
      held (allocs_of npr) \<subseteq> owned V cfg name \<union> G \<and> good_allocs a (allocs_of npr)"
  shows "cfg_inv (V(name := new)) cfg a'"
proof -
  note inv = cfg_invD [OF assms(1)]
  from assms(2) have g: "alloc_inv a'" "blocks a' = blocks a" "dom (ips a') = dom (ips a)"
    "G \<subseteq> offered (block_avail a)" "block_avail a' = take_items G (block_avail a)"
    by (auto simp: grants_def)
  have sub: "owned (V(name := new)) cfg n \<subseteq> ((owned V cfg)(name := owned V cfg name \<union> G)) n" for n
    using new by (cases "n = name"; cases new) (auto simp: owned_def)
  have led: "ledger (block_avail a') (owned (V(name := new)) cfg)"
    using ledger_subset [OF ledger_take [OF inv(2) g(4)] sub] by (simp add: g(5))
  have "good_allocs a' (allocs_of npr)" if "(V(name := new)) n = Some npr" "holds cfg npr" for n npr
  proof -
    have "good_allocs a (allocs_of npr)" using that new inv(3) by (cases "n = name") auto
    from good_allocs_mono [OF this g(2)] g(3) show ?thesis by simp
  qed
  with g(1) led show ?thesis unfolding cfg_inv_def by blast
qed

text \<open>The blocks \<open>G\<close> of the range \<open>name\<close> go back, and the range keeps none of them.\<close>

lemma cfg_inv_give:
  assumes "cfg_inv V cfg a" "G \<subseteq> owned V cfg name"
    and a': "alloc_inv a'" "block_avail a' = give_items G (block_avail a)" "blocks a' = blocks a"
      "dom (ips a') = dom (ips a)"
    and new: "\<And>npr. new = Some npr \<Longrightarrow> holds cfg npr \<Longrightarrow>
      held (allocs_of npr) \<subseteq> owned V cfg name - G \<and> good_allocs a (allocs_of npr)"
  shows "cfg_inv (V(name := new)) cfg a'"
proof -
  note inv = cfg_invD [OF assms(1)]
  have sub: "owned (V(name := new)) cfg n \<subseteq> ((owned V cfg)(name := owned V cfg name - G)) n" for n
    using new by (cases "n = name"; cases new) (auto simp: owned_def)
  have "ledger (block_avail a') (owned (V(name := new)) cfg)"
    using ledger_subset [OF ledger_give [OF inv(2) assms(2)] sub] by (simp add: a'(2))
  moreover have "good_allocs a' (allocs_of npr)" if "(V(name := new)) n = Some npr" "holds cfg npr" for n npr
  proof -
    have "good_allocs a (allocs_of npr)" using that new inv(3) by (cases "n = name") auto
    from good_allocs_mono [OF this a'(3)] a'(4) show ?thesis by simp
  qed
  ultimately show ?thesis using a'(1) unfolding cfg_inv_def by blast
qed

lemma op_invD:
  assumes "op_inv V reg"
  shows "allocators reg cfg = Some a \<Longrightarrow> cfg_inv V cfg a" "allocators reg cfg = None \<Longrightarrow> owned V cfg n = {}"
    "V n = Some npr \<Longrightarrow> set (npr_Finalizers npr) = {finalizerName}"
  using assms by (auto simp: op_inv_def)

lemma op_inv_set_alloc:
  assumes "op_inv V reg" "cfg_inv V cfg a"
  shows "op_inv V (set_alloc reg cfg a)"
  using assms by (auto simp: op_inv_def set_alloc_def split: if_splits)

lemma cfg_inv_frame:
  assumes "cfg_inv V cfg' a"
    and "\<And>npr. new = Some npr \<Longrightarrow> holds cfg' npr \<Longrightarrow> \<exists>cur. V name = Some cur \<and> holds cfg' cur \<and>
      set (allocs_of npr) \<subseteq> set (allocs_of cur) \<and> distinct (collectPortStarts (allocs_of npr))"
  shows "cfg_inv (V(name := new)) cfg' a"
proof (rule cfg_inv_store [OF assms(1) grants_refl])
  show "alloc_inv a" using cfg_invD(1) [OF assms(1)] .
  fix npr assume n: "new = Some npr" "holds cfg' npr"
  then obtain cur where c: "V name = Some cur" "holds cfg' cur" "set (allocs_of npr) \<subseteq> set (allocs_of cur)"
    "distinct (collectPortStarts (allocs_of npr))" using assms(2) by blast
  from cfg_invD(3) [OF assms(1) c(1,2)] c show "held (allocs_of npr) \<subseteq> owned V cfg' name \<union> {} \<and> good_allocs a (allocs_of npr)"
    by (auto simp: owned_Some held_def good_allocs_def collectPortStarts_def)
qed

text \<open>One range of \<open>cfg\<close> changes together with the allocator of \<open>cfg\<close>; the other NATConfigs see nothing.\<close>

lemma op_inv_store:
  assumes inv: "op_inv V reg" and cfg: "cfg_inv (V(name := new)) cfg a'"
    and new: "\<And>npr. new = Some npr \<Longrightarrow> config_of npr = cfg \<and> set (npr_Finalizers npr) = {finalizerName}"
  shows "op_inv (V(name := new)) (set_alloc reg cfg a')"
  unfolding op_inv_def
proof (intro conjI allI impI)
  fix cfg' b assume b: "allocators (set_alloc reg cfg a') cfg' = Some b"
  show "cfg_inv (V(name := new)) cfg' b"
  proof (cases "cfg' = cfg")
    case True
    with b cfg show ?thesis by (simp add: set_alloc_def)
  next
    case False
    with b have "cfg_inv V cfg' b" using op_invD(1) [OF inv] by (simp add: set_alloc_def)
    then show ?thesis by (rule cfg_inv_frame) (use new False in \<open>auto simp: holds_def\<close>)
  qed
next
  fix cfg' n assume b: "allocators (set_alloc reg cfg a') cfg' = None"
  then have "cfg' \<noteq> cfg" "owned V cfg' n = {}"
    using op_invD(2) [OF inv] by (auto simp: set_alloc_def split: if_splits)
  then show "owned (V(name := new)) cfg' n = {}"
    using new by (auto simp: owned_def holds_def split: if_splits option.splits)
next
  show "set (npr_Finalizers npr) = {finalizerName}" if "(V(name := new)) n = Some npr" for n npr
    using that new op_invD(3) [OF inv] by (auto split: if_splits)
qed

text \<open>A range that only loses blocks, or is stored again with the blocks it has.\<close>

lemma op_inv_shrink:
  assumes inv: "op_inv V reg"
    and fin: "\<And>npr. new = Some npr \<Longrightarrow> set (npr_Finalizers npr) = {finalizerName}"
    and new: "\<And>npr cfg. new = Some npr \<Longrightarrow> holds cfg npr \<Longrightarrow> \<exists>cur. V name = Some cur \<and> holds cfg cur \<and>
      set (allocs_of npr) \<subseteq> set (allocs_of cur) \<and>
      (distinct (collectPortStarts (allocs_of cur)) \<longrightarrow> distinct (collectPortStarts (allocs_of npr)))"
  shows "op_inv (V(name := new)) reg"
  unfolding op_inv_def
proof (intro conjI allI impI)
  fix cfg' b assume "allocators reg cfg' = Some b"
  then have ci: "cfg_inv V cfg' b" using op_invD(1) [OF inv] by blast
  then show "cfg_inv (V(name := new)) cfg' b"
    by (rule cfg_inv_frame) (use new cfg_invD(3) [OF ci] in \<open>unfold good_allocs_def, metis\<close>)
next
  fix cfg' n assume "allocators reg cfg' = None"
  then have o: "owned V cfg' n = {}" using op_invD(2) [OF inv] by blast
  show "owned (V(name := new)) cfg' n = {}"
  proof (cases "n = name")
    case True
    show ?thesis
    proof (cases "\<exists>npr. new = Some npr \<and> holds cfg' npr")
      case ex: True
      then obtain npr cur where "new = Some npr" "holds cfg' npr" "V name = Some cur" "holds cfg' cur"
        "set (allocs_of npr) \<subseteq> set (allocs_of cur)" using new by blast
      with o True show ?thesis by (simp add: owned_def held_def)
    qed (use True in \<open>auto simp: owned_def split: option.splits\<close>)
  qed (use o in \<open>simp add: owned_def\<close>)
next
  show "set (npr_Finalizers npr) = {finalizerName}" if "(V(name := new)) n = Some npr" for n npr
    using that fin op_invD(3) [OF inv] by (auto split: if_splits)
qed

section \<open>Registering allocators and IPs\<close>

lemma block_avail_reserved [simp]:
  "block_avail (SetReservedPorts a ps) = block_avail a" "blocks (SetReservedPorts a ps) = blocks a"
  "ips (SetReservedPorts a ps) = ips a"
  by (simp_all add: SetReservedPorts_def block_avail_def block_alloc_def fun_eq_iff)

lemma cfg_inv_SetReservedPorts: "cfg_inv V cfg a \<Longrightarrow> cfg_inv V cfg (SetReservedPorts a ps)"
  by (auto simp: cfg_inv_def good_allocs_def intro: SetReservedPorts_inv)

lemma cfg_inv_New:
  assumes "New bs mn mx name cb = Inr a" "\<And>n. owned V cfg n = {}"
  shows "cfg_inv V cfg a"
proof -
  have "ips a = Map.empty" using assms(1) by (auto simp: New_def Let_def split: if_splits)
  then have "block_avail a = Map.empty" by (simp add: block_avail_def fun_eq_iff)
  moreover have "allocs_of npr = []" if "V n = Some npr" "holds cfg npr" for n npr
    using assms(2) [of n] that by (simp add: owned_def held_def)
  ultimately show ?thesis
    using New_alloc_inv [OF assms(1)] assms(2) by (auto simp: cfg_inv_def ledger_def good_allocs_def)
qed

lemma EnsureAllocator_op_inv:
  assumes "op_inv V reg" "EnsureAllocator reg cfg bs allow res = (r, reg1)"
  shows "op_inv V reg1" "reconstructed reg1 = reconstructed reg"
    "r = Inr a \<Longrightarrow> cfg_inv V cfg a \<and> reg1 = set_alloc reg cfg a"
proof -
  have *: "(\<exists>e. r = Inl e \<and> reg1 = reg) \<or> (\<exists>a. r = Inr a \<and> cfg_inv V cfg a \<and> reg1 = set_alloc reg cfg a)"
  proof (cases "allocators reg cfg")
    case None
    note own = op_invD(2) [OF assms(1) None]
    show ?thesis
    proof (cases "New bs (if allow then MinPortFull else MinPortDynamic) MaxPort cfg True")
      case (Inl e)
      with None assms(2) show ?thesis by (auto simp: EnsureAllocator_def)
    next
      case (Inr b)
      from cfg_inv_SetReservedPorts [OF cfg_inv_New [OF Inr own]] None Inr assms(2) show ?thesis
        by (auto simp: EnsureAllocator_def Let_def)
    qed
  next
    case (Some b)
    from cfg_inv_SetReservedPorts [OF op_invD(1) [OF assms(1) Some]] Some assms(2) show ?thesis
      by (auto simp: EnsureAllocator_def Let_def)
  qed
  then show "op_inv V reg1" using op_inv_set_alloc [OF assms(1)] assms(1) by blast
  from * show "reconstructed reg1 = reconstructed reg" by (auto simp: set_alloc_def)
  from * show "r = Inr a \<Longrightarrow> cfg_inv V cfg a \<and> reg1 = set_alloc reg cfg a" by auto
qed

lemma EnsureIP_fields:
  "blocks (EnsureIP a ip) = blocks a" "dom (ips (EnsureIP a ip)) = insert ip (dom (ips a))"
  "ip' \<noteq> ip \<or> ips a ip \<noteq> None \<Longrightarrow> block_avail (EnsureIP a ip) ip' = block_avail a ip'"
  by (auto simp: EnsureIP_def block_avail_def block_alloc_def)

lemma cfg_inv_EnsureIP:
  assumes "cfg_inv V cfg a"
  shows "cfg_inv V cfg (EnsureIP a ip)"
proof -
  note inv = cfg_invD [OF assms]
  have tracked: "ips a ip' \<noteq> None" if "(ip', ps) \<in> owned V cfg n" for ip' ps n
  proof -
    from that obtain npr where "V n = Some npr" "holds cfg npr" "(ip', ps) \<in> held (allocs_of npr)"
      by (auto simp: owned_def split: option.splits if_splits)
    with inv(3) show ?thesis by (auto simp: good_allocs_def held_def)
  qed
  have "ledger (block_avail (EnsureIP a ip)) (owned V cfg)"
  proof (rule ledgerI)
    show "ps \<notin> S" if o: "(ip', ps) \<in> owned V cfg n" and "block_avail (EnsureIP a ip) ip' = Some S" for n ip' ps S
    proof -
      have "block_avail (EnsureIP a ip) ip' = block_avail a ip'"
        using tracked [OF o] by (intro EnsureIP_fields(3)) auto
      with ledger_held [OF inv(2) o] that(2) show ?thesis by simp
    qed
  qed (use ledger_disjoint [OF inv(2)] in blast)
  moreover have "good_allocs (EnsureIP a ip) pas" if "good_allocs a pas" for pas
    using good_allocs_mono [OF that EnsureIP_fields(1)] EnsureIP_fields(2) by blast
  ultimately show ?thesis using EnsureIP_inv [OF inv(1)] inv(3) unfolding cfg_inv_def by blast
qed

lemma cfg_inv_foldl_EnsureIP: "cfg_inv V cfg a \<Longrightarrow> cfg_inv V cfg (foldl EnsureIP a xs)"
  by (induction xs arbitrary: a) (auto intro: cfg_inv_EnsureIP)

lemma dom_foldl_EnsureIP: "dom (ips (foldl EnsureIP a xs)) = set xs \<union> dom (ips a)"
  by (induction xs arbitrary: a) (auto simp: EnsureIP_fields(2))

section \<open>The request controller\<close>

lemma set_alloc_twice [simp]: "set_alloc (set_alloc reg cfg a) cfg b = set_alloc reg cfg b"
  by (simp add: set_alloc_def)

lemma createNPR_op_inv:
  assumes api: "api_server E view" and inv: "op_inv (view w) reg" and ci: "cfg_inv (view w) (nc_Name nc) a"
    and nc: "nprr_NATConfig (nprr_Spec nprr) = nc_Name nc"
    and run: "createNPR E Ord reg nprr nc a extIPs cnt w = (oc, reg', w')"
  shows "op_inv (view w') reg'"
proof -
  let ?cfg = "nc_Name nc"
  note ai = cfg_invD(1) [OF ci]
  obtain res a1 where A: "AllocateForPod (pickOrder Ord (nprr_Name nprr)) a extIPs cnt
      (toUint16Ports (nprr_ExcludePorts (nprr_Spec nprr))) = (res, a1)" by fastforce
  show ?thesis
  proof (cases res)
    case (Inl e)
    with A run have "reg' = set_alloc reg ?cfg a1" "w' = w" by (auto simp: createNPR_def)
    with cfg_inv_grants [OF ci AllocateForPod_no_grant [OF ai A [unfolded Inl]]] show ?thesis
      by (simp add: op_inv_set_alloc [OF inv])
  next
    case (Inr R)
    note A' = A [unfolded Inr]
    note g = AllocateForPod_grants [OF ai A']
    have fin: "finite (dom R)" using AllocateForPod_items(3) [OF ai A'] by simp
    let ?npr = "new_npr Ord nprr nc cnt R"
    obtain c w1 where C: "CreateNPR E ?npr w = (c, w1)" by fastforce
    show ?thesis
    proof (cases c)
      case (Some err)
      with A' C run have "reg' = set_alloc reg ?cfg (snd (Free (freeOrder Ord) a1 R))" "w' = w1"
        by (auto simp: createNPR_def Let_def split: if_splits prod.splits)
      with cfg_inv_grants [OF ci grants_rollback [OF ai g fin refl]] api_failed(1) [OF api C [unfolded Some]]
      show ?thesis by (simp add: op_inv_set_alloc [OF inv])
    next
      case None
      with A' C run have r: "reg' = set_alloc reg ?cfg a1" "view w' = view w1"
        by (auto simp: createNPR_def Let_def api_record [OF api])
      from api_create [OF api C [unfolded None]] obtain s where s: "stored_as ?npr s"
        "view w1 = (view w)(nprr_Name nprr \<mapsto> s)" "view w (nprr_Name nprr) = None"
        by (auto simp: new_npr_def)
      from holds_stored [OF s(1)] have al: "allocs_of s = buildPortAllocations (buildOrder Ord) R"
        "config_of s = ?cfg \<and> set (npr_Finalizers s) = {finalizerName}" by (simp_all add: new_npr_def nc)
      have "good_allocs a (allocs_of s)" using built_good [OF ai A'] by (simp add: al)
      then have "cfg_inv ((view w)(nprr_Name nprr \<mapsto> s)) ?cfg a1"
        by (intro cfg_inv_store [OF ci g]) (auto simp: al held_build [OF fin])
      from op_inv_store [OF inv this] al(2) show ?thesis by (simp add: r s(2))
    qed
  qed
qed

text \<open>
  Optimistic concurrency: an accepted update of an object that was read was based on the current
  object, however stale the cache is.
\<close>

lemma api_update_current:
  assumes "api_server E view" "same_version (view w) npr" "UpdateNPR E x w = (None, w')"
    "npr_Name x = npr_Name npr" "npr_ResourceVersion x = npr_ResourceVersion npr"
  obtains new where "view w (npr_Name npr) = Some npr" "view w' = (view w)(npr_Name npr := new)"
    "\<And>s. new = Some s \<Longrightarrow> stored_as x s"
proof -
  note u = api_update [OF assms(1,3)]
  from u assms(2,4,5) have cur: "view w (npr_Name npr) = Some npr" by (auto simp: same_version_def)
  show ?thesis
  proof (cases "npr_DeletionTimestamp x \<noteq> None \<and> npr_Finalizers x = []")
    case True
    with u assms(4) show ?thesis by (intro that [OF cur, of None]) auto
  next
    case False
    with u obtain s where "stored_as x s" "view w' = (view w)(npr_Name x \<mapsto> s)" by auto
    with assms(4) show ?thesis by (intro that [OF cur, of "Some s"]) auto
  qed
qed

text \<open>
  Blocks taken for a range and then stored with it: \<open>increaseCount\<close> keeps all its old blocks,
  \<open>reconcileNPRAllocations\<close> those on the pool.
\<close>

lemma store_added:
  assumes api: "api_server E view" and inv: "op_inv (view w) reg" and ci: "cfg_inv (view w) cfg a"
    and ver: "same_version (view w) npr" and cfg: "view w (npr_Name npr) = Some npr \<Longrightarrow> config_of npr = cfg"
    and U: "UpdateNPR E x w = (None, w1)"
    and x: "npr_Name x = npr_Name npr" "npr_ResourceVersion x = npr_ResourceVersion npr"
      "npr_Finalizers x = npr_Finalizers npr" "config_of x = config_of npr" "allocs_of x = kept @ added"
    and kept: "set kept \<subseteq> set (allocs_of npr)"
      "distinct (collectPortStarts (allocs_of npr)) \<Longrightarrow> distinct (collectPortStarts kept)"
    and g: "grants a (held added) a1"
    and st: "distinct (collectPortStarts added)" "set (collectPortStarts added) \<inter> set (collectPortStarts kept) = {}"
      "to_alloc ` set added \<subseteq> blocks a" "\<forall>pa \<in> set added. ips a (ExternalIP pa) \<noteq> None"
  shows "op_inv (view w1) (set_alloc reg cfg a1)"
    "\<exists>s. view w1 = (view w)(npr_Name npr := s) \<and> (\<forall>y. s = Some y \<longrightarrow> allocs_of y = kept @ added)"
proof -
  obtain s where s: "view w (npr_Name npr) = Some npr" "view w1 = (view w)(npr_Name npr := s)"
    "\<And>y. s = Some y \<Longrightarrow> stored_as x y"
    using api_update_current [OF api ver U x(1,2)] by auto
  have h: "allocs_of y = kept @ added" "config_of y = cfg" "set (npr_Finalizers y) = {finalizerName}"
    if "s = Some y" for y
    using holds_stored [OF s(3) [OF that]] cfg [OF s(1)] x op_invD(3) [OF inv s(1)] by auto
  from h(1) s(2) show "\<exists>s. view w1 = (view w)(npr_Name npr := s) \<and> (\<forall>y. s = Some y \<longrightarrow> allocs_of y = kept @ added)"
    by blast
  have own: "owned (view w) cfg (npr_Name npr) = held (allocs_of npr)" and good: "good_allocs a (allocs_of npr)"
    using cfg [OF s(1)] s(1) cfg_invD(3) [OF ci s(1)] by (auto simp: owned_def holds_def)
  have "held kept \<subseteq> held (allocs_of npr)" using kept(1) by (auto simp: held_def)
  moreover have "to_alloc ` set kept \<subseteq> blocks a" using good kept(1) by (auto simp: good_allocs_def)
  then have "good_allocs a (kept @ added)" using good kept st by (auto simp: good_allocs_def)
  ultimately have "cfg_inv ((view w)(npr_Name npr := s)) cfg a1"
    using h(1) own by (intro cfg_inv_store [OF ci g]) auto
  from op_inv_store [OF inv this] h(2,3) s(2) show "op_inv (view w1) (set_alloc reg cfg a1)" by simp
qed

lemma increaseCount_op_inv:
  assumes api: "api_server E view" and inv: "op_inv (view w) reg" and ci: "cfg_inv (view w) cfg a"
    and ver: "same_version (view w) npr" and delta: "delta \<noteq> 0"
    and pair: "\<And>cur. view w (npr_Name npr) = Some cur \<Longrightarrow> config_of cur = cfg"
    and run: "increaseCount E Ord reg npr cfg a extIPs delta excl w = (oc, reg', w')"
  shows "op_inv (view w') reg'"
proof -
  note ai = cfg_invD(1) [OF ci]
  obtain r a1 new rb where A: "add_blocks (pickOrder Ord (npr_Name npr)) delta excl extIPs a []
      (collectPortStarts (allocs_of npr)) Map.empty = (r, a1, new, rb)" by (metis prod_cases4)
  from add_blocks_spec [OF A ai delta] have g: "grants a (held new) a1" "alloc_items rb = held new" "finite (dom rb)"
    and st: "distinct (collectPortStarts new)" "set (collectPortStarts new) \<inter> set (collectPortStarts (allocs_of npr)) = {}"
      "to_alloc ` set new \<subseteq> blocks a" "\<forall>pa \<in> set new. ips a (ExternalIP pa) \<noteq> None" by auto
  note undo = op_inv_set_alloc [OF inv cfg_inv_grants [OF ci grants_rollback [OF ai g(1,3,2)]], of "freeOrder Ord"]
  let ?x = "npr\<lparr>npr_Spec := (npr_Spec npr)\<lparr>npr_Allocations := allocs_of npr @ new,
                 npr_PortRangeCount := npr_PortRangeCount (npr_Spec npr) + ucast delta\<rparr>\<rparr>"
  obtain c w1 where U: "UpdateNPR E ?x w = (c, w1)" by fastforce
  consider ipe where "r = Some ipe" | err where "r = None" "c = Some err" | "r = None" "c = None"
    by (cases r; cases c) auto
  then show ?thesis
  proof cases
    case 1
    with A run undo show ?thesis by (auto simp: increaseCount_def split: prod.splits)
  next
    case 2
    with A U run undo api_failed(2) [OF api U [unfolded 2(2)]] show ?thesis
      by (auto simp: increaseCount_def Let_def)
  next
    case 3
    with A U run have r: "reg' = set_alloc reg cfg a1" "view w' = view w1"
      by (auto simp: increaseCount_def Let_def api_record [OF api])
    from store_added(1) [OF api inv ci ver pair U [unfolded 3(2)], where kept = "allocs_of npr" and added = new]
      g(1) st show ?thesis by (simp add: r)
  qed
qed

lemma op_inv_restored:
  assumes api: "api_server E view" and inv: "op_inv (view w) reg" and ver: "same_version (view w) npr"
    and U: "UpdateNPR E x w = (None, w')"
    and x: "npr_Name x = npr_Name npr" "npr_ResourceVersion x = npr_ResourceVersion npr"
      "npr_Finalizers x = npr_Finalizers npr" "config_of x = config_of npr" "allocs_of x = allocs_of npr"
  shows "op_inv (view w') reg"
proof -
  obtain s where s: "view w (npr_Name npr) = Some npr" "view w' = (view w)(npr_Name npr := s)"
    "\<And>y. s = Some y \<Longrightarrow> stored_as x y"
    using api_update_current [OF api ver U x(1,2)] by auto
  have "op_inv ((view w)(npr_Name npr := s)) reg"
    by (rule op_inv_shrink [OF inv])
      (use s holds_stored x op_invD(3) [OF inv s(1)] in \<open>fastforce simp: holds_def\<close>)+
  then show ?thesis by (simp add: s)
qed

lemma markNPRStale_op_inv:
  assumes api: "api_server E view" and inv: "op_inv (view w) reg"
    and run: "markNPRStale E reg name w = (oc, reg', w')"
  shows "op_inv (view w') reg'"
proof (cases "GetNPR E w name")
  case (Inl e)
  with run inv show ?thesis by (auto simp: markNPRStale_def)
next
  case (Inr npr)
  note ver = api_get(1) [OF api Inr]
  show ?thesis
  proof (cases "npr_StaleSince (npr_Spec npr)")
    case None
    obtain c w1 where U: "UpdateNPR E (set_stale (Now E w) npr) w = (c, w1)" by fastforce
    with run Inr None have r: "reg' = reg" "w' = w1" by (auto simp: markNPRStale_def split: option.splits)
    show ?thesis
    proof (cases c)
      case None
      with U r ver show ?thesis
        using op_inv_restored [OF api inv, of npr "set_stale (Now E w) npr" w1] by (simp add: set_stale_def)
    next
      case (Some e)
      with api_failed(2) [OF api U [unfolded Some]] r inv show ?thesis by simp
    qed
  qed (use run Inr inv in \<open>auto simp: markNPRStale_def\<close>)
qed

lemma decreaseCount_op_inv:
  assumes api: "api_server E view" and inv: "op_inv (view w) reg" and ci: "cfg_inv (view w) cfg a"
    and ver: "same_version (view w) npr" and dist: "distinct extIPs"
    and pair: "\<And>cur. view w (npr_Name npr) = Some cur \<Longrightarrow> config_of cur = cfg"
    and run: "decreaseCount E Ord reg npr cfg a extIPs desired w = (oc, reg', w')"
  shows "op_inv (view w') reg'"
proof -
  note ai = cfg_invD(1) [OF ci]
  obtain toFree new where T: "trim_blocks (groupAllocsByIP (allocs_of npr) Map.empty) desired extIPs Map.empty [] =
      (toFree, new)" by fastforce
  let ?npr1 = "npr\<lparr>npr_Spec := (npr_Spec npr)\<lparr>npr_Allocations := new, npr_PortRangeCount := ucast desired\<rparr>\<rparr>"
  obtain c w1 where U: "UpdateNPR E ?npr1 w = (c, w1)" by fastforce
  show ?thesis
  proof (cases c)
    case (Some err)
    with T U run api_failed(2) [OF api U [unfolded Some]] op_inv_set_alloc [OF inv ci] show ?thesis
      by (auto simp: decreaseCount_def Let_def)
  next
    case None
    with T U run have r: "reg' = set_alloc reg cfg (snd (Free (freeOrder Ord) a toFree))" "view w' = view w1"
      by (auto simp: decreaseCount_def Let_def api_record [OF api])
    obtain s where s: "view w (npr_Name npr) = Some npr" "view w1 = (view w)(npr_Name npr := s)"
      "\<And>x. s = Some x \<Longrightarrow> stored_as ?npr1 x"
      using api_update_current [OF api ver U [unfolded None]] by auto
    have h: "holds cfg' x = holds cfg' npr" "allocs_of x = new" "config_of x = config_of npr"
        "npr_Finalizers x = npr_Finalizers npr"
      if "s = Some x" for x cfg'
      using holds_stored [OF s(3) [OF that]] by (auto simp: holds_def ContainsFinalizer_def)
    have own: "owned (view w) cfg (npr_Name npr) = held (allocs_of npr)" and good: "good_allocs a (allocs_of npr)"
      using pair [OF s(1)] s(1) cfg_invD(3) [OF ci s(1)] by (auto simp: owned_def holds_def)
    note trim = trim_blocks_spec [OF T dist good [unfolded good_allocs_def, THEN conjunct1]]
    obtain r2 a2 where F: "Free (freeOrder Ord) a toFree = (r2, a2)" by fastforce
    have "snd ` alloc_items toFree \<subseteq> snd ` held (allocs_of npr)" by (rule image_mono [OF trim(4)])
    also have "\<dots> \<subseteq> block_starts a" using good starts_in_blocks by (simp add: good_allocs_def snd_held)
    finally have "snd ` alloc_items toFree \<subseteq> block_starts a" .
    note gives = Free_gives [OF ai trim(3) this F]
    have "cfg_inv ((view w)(npr_Name npr := s)) cfg a2"
    proof (rule cfg_inv_give [OF ci _ gives(2-5)])
      show "alloc_items toFree \<subseteq> owned (view w) cfg (npr_Name npr)" using trim(4) own by simp
      fix x assume x: "s = Some x"
      have "held new \<subseteq> held (allocs_of npr)" using trim(1) by (auto simp: held_def)
      moreover have "good_allocs a new"
        using good trim(1,2) by (auto simp: good_allocs_def collectPortStarts_def)
      ultimately show "held (allocs_of x) \<subseteq> owned (view w) cfg (npr_Name npr) - alloc_items toFree \<and>
          good_allocs a (allocs_of x)"
        using trim(5) own h(2) [OF x] by auto
    qed
    from op_inv_store [OF inv this] h(3,4) pair op_invD(3) [OF inv s(1)] s show ?thesis by (simp add: r F)
  qed
qed

lemma driveNPR_op_inv:
  assumes api: "api_server E view" and inv: "op_inv (view w) reg" and ci: "cfg_inv (view w) (nc_Name nc) a"
    and nc: "nprr_NATConfig (nprr_Spec nprr) = nc_Name nc" and dist: "distinct extIPs"
    and pair: "\<And>cur. view w name = Some cur \<Longrightarrow> config_of cur = nc_Name nc"
    and run: "driveNPR E Ord reg nprr nc a extIPs name w = (oc, reg', w')"
  shows "op_inv (view w') reg'"
proof (cases "GetNPR E w name")
  case (Inl e)
  with run inv createNPR_op_inv [OF api inv ci nc] show ?thesis
    by (cases e) (auto simp: driveNPR_def Let_def)
next
  case (Inr npr)
  note ver = api_get(1) [OF api Inr]
  then have pair': "\<And>cur. view w (npr_Name npr) = Some cur \<Longrightarrow> config_of cur = nc_Name nc"
    and sv: "same_version (view w) npr" using pair by auto
  let ?cnt = "requested_count nprr" and ?cur = "ucast (npr_PortRangeCount (npr_Spec npr)) :: u16"
  consider "?cnt = ?cur" | "?cnt > ?cur" | "?cnt < ?cur" by force
  then show ?thesis
  proof cases
    case 1
    with run Inr inv show ?thesis by (auto simp: driveNPR_def Let_def)
  next
    case 2
    then have ne: "?cnt - ?cur \<noteq> 0" "?cnt \<noteq> ?cur" by auto
    with run Inr 2 have "increaseCount E Ord reg npr (nc_Name nc) a extIPs (?cnt - ?cur)
        (toUint16Ports (npr_ExcludePorts (npr_Spec npr))) w = (oc, reg', w')"
      by (simp add: driveNPR_def Let_def)
    from increaseCount_op_inv [OF api inv ci sv ne(1) pair' this] show ?thesis .
  next
    case 3
    then have "\<not> ?cnt > ?cur" "?cnt \<noteq> ?cur" by auto
    with run Inr have "decreaseCount E Ord reg npr (nc_Name nc) a extIPs ?cnt w = (oc, reg', w')"
      by (simp add: driveNPR_def Let_def)
    from decreaseCount_op_inv [OF api inv ci sv dist pair' this] show ?thesis .
  qed
qed

lemma reconcileNPRR_op_inv:
  assumes api: "api_server E view" and inv: "op_inv (view w) reg"
    and pair: "\<And>nprr cur. GetNPRR E w name = Inr nprr \<Longrightarrow> view w name = Some cur \<Longrightarrow>
      config_of cur = nprr_NATConfig (nprr_Spec nprr)"
    and run: "reconcileNPRR E Ord reg name w = (oc, reg', w')"
  shows "op_inv (view w') reg'"
proof (cases "Reconstructed reg")
  case rec: True
  show ?thesis
  proof (cases "GetNPRR E w name")
    case (Inl e)
    with rec run inv markNPRStale_op_inv [OF api, of "Metric E (DelRequestInfo name) w"] show ?thesis
      by (cases e) (auto simp: reconcileNPRR_def api_metric [OF api])
  next
    case (Inr nprr)
    let ?sp = "nprr_Spec nprr"
    define w0 where "w0 = Metric E (SetRequestInfo (nprr_Name nprr) (nprr_PodName ?sp)
      (nprr_PodNamespace ?sp) (nprr_NodeName ?sp) (nprr_NATConfig ?sp)) w"
    have v0: "view w0 = view w" by (simp add: w0_def api_metric [OF api])
    note run1 = run [unfolded reconcileNPRR_def if_P [OF rec] Inr Let_def sum.case, folded w0_def]
    show ?thesis
    proof (cases "GetNATConfig E w0 (nprr_NATConfig ?sp)")
      case (Inl e)
      with run1 rec inv v0 show ?thesis by (cases e) auto
    next
      case nc: (Inr nc)
      have name: "nc_Name nc = nprr_NATConfig ?sp" using api_get(3) [OF api nc] .
      obtain r reg1 where EA: "EnsureAllocator reg (nc_Name nc) (ucast (PortRangeSize (nc_Spec nc)))
         (AllowRegisteredPorts (nc_Spec nc)) (toUint16Ports (ReservedPorts (nc_Spec nc))) = (r, reg1)" by fastforce
      note ea = EnsureAllocator_op_inv [OF inv EA]
      show ?thesis
      proof (cases "\<exists>a0 extIPs. r = Inr a0 \<and> expandCIDRs (ExternalIPPool (nc_Spec nc)) = Some (Inr extIPs)")
        case False
        then have "view w' = view w \<and> reg' = reg1"
          using run1 rec nc EA v0 by (auto split: sum.splits option.splits)
        with ea(1) show ?thesis by simp
      next
        case True
        then obtain a0 extIPs where r: "r = Inr a0"
          and pool: "expandCIDRs (ExternalIPPool (nc_Spec nc)) = Some (Inr extIPs)" by blast
        let ?a = "foldl EnsureIP a0 extIPs"
        have ci: "cfg_inv (view w0) (nc_Name nc) ?a" using cfg_inv_foldl_EnsureIP ea(3) [OF r] v0 by simp
        then have oi: "op_inv (view w0) (set_alloc reg1 (nc_Name nc) ?a)"
          using op_inv_set_alloc [OF ea(1)] v0 by simp
        have d: "driveNPR E Ord (set_alloc reg1 (nc_Name nc) ?a) nprr nc ?a extIPs name w0 = (oc, reg', w')"
          using run1 rec nc EA r pool by (simp add: Let_def)
        show ?thesis
          by (rule driveNPR_op_inv [OF api oi ci name [symmetric] expandCIDRs_distinct [OF pool] _ d])
            (use pair [OF Inr] v0 name in simp)
      qed
    qed
  qed
qed (use run inv in \<open>simp add: reconcileNPRR_def\<close>)

section \<open>The range controller\<close>

lemma range_metrics_view: "api_server E view \<Longrightarrow> view (range_metrics E npr w) = view w"
  by (simp add: range_metrics_def Let_def api_metric split: prod.splits)

text \<open>
  A release that is not refused: the accepted update shows that the range read was the current one, its
  removal leaves the store without the range, so its blocks may be given back.
\<close>

lemma finish_release_returns:
  assumes "api_server E view" "finish_release E Ord reg npr w = (Return d, reg', w')"
    "same_version (view w) npr" "op_inv (view w) reg0" "npr_DeletionTimestamp npr \<noteq> None"
  shows "view w (npr_Name npr) = Some npr" "view w' = (view w)(npr_Name npr := None)" "reg' = reg"
proof -
  let ?x = "RemoveFinalizer npr finalizerName"
  obtain c w1 where U: "UpdateNPR E ?x w = (c, w1)" by fastforce
  with assms(2) have c: "c = None" by (cases c) (auto simp: finish_release_def Let_def)
  with U assms(2) show "reg' = reg" by (auto simp: finish_release_def Let_def)
  from U c assms(2) have w': "view w' = view w1"
    by (auto simp: finish_release_def Let_def api_metric [OF assms(1)] api_record [OF assms(1)])
  obtain new where cur: "view w (npr_Name npr) = Some npr" and "view w1 = (view w)(npr_Name npr := new)"
    using api_update_current [OF assms(1,3) U [unfolded c]] by (auto simp: RemoveFinalizer_def)
  then show "view w (npr_Name npr) = Some npr" by simp
  from op_invD(3) [OF assms(4) cur] have "npr_Finalizers ?x = []"
    by (auto simp: RemoveFinalizer_def removeAll_filter_not_eq filter_empty_conv)
  with api_update [OF assms(1) U [unfolded c]] assms(5) w'
  show "view w' = (view w)(npr_Name npr := None)" by (simp add: RemoveFinalizer_def)
qed

lemma releaseAndFinalize_op_inv:
  assumes api: "api_server E view" and inv: "op_inv (view w) reg" and ver: "same_version (view w) npr"
    and del: "npr_DeletionTimestamp npr \<noteq> None"
    and run: "releaseAndFinalize E Ord reg npr w = (Return d, reg', w')"
  shows "op_inv (view w') reg'"
proof (cases "ContainsFinalizer npr finalizerName")
  case True
  let ?V' = "(view w)(npr_Name npr := None)"
  show ?thesis
  proof (cases "Get reg (config_of npr)")
    case None
    with run True have "finish_release E Ord reg npr w = (Return d, reg', w')" by (simp add: releaseAndFinalize_def)
    from finish_release_returns [OF api this ver inv del] op_inv_shrink [OF inv, of None "npr_Name npr"] show ?thesis by simp
  next
    case (Some a)
    then have ci: "cfg_inv (view w) (config_of npr) a" using op_invD(1) [OF inv] by (simp add: Get_def)
    let ?m = "allocs_to_free (allocs_of npr)"
    obtain r a1 where F: "Free (freeOrder Ord) a ?m = (r, a1)" by fastforce
    with run True Some have "r = None"
      and fr: "finish_release E Ord (set_alloc reg (config_of npr) a1) npr w = (Return d, reg', w')"
      by (auto simp: releaseAndFinalize_def split: option.splits)
    note rel = finish_release_returns [OF api fr ver inv del]
    from rel(1) have own: "owned (view w) (config_of npr) (npr_Name npr) = held (allocs_of npr)"
      and good: "good_allocs a (allocs_of npr)" using cfg_invD(3) [OF ci] by (auto simp: owned_def holds_def)
    have "snd ` alloc_items ?m \<subseteq> block_starts a"
      using good starts_in_blocks by (simp add: alloc_items_allocs_to_free snd_held good_allocs_def)
    note gives = Free_gives [OF cfg_invD(1) [OF ci] finite_dom_allocs_to_free this F]
    have "cfg_inv ?V' (config_of npr) a1"
      by (rule cfg_inv_give [OF ci _ gives(2-5)]) (simp_all add: alloc_items_allocs_to_free own)
    from op_inv_store [OF inv this] rel show ?thesis by simp
  qed
qed (use run inv in \<open>simp add: releaseAndFinalize_def\<close>)

lemma op_inv_deletion:
  assumes "op_inv V reg" "V n = Some cur"
  shows "op_inv (V(n \<mapsto> cur\<lparr>npr_DeletionTimestamp := t, npr_ResourceVersion := v\<rparr>)) reg"
proof (rule op_inv_shrink [OF assms(1)])
  fix npr assume "Some (cur\<lparr>npr_DeletionTimestamp := t, npr_ResourceVersion := v\<rparr>) = Some npr"
  then have npr: "npr = cur\<lparr>npr_DeletionTimestamp := t, npr_ResourceVersion := v\<rparr>" by simp
  show "set (npr_Finalizers npr) = {finalizerName}"
    unfolding npr using op_invD(3) [OF assms] by simp
  show "\<exists>cur. V n = Some cur \<and> holds cfg cur \<and> set (allocs_of npr) \<subseteq> set (allocs_of cur) \<and>
      (distinct (collectPortStarts (allocs_of cur)) \<longrightarrow> distinct (collectPortStarts (allocs_of npr)))"
    if "holds cfg npr" for cfg
    using that assms(2) unfolding npr by (simp add: holds_def)
qed

lemma DeleteNPR_op_inv:
  assumes "api_server E view" "op_inv (view w) reg" "DeleteNPR E npr w = (c, w')"
  shows "op_inv (view w') reg"
proof (cases c)
  case None
  note del = api_delete [OF assms(1) assms(3) [unfolded None]]
  then obtain cur where cur: "view w (npr_Name npr) = Some cur" by (elim exE conjE)
  then have "npr_Finalizers cur \<noteq> []" using op_invD(3) [OF assms(2) cur] by fastforce
  with del cur obtain t v where
    "view w' = (view w)(npr_Name npr \<mapsto> cur\<lparr>npr_DeletionTimestamp := t, npr_ResourceVersion := v\<rparr>)"
    by (elim exE conjE) (simp, blast)
  with op_inv_deletion [OF assms(2) cur] show ?thesis by simp
next
  case (Some e)
  from api_failed(3) [OF assms(1) assms(3) [unfolded Some]] assms(2) show ?thesis by simp
qed

lemma reconcileNPR_op_inv:
  assumes api: "api_server E view" and inv: "op_inv (view w) reg"
    and run: "reconcileNPR E Ord win reg name w = (oc, reg', w')" and ok: "\<And>e. oc \<noteq> Fail e"
  shows "op_inv (view w') reg'"
proof (cases "\<exists>npr. Reconstructed reg \<and> GetNPR E w name = Inr npr")
  case False
  with run inv show ?thesis by (auto simp: reconcileNPR_def split: if_splits sum.splits)
next
  case True
  then obtain npr where rec: "Reconstructed reg" and get: "GetNPR E w name = Inr npr" by blast
  let ?w0 = "range_metrics E npr w"
  have v0: "view ?w0 = view w" by (rule range_metrics_view [OF api])
  have sv: "same_version (view ?w0) npr" using api_get(1) [OF api get] v0 by simp
  have inv0: "op_inv (view ?w0) reg" using inv v0 by simp
  show ?thesis
  proof (cases "npr_DeletionTimestamp npr")
    case None
    obtain c w1 where D: "DeleteNPR E npr ?w0 = (c, w1)" by fastforce
    from run rec get None D have "reg' = reg \<and> (w' = ?w0 \<or> w' = w1)"
      by (auto simp: reconcileNPR_def Let_def split: option.splits if_splits)
    with DeleteNPR_op_inv [OF api inv0 D] inv0 show ?thesis by auto
  next
    case (Some del)
    show ?thesis
    proof (cases "npr_StaleSince (npr_Spec npr)")
      case None
      let ?x = "set_stale (Now E ?w0) npr"
      obtain c w1 where U: "UpdateNPR E ?x ?w0 = (c, w1)" by fastforce
      with run rec get None Some ok have "c = None" and r: "reg' = reg" "w' = w1"
        by (auto simp: reconcileNPR_def Let_def split: option.splits)
      with op_inv_restored [OF api inv0 sv, of ?x w1] U show ?thesis by (simp add: set_stale_def)
    next
      case stale: (Some t)
      show ?thesis
      proof (cases "t + cleanupWindow win - Now E ?w0 > 0")
        case True
        with run rec get Some stale inv0 show ?thesis by (auto simp: reconcileNPR_def Let_def)
      next
        case False
        with run rec get Some stale have R: "releaseAndFinalize E Ord reg npr ?w0 = (oc, reg', w')"
          by (auto simp: reconcileNPR_def Let_def)
        then obtain d where "oc = Return d"
          using ok by (cases oc) (auto simp: releaseAndFinalize_def finish_release_def Let_def
              split: if_splits option.splits prod.splits)
        with releaseAndFinalize_op_inv [OF api inv0 sv _ R [unfolded this]] Some show ?thesis by simp
      qed
    qed
  qed
qed

section \<open>The NATConfig controller\<close>

definition on_pool :: "string set \<Rightarrow> NATPortRange \<Rightarrow> bool" where
  "on_pool D npr \<longleftrightarrow> (\<forall>pa \<in> set (allocs_of npr). ExternalIP pa \<in> D)"

lemma reconcileNPRAllocations_idle:
  assumes "\<not> (\<exists>ip \<in> dom (groupAllocsByIP (allocs_of npr) Map.empty). ip \<notin> D)"
  shows "on_pool D npr"
  unfolding on_pool_def
proof
  fix pa assume "pa \<in> set (allocs_of npr)"
  then have "groupAllocsByIP (allocs_of npr) Map.empty (ExternalIP pa) \<noteq> None"
    by (auto simp: groupAllocsByIP_eq Let_def filter_empty_conv)
  with assms show "ExternalIP pa \<in> D" by blast
qed

text \<open>
  The result of one range: the invariant, nothing changed elsewhere, and if there was no error then
  either nothing had to change or the stored range is on the pool.
\<close>

definition npr_done ::
    "('w \<Rightarrow> npr_store) \<Rightarrow> AllocatorRegistry \<Rightarrow> string \<Rightarrow> string set \<Rightarrow> NATPortRange \<Rightarrow> BlockAllocator \<times> 'w \<Rightarrow>
     op_error option \<times> BlockAllocator \<times> 'w \<Rightarrow> bool" where
  "npr_done view reg cfg D npr s t = (case (s, t) of ((a, w), (r, a', w')) \<Rightarrow>
     op_inv (view w') (set_alloc reg cfg a') \<and> (\<forall>n. n \<noteq> npr_Name npr \<longrightarrow> view w' n = view w n) \<and>
     dom (ips a') = dom (ips a) \<and>
     (r = None \<longrightarrow> (view w' = view w \<and> on_pool D npr) \<or>
        (\<forall>x. view w' (npr_Name npr) = Some x \<longrightarrow> on_pool D x)))"

lemma reconcileNPRAllocations_op_inv:
  assumes api: "api_server E view" and inv: "op_inv (view w) (set_alloc reg cfg a)"
    and ver: "same_version (view w) npr" and cfg: "config_of npr = cfg"
    and run: "reconcileNPRAllocations E Ord npr ds (set ds) (a, w) = (r, a', w')"
  shows "npr_done view reg cfg (set ds) npr (a, w) (r, a', w')"
proof -
  let ?byIP = "groupAllocsByIP (allocs_of npr) Map.empty" and ?D = "set ds"
  let ?toAdd = "filter (\<lambda>ip. ?byIP ip = None) ds"
  let ?kept = "filter (\<lambda>pa. ExternalIP pa \<in> ?D) (allocs_of npr)"
  let ?cnt0 = "ucast (npr_PortRangeCount (npr_Spec npr)) :: u16"
  let ?cnt = "if ?cnt0 = 0 then defaultPortRangeCount else ?cnt0"
  have ci: "cfg_inv (view w) cfg a" using op_invD(1) [OF inv, of cfg a] by (simp add: set_alloc_def)
  note ai = cfg_invD(1) [OF ci]
  show ?thesis
  proof (cases "?toAdd = [] \<and> \<not> (\<exists>ip \<in> dom ?byIP. ip \<notin> ?D)")
    case True
    with run inv reconcileNPRAllocations_idle [of npr ?D] show ?thesis
      by (auto simp: reconcileNPRAllocations_def Let_def npr_done_def)
  next
    case False
    obtain ra a1 new rb where A: "add_blocks (pickOrder Ord (npr_Name npr)) ?cnt
        (toUint16Ports (npr_ExcludePorts (npr_Spec npr))) ?toAdd a ?kept (collectPortStarts ?kept) Map.empty =
        (ra, a1, new, rb)" by (metis prod_cases4)
    have "?cnt \<noteq> 0" by (simp add: defaultPortRangeCount_def)
    from add_blocks_spec [OF A ai this] obtain added where new: "new = ?kept @ added"
      and g: "grants a (held added) a1" "alloc_items rb = held added" "finite (dom rb)"
      and st: "distinct (collectPortStarts added)" "set (collectPortStarts added) \<inter> set (collectPortStarts ?kept) = {}"
        "to_alloc ` set added \<subseteq> blocks a"
        "\<forall>pa \<in> set added. ips a (ExternalIP pa) \<noteq> None" "\<forall>pa \<in> set added. ExternalIP pa \<in> ?D" by auto
    note undo = grants_rollback [OF ai g(1,3,2), of "freeOrder Ord"]
    have undone: "op_inv (view w) (set_alloc reg cfg (snd (Free (freeOrder Ord) a1 rb)))"
      "dom (ips (snd (Free (freeOrder Ord) a1 rb))) = dom (ips a)"
      using op_inv_set_alloc [OF inv cfg_inv_grants [OF ci undo]] undo by (auto simp: grants_def)
    let ?x = "npr\<lparr>npr_Spec := (npr_Spec npr)\<lparr>npr_Allocations := new\<rparr>\<rparr>"
    obtain c w1 where U: "UpdateNPR E ?x w = (c, w1)" by fastforce
    note run' = run [unfolded reconcileNPRAllocations_def Let_def prod.case if_not_P [OF False] A]
    consider ipe where "ra = Some ipe" | err where "ra = None" "c = Some err" | "ra = None" "c = None"
      by (cases ra; cases c) auto
    then show ?thesis
    proof cases
      case 1
      with run' undone show ?thesis by (auto simp: npr_done_def split: prod.splits)
    next
      case 2
      with run' U undone api_failed(2) [OF api U [unfolded 2(2)]] show ?thesis by (auto simp: npr_done_def)
    next
      case 3
      with run' U have r: "a' = a1" "w' = w1" by auto
      have kd: "distinct (collectPortStarts (allocs_of npr)) \<Longrightarrow> distinct (collectPortStarts ?kept)"
        by (simp add: collectPortStarts_def distinct_map_filter)
      have "op_inv (view w1) (set_alloc (set_alloc reg cfg a) cfg a1)"
        by (rule store_added(1) [OF api inv ci ver cfg U [unfolded 3(2)] _ _ _ _ _ _ kd g(1) st(1-4)])
          (simp_all add: new)
      moreover have "\<exists>s. view w1 = (view w)(npr_Name npr := s) \<and> (\<forall>y. s = Some y \<longrightarrow> allocs_of y = ?kept @ added)"
        by (rule store_added(2) [OF api inv ci ver cfg U [unfolded 3(2)] _ _ _ _ _ _ kd g(1) st(1-4)])
          (simp_all add: new)
      ultimately show ?thesis using r g(1) st(5) by (auto simp: npr_done_def grants_def on_pool_def)
    qed
  qed
qed

text \<open>
  The loop over the ranges of the NATConfig: no error means that all its stored ranges are on the pool,
  if the ranges that the loop skips were.
\<close>

lemma reconcile_ranges_op_inv:
  assumes "reconcile_ranges E Ord ds (set ds) nprs (a, w) = (r, a', w')" "api_server E view"
    "op_inv (view w) (set_alloc reg cfg a)" "distinct (map npr_Name nprs)"
    "\<forall>npr \<in> set nprs. config_of npr = cfg \<and> same_version (view w) npr"
  shows "op_inv (view w') (set_alloc reg cfg a') \<and> dom (ips a') = dom (ips a) \<and>
    (r = None \<longrightarrow>
     (\<forall>n x. view w n = Some x \<longrightarrow> config_of x = cfg \<longrightarrow> (x \<in> set nprs \<and> npr_Name x = n) \<or> on_pool (set ds) x) \<longrightarrow>
     (\<forall>npr \<in> set nprs. npr_DeletionTimestamp npr \<noteq> None \<or> npr_StaleSince (npr_Spec npr) \<noteq> None \<longrightarrow>
        view w (npr_Name npr) = Some npr \<longrightarrow> on_pool (set ds) npr) \<longrightarrow>
     (\<forall>n x. view w' n = Some x \<longrightarrow> config_of x = cfg \<longrightarrow> on_pool (set ds) x))"
  using assms
proof (induction nprs arbitrary: a w)
  case Nil
  then show ?case by (auto simp: reconcile_ranges_def)
next
  case (Cons npr nprs)
  let ?skip = "npr_DeletionTimestamp npr \<noteq> None \<or> npr_StaleSince (npr_Spec npr) \<noteq> None"
  obtain r1 a1 w1 where one: "(if ?skip then (None, a, w)
      else reconcileNPRAllocations E Ord npr ds (set ds) (a, w)) = (r1, a1, w1)" by (metis prod_cases3)
  have d: "?skip \<and> r1 = None \<and> a1 = a \<and> w1 = w \<or> \<not> ?skip \<and> npr_done view reg cfg (set ds) npr (a, w) (r1, a1, w1)"
    using one reconcileNPRAllocations_op_inv [OF Cons.prems(2,3)] Cons.prems(5) by (cases ?skip) auto
  then have inv1: "op_inv (view w1) (set_alloc reg cfg a1)" and frame: "\<And>n. n \<noteq> npr_Name npr \<Longrightarrow> view w1 n = view w n"
    and dom: "dom (ips a1) = dom (ips a)" using Cons.prems(3) by (auto simp: npr_done_def)
  show ?case
  proof (cases r1)
    case (Some e)
    with Cons.prems(1) one inv1 dom show ?thesis by (auto simp: reconcile_ranges_def)
  next
    case None
    have names: "npr_Name y \<noteq> npr_Name npr" if "y \<in> set nprs" for y
      using that Cons.prems(4) by (auto simp: image_iff)
    have run: "reconcile_ranges E Ord ds (set ds) nprs (a1, w1) = (r, a', w')"
      using Cons.prems(1) one None by (simp add: reconcile_ranges_def)
    have "\<forall>y \<in> set nprs. config_of y = cfg \<and> same_version (view w1) y"
      using Cons.prems(5) frame names by (auto simp: same_version_def)
    note IH = Cons.IH [OF run Cons.prems(2) inv1 _ this]
    show ?thesis
    proof (intro conjI impI)
      show "op_inv (view w') (set_alloc reg cfg a')" "dom (ips a') = dom (ips a)"
        using IH Cons.prems(4) dom by auto
      assume r: "r = None"
        and all: "\<forall>n x. view w n = Some x \<longrightarrow> config_of x = cfg \<longrightarrow>
          (x \<in> set (npr # nprs) \<and> npr_Name x = n) \<or> on_pool (set ds) x"
        and skip: "\<forall>npr \<in> set (npr # nprs). npr_DeletionTimestamp npr \<noteq> None \<or> npr_StaleSince (npr_Spec npr) \<noteq> None \<longrightarrow>
          view w (npr_Name npr) = Some npr \<longrightarrow> on_pool (set ds) npr"
      have "x \<in> set nprs \<and> npr_Name x = n \<or> on_pool (set ds) x"
        if x: "view w1 n = Some x" "config_of x = cfg" for n x
      proof (cases "n = npr_Name npr")
        case False
        with x frame all show ?thesis by fastforce
      next
        case True
        from d have "view w1 = view w \<and> (view w (npr_Name npr) = Some npr \<longrightarrow> on_pool (set ds) npr) \<or>
            (\<forall>x. view w1 (npr_Name npr) = Some x \<longrightarrow> on_pool (set ds) x)"
          using skip None by (auto simp: npr_done_def)
        with True x all show ?thesis by fastforce
      qed
      moreover have "view w (npr_Name y) = Some y" if "y \<in> set nprs" "view w1 (npr_Name y) = Some y" for y
        using that frame names by metis
      ultimately show "\<forall>n x. view w' n = Some x \<longrightarrow> config_of x = cfg \<longrightarrow> on_pool (set ds) x"
        using IH Cons.prems(4) r skip by auto
    qed
  qed
qed

lemma cfg_inv_RemoveIP:
  assumes "cfg_inv V cfg a" "\<And>n npr. V n = Some npr \<Longrightarrow> config_of npr = cfg \<Longrightarrow> on_pool D npr" "ip \<notin> D"
  shows "cfg_inv V cfg (RemoveIP a ip)"
proof -
  note inv = cfg_invD [OF assms(1)]
  have "ledger (block_avail (RemoveIP a ip)) (owned V cfg)"
    using inv(2) unfolding ledger_def by (auto simp: RemoveIP_def block_avail_def block_alloc_def)
  moreover have "good_allocs (RemoveIP a ip) (allocs_of npr)" if "V n = Some npr" "holds cfg npr" for n npr
  proof -
    have "on_pool D npr" using assms(2) that by (auto simp: holds_def)
    with inv(3) [OF that] assms(3) show ?thesis
      by (auto simp: good_allocs_def on_pool_def RemoveIP_def)
  qed
  ultimately show ?thesis using RemoveIP_inv [OF inv(1)] unfolding cfg_inv_def by blast
qed

lemma drop_ips_op_inv:
  assumes "drop_ips E cfg xs (a, w) = (a', w')" "api_server E view" "op_inv (view w) (set_alloc reg cfg a)"
    "\<And>n npr. view w n = Some npr \<Longrightarrow> config_of npr = cfg \<Longrightarrow> on_pool D npr" "set xs \<inter> D = {}"
  shows "view w' = view w \<and> op_inv (view w') (set_alloc reg cfg a')"
  using assms
proof (induction xs arbitrary: a w)
  case Nil
  then show ?case by (simp add: drop_ips_def)
next
  case (Cons ip xs)
  let ?w = "Metric E (DelNATConfigPortsTotal cfg ip) (Metric E (DelNATConfigPortsFree cfg ip) w)"
  have v: "view ?w = view w" by (simp add: api_metric [OF Cons.prems(2)])
  have "cfg_inv (view w) cfg a" using op_invD(1) [OF Cons.prems(3), of cfg a] by (simp add: set_alloc_def)
  then have "cfg_inv (view w) cfg (RemoveIP a ip)"
    by (rule cfg_inv_RemoveIP) (use Cons.prems(4,5) in auto)
  from op_inv_set_alloc [OF Cons.prems(3) this]
  have "op_inv (view ?w) (set_alloc reg cfg (RemoveIP a ip))" using v by simp
  moreover have "drop_ips E cfg xs (RemoveIP a ip, ?w) = (a', w')" using Cons.prems(1) by (simp add: drop_ips_def)
  ultimately show ?case using Cons.IH [of "RemoveIP a ip" ?w] Cons.prems(2,4,5) v by auto
qed

lemma Remove_op_inv:
  "op_inv V reg \<Longrightarrow> (\<And>n. owned V cfg n = {}) \<Longrightarrow> op_inv V (Remove reg cfg)"
  by (auto simp: op_inv_def Remove_def split: if_splits)

text \<open>
  Dropping IPs from the allocator is safe when no stored range keeps blocks on them: the loop has moved
  the live ranges to the pool, the stale and the terminating ones must be there already.
\<close>

lemma reconcile_pool_op_inv:
  assumes api: "api_server E view" and inv: "op_inv (view w) reg" and ci: "cfg_inv (view w) cfg a0"
    and listed: "\<And>nprs n npr. ListNPRsOfConfig E w cfg = Inr nprs \<Longrightarrow> view w n = Some npr \<Longrightarrow>
      config_of npr = cfg \<Longrightarrow> npr \<in> set nprs"
    and stranded: "\<And>n npr. view w n = Some npr \<Longrightarrow> config_of npr = cfg \<Longrightarrow>
      npr_DeletionTimestamp npr \<noteq> None \<or> npr_StaleSince (npr_Spec npr) \<noteq> None \<Longrightarrow> on_pool (set ds) npr"
    and run: "reconcile_pool E Ord reg cfg a0 ds w = (oc, reg', w')"
  shows "op_inv (view w') reg'"
proof -
  let ?a = "foldl EnsureIP a0 ds"
  have oi: "op_inv (view w) (set_alloc reg cfg ?a)"
    by (rule op_inv_set_alloc [OF inv cfg_inv_foldl_EnsureIP [OF ci]])
  show ?thesis
  proof (cases "ListNPRsOfConfig E w cfg")
    case (Inl e)
    with run oi show ?thesis by (auto simp: reconcile_pool_def Let_def)
  next
    case (Inr nprs)
    obtain r1 a1 w1 where R: "reconcile_ranges E Ord ds (set ds) nprs (?a, w) = (r1, a1, w1)" by (metis prod_cases3)
    have lst: "\<forall>npr \<in> set nprs. config_of npr = cfg \<and> same_version (view w) npr"
      using api_list(2) [OF api Inr] by blast
    note ranges = reconcile_ranges_op_inv [OF R api oi api_list(1) [OF api Inr] lst]
    show ?thesis
    proof (cases r1)
      case (Some e)
      with run Inr R ranges show ?thesis by (auto simp: reconcile_pool_def Let_def stringSet_def)
    next
      case None
      let ?rm = "filter (\<lambda>ip. ip \<notin> set ds) (visit (listOrder Ord) (set (ListIPs (listOrder Ord) ?a)))"
      obtain a2 w2 where D: "drop_ips E cfg ?rm (a1, w1) = (a2, w2)" by fastforce
      have "\<forall>n x. view w n = Some x \<longrightarrow> config_of x = cfg \<longrightarrow> (x \<in> set nprs \<and> npr_Name x = n) \<or> on_pool (set ds) x"
        using listed [OF Inr] api_keyed [OF api] by blast
      moreover have "\<forall>npr \<in> set nprs. npr_DeletionTimestamp npr \<noteq> None \<or> npr_StaleSince (npr_Spec npr) \<noteq> None \<longrightarrow>
          view w (npr_Name npr) = Some npr \<longrightarrow> on_pool (set ds) npr"
        using stranded lst by metis
      ultimately have pooled: "on_pool (set ds) x" if "view w1 n = Some x" "config_of x = cfg" for n x
        using ranges None that by blast
      have "op_inv (view w2) (set_alloc reg cfg a2)"
        using drop_ips_op_inv [OF D api, of reg "set ds"] ranges pooled by auto
      moreover have "reg' = set_alloc reg cfg a2 \<and> view w' = view w2"
        using run Inr R None D by (auto simp: reconcile_pool_def Let_def stringSet_def api_record [OF api])
      ultimately show ?thesis by simp
    qed
  qed
qed

lemma reconcileNATConfig_op_inv:
  assumes api: "api_server E view" and inv: "op_inv (view w) reg"
    and deleted: "GetNATConfig E w name = Inl NotFound \<Longrightarrow> (\<And>n. owned (view w) name n = {})"
    and listed: "\<And>nprs n npr. ListNPRsOfConfig E w name = Inr nprs \<Longrightarrow> view w n = Some npr \<Longrightarrow>
      config_of npr = name \<Longrightarrow> npr \<in> set nprs"
    and stranded: "\<And>nc ds n npr. GetNATConfig E w name = Inr nc \<Longrightarrow>
      expandCIDRs (ExternalIPPool (nc_Spec nc)) = Some (Inr ds) \<Longrightarrow> view w n = Some npr \<Longrightarrow>
      config_of npr = name \<Longrightarrow> npr_DeletionTimestamp npr \<noteq> None \<or> npr_StaleSince (npr_Spec npr) \<noteq> None \<Longrightarrow>
      on_pool (set ds) npr"
    and run: "reconcileNATConfig E Ord reg name w = (oc, reg', w')"
  shows "op_inv (view w') reg'"
proof -
  consider "\<not> Reconstructed reg" | e where "Reconstructed reg" "GetNATConfig E w name = Inl e"
    | nc where "Reconstructed reg" "GetNATConfig E w name = Inr nc"
    by (cases "GetNATConfig E w name") auto
  then show ?thesis
  proof cases
    case 1
    with run inv show ?thesis by (simp add: reconcileNATConfig_def)
  next
    case (2 e)
    with run inv deleted Remove_op_inv [OF inv, of name] show ?thesis
      by (cases e) (auto simp: reconcileNATConfig_def forget_config_metrics_def api_metric [OF api])
  next
    case (3 nc)
    have name: "nc_Name nc = name" using api_get(3) [OF api 3(2)] .
    define w0 where "w0 = Metric E (SetNATConfigInfo (nc_Name nc) (PortRangeSize (nc_Spec nc))) w"
    have v0: "view w0 = view w" and l0: "ListNPRsOfConfig E w0 name = ListNPRsOfConfig E w name"
      by (simp_all add: w0_def api_metric [OF api] api_metric_list [OF api])
    obtain r reg1 where EA: "EnsureAllocator reg (nc_Name nc) (ucast (PortRangeSize (nc_Spec nc)))
       (AllowRegisteredPorts (nc_Spec nc)) (toUint16Ports (ReservedPorts (nc_Spec nc))) = (r, reg1)" by fastforce
    note ea = EnsureAllocator_op_inv [OF inv EA]
    note run1 = run [unfolded reconcileNATConfig_def 3(2) Let_def sum.case, folded w0_def]
    show ?thesis
    proof (cases "\<exists>a0 ds. r = Inr a0 \<and> expandCIDRs (ExternalIPPool (nc_Spec nc)) = Some (Inr ds)")
      case False
      then have "view w' = view w \<and> reg' = reg1"
        using run1 3(1) EA v0 by (auto split: sum.splits option.splits)
      with ea(1) show ?thesis by simp
    next
      case True
      then obtain a0 ds where r: "r = Inr a0"
        and pool: "expandCIDRs (ExternalIPPool (nc_Spec nc)) = Some (Inr ds)" by blast
      have run2: "reconcile_pool E Ord reg1 name a0 ds w0 = (oc, reg', w')"
        using run1 3(1) EA r pool name by simp
      show ?thesis
        by (rule reconcile_pool_op_inv [OF api _ _ _ _ run2])
          (use ea(1) ea(3) [OF r] name listed l0 stranded [OF 3(2) pool] v0 in auto)
    qed
  qed
qed

end
