(* ===== verification/OpRestart.thy ===== *)
theory OpRestart
  imports OpInv
begin

text \<open>
  Reconstruction. \<open>Start\<close> runs on an empty registry: it registers the NATConfigs and marks the blocks of
  the stored ranges as used. \<open>durable V configs\<close> is what the API server must hold for the result to
  satisfy \<open>op_inv\<close>; the states the operator leaves behind do, except that no range may be terminating
  and none may hold blocks outside the current pool of its NATConfig.
\<close>

definition laid_out :: "NATConfig \<Rightarrow> NATPortRange \<Rightarrow> bool" where
  "laid_out nc npr \<longleftrightarrow>
     (\<forall>reg a. register_config nc NewAllocatorRegistry = (None, reg) \<longrightarrow>
        allocators reg (nc_Name nc) = Some a \<longrightarrow> good_allocs a (allocs_of npr))"

definition durable :: "npr_store \<Rightarrow> NATConfig list \<Rightarrow> bool" where
  "durable V configs \<longleftrightarrow> distinct (map nc_Name configs) \<and>
     (\<forall>n npr. V n = Some npr \<longrightarrow> npr_Name npr = n \<and> set (npr_Finalizers npr) = {finalizerName} \<and>
        npr_DeletionTimestamp npr = None \<and>
        (\<exists>nc \<in> set configs. nc_Name nc = config_of npr \<and> laid_out nc npr)) \<and>
     (\<forall>cfg n n'. n \<noteq> n' \<longrightarrow> owned V cfg n \<inter> owned V cfg n' = {})"

lemma durableD:
  assumes "durable V configs"
  shows "distinct (map nc_Name configs)" "n \<noteq> n' \<Longrightarrow> owned V cfg n \<inter> owned V cfg n' = {}"
    "V n = Some npr \<Longrightarrow> npr_Name npr = n \<and> set (npr_Finalizers npr) = {finalizerName} \<and>
        npr_DeletionTimestamp npr = None \<and>
        (\<exists>nc \<in> set configs. nc_Name nc = config_of npr \<and> laid_out nc npr)"
  using assms unfolding durable_def by blast+

section \<open>Marking blocks\<close>

lemma MarkUsed_marks:
  assumes "alloc_inv a" "ps \<in> block_starts a" "ips a ip \<noteq> None" "MarkUsed a ip ps = (r, a')"
  shows "alloc_inv a'" "block_avail a' = take_items {(ip, ps)} (block_avail a)"
    "blocks a' = blocks a" "dom (ips a') = dom (ips a)"
proof -
  obtain i where i: "i < totalBlocks a" "ps = PortStart (block_alloc a i)"
    using assms(2) by (auto simp: block_starts_def)
  obtain free where f: "ips a ip = Some free" using assms(3) by blast
  have a': "a' = a\<lparr>ips := (ips a)(ip \<mapsto> free - {i})\<rparr>"
    using assms(4) blockIndexOf_block [OF assms(1) i(1)] f i(2) by (auto simp: MarkUsed_def)
  show "alloc_inv a'" by (rule MarkUsed_inv [OF assms(1,4)])
  show "blocks a' = blocks a" "dom (ips a') = dom (ips a)" using f by (auto simp: a')
  have inj: "inj_on (\<lambda>j. PortStart (block_alloc a j)) (insert i free)"
    using alloc_invD(4) [OF assms(1) f] i(1) PortStart_inj [OF assms(1)] by (intro inj_onI) blast
  have ba: "block_alloc a' = block_alloc a" by (simp add: a' block_alloc_def fun_eq_iff)
  have "(\<lambda>j. PortStart (block_alloc a j)) ` (free - {i}) = (\<lambda>j. PortStart (block_alloc a j)) ` free - {ps}"
    using inj_on_image_set_diff [OF inj, of free "{i}"] i(2) by auto
  then have "block_avail a' x = take_items {(ip, ps)} (block_avail a) x" for x
    by (simp add: block_avail_def take_items_def f ba a' [THEN arg_cong, of ips] option.map_ident)
  then show "block_avail a' = take_items {(ip, ps)} (block_avail a)" by blast
qed

lemma mark_allocs_marks:
  assumes "alloc_inv a" "to_alloc ` set pas \<subseteq> blocks a" "\<forall>pa \<in> set pas. ips a (ExternalIP pa) \<noteq> None"
  shows "alloc_inv (mark_allocs pas a) \<and> block_avail (mark_allocs pas a) = take_items (held pas) (block_avail a) \<and>
    blocks (mark_allocs pas a) = blocks a \<and> dom (ips (mark_allocs pas a)) = dom (ips a)"
  using assms
proof (induction pas arbitrary: a)
  case (Cons pa pas)
  obtain r a1 where M: "MarkUsed a (ExternalIP pa) (ucast (pa_PortStart pa)) = (r, a1)" by fastforce
  have "ucast (pa_PortStart pa) \<in> block_starts a" "ips a (ExternalIP pa) \<noteq> None"
    using Cons.prems(2,3) starts_in_blocks [OF Cons.prems(2)] by (auto simp: collectPortStarts_def)
  note m = MarkUsed_marks [OF Cons.prems(1) this M]
  have "to_alloc ` set pas \<subseteq> blocks a1" "\<forall>pa \<in> set pas. ips a1 (ExternalIP pa) \<noteq> None"
    using Cons.prems(2,3) m(3,4) by (auto simp: collectPortStarts_def dom_def)
  from Cons.IH [OF m(1) this] m show ?case
    by (simp add: mark_allocs_def M take_items_Un)
qed (simp add: mark_allocs_def)

section \<open>Registering\<close>

lemma register_config_step:
  assumes "allocators reg (nc_Name nc) = None" "register_config nc reg = (None, reg1)"
    "op_inv Map.empty reg"
  obtains a where "reg1 = set_alloc reg (nc_Name nc) a" "op_inv Map.empty reg1"
    "register_config nc NewAllocatorRegistry = (None, set_alloc NewAllocatorRegistry (nc_Name nc) a)"
proof -
  have e: "op_inv Map.empty NewAllocatorRegistry"
    by (simp add: op_inv_def NewAllocatorRegistry_def owned_def)
  obtain r regE where EA: "EnsureAllocator reg (nc_Name nc) (ucast (PortRangeSize (nc_Spec nc)))
     (AllowRegisteredPorts (nc_Spec nc)) (toUint16Ports (ReservedPorts (nc_Spec nc))) = (r, regE)" by fastforce
  from EA assms(2) obtain a0 pool where r: "r = Inr a0"
    and pool: "expandCIDRs (ExternalIPPool (nc_Spec nc)) = Some (Inr pool)"
    by (auto simp: register_config_def split: sum.splits option.splits)
  note ea = EnsureAllocator_op_inv [OF assms(3) EA]
  let ?a = "foldl EnsureIP a0 pool"
  have "EnsureAllocator NewAllocatorRegistry (nc_Name nc) (ucast (PortRangeSize (nc_Spec nc)))
     (AllowRegisteredPorts (nc_Spec nc)) (toUint16Ports (ReservedPorts (nc_Spec nc))) =
     (Inr a0, set_alloc NewAllocatorRegistry (nc_Name nc) a0)"
    using EA r assms(1) by (auto simp: EnsureAllocator_def NewAllocatorRegistry_def Let_def split: sum.splits if_splits)
  then have "register_config nc NewAllocatorRegistry = (None, set_alloc NewAllocatorRegistry (nc_Name nc) ?a)"
    using pool by (simp add: register_config_def)
  moreover have reg1: "reg1 = set_alloc reg (nc_Name nc) ?a"
    using assms(2) EA r pool ea(3) [OF r] by (simp add: register_config_def)
  moreover have "op_inv Map.empty reg1"
    unfolding reg1 using ea(3) [OF r] by (intro op_inv_set_alloc [OF assms(3) cfg_inv_foldl_EnsureIP]) simp
  ultimately show ?thesis using that by blast
qed

lemma register_all:
  assumes "for_ret register_config configs reg = (None, reg1)" "distinct (map nc_Name configs)"
    "\<forall>nc \<in> set configs. allocators reg (nc_Name nc) = None" "op_inv Map.empty reg"
  shows "op_inv Map.empty reg1 \<and> reconstructed reg1 = reconstructed reg \<and>
    (\<forall>cfg. cfg \<notin> nc_Name ` set configs \<longrightarrow> allocators reg1 cfg = allocators reg cfg) \<and>
    (\<forall>nc \<in> set configs. \<exists>a. allocators reg1 (nc_Name nc) = Some a \<and>
       register_config nc NewAllocatorRegistry = (None, set_alloc NewAllocatorRegistry (nc_Name nc) a))"
  using assms
proof (induction configs arbitrary: reg)
  case (Cons nc configs)
  obtain r reg2 where R: "register_config nc reg = (r, reg2)" by fastforce
  with Cons.prems(1) have r: "r = None" and run: "for_ret register_config configs reg2 = (None, reg1)"
    by (cases r; simp)+
  obtain a where a: "reg2 = set_alloc reg (nc_Name nc) a" "op_inv Map.empty reg2"
    "register_config nc NewAllocatorRegistry = (None, set_alloc NewAllocatorRegistry (nc_Name nc) a)"
    using register_config_step [of reg nc reg2] R r Cons.prems(3,4) by auto
  have "\<forall>nc' \<in> set configs. allocators reg2 (nc_Name nc') = None"
    using Cons.prems(2,3) a(1) by (auto simp: set_alloc_def image_iff)
  from Cons.IH [OF run _ this a(2)] Cons.prems(2) a show ?case
    by (auto simp: set_alloc_def)
qed simp

section \<open>Nothing is lost\<close>

text \<open>The free blocks of every allocator are the blocks that nobody holds.\<close>

definition exact :: "npr_store \<Rightarrow> AllocatorRegistry \<Rightarrow> bool" where
  "exact V reg \<longleftrightarrow> (\<forall>cfg a ip S. allocators reg cfg = Some a \<longrightarrow> block_avail a ip = Some S \<longrightarrow>
     S = {ps \<in> block_starts a. \<forall>n. (ip, ps) \<notin> owned V cfg n})"

lemma EnsureIP_full:
  assumes "\<And>ip S. block_avail a ip = Some S \<Longrightarrow> S = block_starts a" "block_avail (EnsureIP a x) ip = Some S"
  shows "S = block_starts (EnsureIP a x)"
proof (cases "ip \<noteq> x \<or> ips a x \<noteq> None")
  case True
  with assms EnsureIP_fields(3) [of ip x a] blocks_starts [OF EnsureIP_fields(1), of a x] show ?thesis by auto
next
  case False
  with assms(2) show ?thesis
    by (simp add: EnsureIP_def block_avail_def block_starts_def fullFreeSet_eq block_alloc_def)
qed

lemma foldl_EnsureIP_full:
  assumes "\<And>ip S. block_avail a ip = Some S \<Longrightarrow> S = block_starts a" "block_avail (foldl EnsureIP a xs) ip = Some S"
  shows "S = block_starts (foldl EnsureIP a xs)"
  using assms
proof (induction xs arbitrary: a)
  case (Cons x xs)
  show ?case using Cons.IH [of "EnsureIP a x"] EnsureIP_full [OF Cons.prems(1)] Cons.prems(2) by simp
qed simp

lemma register_full:
  assumes "register_config nc NewAllocatorRegistry = (None, set_alloc NewAllocatorRegistry (nc_Name nc) a)"
    "block_avail a ip = Some S"
  shows "S = block_starts a"
proof -
  let ?new = "New (ucast (PortRangeSize (nc_Spec nc)))
      (if AllowRegisteredPorts (nc_Spec nc) then MinPortFull else MinPortDynamic) MaxPort (nc_Name nc) True"
  obtain b where b: "?new = Inr b"
    using assms(1) by (cases ?new) (simp_all add: register_config_def EnsureAllocator_def NewAllocatorRegistry_def)
  let ?b = "SetReservedPorts b (toUint16Ports (ReservedPorts (nc_Spec nc)))"
  have EA: "EnsureAllocator NewAllocatorRegistry (nc_Name nc) (ucast (PortRangeSize (nc_Spec nc)))
     (AllowRegisteredPorts (nc_Spec nc)) (toUint16Ports (ReservedPorts (nc_Spec nc))) =
     (Inr ?b, set_alloc NewAllocatorRegistry (nc_Name nc) ?b)"
    using b by (simp add: EnsureAllocator_def NewAllocatorRegistry_def Let_def)
  obtain pool where "set_alloc NewAllocatorRegistry (nc_Name nc) (foldl EnsureIP ?b pool) =
      set_alloc NewAllocatorRegistry (nc_Name nc) a"
    using assms(1) by (auto simp: register_config_def EA split: sum.splits option.splits)
  then have "allocators (set_alloc NewAllocatorRegistry (nc_Name nc) (foldl EnsureIP ?b pool)) (nc_Name nc) =
      allocators (set_alloc NewAllocatorRegistry (nc_Name nc) a) (nc_Name nc)" by simp
  then have a: "a = foldl EnsureIP ?b pool" by (simp add: set_alloc_def)
  show ?thesis
    using assms(2) unfolding a
    by (rule foldl_EnsureIP_full [rotated]) (simp add: block_avail_def New_alloc_inv(2) [OF b])
qed

lemma exact_free:
  assumes "exact V reg" "allocators reg cfg = Some a" "alloc_inv a" "ips a ip = Some free"
  shows "free = {i. i < totalBlocks a \<and> (\<forall>n. (ip, PortStart (block_alloc a i)) \<notin> owned V cfg n)}"
proof -
  let ?f = "\<lambda>i. PortStart (block_alloc a i)"
  have "block_avail a ip = Some (?f ` free)" using assms(4) by (simp add: block_avail_def)
  with assms(1,2) have eq: "?f ` free = {ps \<in> block_starts a. \<forall>n. (ip, ps) \<notin> owned V cfg n}"
    unfolding exact_def by blast
  have sub: "free \<subseteq> {i. i < totalBlocks a}" by (rule alloc_invD(4) [OF assms(3,4)])
  have "i \<in> free \<longleftrightarrow> ?f i \<in> ?f ` free" if "i < totalBlocks a" for i
    using that sub PortStart_inj [OF assms(3)] by blast
  then show ?thesis using eq sub by (auto simp: block_starts_def)
qed

lemma replay_exact:
  assumes "exact (V |` N) reg" "V (npr_Name npr) = Some npr" "npr_Name npr \<notin> N"
    "allocators reg (config_of npr) = Some a" "alloc_inv a" "good_allocs a (allocs_of npr)"
  shows "exact (V |` insert (npr_Name npr) N) (set_alloc reg (config_of npr) (mark_allocs (allocs_of npr) a))"
  unfolding exact_def
proof (intro allI impI)
  fix cfg b ip S
  let ?n = "npr_Name npr" and ?m = "mark_allocs (allocs_of npr) a"
  assume b: "allocators (set_alloc reg (config_of npr) ?m) cfg = Some b" "block_avail b ip = Some S"
  have store: "V |` insert ?n N = (V |` N)(?n \<mapsto> npr)" using assms(2) by (auto simp: restrict_map_def)
  have own: "owned (V |` insert ?n N) cfg n =
      (if n = ?n then (if config_of npr = cfg then held (allocs_of npr) else {}) else owned (V |` N) cfg n)" for n
    unfolding store by (simp add: owned_def holds_def)
  have own0: "owned (V |` N) cfg ?n = {}" using assms(3) by (simp add: owned_def)
  have split: "(\<forall>n. (ip, ps) \<notin> owned (V |` insert ?n N) cfg n) \<longleftrightarrow>
      (\<forall>n. (ip, ps) \<notin> owned (V |` N) cfg n) \<and> (config_of npr = cfg \<longrightarrow> (ip, ps) \<notin> held (allocs_of npr))" for ps
    using own own0 by (metis empty_iff)
  show "S = {ps \<in> block_starts b. \<forall>n. (ip, ps) \<notin> owned (V |` insert ?n N) cfg n}"
  proof (cases "cfg = config_of npr")
    case False
    with b have "allocators reg cfg = Some b" by (simp add: set_alloc_def)
    with assms(1) b(2) have "S = {ps \<in> block_starts b. \<forall>n. (ip, ps) \<notin> owned (V |` N) cfg n}"
      unfolding exact_def by blast
    with False show ?thesis unfolding split by auto
  next
    case True
    with b have bm: "b = ?m" by (simp add: set_alloc_def)
    have "to_alloc ` set (allocs_of npr) \<subseteq> blocks a" "\<forall>pa \<in> set (allocs_of npr). ips a (ExternalIP pa) \<noteq> None"
      using assms(6) unfolding good_allocs_def by blast+
    note mm = mark_allocs_marks [OF assms(5) this]
    have m: "block_avail ?m = take_items (held (allocs_of npr)) (block_avail a)" "block_starts ?m = block_starts a"
      using mm by (blast, intro blocks_starts) blast
    from b(2) bm m(1) obtain S0 where S0: "block_avail a ip = Some S0" "S = S0 - {p. (ip, p) \<in> held (allocs_of npr)}"
      by (auto simp: take_items_def)
    with assms(1,4) True have "S0 = {ps \<in> block_starts a. \<forall>n. (ip, ps) \<notin> owned (V |` N) cfg n}"
      unfolding exact_def by blast
    with S0(2) show ?thesis unfolding split bm m(2) using True by auto
  qed
qed

section \<open>Replaying the ranges\<close>

lemma replay_range_op_inv:
  assumes "op_inv (V |` N) reg" "V (npr_Name npr) = Some npr" "npr_Name npr \<notin> N"
    "npr_DeletionTimestamp npr = None" "set (npr_Finalizers npr) = {finalizerName}"
    "allocators reg (config_of npr) = Some a" "good_allocs a (allocs_of npr)"
    "\<And>cfg n. n \<noteq> npr_Name npr \<Longrightarrow> owned V cfg (npr_Name npr) \<inter> owned V cfg n = {}"
  shows "op_inv (V |` insert (npr_Name npr) N) (replay_range reg npr)"
    "replay_range reg npr = set_alloc reg (config_of npr) (mark_allocs (allocs_of npr) a)"
    "\<And>pas. good_allocs a pas \<Longrightarrow> good_allocs (mark_allocs (allocs_of npr) a) pas"
proof -
  let ?cfg = "config_of npr" and ?n = "npr_Name npr" and ?a = "mark_allocs (allocs_of npr) a"
  have ci: "cfg_inv (V |` N) ?cfg a" using op_invD(1) [OF assms(1,6)] .
  have m: "alloc_inv ?a" "block_avail ?a = take_items (held (allocs_of npr)) (block_avail a)"
    "blocks ?a = blocks a" "dom (ips ?a) = dom (ips a)"
    using mark_allocs_marks [OF cfg_invD(1) [OF ci]] assms(7) by (auto simp: good_allocs_def)
  show mono: "good_allocs ?a pas" if "good_allocs a pas" for pas
    using good_allocs_mono [OF that m(3)] m(4) by simp
  have store: "V |` insert ?n N = (V |` N)(?n \<mapsto> npr)" using assms(2) by (auto simp: restrict_map_def)
  have own: "owned V ?cfg ?n = held (allocs_of npr)" using assms(2) by (simp add: owned_def holds_def)
  have sub: "owned (V |` N) ?cfg n \<subseteq> owned V ?cfg n" for n by (auto simp: owned_def restrict_map_def)
  have "ledger (block_avail ?a) ((owned (V |` N) ?cfg)(?n := owned (V |` N) ?cfg ?n \<union> held (allocs_of npr)))"
    unfolding m(2) by (rule ledger_mark [OF cfg_invD(2) [OF ci]]) (use assms(8) [of _ ?cfg] own sub in blast)
  moreover have "owned ((V |` N)(?n \<mapsto> npr)) ?cfg =
      (owned (V |` N) ?cfg)(?n := owned (V |` N) ?cfg ?n \<union> held (allocs_of npr))"
    using assms(3) by (auto simp: owned_def holds_def fun_eq_iff restrict_map_def)
  moreover have "good_allocs ?a (allocs_of x)" if "((V |` N)(?n \<mapsto> npr)) n = Some x" "holds ?cfg x" for n x
    using that mono assms(7) cfg_invD(3) [OF ci, of n x] by (auto split: if_splits)
  ultimately have "cfg_inv ((V |` N)(?n \<mapsto> npr)) ?cfg ?a" using m(1) unfolding cfg_inv_def by metis
  from op_inv_store [OF assms(1) this] assms(5)
  have "op_inv (V |` insert ?n N) (set_alloc reg ?cfg ?a)" by (simp add: store)
  moreover show "replay_range reg npr = set_alloc reg ?cfg ?a"
    using assms(4,6) by (simp add: replay_range_def Get_def)
  ultimately show "op_inv (V |` insert ?n N) (replay_range reg npr)" by simp
qed

lemma replay_all:
  assumes "op_inv (V |` N) reg" "distinct (map npr_Name nprs)"
    "\<forall>npr \<in> set nprs. V (npr_Name npr) = Some npr \<and> npr_Name npr \<notin> N \<and> npr_DeletionTimestamp npr = None \<and>
       set (npr_Finalizers npr) = {finalizerName} \<and>
       (\<exists>a. allocators reg (config_of npr) = Some a \<and> good_allocs a (allocs_of npr))"
    "\<And>cfg n n'. n \<noteq> n' \<Longrightarrow> owned V cfg n \<inter> owned V cfg n' = {}"
  shows "op_inv (V |` (N \<union> npr_Name ` set nprs)) (foldl replay_range reg nprs) \<and>
    reconstructed (foldl replay_range reg nprs) = reconstructed reg \<and>
    (exact (V |` N) reg \<longrightarrow> exact (V |` (N \<union> npr_Name ` set nprs)) (foldl replay_range reg nprs))"
  using assms(1-3)
proof (induction nprs arbitrary: N reg)
  case (Cons npr nprs)
  then obtain a where a: "allocators reg (config_of npr) = Some a" "good_allocs a (allocs_of npr)" by auto
  have h: "V (npr_Name npr) = Some npr" "npr_Name npr \<notin> N" "npr_DeletionTimestamp npr = None"
    "set (npr_Finalizers npr) = {finalizerName}" using Cons.prems(3) by auto
  note one = replay_range_op_inv [OF Cons.prems(1) h a assms(4) [of "npr_Name npr", OF not_sym]]
  have ai: "alloc_inv a" using cfg_invD(1) [OF op_invD(1) [OF Cons.prems(1) a(1)]] .
  have ex: "exact (V |` N) reg \<Longrightarrow> exact (V |` insert (npr_Name npr) N) (replay_range reg npr)"
    using replay_exact [of V N reg npr a] h(1,2) a ai one(2) by simp
  have "\<exists>b. allocators (replay_range reg npr) (config_of x) = Some b \<and> good_allocs b (allocs_of x)"
    if "x \<in> set nprs" for x
  proof -
    from that Cons.prems(3) obtain b where "allocators reg (config_of x) = Some b" "good_allocs b (allocs_of x)" by auto
    with one(2) one(3) a(1) show ?thesis by (cases "config_of x = config_of npr") (auto simp: set_alloc_def)
  qed
  moreover have "npr_Name x \<noteq> npr_Name npr" if "x \<in> set nprs" for x
    using that Cons.prems(2) by (auto simp: image_iff)
  ultimately have "\<forall>x \<in> set nprs. V (npr_Name x) = Some x \<and> npr_Name x \<notin> insert (npr_Name npr) N \<and>
      npr_DeletionTimestamp x = None \<and> set (npr_Finalizers x) = {finalizerName} \<and>
      (\<exists>a. allocators (replay_range reg npr) (config_of x) = Some a \<and> good_allocs a (allocs_of x))"
    using Cons.prems(3) by auto
  from Cons.IH [OF one(1) _ this] Cons.prems(2) one(2) ex show ?case
    by (simp add: set_alloc_def)
qed simp

lemma Start_op_inv:
  assumes run: "Start E Ord NewAllocatorRegistry w = (Return d, reg', w')"
    and lists: "ListNATConfigs E w = Inr configs" "ListNPRs E w = Inr nprs" "distinct (map npr_Name nprs)"
      "\<And>npr. npr \<in> set nprs \<longleftrightarrow> V (npr_Name npr) = Some npr"
    and dur: "durable V configs"
  shows "op_inv V reg' \<and> Reconstructed reg' \<and> exact V reg'"
proof -
  obtain r reg1 where R: "for_ret register_config configs NewAllocatorRegistry = (r, reg1)" by fastforce
  have "oc \<noteq> Return d" if "register_config nc v = (Some oc, v')" for nc v oc v'
    using that by (auto simp: register_config_def split: sum.splits option.splits prod.splits)
  then have "r = None" using run lists(1) R for_ret_error by (cases r) (fastforce simp: Start_def)+
  note R = R [unfolded this]
  have init: "op_inv Map.empty NewAllocatorRegistry"
    by (simp add: op_inv_def NewAllocatorRegistry_def owned_def)
  have "op_inv Map.empty reg1" and rec: "reconstructed reg1 = False"
    and registered: "\<And>nc. nc \<in> set configs \<Longrightarrow> \<exists>a. allocators reg1 (nc_Name nc) = Some a \<and>
       register_config nc NewAllocatorRegistry = (None, set_alloc NewAllocatorRegistry (nc_Name nc) a)"
    and none: "\<And>cfg. cfg \<notin> nc_Name ` set configs \<Longrightarrow> allocators reg1 cfg = None"
    using register_all [OF R durableD(1) [OF dur] _ init] by (auto simp: NewAllocatorRegistry_def)
  then have start: "op_inv (V |` {}) reg1" by simp
  have each: "V (npr_Name npr) = Some npr \<and> npr_Name npr \<notin> {} \<and> npr_DeletionTimestamp npr = None \<and>
       set (npr_Finalizers npr) = {finalizerName} \<and>
       (\<exists>a. allocators reg1 (config_of npr) = Some a \<and> good_allocs a (allocs_of npr))"
    if "npr \<in> set nprs" for npr
  proof -
    from that lists(4) have V: "V (npr_Name npr) = Some npr" by simp
    then obtain nc where nc: "nc \<in> set configs" "nc_Name nc = config_of npr" "laid_out nc npr"
      using durableD(3) [OF dur] by blast
    from registered [OF nc(1)] nc(2,3) have "\<exists>a. allocators reg1 (config_of npr) = Some a \<and> good_allocs a (allocs_of npr)"
      by (auto simp: laid_out_def set_alloc_def)
    with V durableD(3) [OF dur V] show ?thesis by blast
  qed
  have full: "exact (V |` {}) reg1"
    unfolding exact_def
  proof (intro allI impI)
    fix cfg a ip S assume a: "allocators reg1 cfg = Some a" "block_avail a ip = Some S"
    with none obtain nc where "nc \<in> set configs" "nc_Name nc = cfg" by (cases "cfg \<in> nc_Name ` set configs") auto
    with registered [of nc] a(1) have "register_config nc NewAllocatorRegistry =
        (None, set_alloc NewAllocatorRegistry (nc_Name nc) a)" by auto
    from register_full [OF this a(2)] show "S = {ps \<in> block_starts a. \<forall>n. (ip, ps) \<notin> owned (V |` {}) cfg n}"
      by (simp add: owned_def)
  qed
  let ?reg2 = "foldl replay_range reg1 nprs"
  have "op_inv (V |` ({} \<union> npr_Name ` set nprs)) ?reg2 \<and> reconstructed ?reg2 = reconstructed reg1 \<and>
      (exact (V |` {}) reg1 \<longrightarrow> exact (V |` ({} \<union> npr_Name ` set nprs)) ?reg2)"
    by (rule replay_all [OF start lists(3)]) (use each durableD(2) [OF dur] in blast)+
  moreover have "V |` ({} \<union> npr_Name ` set nprs) = V"
  proof
    fix n show "(V |` ({} \<union> npr_Name ` set nprs)) n = V n"
    proof (cases "V n")
      case (Some npr)
      then have "npr \<in> set nprs" "npr_Name npr = n" using lists(4) durableD(3) [OF dur Some] by auto
      then show ?thesis by (auto simp: restrict_map_def)
    qed (simp add: restrict_map_def)
  qed
  ultimately have "op_inv V ?reg2" "\<not> reconstructed ?reg2" "exact V ?reg2" using rec full by auto
  moreover from this(2) run lists(1,2) R have "reg' = ?reg2\<lparr>reconstructed := True\<rparr>"
    by (auto simp: Start_def Let_def MarkReconstructed_def)
  ultimately show ?thesis by (simp add: op_inv_def Reconstructed_def exact_def)
qed

end
