(* ===== verification/OpMem.thy ===== *)
theory OpMem
  imports OpRestart
begin

text \<open>
  An API server in memory. It satisfies \<open>api_server\<close> (\<open>mem_api\<close>), so the laws the operator's theorems
  assume can hold, and concrete runs of the handlers can be evaluated on it. \<open>failing_updates\<close> is the
  same server while it rejects every update with a conflict.
\<close>

record mem =
  m_nprs :: "NATPortRange list"
  m_nprrs :: "NATPortRangeRequest list"
  m_configs :: "NATConfig list"
  m_clock :: gotime
  m_version :: nat

definition mem_view :: "mem \<Rightarrow> npr_store" where
  "mem_view w name = find (\<lambda>x. npr_Name x = name) (m_nprs w)"

fun current_of :: "NATPortRange list \<Rightarrow> NATPortRange list" where
  "current_of [] = []"
| "current_of (x # xs) = x # filter (\<lambda>y. npr_Name y \<noteq> npr_Name x) (current_of xs)"

definition without :: "string \<Rightarrow> NATPortRange list \<Rightarrow> NATPortRange list" where
  "without name xs = filter (\<lambda>y. npr_Name y \<noteq> name) xs"

definition mem_put :: "NATPortRange \<Rightarrow> mem \<Rightarrow> mem" where
  "mem_put x w = w\<lparr>m_nprs := x\<lparr>npr_ResourceVersion := m_version w\<rparr> # without (npr_Name x) (m_nprs w),
                   m_version := Suc (m_version w)\<rparr>"

definition mem_drop :: "string \<Rightarrow> mem \<Rightarrow> mem" where
  "mem_drop name w = w\<lparr>m_nprs := without name (m_nprs w)\<rparr>"

definition found :: "'a option \<Rightarrow> api_error + 'a" where
  "found x = (case x of None \<Rightarrow> Inl NotFound | Some v \<Rightarrow> Inr v)"

definition mem_create :: "NATPortRange \<Rightarrow> mem \<Rightarrow> api_error option \<times> mem" where
  "mem_create x w =
     (if mem_view w (npr_Name x) = None then (None, mem_put x w) else (Some AlreadyExists, w))"

definition mem_update :: "NATPortRange \<Rightarrow> mem \<Rightarrow> api_error option \<times> mem" where
  "mem_update x w =
     (case mem_view w (npr_Name x) of
        None \<Rightarrow> (Some NotFound, w)
      | Some cur \<Rightarrow>
          (if npr_ResourceVersion cur \<noteq> npr_ResourceVersion x then (Some Conflict, w)
           else if npr_DeletionTimestamp x \<noteq> None \<and> npr_Finalizers x = []
           then (None, mem_drop (npr_Name x) w)
           else (None, mem_put x w)))"

definition mem_delete :: "NATPortRange \<Rightarrow> mem \<Rightarrow> api_error option \<times> mem" where
  "mem_delete x w =
     (case mem_view w (npr_Name x) of
        None \<Rightarrow> (Some NotFound, w)
      | Some cur \<Rightarrow>
          (if npr_Finalizers cur = [] then (None, mem_drop (npr_Name x) w)
           else (None, mem_put (cur\<lparr>npr_DeletionTimestamp := Some (m_clock w)\<rparr>) w)))"

definition memEnv :: "mem opEnv" where
  "memEnv =
     \<lparr>GetNATConfig = (\<lambda>w name. found (find (\<lambda>x. nc_Name x = name) (m_configs w))),
      GetNPRR = (\<lambda>w name. found (find (\<lambda>x. nprr_Name x = name) (m_nprrs w))),
      GetNPR = (\<lambda>w name. found (mem_view w name)),
      ListNATConfigs = (\<lambda>w. Inr (m_configs w)),
      ListNPRs = (\<lambda>w. Inr (current_of (m_nprs w))),
      ListNPRsOfConfig = (\<lambda>w cfg. Inr (filter (\<lambda>x. npr_NATConfig (npr_Spec x) = cfg) (current_of (m_nprs w)))),
      CreateNPR = mem_create, UpdateNPR = mem_update, DeleteNPR = mem_delete,
      Now = m_clock, Metric = (\<lambda>m w. w)\<rparr>"

definition failing_updates :: "mem opEnv" where
  "failing_updates = memEnv\<lparr>UpdateNPR := (\<lambda>x w. (Some Conflict, w))\<rparr>"

section \<open>The laws hold\<close>

lemma find_name: "find (\<lambda>x. f x = name) xs = Some x \<Longrightarrow> f x = name"
  by (induction xs) (auto split: if_splits)

lemma find_without:
  "find (\<lambda>x. npr_Name x = n) (without name xs) = (if n = name then None else find (\<lambda>x. npr_Name x = n) xs)"
  by (induction xs) (auto simp: without_def)

lemma find_filter_other:
  "n \<noteq> m \<Longrightarrow> find (\<lambda>x. npr_Name x = n) (filter (\<lambda>y. npr_Name y \<noteq> m) xs) = find (\<lambda>x. npr_Name x = n) xs"
  by (induction xs) auto

lemma current_of_find: "x \<in> set (current_of xs) \<longleftrightarrow> find (\<lambda>y. npr_Name y = npr_Name x) xs = Some x"
  by (induction xs) auto

lemma current_of_distinct: "distinct (map npr_Name (current_of xs))"
  by (induction xs) (auto simp: distinct_map_filter)

lemma mem_view_put: "mem_view (mem_put x w) = (mem_view w)(npr_Name x \<mapsto> x\<lparr>npr_ResourceVersion := m_version w\<rparr>)"
  by (auto simp: mem_view_def mem_put_def find_without fun_eq_iff)

lemma mem_view_drop: "mem_view (mem_drop name w) = (mem_view w)(name := None)"
  by (auto simp: mem_view_def mem_drop_def find_without fun_eq_iff)

lemma mem_view_name: "mem_view w name = Some x \<Longrightarrow> npr_Name x = name"
  unfolding mem_view_def by (rule find_name)

lemma stored_put: "stored_as x (x\<lparr>npr_ResourceVersion := v\<rparr>)"
  unfolding stored_as_def by (intro conjI exI [of _ "npr_StaleSince (npr_Spec x)"]) simp_all

lemma mem_create_law: "create_law memEnv mem_view"
  unfolding create_law_def
  by (auto simp: memEnv_def mem_create_def mem_view_put split: if_splits intro: stored_put)

lemma mem_update_law: "update_law memEnv mem_view"
  unfolding update_law_def
proof (intro allI impI)
  fix x w w' assume "UpdateNPR memEnv x w = (None, w')"
  then have u: "mem_update x w = (None, w')" by (simp add: memEnv_def)
  then obtain cur where cur: "mem_view w (npr_Name x) = Some cur" "npr_ResourceVersion cur = npr_ResourceVersion x"
    by (auto simp: mem_update_def split: option.splits if_splits)
  show "(\<exists>cur. mem_view w (npr_Name x) = Some cur \<and> npr_ResourceVersion cur = npr_ResourceVersion x) \<and>
     (if npr_DeletionTimestamp x \<noteq> None \<and> npr_Finalizers x = []
      then mem_view w' = (mem_view w)(npr_Name x := None)
      else \<exists>s. stored_as x s \<and> mem_view w' = (mem_view w)(npr_Name x \<mapsto> s))"
  proof (cases "npr_DeletionTimestamp x \<noteq> None \<and> npr_Finalizers x = []")
    case True
    with u cur have "w' = mem_drop (npr_Name x) w" by (simp add: mem_update_def)
    with cur True show ?thesis by (simp add: mem_view_drop)
  next
    case False
    with u cur have "w' = mem_put x w" by (auto simp: mem_update_def split: if_splits)
    with cur False stored_put show ?thesis by (simp add: mem_view_put if_not_P) blast
  qed
qed

lemma mem_delete_law: "delete_law memEnv mem_view"
  unfolding delete_law_def
proof (intro allI impI)
  fix x w w' assume "DeleteNPR memEnv x w = (None, w')"
  then have d: "mem_delete x w = (None, w')" by (simp add: memEnv_def)
  then obtain cur where cur: "mem_view w (npr_Name x) = Some cur"
    by (auto simp: mem_delete_def split: option.splits if_splits)
  note name = mem_view_name [OF cur]
  have "if npr_Finalizers cur = [] then mem_view w' = (mem_view w)(npr_Name x := None)
        else \<exists>t v. t \<noteq> None \<and> mem_view w' = (mem_view w)(npr_Name x \<mapsto>
          cur\<lparr>npr_DeletionTimestamp := t, npr_ResourceVersion := v\<rparr>)"
  proof (cases "npr_Finalizers cur = []")
    case True
    with d cur have "w' = mem_drop (npr_Name x) w" by (simp add: mem_delete_def)
    with True show ?thesis by (simp add: mem_view_drop)
  next
    case False
    with d cur have "w' = mem_put (cur\<lparr>npr_DeletionTimestamp := Some (m_clock w)\<rparr>) w"
      by (simp add: mem_delete_def)
    with False name have "mem_view w' = (mem_view w)(npr_Name x \<mapsto>
          cur\<lparr>npr_DeletionTimestamp := Some (m_clock w), npr_ResourceVersion := m_version w\<rparr>)"
      by (simp add: mem_view_put)
    with False show ?thesis by (metis option.distinct(1))
  qed
  with cur show "\<exists>cur. mem_view w (npr_Name x) = Some cur \<and>
       (if npr_Finalizers cur = [] then mem_view w' = (mem_view w)(npr_Name x := None)
        else \<exists>t v. t \<noteq> None \<and> mem_view w' = (mem_view w)(npr_Name x \<mapsto>
          cur\<lparr>npr_DeletionTimestamp := t, npr_ResourceVersion := v\<rparr>))" by blast
qed

lemma mem_no_effect_law: "no_effect_law memEnv mem_view"
  unfolding no_effect_law_def
  by (auto simp: memEnv_def mem_create_def mem_update_def mem_delete_def split: option.splits if_splits)

lemma mem_read_law: "read_law memEnv mem_view"
  unfolding read_law_def
  by (auto simp: memEnv_def found_def same_version_def current_of_find current_of_distinct distinct_map_filter
      mem_view_def [symmetric] mem_view_name split: option.splits dest: find_name)

lemma mem_api: "api_server memEnv mem_view"
  using mem_create_law mem_update_law mem_delete_law mem_no_effect_law mem_read_law
  by (simp add: api_server_def)

lemma failing_api: "api_server failing_updates mem_view"
  using mem_api unfolding api_server_def
  by (simp add: create_law_def update_law_def delete_law_def no_effect_law_def read_law_def failing_updates_def)

end
