(* ===== verification/OpReach.thy ===== *)
theory OpReach
  imports OpMem
begin

text \<open>
  The operator running: a step is one reconcile of one of the three controllers, a change of the stored
  objects by somebody else, or a restart of the operator. The premises of the steps are the conditions
  under which the handlers keep \<open>op_inv\<close>; what happens without them is shown by the counterexamples in
  \<open>Operator_Props\<close>.
\<close>

section \<open>Steps\<close>

definition paired :: "'w opEnv \<Rightarrow> ('w \<Rightarrow> npr_store) \<Rightarrow> string \<Rightarrow> 'w \<Rightarrow> bool" where
  "paired E view name w \<longleftrightarrow>
     (\<forall>nprr cur. GetNPRR E w name = Inr nprr \<longrightarrow> view w name = Some cur \<longrightarrow>
        config_of cur = nprr_NATConfig (nprr_Spec nprr))"

definition stale_or_deleted :: "NATPortRange \<Rightarrow> bool" where
  "stale_or_deleted npr \<longleftrightarrow> npr_DeletionTimestamp npr \<noteq> None \<or> npr_StaleSince (npr_Spec npr) \<noteq> None"

definition pool_change_safe :: "'w opEnv \<Rightarrow> ('w \<Rightarrow> npr_store) \<Rightarrow> string \<Rightarrow> 'w \<Rightarrow> bool" where
  "pool_change_safe E view name w \<longleftrightarrow>
     (GetNATConfig E w name = Inl NotFound \<longrightarrow> (\<forall>n. owned (view w) name n = {})) \<and>
     (\<forall>nprs n npr. ListNPRsOfConfig E w name = Inr nprs \<longrightarrow> view w n = Some npr \<longrightarrow>
        config_of npr = name \<longrightarrow> npr \<in> set nprs) \<and>
     (\<forall>nc ds n npr. GetNATConfig E w name = Inr nc \<longrightarrow>
        expandCIDRs (ExternalIPPool (nc_Spec nc)) = Some (Inr ds) \<longrightarrow> view w n = Some npr \<longrightarrow>
        config_of npr = name \<longrightarrow> stale_or_deleted npr \<longrightarrow> on_pool (set ds) npr)"

definition restarts :: "'w opEnv \<Rightarrow> ('w \<Rightarrow> npr_store) \<Rightarrow> orders \<Rightarrow> 'w \<Rightarrow> AllocatorRegistry \<times> 'w \<Rightarrow> bool" where
  "restarts E view Ord w s \<longleftrightarrow>
     (\<exists>configs nprs d. Start E Ord NewAllocatorRegistry w = (Return d, s) \<and>
        ListNATConfigs E w = Inr configs \<and> ListNPRs E w = Inr nprs \<and> distinct (map npr_Name nprs) \<and>
        (\<forall>npr. npr \<in> set nprs \<longleftrightarrow> view w (npr_Name npr) = Some npr) \<and> durable (view w) configs)"

text \<open>
  Others may delete ranges (which sets the deletion timestamp, the finalizer keeps them), touch fields
  that carry no blocks, and change every other kind of object.
\<close>

definition outside_change :: "npr_store \<Rightarrow> npr_store \<Rightarrow> bool" where
  "outside_change V V' \<longleftrightarrow>
     (\<forall>n. rel_option (\<lambda>x y. config_of y = config_of x \<and> allocs_of y = allocs_of x \<and>
        npr_Finalizers y = npr_Finalizers x) (V n) (V' n))"

inductive op_step :: "'w opEnv \<Rightarrow> ('w \<Rightarrow> npr_store) \<Rightarrow> AllocatorRegistry \<times> 'w \<Rightarrow> AllocatorRegistry \<times> 'w \<Rightarrow> bool"
  for E view where
  request: "reconcileNPRR E Ord reg name w = (oc, reg', w') \<Longrightarrow> paired E view name w \<Longrightarrow>
    op_step E view (reg, w) (reg', w')"
| range: "reconcileNPR E Ord win reg name w = (oc, reg', w') \<Longrightarrow> (\<And>e. oc \<noteq> Fail e) \<Longrightarrow>
    op_step E view (reg, w) (reg', w')"
| config: "reconcileNATConfig E Ord reg name w = (oc, reg', w') \<Longrightarrow> pool_change_safe E view name w \<Longrightarrow>
    op_step E view (reg, w) (reg', w')"
| outside: "outside_change (view w) (view w') \<Longrightarrow> op_step E view (reg, w) (reg, w')"
| restart: "restarts E view Ord w s \<Longrightarrow> op_step E view (reg, w) s"

inductive_cases op_stepE: "op_step E view s t"

inductive op_reach :: "'w opEnv \<Rightarrow> ('w \<Rightarrow> npr_store) \<Rightarrow> AllocatorRegistry \<times> 'w \<Rightarrow> bool"
  for E view where
  init: "restarts E view Ord w s \<Longrightarrow> op_reach E view s"
| step: "op_reach E view s \<Longrightarrow> op_step E view s t \<Longrightarrow> op_reach E view t"

section \<open>The invariant of the reachable states\<close>

lemma restarts_op_inv: "restarts E view Ord w (reg, w') \<Longrightarrow> api_server E view \<Longrightarrow> op_inv (view w') reg"
proof -
  assume r: "restarts E view Ord w (reg, w')" and api: "api_server E view"
  then obtain configs nprs d where s: "Start E Ord NewAllocatorRegistry w = (Return d, reg, w')"
    "ListNATConfigs E w = Inr configs" "ListNPRs E w = Inr nprs" "distinct (map npr_Name nprs)"
    "\<And>npr. npr \<in> set nprs \<longleftrightarrow> view w (npr_Name npr) = Some npr" "durable (view w) configs"
    by (auto simp: restarts_def)
  have fold: "view (foldl (\<lambda>v nc. RecordAvailability E k r (nc_Name nc) v) u ncs) = view u" for k r u and ncs :: "NATConfig list"
    by (induction ncs arbitrary: u) (simp_all add: api_record [OF api])
  have "view w' = view w"
    using s(1-3) by (auto simp: Start_def Let_def fold split: prod.splits option.splits)
  with Start_op_inv [OF s] show "op_inv (view w') reg" by simp
qed

lemma outside_op_inv:
  assumes "op_inv V reg" "outside_change V V'"
  shows "op_inv V' reg"
proof -
  have rel: "rel_option (\<lambda>x y. config_of y = config_of x \<and> allocs_of y = allocs_of x \<and>
      npr_Finalizers y = npr_Finalizers x) (V n) (V' n)" for n
    using assms(2) by (simp add: outside_change_def)
  have own: "owned V' cfg n = owned V cfg n" for cfg n
    using rel [of n] by (cases rule: option.rel_cases) (auto simp: owned_def holds_def)
  then have own': "owned V' = owned V" by blast
  have same: "\<exists>x. V n = Some x \<and> config_of y = config_of x \<and> allocs_of y = allocs_of x \<and>
      npr_Finalizers y = npr_Finalizers x" if "V' n = Some y" for n y
    using rel [of n] that by (cases rule: option.rel_cases) auto
  have "cfg_inv V' cfg a" if ci: "cfg_inv V cfg a" for cfg a
    unfolding cfg_inv_def own'
  proof (intro conjI allI impI)
    show "alloc_inv a" "ledger (block_avail a) (owned V cfg)" using cfg_invD [OF ci] by blast+
    fix n y assume "V' n = Some y" "holds cfg y"
    with same obtain x where "V n = Some x" "holds cfg x" "allocs_of y = allocs_of x" by (fastforce simp: holds_def)
    with cfg_invD(3) [OF ci] show "good_allocs a (allocs_of y)" by simp
  qed
  moreover have "set (npr_Finalizers y) = {finalizerName}" if "V' n = Some y" for n y
    using same [OF that] op_invD(3) [OF assms(1)] by fastforce
  ultimately show ?thesis using op_invD(1,2) [OF assms(1)] unfolding op_inv_def own' by blast
qed

lemma op_step_op_inv:
  assumes "op_step E view (reg, w) (reg', w')" "api_server E view" "op_inv (view w) reg"
  shows "op_inv (view w') reg'"
  using assms(1)
proof (cases rule: op_step.cases)
  case (request Ord name oc)
  show ?thesis
    by (rule reconcileNPRR_op_inv [OF assms(2,3) _ request(1)])
      (use request(2) in \<open>unfold paired_def, blast\<close>)
next
  case (range Ord win name oc)
  then show ?thesis using reconcileNPR_op_inv [OF assms(2,3)] by blast
next
  case (config Ord name oc)
  show ?thesis
    by (rule reconcileNATConfig_op_inv [OF assms(2,3) _ _ _ config(1)])
      (use config(2) in \<open>unfold pool_change_safe_def stale_or_deleted_def, metis\<close>)+
next
  case outside
  then show ?thesis using outside_op_inv assms(3) by blast
next
  case (restart Ord)
  show ?thesis using restarts_op_inv [OF restart assms(2)] .
qed

lemma op_reach_op_inv: "op_reach E view s \<Longrightarrow> api_server E view \<Longrightarrow> op_inv (view (snd s)) (fst s)"
proof (induction rule: op_reach.induct)
  case (init Ord w s)
  then show ?case using restarts_op_inv by (cases s) auto
next
  case (step s t)
  then show ?case using op_step_op_inv by (cases s; cases t) auto
qed

section \<open>What the invariant says of ports\<close>

lemma good_allocs_block:
  assumes "good_allocs a pas" "pa \<in> set pas"
  obtains i where "i < totalBlocks a" "to_alloc pa = block_alloc a i" "ucast (pa_PortStart pa) = PortStart (block_alloc a i)"
proof -
  from assms obtain i where "i < totalBlocks a" "to_alloc pa = block_alloc a i"
    by (auto simp: good_allocs_def blocks_def)
  with that show ?thesis by (metis to_alloc_def Allocation.select_convs(1))
qed

lemma op_inv_holder:
  assumes "op_inv V reg" "V n = Some x" "pa \<in> set (allocs_of x)"
  obtains a where "allocators reg (config_of x) = Some a" "cfg_inv V (config_of x) a" "good_allocs a (allocs_of x)"
proof -
  have "owned V (config_of x) n \<noteq> {}" using assms(2,3) by (auto simp: owned_def holds_def held_def)
  then obtain a where a: "allocators reg (config_of x) = Some a"
    using op_invD(2) [OF assms(1)] by (cases "allocators reg (config_of x)") auto
  with op_invD(1) [OF assms(1) a] cfg_invD(3) [OF op_invD(1) [OF assms(1) a] assms(2)] that show ?thesis
    by (auto simp: holds_def)
qed

lemma good_blocks_disjoint:
  assumes "alloc_inv a" "good_allocs a pas" "good_allocs a pbs" "pa \<in> set pas" "pb \<in> set pbs"
    "ucast (pa_PortStart pa) \<noteq> (ucast (pa_PortStart pb) :: u16)"
  shows "alloc_ports (to_alloc pa) \<inter> alloc_ports (to_alloc pb) = {}"
proof -
  obtain i where i: "i < totalBlocks a" "to_alloc pa = block_alloc a i" "ucast (pa_PortStart pa) = PortStart (block_alloc a i)"
    using good_allocs_block [OF assms(2,4)] .
  obtain j where j: "j < totalBlocks a" "to_alloc pb = block_alloc a j" "ucast (pa_PortStart pb) = PortStart (block_alloc a j)"
    using good_allocs_block [OF assms(3,5)] .
  from i j assms(6) have "i \<noteq> j" by auto
  with i j show ?thesis using block_ports_disjoint [OF assms(1)] by simp
qed

end
