(* ===== verification/Operator_Props.thy ===== *)
theory Operator_Props
  imports OpReach
begin

text \<open>
  The properties of the operator, with their concrete instances. The instances run on the in-memory API
  server with one NATConfig \<open>c\<close> whose pool is the address 10.0.0.1 and whose ranges have 4096 ports, so
  that the dynamic port space has the four blocks 49152, 53248, 57344 and 61440.
\<close>

section \<open>A concrete cluster\<close>

definition ex_nc :: NATConfig where
  "ex_nc = \<lparr>nc_Name = ''c'', nc_Spec = \<lparr>ExternalIPPool = [''10.0.0.1/32''], PortRangeSize = 4096,
     nc_TargetCIDRs = [], ReservedPorts = [], AllowRegisteredPorts = False,
     PodSelector = \<lparr>MatchLabels = [], MatchExpressions = []\<rparr>, NodeSelector = None\<rparr>\<rparr>"

definition ex_npr :: "string \<Rightarrow> PortAllocation list \<Rightarrow> NATPortRange" where
  "ex_npr name pas = \<lparr>npr_Name = name, npr_Finalizers = [finalizerName], npr_DeletionTimestamp = None,
     npr_ResourceVersion = 1, npr_Spec = \<lparr>npr_PodName = name, npr_PodNamespace = ''ns'', npr_PodIP = ''10.1.0.1'',
       npr_NodeName = ''n'', npr_NATConfig = ''c'', npr_TargetCIDRs = [], npr_PortRangeCount = 1,
       npr_ExcludePorts = [], npr_Allocations = pas, npr_StaleSince = None\<rparr>\<rparr>"

definition ex_pa :: "i32 \<Rightarrow> i32 \<Rightarrow> PortAllocation" where
  "ex_pa s e = \<lparr>ExternalIP = ''10.0.0.1'', pa_PortStart = s, pa_PortEnd = e\<rparr>"

definition ex_nprr :: "string \<Rightarrow> NATPortRangeRequest" where
  "ex_nprr name = \<lparr>nprr_Name = name, nprr_DeletionTimestamp = None, nprr_ResourceVersion = 1,
     nprr_Spec = \<lparr>nprr_PodName = name, nprr_PodNamespace = ''ns'', nprr_PodIP = ''10.1.0.1'', nprr_NodeName = ''n'',
       nprr_NATConfig = ''c'', nprr_PortRangeCount = None, nprr_ExcludePorts = []\<rparr>,
     nprr_Status = \<lparr>DeletionGracePeriodExpiry = None\<rparr>\<rparr>"

definition ex_mem :: "NATPortRange list \<Rightarrow> NATPortRangeRequest list \<Rightarrow> mem" where
  "ex_mem nprs nprrs = \<lparr>m_nprs = nprs, m_nprrs = nprrs, m_configs = [ex_nc], m_clock = 100000000000, m_version = 2\<rparr>"

definition ex_ord :: orders where
  "ex_ord = \<lparr>pickOrder = (\<lambda>_ _. sorted_order), freeOrder = sorted_order, buildOrder = sorted_order,
     listOrder = sorted_order\<rparr>"

definition ex_a :: "u16 set \<Rightarrow> BlockAllocator" where
  "ex_a free = \<lparr>blockSize = 4096, minPort = 49152, totalBlocks = 4, natConfigName = ''c'', onExhausted = True,
     exhaustedCalls = 0, ips = [''10.0.0.1'' \<mapsto> free], reserved = {}\<rparr>"

definition ex_reg :: "u16 set \<Rightarrow> AllocatorRegistry" where
  "ex_reg free = \<lparr>allocators = [''c'' \<mapsto> ex_a free], reconstructed = True\<rparr>"

lemma ex_pool: "expandCIDRs [''10.0.0.1/32''] = Some (Inr [''10.0.0.1''])"
proof -
  let ?n = "\<lparr>net_addr = [10, 0, 0, 1], net_mask = [255, 255, 255, 255]\<rparr>"
  have p: "ParseCIDR ''10.0.0.1/32'' = Some ([0,0,0,0,0,0,0,0,0,0,255,255,10,0,0,1], ?n)"
    by (simp add: ParseCIDR_def ParseAddr_def is_digit_def digit_val_def Let_def v4InV6Prefix_def
        CIDRMask_def IP_Mask_def upt_rec)
  have c: "Contains ?n [10, 0, 0, 1]" "\<not> Contains ?n [10, 0, 0, 2]"
    by (simp_all add: Contains_def networkNumberAndMask_def To4_def Let_def numeral_eq_Suc All_less_Suc Ex_less_Suc)
  have s: "IP_String [10, 0, 0, 1] = ''10.0.0.1''"
    by (simp add: IP_String_def To4_def show4_def show_nat.simps char_of_def bit_Suc_0_iff)
  have "expand_from ?n [10, 0, 0, 1] [] = Some [[10, 0, 0, 1]]"
    by (simp add: expand_from.simps c incrementIP_def Let_def)
  with p s show ?thesis by (simp add: expandCIDRs_def cloneIP_def Let_def)
qed

lemma ex_full: "fullFreeSet (ex_a S\<lparr>ips := m\<rparr>) = {0, 1, 2, 3}"
  by (auto simp: fullFreeSet_def ex_a_def upt_rec)

lemma mem_record_ips: "record_ips memEnv name a xs w = w"
  by (induction xs) (simp_all add: memEnv_def split: option.splits)

lemma mem_record [simp]: "RecordAvailability memEnv k reg name w = w"
  by (simp add: RecordAvailability_def mem_record_ips split: option.splits)

lemma ex_register:
  "register_config ex_nc NewAllocatorRegistry =
     (None, set_alloc NewAllocatorRegistry ''c'' (ex_a {0, 1, 2, 3}))"
proof -
  have "EnsureIP (ex_a {}\<lparr>ips := Map.empty\<rparr>) ''10.0.0.1'' = ex_a {0, 1, 2, 3}"
    by (simp add: EnsureIP_def ex_full) (simp add: ex_a_def)
  moreover have "EnsureAllocator NewAllocatorRegistry ''c'' 4096 False [] =
      (Inr (ex_a {}\<lparr>ips := Map.empty\<rparr>), set_alloc NewAllocatorRegistry ''c'' (ex_a {}\<lparr>ips := Map.empty\<rparr>))"
    by (simp add: EnsureAllocator_def NewAllocatorRegistry_def New_def MinPortDynamic_def MaxPort_def Let_def
        SetReservedPorts_def ex_a_def set_alloc_def)
  ultimately show ?thesis
    by (simp add: register_config_def ex_nc_def ex_pool toUint16Ports_def)
qed

text \<open>Two ranges, on the first two blocks.\<close>

abbreviation "ex_p1 \<equiv> ex_npr ''p1'' [ex_pa 49152 53247]"
abbreviation "ex_p2 \<equiv> ex_npr ''p2'' [ex_pa 53248 57343]"
abbreviation "ex_two \<equiv> ex_mem [ex_p1, ex_p2] []"

lemma ex_npr_sel [simp]:
  "npr_Name (ex_npr n pas) = n" "allocs_of (ex_npr n pas) = pas" "config_of (ex_npr n pas) = ''c''"
  "npr_DeletionTimestamp (ex_npr n pas) = None" "npr_Finalizers (ex_npr n pas) = [finalizerName]"
  "npr_StaleSince (npr_Spec (ex_npr n pas)) = None"
  by (simp_all add: ex_npr_def)

lemma ex_pa_sel [simp]:
  "ExternalIP (ex_pa s e) = ''10.0.0.1''" "pa_PortStart (ex_pa s e) = s" "pa_PortEnd (ex_pa s e) = e"
  by (simp_all add: ex_pa_def)

lemma mem_restarts:
  assumes "Start memEnv Ord NewAllocatorRegistry w = (Return d, s)" "durable (mem_view w) (m_configs w)"
  shows "restarts memEnv mem_view Ord w s"
  unfolding restarts_def
  by (rule exI [of _ "m_configs w"], rule exI [of _ "current_of (m_nprs w)"], rule exI [of _ d])
    (use assms in \<open>simp add: memEnv_def current_of_distinct current_of_find mem_view_def\<close>)

lemma ex_blocks:
  "block_alloc (ex_a S) 0 = \<lparr>PortStart = 49152, PortEnd = 53247\<rparr>"
  "block_alloc (ex_a S) 1 = \<lparr>PortStart = 53248, PortEnd = 57343\<rparr>"
  by (simp_all add: block_alloc_def ex_a_def)

lemma ex_view:
  "mem_view ex_two = [''p1'' \<mapsto> ex_p1, ''p2'' \<mapsto> ex_p2]" "mem_view (ex_mem [] rs) = Map.empty"
  by (auto simp: mem_view_def ex_mem_def fun_eq_iff)

lemma ex_good: "good_allocs (ex_a S) [ex_pa 49152 53247]" "good_allocs (ex_a S) [ex_pa 53248 57343]"
proof -
  have "block_alloc (ex_a S) 0 \<in> blocks (ex_a S)" "block_alloc (ex_a S) 1 \<in> blocks (ex_a S)"
    by (auto simp: blocks_def ex_a_def word_less_nat_alt)
  moreover have "ips (ex_a S) ''10.0.0.1'' = Some S" by (simp add: ex_a_def)
  ultimately show "good_allocs (ex_a S) [ex_pa 49152 53247]" "good_allocs (ex_a S) [ex_pa 53248 57343]"
    by (simp_all add: good_allocs_def to_alloc_def ex_blocks collectPortStarts_def)
qed

lemma ex_durable: "durable (mem_view ex_two) [ex_nc]"
proof -
  have name: "nc_Name ex_nc = ''c''" by (simp add: ex_nc_def)
  have laid: "laid_out ex_nc ex_p1" "laid_out ex_nc ex_p2"
    unfolding laid_out_def ex_register using ex_good by (simp_all add: set_alloc_def name)
  have "owned (mem_view ex_two) cfg n \<inter> owned (mem_view ex_two) cfg n' = {}" if "n \<noteq> n'" for cfg n n'
    using that by (auto simp: owned_def ex_view held_def holds_def)
  then show ?thesis unfolding durable_def using laid name by (auto simp: ex_view split: if_splits)
qed

lemma ex_replay:
  "replay_range (replay_range (set_alloc NewAllocatorRegistry ''c'' (ex_a {0, 1, 2, 3})) ex_p1) ex_p2 =
     set_alloc NewAllocatorRegistry ''c'' (ex_a {2, 3})"
proof -
  have idx: "blockIndexOf (ex_a S) 49152 = Inr 0" "blockIndexOf (ex_a S) 53248 = Inr 1" for S
    by (simp_all add: blockIndexOf_def ex_a_def Let_def word_le_nat_alt)
  have m1: "mark_allocs [ex_pa 49152 53247] (ex_a {0, 1, 2, 3}) = ex_a {1, 2, 3}"
    by (simp add: mark_allocs_def MarkUsed_def idx) (simp add: ex_a_def insert_Diff_if)
  have m2: "mark_allocs [ex_pa 53248 57343] (ex_a {1, 2, 3}) = ex_a {2, 3}"
    by (simp add: mark_allocs_def MarkUsed_def idx) (simp add: ex_a_def insert_Diff_if)
  show ?thesis using m1 m2 by (simp add: replay_range_def Get_def set_alloc_def)
qed

lemma ex_lists: "ListNATConfigs memEnv ex_two = Inr [ex_nc]" "ListNPRs memEnv ex_two = Inr [ex_p1, ex_p2]"
  by (simp_all add: memEnv_def ex_mem_def)

lemma ex_start:
  "Start memEnv ex_ord NewAllocatorRegistry ex_two = (Return 0, ex_reg {2, 3}, ex_two)"
  by (simp add: Start_def ex_lists ex_register ex_replay MarkReconstructed_def Let_def)
    (simp add: set_alloc_def NewAllocatorRegistry_def ex_reg_def)

lemma ex_restarts: "restarts memEnv mem_view ex_ord ex_two (ex_reg {2, 3}, ex_two)"
proof (rule mem_restarts [OF ex_start])
  show "durable (mem_view ex_two) (m_configs ex_two)" using ex_durable by (simp add: ex_mem_def)
qed

section \<open>No port is given to two pods\<close>

text \<open>Under the invariant of the operator no port is held twice and no held port is free.\<close>

lemma op_inv_no_overlap:
  assumes inv: "op_inv V reg" and x: "V n = Some x" and pa: "pa \<in> set (npr_Allocations (npr_Spec x))"
  shows "(\<forall>n' y pb. V n' = Some y \<longrightarrow> n' \<noteq> n \<longrightarrow>
       npr_NATConfig (npr_Spec y) = npr_NATConfig (npr_Spec x) \<longrightarrow>
       pb \<in> set (npr_Allocations (npr_Spec y)) \<longrightarrow> ExternalIP pb = ExternalIP pa \<longrightarrow>
       alloc_ports (to_alloc pa) \<inter> alloc_ports (to_alloc pb) = {}) \<and>
    (\<forall>pb \<in> set (npr_Allocations (npr_Spec x)). pb \<noteq> pa \<longrightarrow>
       alloc_ports (to_alloc pa) \<inter> alloc_ports (to_alloc pb) = {}) \<and>
    (\<exists>a free. allocators reg (npr_NATConfig (npr_Spec x)) = Some a \<and> ips a (ExternalIP pa) = Some free \<and>
       (\<forall>i \<in> free. alloc_ports (to_alloc pa) \<inter> alloc_ports (block_alloc a i) = {}))"
proof -
  obtain a where a: "allocators reg (config_of x) = Some a" "cfg_inv V (config_of x) a" "good_allocs a (allocs_of x)"
    using op_inv_holder [OF inv x pa] .
  note ci = cfg_invD [OF a(2)]
  let ?ps = "ucast (pa_PortStart pa) :: u16"
  have own: "(ExternalIP pa, ?ps) \<in> owned V (config_of x) n"
    using x pa by (auto simp: owned_def holds_def held_def)
  have "alloc_ports (to_alloc pa) \<inter> alloc_ports (to_alloc pb) = {}"
    if y: "V n' = Some y" "n' \<noteq> n" "config_of y = config_of x" "pb \<in> set (allocs_of y)" "ExternalIP pb = ExternalIP pa"
    for n' y pb
  proof -
    have "(ExternalIP pb, ucast (pa_PortStart pb)) \<in> held (allocs_of y)" using y(4) by (simp add: held_def)
    then have "(ExternalIP pb, ucast (pa_PortStart pb)) \<in> owned V (config_of x) n'"
      using y(1,3) by (simp add: owned_def holds_def)
    with own y(2,5) ledger_disjoint [OF ci(2), of n n'] have "?ps \<noteq> ucast (pa_PortStart pb)" by auto
    then show ?thesis
      using good_blocks_disjoint [OF ci(1) a(3) ci(3) [OF y(1)] pa y(4)] y(3) by (simp add: holds_def)
  qed
  moreover have "alloc_ports (to_alloc pa) \<inter> alloc_ports (to_alloc pb) = {}"
    if "pb \<in> set (allocs_of x)" "pb \<noteq> pa" for pb
  proof -
    have "inj_on (\<lambda>pa. ucast (pa_PortStart pa) :: u16) (set (allocs_of x))"
      using a(3) by (auto simp: good_allocs_def collectPortStarts_def distinct_map)
    with that pa have "?ps \<noteq> ucast (pa_PortStart pb)" by (auto dest: inj_onD)
    then show ?thesis using good_blocks_disjoint [OF ci(1) a(3,3) pa that(1)] by simp
  qed
  moreover obtain free where free: "ips a (ExternalIP pa) = Some free" using a(3) pa by (auto simp: good_allocs_def)
  moreover have "alloc_ports (to_alloc pa) \<inter> alloc_ports (block_alloc a i) = {}" if "i \<in> free" for i
  proof -
    obtain j where j: "j < totalBlocks a" "to_alloc pa = block_alloc a j" "?ps = PortStart (block_alloc a j)"
      using good_allocs_block [OF a(3) pa] .
    have "?ps \<notin> (\<lambda>i. PortStart (block_alloc a i)) ` free"
      using ledger_held [OF ci(2) own] free by (simp add: block_avail_def)
    with that j(3) have "i \<noteq> j" by auto
    moreover have "i < totalBlocks a" using that alloc_invD(4) [OF ci(1) free] by blast
    ultimately show ?thesis using j(1,2) block_ports_disjoint [OF ci(1)] by auto
  qed
  ultimately show ?thesis using a(1) by blast
qed



section \<open>Releasing a range\<close>

text \<open>A range that is being deleted and has been stale for longer than the cleanup window.\<close>

definition ex_dying :: NATPortRange where
  "ex_dying = set_stale 1 (ex_p1\<lparr>npr_DeletionTimestamp := Some 1\<rparr>)"

lemma ex_dying_sel [simp]:
  "npr_Name ex_dying = ''p1''" "npr_NATConfig (npr_Spec ex_dying) = ''c''"
  "npr_Allocations (npr_Spec ex_dying) = [ex_pa 49152 53247]" "npr_DeletionTimestamp ex_dying = Some 1"
  "npr_StaleSince (npr_Spec ex_dying) = Some 1" "npr_Finalizers ex_dying = [finalizerName]"
  "npr_ResourceVersion ex_dying = 1"
  by (simp_all add: ex_dying_def set_stale_def) (simp add: ex_npr_def)

lemma ex_dying_view: "mem_view (ex_mem [ex_dying] rs) = [''p1'' \<mapsto> ex_dying]"
  by (auto simp: mem_view_def ex_mem_def fun_eq_iff)

lemma ex_idx: "blockIndexOf (ex_a S) 49152 = Inr 0" "blockIndexOf (ex_a S) 53248 = Inr 1"
  by (simp_all add: blockIndexOf_def ex_a_def Let_def word_le_nat_alt)

lemma ex_dying_free:
  "Free sorted_order (ex_a {1, 2, 3}) (allocs_to_free [ex_pa 49152 53247]) = (None, ex_a {0, 1, 2, 3})"
proof -
  have m: "allocs_to_free [ex_pa 49152 53247] = [''10.0.0.1'' \<mapsto> [\<lparr>PortStart = 49152, PortEnd = 53247\<rparr>]]"
    by (simp add: allocs_to_free_def push_alloc_def to_alloc_def)
  have i: "ips (ex_a {1, 2, 3}) ''10.0.0.1'' = Some {1, 2, 3}" by (simp add: ex_a_def)
  show ?thesis
    unfolding m Free_def by (simp add: sorted_order.rep_eq ex_idx i) (simp add: ex_a_def)
qed


lemma mem_metrics [simp]: "range_metrics memEnv npr w = w" "range_metrics failing_updates npr w = w"
  by (simp_all add: range_metrics_def Let_def memEnv_def failing_updates_def split: prod.splits)

lemma ex_release_run:
  "reconcileNPR memEnv ex_ord 0 (ex_reg {1, 2, 3}) ''p1'' (ex_mem [ex_dying] []) =
     (Return 0, ex_reg {0, 1, 2, 3}, ex_mem [] [])"
proof -
  let ?w = "ex_mem [ex_dying] []"
  have get: "GetNPR memEnv ?w ''p1'' = Inr ex_dying" "Now memEnv ?w = 100000000000"
    by (simp add: memEnv_def found_def ex_dying_view, simp add: memEnv_def ex_mem_def)
  have upd: "UpdateNPR memEnv (RemoveFinalizer ex_dying finalizerName) ?w = (None, ex_mem [] [])"
    by (simp add: memEnv_def RemoveFinalizer_def mem_update_def ex_dying_view mem_drop_def without_def)
      (simp add: ex_mem_def)
  have fin: "finish_release memEnv ex_ord reg ex_dying ?w = (Return 0, reg, ex_mem [] [])" for reg
    by (simp add: finish_release_def Let_def upd) (simp add: memEnv_def)
  have "releaseAndFinalize memEnv ex_ord (ex_reg {1, 2, 3}) ex_dying ?w = (Return 0, ex_reg {0, 1, 2, 3}, ex_mem [] [])"
    by (simp add: releaseAndFinalize_def ContainsFinalizer_def Get_def ex_reg_def ex_ord_def ex_dying_free set_alloc_def)
      (simp add: fin [unfolded ex_ord_def])
  then show ?thesis
    by (simp add: reconcileNPR_def get Reconstructed_def cleanupWindow_def DefaultBPFCleanupWindow_def Let_def)
      (simp add: ex_reg_def)
qed


lemma ex_a_inv: "S \<subseteq> {0, 1, 2, 3} \<Longrightarrow> alloc_inv (ex_a S)"
  by (auto simp: ex_a_def alloc_inv_def word_less_nat_alt split: if_splits)

lemma ex_dying_inv: "op_inv (mem_view (ex_mem [ex_dying] rs)) (ex_reg {1, 2, 3})"
proof -
  let ?V = "mem_view (ex_mem [ex_dying] rs)"
  have own: "owned ?V cfg n = (if cfg = ''c'' \<and> n = ''p1'' then {(''10.0.0.1'', 49152)} else {})" for cfg n
    by (simp add: ex_dying_view owned_def holds_def held_def)
  have "ledger (block_avail (ex_a {1, 2, 3})) (owned ?V ''c'')"
    by (rule ledgerI) (auto simp: own block_avail_def ex_a_def block_alloc_def split: if_splits)
  then have "cfg_inv ?V ''c'' (ex_a {1, 2, 3})"
    using ex_a_inv [of "{1, 2, 3}"] ex_good(1) by (simp add: cfg_inv_def ex_dying_view)
  moreover have "owned ?V cfg n = {}" if "cfg \<noteq> ''c''" for cfg n using that own by simp
  moreover have "npr_Finalizers npr = [finalizerName]" if "?V n = Some npr" for n npr
    using that by (auto simp: ex_dying_view split: if_splits)
  ultimately show ?thesis by (auto simp: op_inv_def ex_reg_def split: if_splits)
qed

lemma ex_dying_broken: "\<not> op_inv (mem_view (ex_mem [ex_dying] rs)) (ex_reg {0, 1, 2, 3})"
proof
  let ?V = "mem_view (ex_mem [ex_dying] rs)"
  assume "op_inv ?V (ex_reg {0, 1, 2, 3})"
  then have "cfg_inv ?V ''c'' (ex_a {0, 1, 2, 3})" by (auto simp: op_inv_def ex_reg_def)
  then have "ledger (block_avail (ex_a {0, 1, 2, 3})) (owned ?V ''c'')" by (rule cfg_invD(2))
  from ledger_held [OF this, of "''10.0.0.1''" 49152 "''p1''"] show False
    by (simp add: ex_dying_view owned_def holds_def held_def block_avail_def) (simp add: ex_a_def block_alloc_def)
qed

lemma ex_a_alloc:
  "AllocateForPod (\<lambda>_. sorted_order) (ex_a {0, 1, 2, 3}) [''10.0.0.1''] 1 [] =
     (Inr [''10.0.0.1'' \<mapsto> [\<lparr>PortStart = 49152, PortEnd = 53247\<rparr>]], ex_a {1, 2, 3})"
  by (simp add: AllocateForPod_def excludeSetFor_def pickFromSet_def sorted_order.rep_eq block_alloc_def
      ex_a_def insert_Diff_if)


section \<open>Restarting\<close>




end
