(* ===== verification/Effects.thy ===== *)
theory Effects
  imports Prelude
begin

text \<open>
  Calls that change the world, may fail, may panic and may not come back. A call on a world \<open>w\<close> gives
  \<open>Some (Done w')\<close> (it returned nil), \<open>Some (Failed e w')\<close> (it returned the error \<open>e\<close>),
  \<open>Some (Panic w')\<close> (a run-time panic), or \<open>None\<close> (it never returns). \<open>ok_post\<close> speaks about the
  calls that return nil, \<open>any_post\<close> about every call that ends.
\<close>

datatype ('e, 'w) effect = Done 'w | Failed 'e 'w | Panic 'w

type_synonym ('e, 'w) eff = "('e, 'w) effect option"

fun world_of :: "('e, 'w) effect \<Rightarrow> 'w" where
  "world_of (Done w) = w"
| "world_of (Failed e w) = w"
| "world_of (Panic w) = w"

definition eff_bind :: "('e, 'w) eff \<Rightarrow> ('w \<Rightarrow> ('e, 'w) eff) \<Rightarrow> ('e, 'w) eff" where
  "eff_bind m f = (case m of Some (Done w) \<Rightarrow> f w | _ \<Rightarrow> m)"

fun for_eff :: "('a \<Rightarrow> 'w \<Rightarrow> ('e, 'w) eff) \<Rightarrow> 'a list \<Rightarrow> 'w \<Rightarrow> ('e, 'w) eff" where
  "for_eff f [] w = Some (Done w)"
| "for_eff f (x # xs) w = eff_bind (f x w) (for_eff f xs)"

definition wrap_err :: "('e \<Rightarrow> 'd) \<Rightarrow> ('e, 'w) eff \<Rightarrow> ('d, 'w) eff" where
  "wrap_err g m =
     map_option (\<lambda>r. case r of Done w \<Rightarrow> Done w | Failed e w \<Rightarrow> Failed (g e) w | Panic w \<Rightarrow> Panic w) m"

definition ok_post :: "('e, 'w) eff \<Rightarrow> ('w \<Rightarrow> bool) \<Rightarrow> bool" where
  "ok_post m P \<longleftrightarrow> (\<forall>w. m = Some (Done w) \<longrightarrow> P w)"

definition any_post :: "('e, 'w) eff \<Rightarrow> ('w \<Rightarrow> bool) \<Rightarrow> bool" where
  "any_post m P \<longleftrightarrow> (\<forall>r. m = Some r \<longrightarrow> P (world_of r))"

lemma eff_bind_simps [simp]:
  "eff_bind (Some (Done w)) f = f w" "eff_bind (Some (Failed e w)) f = Some (Failed e w)"
  "eff_bind (Some (Panic w)) f = Some (Panic w)" "eff_bind None f = None"
  by (simp_all add: eff_bind_def)

lemma eff_bind_Done:
  "eff_bind m f = Some (Done w') \<longleftrightarrow> (\<exists>w. m = Some (Done w) \<and> f w = Some (Done w'))"
  by (cases m rule: option.exhaust; cases "the m") auto

lemma wrap_err_Done [simp]: "wrap_err g m = Some (Done w) \<longleftrightarrow> m = Some (Done w)"
  by (cases m; cases "the m") (auto simp: wrap_err_def)

lemma wrap_err_None [simp]: "wrap_err g m = None \<longleftrightarrow> m = None"
  by (simp add: wrap_err_def)

lemma wrap_err_Some: "wrap_err g m = Some r \<Longrightarrow> \<exists>r'. m = Some r' \<and> world_of r' = world_of r"
  by (cases m; cases "the m") (auto simp: wrap_err_def)

lemma ok_postD: "ok_post m P \<Longrightarrow> m = Some (Done w) \<Longrightarrow> P w"
  by (simp add: ok_post_def)

lemma ok_post_Done [simp]: "ok_post (Some (Done w)) P \<longleftrightarrow> P w"
  by (simp add: ok_post_def)

lemma ok_post_fail [simp]: "ok_post (Some (Failed e w)) P" "ok_post (Some (Panic w)) P" "ok_post None P"
  by (simp_all add: ok_post_def)

lemma ok_post_mono: "ok_post m P \<Longrightarrow> (\<And>w. P w \<Longrightarrow> Q w) \<Longrightarrow> ok_post m Q"
  by (simp add: ok_post_def)

lemma ok_post_wrap [simp]: "ok_post (wrap_err g m) P = ok_post m P"
  by (simp add: ok_post_def)

lemma ok_post_bind: "ok_post m (\<lambda>w. ok_post (f w) P) \<Longrightarrow> ok_post (eff_bind m f) P"
  by (auto simp: ok_post_def eff_bind_Done)

text \<open>The loop rule: \<open>I\<close> speaks about the elements visited so far.\<close>

lemma ok_post_for:
  assumes "I [] w" and "\<And>ys x v. I ys v \<Longrightarrow> x \<in> set xs \<Longrightarrow> ok_post (f x v) (I (ys @ [x]))"
  shows "ok_post (for_eff f xs w) (I xs)"
proof -
  have "ok_post (for_eff f zs v) (I (ys @ zs))" if "I ys v" "set zs \<subseteq> set xs" for ys zs v
    using that
  proof (induction zs arbitrary: ys v)
    case (Cons z zs)
    have "ok_post (f z v) (I (ys @ [z]))" using assms(2) Cons.prems by simp
    then have "ok_post (f z v) (\<lambda>v'. ok_post (for_eff f zs v') (I (ys @ z # zs)))"
      by (rule ok_post_mono) (use Cons in \<open>metis append_Cons append_Nil append_assoc list.set_intros(2) subset_code(1)\<close>)
    then show ?case by (simp add: ok_post_bind)
  qed simp
  from this [of "[]" w xs] assms(1) show ?thesis by simp
qed

lemma any_post_simps [simp]:
  "any_post (Some r) P \<longleftrightarrow> P (world_of r)" "any_post None P"
  by (simp_all add: any_post_def)

lemma any_post_mono: "any_post m P \<Longrightarrow> (\<And>w. P w \<Longrightarrow> Q w) \<Longrightarrow> any_post m Q"
  by (simp add: any_post_def)

lemma any_post_wrap [simp]: "any_post m P \<Longrightarrow> any_post (wrap_err g m) P"
  using wrap_err_Some by (fastforce simp: any_post_def)

lemma any_post_bind: "any_post m P \<Longrightarrow> (\<And>w. P w \<Longrightarrow> any_post (f w) P) \<Longrightarrow> any_post (eff_bind m f) P"
  by (cases m; cases "the m") auto

lemma any_post_for: "P w \<Longrightarrow> (\<And>x v. P v \<Longrightarrow> x \<in> set xs \<Longrightarrow> any_post (f x v) P) \<Longrightarrow> any_post (for_eff f xs w) P"
proof (induction xs arbitrary: w)
  case (Cons x xs)
  then show ?case by (auto intro!: any_post_bind)
qed simp

section \<open>The port loop\<close>

text \<open>
  \<open>for port := portStart; port <= portEnd; port++\<close> on \<open>uint16\<close>: after port 65535 comes port 0, so with
  \<open>portEnd = 65535\<close> the condition never fails.
\<close>

partial_function (option) port_loop ::
    "(u16 \<Rightarrow> 'w \<Rightarrow> ('e, 'w) eff) \<Rightarrow> u16 \<Rightarrow> u16 \<Rightarrow> 'w \<Rightarrow> ('e, 'w) eff" where
  "port_loop f port portEnd w =
     (if port \<le> portEnd
      then Option.bind (f port w)
        (\<lambda>r. case r of Done w' \<Rightarrow> port_loop f (port + 1) portEnd w' | Failed e w' \<Rightarrow> Some (Failed e w')
                   | Panic w' \<Rightarrow> Some (Panic w'))
      else Some (Done w))"

definition port_list :: "u16 \<Rightarrow> u16 \<Rightarrow> u16 list" where
  "port_list s e = map word_of_nat [unat s..<Suc (unat e)]"

lemma set_port_list: "set (port_list s e) = {s..e}"
proof -
  have "word_of_nat ` {unat s..<Suc (unat e)} = {s..e}"
  proof (intro subset_antisym subsetI)
    fix p :: u16 assume "p \<in> word_of_nat ` {unat s..<Suc (unat e)}"
    then obtain k where k: "p = word_of_nat k" "unat s \<le> k" "k \<le> unat e" by auto
    have "k < 65536" using k(3) unat_u16_less [of e] by simp
    then show "p \<in> {s..e}" using k by (simp add: word_le_nat_alt unat_u16_of_nat)
  next
    fix p :: u16 assume "p \<in> {s..e}"
    then show "p \<in> word_of_nat ` {unat s..<Suc (unat e)}"
      by (intro image_eqI [of _ _ "unat p"]) (auto simp: word_le_nat_alt)
  qed
  then show ?thesis by (simp add: port_list_def del: upt_Suc)
qed

lemma unat_max_port: "unat (e :: u16) = 65535 \<longleftrightarrow> e = 65535"
  by (simp add: word_unat_eq_iff)

lemma unat_next_port: "(s :: u16) \<le> e \<Longrightarrow> e \<noteq> 65535 \<Longrightarrow> unat (s + 1) = Suc (unat s)"
proof -
  assume "s \<le> e" "e \<noteq> 65535"
  then have "unat s < 65535" using unat_u16_less [of e] unat_max_port [of e] by (simp add: word_le_nat_alt)
  then show ?thesis by (simp add: unat_word_ariths)
qed

lemma port_list_Cons:
  assumes "s \<le> e" "e \<noteq> 65535"
  shows "port_list s e = s # port_list (s + 1) e"
  using assms by (simp add: port_list_def unat_next_port word_le_nat_alt upt_conv_Cons del: upt_Suc)

text \<open>Below port 65535 the loop is a loop over the list of ports.\<close>

lemma port_loop_list:
  assumes "e \<noteq> 65535"
  shows "port_loop f s e w = for_eff f (port_list s e) w"
proof (induction "unat e + 1 - unat s" arbitrary: s w)
  case 0
  then have "\<not> s \<le> e" by (simp add: word_le_nat_alt)
  with 0 show ?case by (simp add: port_loop.simps port_list_def)
next
  case (Suc n)
  then have le: "s \<le> e" by (simp add: word_le_nat_alt)
  note cons = port_list_Cons [OF this assms]
  have "unat (s + 1) = Suc (unat s)" using le assms by (rule unat_next_port)
  then have IH: "port_loop f (s + 1) e v = for_eff f (port_list (s + 1) e) v" for v
    using Suc.hyps(1) [of "s + 1" v] Suc.hyps(2) by simp
  show ?case
  proof (cases "f s w")
    case None
    then show ?thesis using le by (simp add: port_loop.simps [of f s] cons)
  next
    case (Some r)
    then show ?thesis using le by (cases r) (simp_all add: port_loop.simps [of f s] cons IH)
  qed
qed

text \<open>
  With \<open>portEnd = 65535\<close> the loop never returns nil. While the body keeps succeeding it does not return at all.
\<close>

lemma port_loop_wraps:
  assumes "port_loop f s 65535 w = Some r" "I w"
    and body: "\<And>p v r. I v \<Longrightarrow> f p v = Some r \<Longrightarrow> (\<exists>v'. r = Done v' \<and> I v') \<or> R r"
    and not_Done: "\<And>v. \<not> R (Done v)"
  shows "R r"
proof -
  have "f = f \<longrightarrow> (65535 :: u16) = 65535 \<longrightarrow> I w \<longrightarrow> R r"
  proof (rule port_loop.raw_induct [where P = "\<lambda>g s e w r. g = f \<longrightarrow> e = 65535 \<longrightarrow> I w \<longrightarrow> R r"])
    show "port_loop f s 65535 w = Some r" by (rule assms(1))
  next
    fix loop g s e w r
    assume IH: "\<And>g s e w r. loop g s e w = Some r \<Longrightarrow> g = f \<longrightarrow> (e :: u16) = 65535 \<longrightarrow> I w \<longrightarrow> R r"
      and step: "(if s \<le> e then Option.bind (g s w)
         (\<lambda>r. case r of Done w' \<Rightarrow> loop g (s + 1) e w' | Failed e w' \<Rightarrow> Some (Failed e w')
                    | Panic w' \<Rightarrow> Some (Panic w')) else Some (Done w)) = Some r"
    have le: "s \<le> 65535" using unat_u16_less [of s] by (simp add: word_le_nat_alt)
    show "g = f \<longrightarrow> e = 65535 \<longrightarrow> I w \<longrightarrow> R r"
    proof (intro impI)
      assume "g = f" "e = 65535" "I w"
      with step le obtain x where x: "f s w = Some x"
        and r: "(case x of Done w' \<Rightarrow> loop f (s + 1) 65535 w' | Failed e w' \<Rightarrow> Some (Failed e w')
                       | Panic w' \<Rightarrow> Some (Panic w')) = Some r"
        by (cases "f s w") simp_all
      from body [OF \<open>I w\<close> x] show "R r"
      proof
        assume "\<exists>v'. x = Done v' \<and> I v'"
        then show "R r" using r IH by auto
      next
        assume "R x"
        then show "R r" using r not_Done by (cases x) auto
      qed
    qed
  qed
  with assms(2) show ?thesis by simp
qed

lemma port_loop_never_Done: "port_loop f s 65535 w \<noteq> Some (Done w')"
proof
  assume "port_loop f s 65535 w = Some (Done w')"
  then have "\<nexists>v. Done w' = (Done v :: ('a, 'b) effect)"
    by (rule port_loop_wraps [where I = "\<lambda>_. True"]) auto
  then show False by simp
qed

lemma port_loop_diverges:
  assumes "I w" "\<And>p v. I v \<Longrightarrow> \<exists>v'. f p v = Some (Done v') \<and> I v'"
  shows "port_loop f s 65535 w = None"
proof (rule ccontr)
  assume "port_loop f s 65535 w \<noteq> None"
  then obtain r where "port_loop f s 65535 w = Some r" by blast
  then show False
  proof (rule port_loop_wraps [where I = I and R = "\<lambda>_. False"])
    fix p v r assume "I v" "f p v = Some r"
    with assms(2) [of v p] show "(\<exists>v'. r = Done v' \<and> I v') \<or> False" by auto
  qed (use assms(1) in auto)
qed

section \<open>Rules for the port loop\<close>

definition returns :: "('e, 'w) eff \<Rightarrow> bool" where
  "returns m \<longleftrightarrow> m \<noteq> None"

lemma returns_Some [simp]: "returns (Some r)" "\<not> returns None"
  by (simp_all add: returns_def)

lemma returns_bind: "returns m \<Longrightarrow> (\<And>w. returns (f w)) \<Longrightarrow> returns (eff_bind m f)"
  by (cases m; cases "the m") auto

lemma returns_for: "(\<And>x v. x \<in> set xs \<Longrightarrow> returns (f x v)) \<Longrightarrow> returns (for_eff f xs w)"
  by (induction xs arbitrary: w) (auto intro!: returns_bind)

lemma port_loop_returns: "e \<noteq> 65535 \<Longrightarrow> (\<And>p v. returns (f p v)) \<Longrightarrow> returns (port_loop f s e w)"
  by (simp add: port_loop_list returns_for)

lemma ok_post_port_loop:
  assumes "I [] w" and "\<And>ys p v. I ys v \<Longrightarrow> s \<le> p \<Longrightarrow> p \<le> e \<Longrightarrow> ok_post (f p v) (I (ys @ [p]))"
  shows "ok_post (port_loop f s e w) (I (port_list s e))"
proof (cases "e = 65535")
  case True
  then show ?thesis by (simp add: ok_post_def port_loop_never_Done)
next
  case False
  show ?thesis unfolding port_loop_list [OF False]
    by (rule ok_post_for) (use assms in \<open>auto simp: set_port_list\<close>)
qed

lemma any_post_port_loop:
  assumes "P w" and body: "\<And>p v. P v \<Longrightarrow> s \<le> p \<Longrightarrow> p \<le> e \<Longrightarrow> any_post (f p v) P"
    and wrapped: "\<And>p v. e = 65535 \<Longrightarrow> P v \<Longrightarrow> any_post (f p v) P"
  shows "any_post (port_loop f s e w) P"
proof (cases "e = 65535")
  case True
  have "P (world_of r)" if "port_loop f s 65535 w = Some r" for r
  proof -
    have "\<not> (\<exists>v. r = Done v) \<and> P (world_of r)"
      using that
    proof (rule port_loop_wraps [where I = P])
      fix p v r assume "P v" "f p v = Some r"
      then have "P (world_of r)" using wrapped [OF True] by (auto simp: any_post_def)
      then show "(\<exists>v'. r = Done v' \<and> P v') \<or> \<not> (\<exists>v. r = Done v) \<and> P (world_of r)" by (cases r) auto
    qed (use assms(1) in auto)
    then show ?thesis by simp
  qed
  then show ?thesis using True by (simp add: any_post_def)
next
  case False
  show ?thesis unfolding port_loop_list [OF False]
    by (rule any_post_for) (use assms in \<open>auto simp: set_port_list\<close>)
qed

end
