(* ===== verification/BPFMaps.thy ===== *)
theory BPFMaps
  imports Effects NetIP
begin

text \<open>
  \<open>internal/maps/maps.go\<close>: the functions that write the pinned BPF maps of the datapath. The kernel's maps
  are reached through the library cilium/ebpf, which is a parameter: an \<open>ebpf\<close> record holds what
  \<open>LoadPinnedMap\<close>, \<open>NewMap\<close> and the methods \<open>Lookup\<close>, \<open>Put\<close> and \<open>Delete\<close> of each pinned map do on a world
  \<open>'w\<close>. A map held in the hash of maps \<open>port_range_lookup_*\<close> is named by its kernel ID. Closing a map handle
  (\<open>defer m.Close()\<close>) changes no map. \<open>MapCall s e\<close> is \<open>fmt.Errorf("s: %w", e)\<close>, \<open>MapErr e\<close> the unwrapped
  error of the library.
\<close>

section \<open>The library\<close>

datatype bpf_error = ErrKeyNotExist | ErrBPF string

record ('k, 'v, 'w) bpf_map =
  bm_Lookup :: "'w \<Rightarrow> 'k \<Rightarrow> bpf_error + 'v"
  bm_Put :: "'k \<Rightarrow> 'v \<Rightarrow> 'w \<Rightarrow> bpf_error option \<times> 'w"
  bm_Delete :: "'k \<Rightarrow> 'w \<Rightarrow> bpf_error option \<times> 'w"

record nat_config_key =
  k_PodIp :: u32
  k_CidrAddr :: u32
  k_CidrPrefixlen :: u32

record nat_alloc =
  na_ExtIp :: u32
  na_PortStart :: u16
  na_PortEnd :: u16

record nat_config_val =
  PortRangeAllocs :: "nat_alloc list"
  Count :: u32

record lpm_key =
  Prefixlen :: u32
  Addr :: u32

record target_cidr_val =
  tv_Addr :: u32
  tv_Prefixlen :: u32

record pod_port_key =
  pk_PodIp :: u32
  pk_Port :: u16

record 'w ebpf =
  LoadPinnedMap :: "'w \<Rightarrow> string \<Rightarrow> bpf_error option"
  nat_config_map :: "(nat_config_key, nat_config_val, 'w) bpf_map"
  target_cidrs_map :: "(lpm_key, target_cidr_val, 'w) bpf_map"
  dst_kind_map :: "(u32, u8, 'w) bpf_map"
  pod_nat_ports_map :: "(pod_port_key, u8, 'w) bpf_map"
  outer_map :: "string \<Rightarrow> (u32, nat, 'w) bpf_map"
  inner_map :: "nat \<Rightarrow> (u32, u32, 'w) bpf_map"
  NewInnerMap :: "'w \<Rightarrow> (bpf_error + nat) \<times> 'w"

datatype maps_error =
    OpenMap string bpf_error
  | OnlyIPv4
  | MaxAllocations
  | UnsupportedProtocol u8
  | PortFailed u16 bpf_error
  | MapCall string bpf_error
  | MapErr bpf_error

definition ret_err :: "(bpf_error \<Rightarrow> maps_error) \<Rightarrow> bpf_error option \<times> 'w \<Rightarrow> (maps_error, 'w) eff" where
  "ret_err f r = (case r of (None, w) \<Rightarrow> Some (Done w) | (Some e, w) \<Rightarrow> Some (Failed (f e) w))"

text \<open>\<open>err != nil && !errors.Is(err, ebpf.ErrKeyNotExist)\<close> after a \<open>Delete\<close>.\<close>

definition ret_err_missing_ok :: "(bpf_error \<Rightarrow> maps_error) \<Rightarrow> bpf_error option \<times> 'w \<Rightarrow> (maps_error, 'w) eff" where
  "ret_err_missing_ok f r =
     (case r of (Some e, w) \<Rightarrow> if e = ErrKeyNotExist then Some (Done w) else Some (Failed (f e) w)
              | (None, w) \<Rightarrow> Some (Done w))"

section \<open>Opening maps, addresses\<close>

definition mapsDir :: string where
  "mapsDir = ''/sys/fs/bpf/mooring/maps''"

text \<open>\<open>filepath.Join\<close> of the clean directory and a map's plain name.\<close>

definition openMap :: "'w ebpf \<Rightarrow> string \<Rightarrow> 'w \<Rightarrow> (maps_error, 'w) eff" where
  "openMap E name w =
     (case LoadPinnedMap E w (mapsDir @ ''/'' @ name) of
        Some e \<Rightarrow> Some (Failed (OpenMap name e) w)
      | None \<Rightarrow> Some (Done w))"

text \<open>\<open>binary.LittleEndian.Uint32\<close> panics on the nil slice \<open>To4\<close> gives for an address that is not IPv4.\<close>

definition le_uint32 :: "u8 list \<Rightarrow> u32" where
  "le_uint32 b =
     ucast (b ! 0) OR push_bit 8 (ucast (b ! 1)) OR push_bit 16 (ucast (b ! 2)) OR push_bit 24 (ucast (b ! 3))"

definition ipToUint32 :: "net_IP \<Rightarrow> u32 option" where
  "ipToUint32 ip = (let b = To4 ip in if length b < 4 then None else Some (le_uint32 b))"

definition with_ip :: "net_IP \<Rightarrow> (u32 \<Rightarrow> 'w \<Rightarrow> ('e, 'w) eff) \<Rightarrow> 'w \<Rightarrow> ('e, 'w) eff" where
  "with_ip ip f w = (case ipToUint32 ip of None \<Rightarrow> Some (Panic w) | Some a \<Rightarrow> f a w)"

definition mask_ones :: "IPNet \<Rightarrow> u32" where
  "mask_ones n = word_of_nat (fst (Mask_Size (net_mask n)))"

section \<open>nat_config\<close>

definition zero_alloc :: nat_alloc where
  "zero_alloc = \<lparr>na_ExtIp = 0, na_PortStart = 0, na_PortEnd = 0\<rparr>"

definition zero_val :: nat_config_val where
  "zero_val = \<lparr>PortRangeAllocs = replicate 256 zero_alloc, Count = 0\<rparr>"

fun set_found :: "u32 \<Rightarrow> u16 \<Rightarrow> u16 \<Rightarrow> u32 \<Rightarrow> nat \<Rightarrow> nat_alloc list \<Rightarrow> nat_alloc list option" where
  "set_found ext ps pe cnt i [] = None"
| "set_found ext ps pe cnt i (a # as) =
     (if word_of_nat i \<ge> cnt then None
      else if na_ExtIp a = ext then Some (a\<lparr>na_PortStart := ps, na_PortEnd := pe\<rparr> # as)
      else map_option ((#) a) (set_found ext ps pe cnt (Suc i) as))"

definition upsert_val :: "u32 \<Rightarrow> u16 \<Rightarrow> u16 \<Rightarrow> nat_config_val \<Rightarrow> nat_config_val option" where
  "upsert_val ext ps pe v =
     (case set_found ext ps pe (Count v) 0 (PortRangeAllocs v) of
        Some as \<Rightarrow> Some (v\<lparr>PortRangeAllocs := as\<rparr>)
      | None \<Rightarrow>
          if Count v \<ge> word_of_nat (length (PortRangeAllocs v)) then None
          else Some (v\<lparr>PortRangeAllocs := (PortRangeAllocs v)
                         [unat (Count v) := \<lparr>na_ExtIp = ext, na_PortStart = ps, na_PortEnd = pe\<rparr>],
                       Count := Count v + 1\<rparr>))"

definition store_upserted ::
    "'w ebpf \<Rightarrow> nat_config_key \<Rightarrow> u32 \<Rightarrow> u16 \<Rightarrow> u16 \<Rightarrow> nat_config_val \<Rightarrow> 'w \<Rightarrow> (maps_error, 'w) eff" where
  "store_upserted E key ext ps pe val w =
     (case upsert_val ext ps pe val of
        None \<Rightarrow> Some (Failed MaxAllocations w)
      | Some val' \<Rightarrow> ret_err MapErr (bm_Put (nat_config_map E) key val' w))"

definition upsert_entry ::
    "'w ebpf \<Rightarrow> nat_config_key \<Rightarrow> u32 \<Rightarrow> u16 \<Rightarrow> u16 \<Rightarrow> 'w \<Rightarrow> (maps_error, 'w) eff" where
  "upsert_entry E key ext ps pe w =
     (case bm_Lookup (nat_config_map E) w key of
        Inr val \<Rightarrow> store_upserted E key ext ps pe val w
      | Inl e \<Rightarrow> if e = ErrKeyNotExist then store_upserted E key ext ps pe zero_val w
                 else Some (Failed (MapCall ''lookup nat_config'' e) w))"

text \<open>The key of the entry of a pod and a target CIDR, built after the CIDR was found to be IPv4.\<close>

definition with_nc_key ::
    "net_IP \<Rightarrow> IPNet \<Rightarrow> (nat_config_key \<Rightarrow> 'w \<Rightarrow> (maps_error, 'w) eff) \<Rightarrow> 'w \<Rightarrow> (maps_error, 'w) eff" where
  "with_nc_key podIP targetCIDR f w =
     (let cidrIP4 = To4 (net_addr targetCIDR) in
      if cidrIP4 = [] then Some (Failed OnlyIPv4 w)
      else with_ip (To4 podIP) (\<lambda>pod. with_ip cidrIP4 (\<lambda>addr.
        f \<lparr>k_PodIp = pod, k_CidrAddr = addr, k_CidrPrefixlen = mask_ones targetCIDR\<rparr>)) w)"

definition UpsertNatConfigEntry ::
    "'w ebpf \<Rightarrow> net_IP \<Rightarrow> IPNet \<Rightarrow> net_IP \<Rightarrow> u16 \<Rightarrow> u16 \<Rightarrow> 'w \<Rightarrow> (maps_error, 'w) eff" where
  "UpsertNatConfigEntry E podIP targetCIDR extIP portStart portEnd w0 =
     eff_bind (openMap E ''nat_config'' w0) (with_nc_key podIP targetCIDR (\<lambda>key.
       with_ip extIP (\<lambda>ext. upsert_entry E key ext portStart portEnd)))"

text \<open>
  The two loops of \<open>RemoveNatConfigAllocs\<close>, on the array in place: survivors move down, then the tail is
  cleared. An index past the array's end panics (\<open>None\<close>).
\<close>

fun compact_loop :: "u32 set \<Rightarrow> nat list \<Rightarrow> nat_alloc list \<times> u32 \<Rightarrow> (nat_alloc list \<times> u32) option" where
  "compact_loop rm [] s = Some s"
| "compact_loop rm (i # is) (as, n) =
     (if i \<ge> length as then None
      else if na_ExtIp (as ! i) \<in> rm then compact_loop rm is (as, n)
      else compact_loop rm is (as[unat n := as ! i], n + 1))"

definition clear_tail :: "nat list \<Rightarrow> nat_alloc list \<Rightarrow> nat_alloc list" where
  "clear_tail is as = fold (\<lambda>i as. as[i := zero_alloc]) is as"

definition compact :: "u32 set \<Rightarrow> nat_config_val \<Rightarrow> nat_config_val option" where
  "compact rm v =
     (case compact_loop rm [0..<unat (Count v)] (PortRangeAllocs v, 0) of
        None \<Rightarrow> None
      | Some (as, n) \<Rightarrow>
          if n = Count v then Some v
          else Some \<lparr>PortRangeAllocs = clear_tail [unat n..<unat (Count v)] as, Count = n\<rparr>)"

definition remove_entries ::
    "'w ebpf \<Rightarrow> nat_config_key \<Rightarrow> net_IP list \<Rightarrow> 'w \<Rightarrow> (maps_error, 'w) eff" where
  "remove_entries E key extIPs w =
     (case bm_Lookup (nat_config_map E) w key of
        Inl e \<Rightarrow> if e = ErrKeyNotExist then Some (Done w)
                 else Some (Failed (MapCall ''lookup nat_config'' e) w)
      | Inr val \<Rightarrow>
          if None \<in> set (map ipToUint32 extIPs) then Some (Panic w)
          else (case compact (set (map (the \<circ> ipToUint32) extIPs)) val of
              None \<Rightarrow> Some (Panic w)
            | Some val' \<Rightarrow>
                if Count val' = Count val then Some (Done w)
                else if Count val' = 0
                  then ret_err_missing_ok (MapCall ''delete nat_config'') (bm_Delete (nat_config_map E) key w)
                else ret_err MapErr (bm_Put (nat_config_map E) key val' w)))"

definition RemoveNatConfigAllocs ::
    "'w ebpf \<Rightarrow> net_IP \<Rightarrow> IPNet \<Rightarrow> net_IP list \<Rightarrow> 'w \<Rightarrow> (maps_error, 'w) eff" where
  "RemoveNatConfigAllocs E podIP targetCIDR extIPs w0 =
     eff_bind (openMap E ''nat_config'' w0)
       (with_nc_key podIP targetCIDR (\<lambda>key. remove_entries E key extIPs))"

section \<open>target_cidrs and dst_kind\<close>

definition lpm_of :: "IPNet \<Rightarrow> u32 \<Rightarrow> lpm_key" where
  "lpm_of cidr addr = \<lparr>Prefixlen = mask_ones cidr, Addr = addr\<rparr>"

definition AddTargetCIDR :: "'w ebpf \<Rightarrow> IPNet \<Rightarrow> 'w \<Rightarrow> (maps_error, 'w) eff" where
  "AddTargetCIDR E cidr w0 =
     (let ip4 = To4 (net_addr cidr) in
      if ip4 = [] then Some (Failed OnlyIPv4 w0)
      else eff_bind (openMap E ''target_cidrs'' w0) (with_ip ip4 (\<lambda>addr w.
        ret_err MapErr (bm_Put (target_cidrs_map E) (lpm_of cidr addr)
          \<lparr>tv_Addr = addr, tv_Prefixlen = mask_ones cidr\<rparr> w))))"

definition RemoveTargetCIDR :: "'w ebpf \<Rightarrow> IPNet \<Rightarrow> 'w \<Rightarrow> (maps_error, 'w) eff" where
  "RemoveTargetCIDR E cidr w0 =
     (let ip4 = To4 (net_addr cidr) in
      if ip4 = [] then Some (Failed OnlyIPv4 w0)
      else eff_bind (openMap E ''target_cidrs'' w0) (with_ip ip4 (\<lambda>addr w.
        ret_err_missing_ok (MapCall ''remove target CIDR'') (bm_Delete (target_cidrs_map E) (lpm_of cidr addr) w))))"

definition dstKindExtIP :: u8 where
  "dstKindExtIP = 1"

definition dstKindPodIP :: u8 where
  "dstKindPodIP = 2"

text \<open>The outer \<open>None\<close> is an expansion that never ends.\<close>

definition expandCIDR :: "IPNet \<Rightarrow> (maps_error + net_IP list) option" where
  "expandCIDR cidr =
     (let ip4 = To4 (net_addr cidr) in
      if ip4 = [] then Some (Inl OnlyIPv4) else map_option Inr (expand_from cidr (cloneIP ip4) []))"

definition for_ext_ips ::
    "'w ebpf \<Rightarrow> IPNet \<Rightarrow> (u32 \<Rightarrow> 'w \<Rightarrow> (maps_error, 'w) eff) \<Rightarrow> 'w \<Rightarrow> (maps_error, 'w) eff" where
  "for_ext_ips E cidr f w0 =
     (case expandCIDR cidr of
        None \<Rightarrow> None
      | Some (Inl e) \<Rightarrow> Some (Failed e w0)
      | Some (Inr ips) \<Rightarrow>
          eff_bind (openMap E ''dst_kind'' w0) (for_eff (\<lambda>ip. with_ip ip f) ips))"

definition AddExtIPKind :: "'w ebpf \<Rightarrow> IPNet \<Rightarrow> 'w \<Rightarrow> (maps_error, 'w) eff" where
  "AddExtIPKind E cidr =
     for_ext_ips E cidr (\<lambda>a w. ret_err (MapCall ''ext ip'') (bm_Put (dst_kind_map E) a dstKindExtIP w))"

definition RemoveExtIPKind :: "'w ebpf \<Rightarrow> IPNet \<Rightarrow> 'w \<Rightarrow> (maps_error, 'w) eff" where
  "RemoveExtIPKind E cidr =
     for_ext_ips E cidr (\<lambda>a w. ret_err_missing_ok (MapCall ''remove ext IP'') (bm_Delete (dst_kind_map E) a w))"

definition AddPodIPKind :: "'w ebpf \<Rightarrow> net_IP \<Rightarrow> 'w \<Rightarrow> (maps_error, 'w) eff" where
  "AddPodIPKind E podIP w0 =
     eff_bind (openMap E ''dst_kind'' w0)
       (with_ip podIP (\<lambda>a w. ret_err MapErr (bm_Put (dst_kind_map E) a dstKindPodIP w)))"

definition RemovePodIPKind :: "'w ebpf \<Rightarrow> net_IP \<Rightarrow> 'w \<Rightarrow> (maps_error, 'w) eff" where
  "RemovePodIPKind E podIP w0 =
     eff_bind (openMap E ''dst_kind'' w0)
       (with_ip podIP (\<lambda>a w. ret_err_missing_ok (MapCall ''remove pod IP'') (bm_Delete (dst_kind_map E) a w)))"

section \<open>port_range_lookup and pod_nat_ports\<close>

text \<open>The size of an inner array (\<open>innerMapSpec\<close>): one entry per port.\<close>

definition inner_MaxEntries :: nat where
  "inner_MaxEntries = 65536"

definition portRangeMapName :: "u8 \<Rightarrow> maps_error + string" where
  "portRangeMapName proto =
     (if proto = 6 then Inr ''port_range_lookup_tcp''
      else if proto = 17 then Inr ''port_range_lookup_udp''
      else if proto = 1 then Inr ''port_range_lookup_icmp''
      else Inl (UnsupportedProtocol proto))"

text \<open>The inner array's ID and whether it was created now.\<close>

definition openOrCreateInnerMap ::
    "'w ebpf \<Rightarrow> string \<Rightarrow> u32 \<Rightarrow> 'w \<Rightarrow> (maps_error + nat \<times> bool) \<times> 'w" where
  "openOrCreateInnerMap E outer extIPKey w =
     (case bm_Lookup (outer_map E outer) w extIPKey of
        Inr inner \<Rightarrow> (Inr (inner, False), w)
      | Inl e \<Rightarrow>
          if e \<noteq> ErrKeyNotExist then (Inl (MapCall ''lookup inner map'' e), w)
          else (case NewInnerMap E w of
              (Inl e', w') \<Rightarrow> (Inl (MapErr e'), w')
            | (Inr inner, w') \<Rightarrow> (Inr (inner, True), w')))"

definition put_ports :: "'w ebpf \<Rightarrow> nat \<Rightarrow> u32 \<Rightarrow> u16 \<Rightarrow> u16 \<Rightarrow> 'w \<Rightarrow> (maps_error, 'w) eff" where
  "put_ports E inner podIPVal portStart portEnd =
     port_loop (\<lambda>port w. ret_err (PortFailed port) (bm_Put (inner_map E inner) (ucast port) podIPVal w))
       portStart portEnd"

definition add_ports ::
    "'w ebpf \<Rightarrow> string \<Rightarrow> u32 \<Rightarrow> u32 \<Rightarrow> u16 \<Rightarrow> u16 \<Rightarrow> 'w \<Rightarrow> (maps_error, 'w) eff" where
  "add_ports E mapName extIPKey podIPVal portStart portEnd w =
     (case openOrCreateInnerMap E mapName extIPKey w of
        (Inl e, w1) \<Rightarrow> Some (Failed e w1)
      | (Inr (inner, created), w1) \<Rightarrow>
          eff_bind (put_ports E inner podIPVal portStart portEnd w1)
            (\<lambda>w2. if created
               then ret_err (MapCall ''insert inner map'') (bm_Put (outer_map E mapName) extIPKey inner w2)
               else Some (Done w2)))"

definition AddPortRange ::
    "'w ebpf \<Rightarrow> net_IP \<Rightarrow> net_IP \<Rightarrow> u16 \<Rightarrow> u16 \<Rightarrow> u8 \<Rightarrow> 'w \<Rightarrow> (maps_error, 'w) eff" where
  "AddPortRange E extIP podIP portStart portEnd proto w0 =
     (case portRangeMapName proto of
        Inl e \<Rightarrow> Some (Failed e w0)
      | Inr mapName \<Rightarrow>
          eff_bind (openMap E mapName w0) (with_ip extIP (\<lambda>extIPKey. with_ip podIP (\<lambda>podIPVal.
            add_ports E mapName extIPKey podIPVal portStart portEnd))))"

text \<open>A port whose entry cannot be read is skipped.\<close>

definition zero_port :: "'w ebpf \<Rightarrow> nat \<Rightarrow> u32 \<Rightarrow> u16 \<Rightarrow> 'w \<Rightarrow> (maps_error, 'w) eff" where
  "zero_port E inner podIPVal port w =
     (case bm_Lookup (inner_map E inner) w (ucast port) of
        Inl e \<Rightarrow> Some (Done w)
      | Inr cur \<Rightarrow>
          if cur = podIPVal
          then ret_err (PortFailed port) (bm_Put (inner_map E inner) (ucast port) 0 w)
          else Some (Done w))"

definition remove_ports ::
    "'w ebpf \<Rightarrow> string \<Rightarrow> u32 \<Rightarrow> net_IP \<Rightarrow> u16 \<Rightarrow> u16 \<Rightarrow> 'w \<Rightarrow> (maps_error, 'w) eff" where
  "remove_ports E mapName extIPKey podIP portStart portEnd w =
     (case bm_Lookup (outer_map E mapName) w extIPKey of
        Inl e \<Rightarrow> if e = ErrKeyNotExist then Some (Done w)
                 else Some (Failed (MapCall ''lookup inner map'' e) w)
      | Inr inner \<Rightarrow>
          with_ip podIP (\<lambda>podIPVal. port_loop (zero_port E inner podIPVal) portStart portEnd) w)"

definition RemovePortRange ::
    "'w ebpf \<Rightarrow> net_IP \<Rightarrow> net_IP \<Rightarrow> u16 \<Rightarrow> u16 \<Rightarrow> u8 \<Rightarrow> 'w \<Rightarrow> (maps_error, 'w) eff" where
  "RemovePortRange E extIP podIP portStart portEnd proto w0 =
     (case portRangeMapName proto of
        Inl e \<Rightarrow> Some (Failed e w0)
      | Inr mapName \<Rightarrow>
          eff_bind (openMap E mapName w0) (with_ip extIP (\<lambda>extIPKey.
            remove_ports E mapName extIPKey podIP portStart portEnd)))"

definition AddPodNatPorts :: "'w ebpf \<Rightarrow> net_IP \<Rightarrow> u16 \<Rightarrow> u16 \<Rightarrow> 'w \<Rightarrow> (maps_error, 'w) eff" where
  "AddPodNatPorts E podIP portStart portEnd w0 =
     eff_bind (openMap E ''pod_nat_ports'' w0) (with_ip podIP (\<lambda>podIPVal.
       port_loop (\<lambda>port w. ret_err (PortFailed port)
         (bm_Put (pod_nat_ports_map E) \<lparr>pk_PodIp = podIPVal, pk_Port = port\<rparr> 1 w)) portStart portEnd))"

definition RemovePodNatPorts :: "'w ebpf \<Rightarrow> net_IP \<Rightarrow> u16 \<Rightarrow> u16 \<Rightarrow> 'w \<Rightarrow> (maps_error, 'w) eff" where
  "RemovePodNatPorts E podIP portStart portEnd w0 =
     eff_bind (openMap E ''pod_nat_ports'' w0) (with_ip podIP (\<lambda>podIPVal.
       port_loop (\<lambda>port w. ret_err_missing_ok (PortFailed port)
         (bm_Delete (pod_nat_ports_map E) \<lparr>pk_PodIp = podIPVal, pk_Port = port\<rparr> w)) portStart portEnd))"

end
