(* ===== verification/NatBuckets.thy ===== *)
theory NatBuckets
  imports BPFMaps
begin

text \<open>
  The values of the map \<open>nat_config\<close> as tables from external IPs to port ranges: inserting an entry and
  compacting an array in place, against the table they stand for.
\<close>

definition slots :: "nat_config_val \<Rightarrow> nat_alloc list" where
  "slots v = take (unat (Count v)) (PortRangeAllocs v)"

definition entry :: "nat_alloc \<Rightarrow> u32 \<times> u16 \<times> u16" where
  "entry a = (na_ExtIp a, na_PortStart a, na_PortEnd a)"

definition ranges_of :: "nat_config_val \<Rightarrow> u32 \<rightharpoonup> u16 \<times> u16" where
  "ranges_of v = map_of (map entry (slots v))"

definition val_sized :: "nat_config_val \<Rightarrow> bool" where
  "val_sized v \<longleftrightarrow> length (PortRangeAllocs v) = 256 \<and> unat (Count v) \<le> 256"

definition val_ok :: "nat_config_val \<Rightarrow> bool" where
  "val_ok v \<longleftrightarrow> val_sized v \<and> distinct (map na_ExtIp (slots v))"

lemma unat_u32_of_nat: "n \<le> 256 \<Longrightarrow> unat (word_of_nat n :: u32) = n"
  by (simp add: unsigned_of_nat take_bit_nat_eq_self)

lemma fst_entry [simp]: "fst (entry a) = na_ExtIp a"
  by (simp add: entry_def)

lemma fst_comp_entry [simp]: "fst \<circ> entry = na_ExtIp"
  by (simp add: fun_eq_iff)

lemma dom_ranges_of: "dom (ranges_of v) = na_ExtIp ` set (slots v)"
  by (simp add: ranges_of_def dom_map_of_conv_image_fst image_image)

lemma zero_val_sel: "length (PortRangeAllocs zero_val) = 256" "Count zero_val = 0"
  unfolding zero_val_def by (simp_all only: nat_config_val.simps length_replicate)

lemma zero_val_ok [simp]: "val_ok zero_val" "ranges_of zero_val = Map.empty"
  by (simp_all add: val_ok_def val_sized_def zero_val_sel slots_def ranges_of_def)

section \<open>Upsert\<close>

lemma set_found_Some:
  assumes "set_found ext ps pe cnt i as = Some as'" "i + length as \<le> 256"
  shows "\<exists>xs a ys. as = xs @ a # ys \<and> i + length xs < unat cnt \<and> na_ExtIp a = ext \<and>
           ext \<notin> na_ExtIp ` set xs \<and> as' = xs @ a\<lparr>na_PortStart := ps, na_PortEnd := pe\<rparr> # ys"
  using assms
proof (induction as arbitrary: i as')
  case (Cons a as)
  have i: "unat (word_of_nat i :: u32) = i" using Cons.prems(2) by (simp add: unat_u32_of_nat)
  show ?case
  proof (cases "na_ExtIp a = ext")
    case True
    then have "a # as = [] @ a # as \<and> i + length [] < unat cnt \<and> na_ExtIp a = ext \<and> ext \<notin> na_ExtIp ` set [] \<and>
        as' = [] @ a\<lparr>na_PortStart := ps, na_PortEnd := pe\<rparr> # as"
      using Cons.prems(1) i by (auto simp: word_le_nat_alt split: if_splits)
    then show ?thesis by blast
  next
    case False
    then obtain bs where bs: "set_found ext ps pe cnt (Suc i) as = Some bs" "as' = a # bs"
      using Cons.prems(1) by (auto split: if_splits)
    from Cons.IH [OF bs(1)] Cons.prems(2) obtain xs b ys where
      "as = xs @ b # ys \<and> Suc i + length xs < unat cnt \<and> na_ExtIp b = ext \<and> ext \<notin> na_ExtIp ` set xs \<and>
       bs = xs @ b\<lparr>na_PortStart := ps, na_PortEnd := pe\<rparr> # ys" by auto
    then have "a # as = (a # xs) @ b # ys \<and> i + length (a # xs) < unat cnt \<and> na_ExtIp b = ext \<and>
       ext \<notin> na_ExtIp ` set (a # xs) \<and> as' = (a # xs) @ b\<lparr>na_PortStart := ps, na_PortEnd := pe\<rparr> # ys"
      using bs(2) False by auto
    then show ?thesis by blast
  qed
qed simp

lemma set_found_None:
  assumes "set_found ext ps pe cnt i as = None" "i + length as \<le> 256"
  shows "ext \<notin> na_ExtIp ` set (take (unat cnt - i) as)"
  using assms
proof (induction as arbitrary: i)
  case (Cons a as)
  have i: "unat (word_of_nat i :: u32) = i" using Cons.prems(2) by (simp add: unat_u32_of_nat)
  show ?case
  proof (cases "cnt \<le> word_of_nat i")
    case True
    then show ?thesis using i by (simp add: word_le_nat_alt)
  next
    case False
    then have "i < unat cnt" using i by (simp add: word_le_nat_alt)
    then have "unat cnt - i = Suc (unat cnt - Suc i)" by simp
    moreover have "na_ExtIp a \<noteq> ext" "set_found ext ps pe cnt (Suc i) as = None"
      using Cons.prems(1) False by (auto split: if_splits)
    ultimately show ?thesis using Cons.IH [of "Suc i"] Cons.prems(2) by auto
  qed
qed simp

lemma upsert_existing:
  assumes "val_ok v" "set_found ext ps pe (Count v) 0 (PortRangeAllocs v) = Some as"
  shows "val_ok (v\<lparr>PortRangeAllocs := as\<rparr>) \<and>
         ranges_of (v\<lparr>PortRangeAllocs := as\<rparr>) = (ranges_of v)(ext \<mapsto> (ps, pe))"
proof -
  have len: "length (PortRangeAllocs v) = 256" using assms(1) by (simp add: val_ok_def val_sized_def)
  from set_found_Some [OF assms(2)] len obtain xs a ys where
    v: "PortRangeAllocs v = xs @ a # ys" "length xs < unat (Count v)" and a: "na_ExtIp a = ext"
    "ext \<notin> na_ExtIp ` set xs" and as: "as = xs @ a\<lparr>na_PortStart := ps, na_PortEnd := pe\<rparr> # ys" by auto
  define ys' where "ys' = take (unat (Count v) - length xs - 1) ys"
  have s: "slots v = xs @ a # ys'"
    "slots (v\<lparr>PortRangeAllocs := as\<rparr>) = xs @ a\<lparr>na_PortStart := ps, na_PortEnd := pe\<rparr> # ys'"
    using v(2) by (simp_all add: slots_def v(1) as ys'_def take_Cons' Suc_diff_Suc)
  have m: "map_of (map entry xs) ext = None" using a(2) by (auto simp: map_of_eq_None_iff image_image)
  have "ranges_of (v\<lparr>PortRangeAllocs := as\<rparr>) = (ranges_of v)(ext \<mapsto> (ps, pe))"
    using m a(1) by (simp add: ranges_of_def s entry_def fun_eq_iff map_add_def split: option.splits)
  moreover have "val_ok (v\<lparr>PortRangeAllocs := as\<rparr>)"
    using assms(1) s v(1) len by (simp add: val_ok_def val_sized_def) (simp add: as)
  ultimately show ?thesis by simp
qed

lemma upsert_append:
  fixes ps pe :: u16
  assumes "val_ok v" "ext \<notin> na_ExtIp ` set (slots v)" "unat (Count v) < 256"
  defines "v' \<equiv> v\<lparr>PortRangeAllocs := (PortRangeAllocs v)[unat (Count v) := \<lparr>na_ExtIp = ext, na_PortStart = ps, na_PortEnd = pe\<rparr>],
             Count := Count v + 1\<rparr>"
  shows "val_ok v' \<and> ranges_of v' = (ranges_of v)(ext \<mapsto> (ps, pe))"
proof -
  have len: "length (PortRangeAllocs v) = 256" using assms(1) by (simp add: val_ok_def val_sized_def)
  have c: "unat (Count v + 1) = Suc (unat (Count v))" using assms(3) by (simp add: unat_word_ariths)
  have s: "slots v' = slots v @ [\<lparr>na_ExtIp = ext, na_PortStart = ps, na_PortEnd = pe\<rparr>]"
    using assms(3) len by (simp add: slots_def v'_def c take_Suc_conv_app_nth)
  have "map_of (map entry (slots v)) ext = None"
    using assms(2) by (auto simp: map_of_eq_None_iff image_image)
  then have "ranges_of v' = (ranges_of v)(ext \<mapsto> (ps, pe))"
    by (auto simp: ranges_of_def s entry_def fun_eq_iff map_add_def split: option.splits)
  moreover have "val_ok v'"
    using assms(1-3) c s len by (auto simp: val_ok_def val_sized_def) (simp_all add: v'_def)
  ultimately show ?thesis by simp
qed

lemma upsert_val_Some:
  assumes "val_ok v" "upsert_val ext ps pe v = Some v'"
  shows "val_ok v' \<and> ranges_of v' = (ranges_of v)(ext \<mapsto> (ps, pe))"
proof (cases "set_found ext ps pe (Count v) 0 (PortRangeAllocs v)")
  case None
  have len: "length (PortRangeAllocs v) = 256" using assms(1) by (simp add: val_ok_def val_sized_def)
  have "ext \<notin> na_ExtIp ` set (slots v)" using set_found_None [OF None] len by (simp add: slots_def)
  moreover have "unat (Count v) < 256"
    using assms(2) None len by (auto simp: upsert_val_def word_le_nat_alt split: if_splits)
  ultimately show ?thesis using upsert_append [OF assms(1)] assms(2) None
    by (auto simp: upsert_val_def split: if_splits)
next
  case (Some as)
  then show ?thesis using upsert_existing [OF assms(1) Some] assms(2) by (auto simp: upsert_val_def)
qed

lemma upsert_val_None:
  assumes "val_ok v"
  shows "upsert_val ext ps pe v = None \<longleftrightarrow> Count v = 256 \<and> ranges_of v ext = None"
proof -
  have len: "length (PortRangeAllocs v) = 256" "unat (Count v) \<le> 256"
    using assms by (simp_all add: val_ok_def val_sized_def)
  have full: "Count v \<ge> 256 \<longleftrightarrow> Count v = 256" using len(2) by (auto simp: word_le_nat_alt word_unat_eq_iff)
  show ?thesis
  proof (cases "set_found ext ps pe (Count v) 0 (PortRangeAllocs v)")
    case None
    then have "ext \<notin> dom (ranges_of v)" using set_found_None [OF None] len by (simp add: slots_def dom_ranges_of)
    then have "ranges_of v ext = None" by (cases "ranges_of v ext") auto
    then show ?thesis using None len(1) full by (simp add: upsert_val_def)
  next
    case (Some as)
    from set_found_Some [OF this] len obtain xs a ys where
      "PortRangeAllocs v = xs @ a # ys" "length xs < unat (Count v)" "na_ExtIp a = ext" by auto
    then have "ext \<in> dom (ranges_of v)" by (auto simp: dom_ranges_of slots_def take_Cons' image_iff)
    then show ?thesis using Some by (auto simp: upsert_val_def)
  qed
qed

section \<open>Compaction\<close>

definition kept :: "u32 set \<Rightarrow> nat_alloc list \<Rightarrow> nat_alloc list" where
  "kept rm as = filter (\<lambda>a. na_ExtIp a \<notin> rm) as"

lemma compact_loop_spec:
  assumes "i \<le> c" "c \<le> length as" "length as \<le> 256" "unat n \<le> i"
  shows "\<exists>as' n'. compact_loop rm [i..<c] (as, n) = Some (as', n') \<and> length as' = length as \<and>
     unat n' = unat n + length (kept rm (drop i (take c as))) \<and>
     take (unat n') as' = take (unat n) as @ kept rm (drop i (take c as)) \<and> drop c as' = drop c as"
  using assms
proof (induction "c - i" arbitrary: i as n)
  case 0
  then show ?case by (simp add: kept_def)
next
  case (Suc d)
  then have i: "i < c" "i < length as" by simp_all
  have u: "[i..<c] = i # [Suc i..<c]" using i by (simp add: upt_conv_Cons)
  have dr: "drop i (take c as) = as ! i # drop (Suc i) (take c as)"
    using i Suc.prems by (metis Cons_nth_drop_Suc length_take min_less_iff_conj nth_take)
  show ?case
  proof (cases "na_ExtIp (as ! i) \<in> rm")
    case True
    then show ?thesis using Suc.hyps(1) [of "Suc i" as n] Suc.hyps(2) Suc.prems i
      by (simp add: u dr kept_def)
  next
    case False
    define bs where "bs = as[unat n := as ! i]"
    have n: "unat (n + 1) = Suc (unat n)" using Suc.prems i by (simp add: unat_word_ariths)
    have later: "drop (Suc i) (take c bs) = drop (Suc i) (take c as)" "drop c bs = drop c as"
      using Suc.prems i by (simp_all add: bs_def take_update_swap drop_update_cancel)
    have first: "take (Suc (unat n)) bs = take (unat n) as @ [as ! i]"
      using Suc.prems i by (simp add: bs_def take_Suc_conv_app_nth)
    have "\<exists>as' n'. compact_loop rm [Suc i..<c] (bs, n + 1) = Some (as', n') \<and> length as' = length bs \<and>
        unat n' = unat (n + 1) + length (kept rm (drop (Suc i) (take c bs))) \<and>
        take (unat n') as' = take (unat (n + 1)) bs @ kept rm (drop (Suc i) (take c bs)) \<and> drop c as' = drop c bs"
      using Suc.hyps Suc.prems i n by (intro Suc.hyps(1)) (simp_all add: bs_def)
    then show ?thesis using False i by (simp add: u dr kept_def n later first bs_def [symmetric]) (simp add: bs_def)
  qed
qed

lemma clear_tail_upt: "n \<le> c \<Longrightarrow> c \<le> length as \<Longrightarrow>
    clear_tail [n..<c] as = take n as @ replicate (c - n) zero_alloc @ drop c as"
proof (induction c)
  case (Suc c)
  show ?case
  proof (cases "n = Suc c")
    case False
    then have "n \<le> c" using Suc.prems by simp
    then have "clear_tail [n..<Suc c] as = (clear_tail [n..<c] as)[c := zero_alloc]" by (simp add: clear_tail_def)
    also have "\<dots> = (take n as @ replicate (c - n) zero_alloc @ drop c as)[c := zero_alloc]"
      using Suc \<open>n \<le> c\<close> by simp
    also have "\<dots> = take n as @ replicate (Suc c - n) zero_alloc @ drop (Suc c) as"
      using Suc.prems \<open>n \<le> c\<close>
      by (simp add: list_update_append Suc_diff_le replicate_append_same [symmetric] Cons_nth_drop_Suc [symmetric])
    finally show ?thesis .
  qed (simp add: clear_tail_def)
qed (simp add: clear_tail_def)

text \<open>The in-place loops against a filter of the used slots.\<close>

lemma compact_filter:
  assumes "val_sized v"
  shows "compact rm v = Some \<lparr>PortRangeAllocs = kept rm (slots v) @
            replicate (unat (Count v) - length (kept rm (slots v))) zero_alloc @
            drop (unat (Count v)) (PortRangeAllocs v), Count = word_of_nat (length (kept rm (slots v)))\<rparr>"
proof -
  have len: "length (PortRangeAllocs v) = 256" "unat (Count v) \<le> 256"
    using assms by (simp_all add: val_sized_def)
  from compact_loop_spec [of 0 "unat (Count v)" "PortRangeAllocs v" 0 rm] len
  obtain as n where loop: "compact_loop rm [0..<unat (Count v)] (PortRangeAllocs v, 0) = Some (as, n)"
    and as: "length as = 256" "unat n = length (kept rm (slots v))" "take (unat n) as = kept rm (slots v)"
      "drop (unat (Count v)) as = drop (unat (Count v)) (PortRangeAllocs v)"
    by (auto simp: slots_def)
  have n: "n = word_of_nat (length (kept rm (slots v)))" using as(2) by (metis word_unat_eq_iff unat_u32_of_nat as(2) unsigned_of_nat of_nat_unat ucast_id)
  have le: "unat n \<le> unat (Count v)" using as(2) len by (simp add: kept_def slots_def le_trans [OF length_filter_le])
  show ?thesis
  proof (cases "n = Count v")
    case True
    then have "length (kept rm (slots v)) = length (slots v)" using as(2) len by (simp add: slots_def)
    then have "kept rm (slots v) = slots v" unfolding kept_def by (metis filter_id_conv length_filter_less less_irrefl)
    then show ?thesis using True loop len by (simp add: compact_def slots_def)
  next
    case False
    then show ?thesis using loop as le len n by (simp add: compact_def clear_tail_upt)
  qed
qed

lemma compact_table:
  assumes "val_ok v"
  shows "\<exists>v'. compact rm v = Some v' \<and> val_ok v' \<and> slots v' = kept rm (slots v) \<and>
     ranges_of v' = ranges_of v |` (- rm)"
proof -
  have sz: "val_sized v" using assms by (simp add: val_ok_def)
  then have len: "length (PortRangeAllocs v) = 256" "unat (Count v) \<le> 256" by (simp_all add: val_sized_def)
  have k: "length (kept rm (slots v)) \<le> unat (Count v)"
    using len by (simp add: kept_def slots_def le_trans [OF length_filter_le])
  then have u: "unat (word_of_nat (length (kept rm (slots v))) :: u32) = length (kept rm (slots v))"
    using len by (simp add: unat_u32_of_nat)
  obtain v' where v': "compact rm v = Some v'" and s: "slots v' = kept rm (slots v)" and sz': "val_sized v'"
    using compact_filter [OF sz, of rm] k len u by (auto simp: slots_def val_sized_def)
  have "map_of (map entry (kept rm as)) = map_of (map entry as) |` (- rm)" for as
    by (induction as) (auto simp: kept_def restrict_map_def fun_eq_iff entry_def)
  then have "ranges_of v' = ranges_of v |` (- rm)" by (simp add: ranges_of_def s)
  moreover have "val_ok v'" using assms sz' s by (simp add: val_ok_def kept_def distinct_map_filter)
  ultimately show ?thesis using v' s by blast
qed

end
