(* ===== verification/BPFKernel.thy ===== *)
theory BPFKernel
  imports NatBuckets
begin

text \<open>
  What \<open>maps.go\<close> relies on of the kernel's maps, as the locale \<open>ebpf_kernel\<close>: a view of the world as
  the contents of the pinned maps, and what a successful or failed call does to that view. A failed call
  leaves the contents alone; a successful one changes one entry of one map. \<open>target_cidrs\<close> is an LPM trie,
  in which two keys that agree on their prefix are one entry, so its law speaks only of keys without
  host bits. A new inner array is all zero and its ID is in no outer map; an array has all of its entries.

  \<open>tables\<close> is the specification: what the datapath reads. \<open>t_port\<close> gives the pod that owns a port of an
  external IP (0 for nobody), \<open>t_nat\<close> the range a pod uses on each external IP towards a CIDR, \<open>t_kind\<close>
  the kind of an address, \<open>t_own\<close> the ports of a pod's own blocks.
\<close>

record bpf_state =
  v_nat_config :: "nat_config_key \<rightharpoonup> nat_config_val"
  v_target_cidrs :: "lpm_key \<rightharpoonup> target_cidr_val"
  v_dst_kind :: "u32 \<rightharpoonup> u8"
  v_pod_nat_ports :: "pod_port_key \<rightharpoonup> u8"
  v_outer :: "string \<Rightarrow> u32 \<rightharpoonup> nat"
  v_inner :: "nat \<Rightarrow> u32 \<rightharpoonup> u32"

definition map_law ::
    "('k \<Rightarrow> bool) \<Rightarrow> ('k, 'v, 'w) bpf_map \<Rightarrow> ('w \<Rightarrow> bpf_state) \<Rightarrow> (bpf_state \<Rightarrow> 'k \<rightharpoonup> 'v) \<Rightarrow>
     (('k \<rightharpoonup> 'v) \<Rightarrow> bpf_state \<Rightarrow> bpf_state) \<Rightarrow> bool" where
  "map_law K m view get put \<longleftrightarrow>
     (\<forall>w k v. K k \<longrightarrow> bm_Lookup m w k = Inr v \<longrightarrow> get (view w) k = Some v) \<and>
     (\<forall>w k. K k \<longrightarrow> bm_Lookup m w k = Inl ErrKeyNotExist \<longrightarrow> get (view w) k = None) \<and>
     (\<forall>w k v w'. K k \<longrightarrow> bm_Put m k v w = (None, w') \<longrightarrow> view w' = put ((get (view w))(k \<mapsto> v)) (view w)) \<and>
     (\<forall>w k v e w'. bm_Put m k v w = (Some e, w') \<longrightarrow> view w' = view w) \<and>
     (\<forall>w k w'. K k \<longrightarrow> bm_Delete m k w = (None, w') \<longrightarrow> view w' = put ((get (view w))(k := None)) (view w)) \<and>
     (\<forall>w k w'. K k \<longrightarrow> bm_Delete m k w = (Some ErrKeyNotExist, w') \<longrightarrow> get (view w) k = None) \<and>
     (\<forall>w k e w'. bm_Delete m k w = (Some e, w') \<longrightarrow> view w' = view w)"

lemma map_lawD:
  assumes "map_law K m view get put"
  shows "K k \<Longrightarrow> bm_Lookup m w k = Inr v \<Longrightarrow> get (view w) k = Some v"
    and "K k \<Longrightarrow> bm_Lookup m w k = Inl ErrKeyNotExist \<Longrightarrow> get (view w) k = None"
    and "K k \<Longrightarrow> bm_Put m k v w = (None, w') \<Longrightarrow> view w' = put ((get (view w))(k \<mapsto> v)) (view w)"
    and "bm_Put m k v w = (Some e, w') \<Longrightarrow> view w' = view w"
    and "K k \<Longrightarrow> bm_Delete m k w = (None, w') \<Longrightarrow> view w' = put ((get (view w))(k := None)) (view w)"
    and "K k \<Longrightarrow> bm_Delete m k w = (Some ErrKeyNotExist, w') \<Longrightarrow> get (view w) k = None"
    and "bm_Delete m k w = (Some e, w') \<Longrightarrow> view w' = view w"
  using assms by (simp_all add: map_law_def)

lemma map_law_put:
  assumes "map_law K m view get put" "K k" "bm_Put m k v w = (r, w')"
  shows "view w' = (if r = None then put ((get (view w))(k \<mapsto> v)) (view w) else view w)"
  using map_lawD(3) [OF assms(1,2), of v w w'] map_lawD(4) [OF assms(1), of k v w _ w'] assms(3) by (cases r) simp_all

lemma map_law_delete:
  assumes "map_law K m view get put" "K k" "bm_Delete m k w = (r, w')"
  shows "view w' = (if r = None then put ((get (view w))(k := None)) (view w) else view w)"
    and "r = Some ErrKeyNotExist \<Longrightarrow> get (view w) k = None"
  using map_lawD(5,6) [OF assms(1,2), of w w'] map_lawD(7) [OF assms(1), of k w _ w'] assms(3) by (cases r, simp_all)

text \<open>An LPM key whose address, in network byte order, has no bit set after the prefix.\<close>

definition no_host_bits :: "lpm_key \<Rightarrow> bool" where
  "no_host_bits k \<longleftrightarrow> unat (Prefixlen k) \<le> 32 \<and>
     (\<forall>j \<in> {unat (Prefixlen k)..<32}. \<not> bit (Addr k) (8 * (j div 8) + (7 - j mod 8)))"

definition zero_array :: "u32 \<rightharpoonup> u32" where
  "zero_array k = (if unat k < inner_MaxEntries then Some 0 else None)"

locale ebpf_kernel =
  fixes E :: "'w ebpf" and view :: "'w \<Rightarrow> bpf_state"
  assumes nat_config_law:
      "map_law (\<lambda>_. True) (nat_config_map E) view v_nat_config (\<lambda>m s. s\<lparr>v_nat_config := m\<rparr>)"
    and target_law:
      "map_law no_host_bits (target_cidrs_map E) view v_target_cidrs (\<lambda>m s. s\<lparr>v_target_cidrs := m\<rparr>)"
    and dst_kind_law:
      "map_law (\<lambda>_. True) (dst_kind_map E) view v_dst_kind (\<lambda>m s. s\<lparr>v_dst_kind := m\<rparr>)"
    and pod_ports_law:
      "map_law (\<lambda>_. True) (pod_nat_ports_map E) view v_pod_nat_ports (\<lambda>m s. s\<lparr>v_pod_nat_ports := m\<rparr>)"
    and outer_law:
      "map_law (\<lambda>_. True) (outer_map E n) view (\<lambda>s. v_outer s n) (\<lambda>m s. s\<lparr>v_outer := (v_outer s)(n := m)\<rparr>)"
    and inner_law:
      "map_law (\<lambda>_. True) (inner_map E i) view (\<lambda>s. v_inner s i) (\<lambda>m s. s\<lparr>v_inner := (v_inner s)(i := m)\<rparr>)"
    and array_law:
      "v_outer (view w) n e = Some i \<Longrightarrow> unat k < inner_MaxEntries \<Longrightarrow> \<exists>v. bm_Lookup (inner_map E i) w k = Inr v"
    and new_law:
      "NewInnerMap E w = (Inr i, w') \<Longrightarrow> (\<forall>n. i \<notin> ran (v_outer (view w) n)) \<and>
         view w' = (view w)\<lparr>v_inner := (v_inner (view w))(i := zero_array)\<rparr>"
    and new_failed: "NewInnerMap E w = (Inl err, w') \<Longrightarrow> view w' = view w"

section \<open>Tables\<close>

record tables =
  t_port :: "string \<Rightarrow> u32 \<Rightarrow> u16 \<Rightarrow> u32"
  t_nat :: "nat_config_key \<Rightarrow> u32 \<rightharpoonup> u16 \<times> u16"
  t_target :: "lpm_key \<rightharpoonup> target_cidr_val"
  t_kind :: "u32 \<rightharpoonup> u8"
  t_own :: "pod_port_key \<rightharpoonup> u8"

definition pod_at :: "bpf_state \<Rightarrow> string \<Rightarrow> u32 \<Rightarrow> u16 \<Rightarrow> u32" where
  "pod_at s name ext port =
     (case v_outer s name ext of
        None \<Rightarrow> 0
      | Some i \<Rightarrow> (case v_inner s i (ucast port) of None \<Rightarrow> 0 | Some p \<Rightarrow> p))"

definition bucket :: "bpf_state \<Rightarrow> nat_config_key \<Rightarrow> u32 \<rightharpoonup> u16 \<times> u16" where
  "bucket s k = (case v_nat_config s k of None \<Rightarrow> Map.empty | Some v \<Rightarrow> ranges_of v)"

definition tables_of :: "bpf_state \<Rightarrow> tables" where
  "tables_of s = \<lparr>t_port = pod_at s, t_nat = bucket s, t_target = v_target_cidrs s,
                 t_kind = v_dst_kind s, t_own = v_pod_nat_ports s\<rparr>"

definition ids_distinct :: "bpf_state \<Rightarrow> bool" where
  "ids_distinct s \<longleftrightarrow> (\<forall>n e n' e' i. v_outer s n e = Some i \<longrightarrow> v_outer s n' e' = Some i \<longrightarrow> n = n' \<and> e = e')"

definition state_ok :: "bpf_state \<Rightarrow> bool" where
  "state_ok s \<longleftrightarrow> ids_distinct s \<and> (\<forall>k v. v_nat_config s k = Some v \<longrightarrow> val_ok v)"

definition set_ports :: "string \<Rightarrow> u32 \<Rightarrow> u16 set \<Rightarrow> u32 \<Rightarrow> tables \<Rightarrow> tables" where
  "set_ports name ext ports pod t =
     t\<lparr>t_port := (\<lambda>n e p. if n = name \<and> e = ext \<and> p \<in> ports then pod else t_port t n e p)\<rparr>"

definition clear_ports :: "string \<Rightarrow> u32 \<Rightarrow> u16 set \<Rightarrow> u32 \<Rightarrow> tables \<Rightarrow> tables" where
  "clear_ports name ext ports pod t =
     t\<lparr>t_port := (\<lambda>n e p. if n = name \<and> e = ext \<and> p \<in> ports \<and> t_port t n e p = pod then 0 else t_port t n e p)\<rparr>"

definition set_range :: "nat_config_key \<Rightarrow> u32 \<Rightarrow> u16 \<times> u16 \<Rightarrow> tables \<Rightarrow> tables" where
  "set_range k ext r t = t\<lparr>t_nat := (t_nat t)(k := (t_nat t k)(ext \<mapsto> r))\<rparr>"

definition drop_ranges :: "nat_config_key \<Rightarrow> u32 set \<Rightarrow> tables \<Rightarrow> tables" where
  "drop_ranges k exts t = t\<lparr>t_nat := (t_nat t)(k := t_nat t k |` (- exts))\<rparr>"

definition own_ports :: "u32 \<Rightarrow> u16 set \<Rightarrow> tables \<Rightarrow> tables" where
  "own_ports pod ports t =
     t\<lparr>t_own := (\<lambda>k. if pk_PodIp k = pod \<and> pk_Port k \<in> ports then Some 1 else t_own t k)\<rparr>"

definition disown_ports :: "u32 \<Rightarrow> u16 set \<Rightarrow> tables \<Rightarrow> tables" where
  "disown_ports pod ports t =
     t\<lparr>t_own := (\<lambda>k. if pk_PodIp k = pod \<and> pk_Port k \<in> ports then None else t_own t k)\<rparr>"

definition set_kinds :: "u32 set \<Rightarrow> u8 option \<Rightarrow> tables \<Rightarrow> tables" where
  "set_kinds A kind t = t\<lparr>t_kind := (\<lambda>a. if a \<in> A then kind else t_kind t a)\<rparr>"

text \<open>A call refines a table operation when it keeps the state sound and, if it returns nil, has done it.\<close>

definition refines :: "('w \<Rightarrow> bpf_state) \<Rightarrow> ('w \<Rightarrow> ('e, 'w) eff) \<Rightarrow> (tables \<Rightarrow> tables) \<Rightarrow> bool" where
  "refines view f g \<longleftrightarrow> (\<forall>w. state_ok (view w) \<longrightarrow>
     any_post (f w) (\<lambda>w'. state_ok (view w')) \<and>
     ok_post (f w) (\<lambda>w'. tables_of (view w') = g (tables_of (view w))))"

lemma refinesI:
  assumes "\<And>w. state_ok (view w) \<Longrightarrow> any_post (f w) (\<lambda>w'. state_ok (view w'))"
    and "\<And>w. state_ok (view w) \<Longrightarrow> ok_post (f w) (\<lambda>w'. tables_of (view w') = g (tables_of (view w)))"
  shows "refines view f g"
  using assms by (simp add: refines_def)

lemma refinesD:
  assumes "refines view f g" "state_ok (view w)"
  shows "f w = Some r \<Longrightarrow> state_ok (view (world_of r))"
    and "f w = Some (Done w') \<Longrightarrow> state_ok (view w') \<and> tables_of (view w') = g (tables_of (view w))"
  using assms by (fastforce simp: refines_def any_post_def ok_post_def)+

lemma refines_bind:
  assumes "refines view f g" "refines view f' g'"
  shows "refines view (\<lambda>w. eff_bind (f w) f') (\<lambda>t. g' (g t))"
proof (rule refinesI)
  fix w assume ok: "state_ok (view w)"
  show "any_post (eff_bind (f w) f') (\<lambda>w'. state_ok (view w'))"
    by (rule any_post_bind) (use assms ok in \<open>auto simp: refines_def\<close>)
  show "ok_post (eff_bind (f w) f') (\<lambda>w'. tables_of (view w') = g' (g (tables_of (view w))))"
    unfolding ok_post_def eff_bind_Done
    using refinesD [OF assms(1) ok] refinesD [OF assms(2)] by metis
qed

lemma refines_for:
  assumes "\<And>x. x \<in> set xs \<Longrightarrow> refines view (f x) (g x)"
  shows "refines view (for_eff f xs) (fold g xs)"
  using assms
proof (induction xs)
  case Nil
  then show ?case by (simp add: refines_def)
next
  case (Cons x xs)
  have "refines view (\<lambda>w. eff_bind (f x w) (for_eff f xs)) (\<lambda>t. fold g xs (g x t))"
    by (rule refines_bind) (use Cons in auto)
  moreover have "for_eff f (x # xs) = (\<lambda>w. eff_bind (f x w) (for_eff f xs))" by (simp add: fun_eq_iff)
  moreover have "fold g (x # xs) = (\<lambda>t. fold g xs (g x t))" by (simp add: fun_eq_iff)
  ultimately show ?case by metis
qed

lemma refines_done [intro, simp]: "refines view (\<lambda>w. Some (Done w)) (\<lambda>t. t)"
  by (simp add: refines_def)

lemma refines_failed [intro, simp]: "refines view (\<lambda>w. Some (Failed e w)) g"
  by (simp add: refines_def)

lemma refines_wrap: "refines view f g \<Longrightarrow> refines view (\<lambda>w. wrap_err h (f w)) g"
  by (simp add: refines_def)

lemma refines_ip:
  assumes "\<And>a. ipToUint32 ip = Some a \<Longrightarrow> refines view (f a) g"
  shows "refines view (with_ip ip f) g"
  using assms by (cases "ipToUint32 ip") (auto simp: with_ip_def refines_def)

lemma refines_open:
  assumes "refines view f g"
  shows "refines view (\<lambda>w. eff_bind (openMap E n w) f) g"
  using assms by (auto simp: refines_def openMap_def split: option.splits)

lemma refines_port_loop:
  assumes "\<And>p. refines view (f p) (g p)"
  shows "refines view (port_loop f s e) (fold g (port_list s e))"
proof (rule refinesI)
  fix w assume ok: "state_ok (view w)"
  show "any_post (port_loop f s e w) (\<lambda>w'. state_ok (view w'))"
    by (rule any_post_port_loop) (use assms ok in \<open>auto simp: refines_def\<close>)
  show "ok_post (port_loop f s e w) (\<lambda>w'. tables_of (view w') = fold g (port_list s e) (tables_of (view w)))"
  proof (cases "e = 65535")
    case True
    then show ?thesis by (simp add: ok_post_def port_loop_never_Done)
  next
    case False
    have "refines view (for_eff f (port_list s e)) (fold g (port_list s e))" by (rule refines_for) (rule assms)
    then show ?thesis using ok by (simp add: refines_def port_loop_list [OF False])
  qed
qed

lemma refines_put:
  assumes law: "map_law K m view get put" and "K k"
    and upd: "\<And>s. state_ok s \<Longrightarrow> state_ok (put ((get s)(k \<mapsto> v)) s) \<and>
                tables_of (put ((get s)(k \<mapsto> v)) s) = g (tables_of s)"
  shows "refines view (\<lambda>w. ret_err f (bm_Put m k v w)) g"
proof (rule refinesI)
  fix w assume ok: "state_ok (view w)"
  obtain r w' where put: "bm_Put m k v w = (r, w')" by fastforce
  note v = map_law_put [OF law \<open>K k\<close> put]
  show "any_post (ret_err f (bm_Put m k v w)) (\<lambda>w'. state_ok (view w'))"
    using v upd [OF ok] ok by (cases r) (simp_all add: put ret_err_def)
  show "ok_post (ret_err f (bm_Put m k v w)) (\<lambda>w'. tables_of (view w') = g (tables_of (view w)))"
    using v upd [OF ok] by (cases r) (simp_all add: put ret_err_def)
qed

lemma refines_delete:
  assumes law: "map_law K m view get put" and "K k"
    and upd: "\<And>s. state_ok s \<Longrightarrow> state_ok (put ((get s)(k := None)) s) \<and>
                tables_of (put ((get s)(k := None)) s) = g (tables_of s)"
    and same: "\<And>s. put (get s) s = s"
  shows "refines view (\<lambda>w. ret_err_missing_ok f (bm_Delete m k w)) g"
proof (rule refinesI)
  fix w assume ok: "state_ok (view w)"
  obtain r w' where del: "bm_Delete m k w = (r, w')" by fastforce
  note v = map_law_delete [OF law \<open>K k\<close> del]
  show "any_post (ret_err_missing_ok f (bm_Delete m k w)) (\<lambda>w'. state_ok (view w'))"
    using v upd [OF ok] ok by (cases r) (simp_all add: del ret_err_missing_ok_def)
  have missing: "tables_of (view w) = g (tables_of (view w))" if "get (view w) k = None"
    using upd [OF ok] same [of "view w"] that by (simp add: fun_upd_idem)
  show "ok_post (ret_err_missing_ok f (bm_Delete m k w)) (\<lambda>w'. tables_of (view w') = g (tables_of (view w)))"
    using v upd [OF ok] missing by (cases r) (simp_all add: del ret_err_missing_ok_def)
qed

section \<open>The maps with one entry per key\<close>

lemma state_ok_other [simp]:
  "state_ok (s\<lparr>v_dst_kind := a\<rparr>) = state_ok s" "state_ok (s\<lparr>v_pod_nat_ports := b\<rparr>) = state_ok s"
  "state_ok (s\<lparr>v_target_cidrs := c\<rparr>) = state_ok s" "state_ok (s\<lparr>v_inner := d\<rparr>) = state_ok s"
  by (simp_all add: state_ok_def ids_distinct_def)

lemma tables_of_other:
  "tables_of (s\<lparr>v_dst_kind := a\<rparr>) = (tables_of s)\<lparr>t_kind := a\<rparr>"
  "tables_of (s\<lparr>v_pod_nat_ports := b\<rparr>) = (tables_of s)\<lparr>t_own := b\<rparr>"
  "tables_of (s\<lparr>v_target_cidrs := c\<rparr>) = (tables_of s)\<lparr>t_target := c\<rparr>"
  by (simp_all add: tables_of_def pod_at_def bucket_def fun_eq_iff cong: option.case_cong)

lemma tables_of_sel [simp]:
  "t_kind (tables_of s) = v_dst_kind s" "t_own (tables_of s) = v_pod_nat_ports s"
  "t_target (tables_of s) = v_target_cidrs s" "t_port (tables_of s) = pod_at s" "t_nat (tables_of s) = bucket s"
  by (simp_all add: tables_of_def)

text \<open>Table operations on port sets compose by union.\<close>

lemma fold_port_list:
  assumes "\<And>t. F {} t = t" "\<And>A B t. F A (F B t) = F (B \<union> A) t"
  shows "fold (\<lambda>p. F {p}) (port_list s e) = F {s..e}"
proof -
  have "fold (\<lambda>p. F {p}) xs t = F (set xs) t" for xs t
    by (induction xs arbitrary: t) (simp_all add: assms)
  then show ?thesis by (simp add: fun_eq_iff set_port_list)
qed

lemma refines_port_set:
  assumes "\<And>p. refines view (f p) (F {p})" "\<And>t. F {} t = t" "\<And>A B t. F A (F B t) = F (B \<union> A) t"
  shows "refines view (port_loop f s e) (F {s..e})"
  using refines_port_loop [where f = f and g = "\<lambda>p. F {p}" and s = s and e = e, OF assms(1)] by (simp add: fold_port_list assms(2,3))

lemma own_ports_empty [simp]: "own_ports a {} t = t" "disown_ports a {} t = t"
  by (simp_all add: own_ports_def disown_ports_def)

lemma own_ports_Un: "own_ports a A (own_ports a B t) = own_ports a (B \<union> A) t"
  by (cases t) (auto simp: own_ports_def fun_eq_iff)

lemma disown_ports_Un: "disown_ports a A (disown_ports a B t) = disown_ports a (B \<union> A) t"
  by (cases t) (auto simp: disown_ports_def fun_eq_iff)

context ebpf_kernel
begin

lemma refines_dst_put: "refines view (\<lambda>w. ret_err f (bm_Put (dst_kind_map E) a x w)) (set_kinds {a} (Some x))"
  by (rule refines_put [OF dst_kind_law]) (auto simp: tables_of_other set_kinds_def fun_upd_def cong: if_cong)

lemma refines_dst_delete: "refines view (\<lambda>w. ret_err_missing_ok f (bm_Delete (dst_kind_map E) a w)) (set_kinds {a} None)"
  by (rule refines_delete [OF dst_kind_law]) (auto simp: tables_of_other set_kinds_def fun_upd_def cong: if_cong)

lemma refines_own_put:
  "refines view (\<lambda>w. ret_err f (bm_Put (pod_nat_ports_map E) \<lparr>pk_PodIp = a, pk_Port = p\<rparr> 1 w)) (own_ports a {p})"
  by (rule refines_put [OF pod_ports_law]) (auto simp: tables_of_other own_ports_def fun_eq_iff)

lemma refines_own_delete:
  "refines view (\<lambda>w. ret_err_missing_ok f (bm_Delete (pod_nat_ports_map E) \<lparr>pk_PodIp = a, pk_Port = p\<rparr> w))
     (disown_ports a {p})"
  by (rule refines_delete [OF pod_ports_law]) (auto simp: tables_of_other disown_ports_def fun_eq_iff)

lemma refines_AddPodIPKind:
  "refines view (AddPodIPKind E ip) (set_kinds {the (ipToUint32 ip)} (Some dstKindPodIP))"
  unfolding AddPodIPKind_def by (intro refines_open refines_ip) (simp add: refines_dst_put)

lemma refines_RemovePodIPKind:
  "refines view (RemovePodIPKind E ip) (set_kinds {the (ipToUint32 ip)} None)"
  unfolding RemovePodIPKind_def by (intro refines_open refines_ip) (simp add: refines_dst_delete)

lemma refines_AddPodNatPorts:
  "refines view (AddPodNatPorts E ip ps pe) (own_ports (the (ipToUint32 ip)) {ps..pe})"
proof -
  have "refines view (port_loop (\<lambda>p w. ret_err (PortFailed p)
          (bm_Put (pod_nat_ports_map E) \<lparr>pk_PodIp = a, pk_Port = p\<rparr> 1 w)) ps pe) (own_ports a {ps..pe})" for a
    by (rule refines_port_set) (simp_all add: refines_own_put own_ports_Un)
  then show ?thesis unfolding AddPodNatPorts_def by (intro refines_open refines_ip) simp
qed

lemma refines_RemovePodNatPorts:
  "refines view (RemovePodNatPorts E ip ps pe) (disown_ports (the (ipToUint32 ip)) {ps..pe})"
proof -
  have "refines view (port_loop (\<lambda>p w. ret_err_missing_ok (PortFailed p)
          (bm_Delete (pod_nat_ports_map E) \<lparr>pk_PodIp = a, pk_Port = p\<rparr> w)) ps pe) (disown_ports a {ps..pe})" for a
    by (rule refines_port_set) (simp_all add: refines_own_delete disown_ports_Un)
  then show ?thesis unfolding RemovePodNatPorts_def by (intro refines_open refines_ip) simp
qed

end

section \<open>nat_config\<close>

definition nc_key :: "net_IP \<Rightarrow> IPNet \<Rightarrow> nat_config_key" where
  "nc_key podIP cidr = \<lparr>k_PodIp = the (ipToUint32 (To4 podIP)), k_CidrAddr = the (ipToUint32 (To4 (net_addr cidr))),
     k_CidrPrefixlen = mask_ones cidr\<rparr>"

lemma state_ok_nat_config [simp]:
  "state_ok s \<Longrightarrow> val_ok v \<Longrightarrow> state_ok (s\<lparr>v_nat_config := (v_nat_config s)(k \<mapsto> v)\<rparr>)"
  "state_ok s \<Longrightarrow> state_ok (s\<lparr>v_nat_config := (v_nat_config s)(k := None)\<rparr>)"
  by (auto simp: state_ok_def ids_distinct_def)

lemma tables_of_same_nat [simp]: "(tables_of s)\<lparr>t_nat := bucket s\<rparr> = tables_of s"
  by (simp add: tables_of_def)

lemma tables_of_nat_config:
  "tables_of (s\<lparr>v_nat_config := (v_nat_config s)(k := x)\<rparr>) =
     (tables_of s)\<lparr>t_nat := (bucket s)(k := (case x of None \<Rightarrow> Map.empty | Some v \<Rightarrow> ranges_of v))\<rparr>"
  by (simp add: tables_of_def pod_at_def bucket_def fun_eq_iff cong: option.case_cong)

context ebpf_kernel
begin

lemma nat_config_lookup:
  assumes "state_ok (view w)" "bm_Lookup (nat_config_map E) w k = Inr v"
  shows "val_ok v \<and> bucket (view w) k = ranges_of v"
  using assms map_lawD(1) [OF nat_config_law TrueI assms(2)] by (simp add: state_ok_def bucket_def)

lemma nat_config_missing:
  "bm_Lookup (nat_config_map E) w k = Inl ErrKeyNotExist \<Longrightarrow> bucket (view w) k = Map.empty"
  using map_lawD(2) [OF nat_config_law TrueI] by (simp add: bucket_def)

lemma store_upserted_post:
  assumes ok: "state_ok (view w)" and v: "val_ok v" "bucket (view w) k = ranges_of v"
  shows "any_post (store_upserted E k ext ps pe v w) (\<lambda>w'. state_ok (view w'))"
    and "ok_post (store_upserted E k ext ps pe v w)
           (\<lambda>w'. tables_of (view w') = set_range k ext (ps, pe) (tables_of (view w)))"
proof -
  have "any_post (store_upserted E k ext ps pe v w) (\<lambda>w'. state_ok (view w')) \<and>
    ok_post (store_upserted E k ext ps pe v w)
      (\<lambda>w'. tables_of (view w') = set_range k ext (ps, pe) (tables_of (view w)))"
  proof (cases "upsert_val ext ps pe v")
    case None
    then show ?thesis using ok by (simp add: store_upserted_def)
  next
    case (Some v')
    obtain r w' where put: "bm_Put (nat_config_map E) k v' w = (r, w')" by fastforce
    note u = upsert_val_Some [OF v(1) Some]
    show ?thesis using u v ok map_law_put [OF nat_config_law TrueI put]
      by (cases r) (simp_all add: store_upserted_def Some put ret_err_def tables_of_nat_config set_range_def)
  qed
  then show "any_post (store_upserted E k ext ps pe v w) (\<lambda>w'. state_ok (view w'))"
    and "ok_post (store_upserted E k ext ps pe v w)
           (\<lambda>w'. tables_of (view w') = set_range k ext (ps, pe) (tables_of (view w)))" by auto
qed

lemma refines_upsert_entry: "refines view (upsert_entry E k ext ps pe) (set_range k ext (ps, pe))"
proof (rule refinesI)
  fix w assume ok: "state_ok (view w)"
  note stored = store_upserted_post [OF ok nat_config_lookup [OF ok, THEN conjunct1] nat_config_lookup [OF ok, THEN conjunct2]]
  note fresh = store_upserted_post [OF ok zero_val_ok(1), unfolded zero_val_ok(2), OF nat_config_missing]
  show "any_post (upsert_entry E k ext ps pe w) (\<lambda>w'. state_ok (view w'))"
    using stored(1) fresh(1) ok by (auto simp: upsert_entry_def split: sum.splits)
  show "ok_post (upsert_entry E k ext ps pe w)
     (\<lambda>w'. tables_of (view w') = set_range k ext (ps, pe) (tables_of (view w)))"
    using stored(2) fresh(2) by (auto simp: upsert_entry_def split: sum.splits)
qed

lemma refines_nc_key:
  assumes "refines view (f (nc_key podIP cidr)) g"
  shows "refines view (with_nc_key podIP cidr f) g"
proof -
  have "refines view (with_ip (To4 podIP) (\<lambda>pod. with_ip (To4 (net_addr cidr)) (\<lambda>addr.
      f \<lparr>k_PodIp = pod, k_CidrAddr = addr, k_CidrPrefixlen = mask_ones cidr\<rparr>))) g"
    by (intro refines_ip) (use assms in \<open>simp add: nc_key_def\<close>)
  then show ?thesis by (cases "To4 (net_addr cidr) = []") (auto simp: refines_def with_nc_key_def Let_def)
qed

lemma refines_Upsert:
  "refines view (UpsertNatConfigEntry E podIP cidr extIP ps pe)
     (set_range (nc_key podIP cidr) (the (ipToUint32 extIP)) (ps, pe))"
  unfolding UpsertNatConfigEntry_def
  by (intro refines_open refines_nc_key refines_ip) (simp add: refines_upsert_entry)

lemma remove_entries_post:
  assumes ok: "state_ok (view w)" and look: "bm_Lookup (nat_config_map E) w k = Inr v"
    and ips: "None \<notin> set (map ipToUint32 extIPs)"
  defines "rm \<equiv> set (map (the \<circ> ipToUint32) extIPs)"
  shows "any_post (remove_entries E k extIPs w) (\<lambda>w'. state_ok (view w')) \<and>
    ok_post (remove_entries E k extIPs w)
      (\<lambda>w'. tables_of (view w') = drop_ranges k rm (tables_of (view w)))"
proof -
  note v = nat_config_lookup [OF ok look]
  obtain v' where v': "compact rm v = Some v'" "val_ok v'" "slots v' = kept rm (slots v)"
    "ranges_of v' = ranges_of v |` (- rm)" using compact_table [of v rm] v by blast
  have len: "length (slots u) = unat (Count u)" if "val_ok u" for u
    using that by (simp add: val_ok_def val_sized_def slots_def)
  have same: "ranges_of v' = ranges_of v" if "Count v' = Count v"
  proof -
    have "length (kept rm (slots v)) = length (slots v)" using len [OF v'(2)] len v v'(3) that by simp
    then have "kept rm (slots v) = slots v" unfolding kept_def by (metis filter_id_conv length_filter_less less_irrefl)
    then show ?thesis using v'(3) by (simp add: ranges_of_def)
  qed
  have none: "ranges_of v' = Map.empty" if "Count v' = 0" using that by (simp add: ranges_of_def slots_def)
  have target: "drop_ranges k rm (tables_of (view w)) = (tables_of (view w))\<lparr>t_nat := (bucket (view w))(k := ranges_of v')\<rparr>"
    using v v'(4) by (simp add: drop_ranges_def)
  obtain r1 w1 where put: "bm_Put (nat_config_map E) k v' w = (r1, w1)" by fastforce
  obtain r2 w2 where del: "bm_Delete (nat_config_map E) k w = (r2, w2)" by fastforce
  note put_view = map_law_put [OF nat_config_law TrueI put]
  note del_view = map_law_delete [OF nat_config_law TrueI del]
  have gone: "bucket (view w) k = Map.empty" if "r2 = Some ErrKeyNotExist"
    using del_view(2) [OF that] by (simp add: bucket_def)
  have run: "remove_entries E k extIPs w =
      (if Count v' = Count v then Some (Done w)
       else if Count v' = 0 then ret_err_missing_ok (MapCall ''delete nat_config'') (r2, w2)
       else ret_err MapErr (r1, w1))"
    using look ips v'(1) [unfolded rm_def] put del by (simp add: remove_entries_def)
  consider (unchanged) "Count v' = Count v" | (empty) "Count v' \<noteq> Count v" "Count v' = 0"
    | (smaller) "Count v' \<noteq> Count v" "Count v' \<noteq> 0" by blast
  then show ?thesis
  proof cases
    case unchanged
    then show ?thesis using ok v same target by (simp add: run fun_upd_idem)
  next
    case empty
    then show ?thesis using ok v none target del_view gone
      by (cases r2) (auto simp: run ret_err_missing_ok_def tables_of_nat_config fun_upd_idem)
  next
    case smaller
    then show ?thesis using ok v target v'(2) put_view
      by (cases r1) (simp_all add: run ret_err_def tables_of_nat_config)
  qed
qed

lemma refines_RemoveAllocs:
  "refines view (RemoveNatConfigAllocs E podIP cidr extIPs)
     (drop_ranges (nc_key podIP cidr) ((\<lambda>ip. the (ipToUint32 ip)) ` set extIPs))"
proof -
  have "refines view (remove_entries E k extIPs) (drop_ranges k (set (map (the \<circ> ipToUint32) extIPs)))" for k
  proof -
    have "any_post (remove_entries E k extIPs w) (\<lambda>w'. state_ok (view w')) \<and>
        ok_post (remove_entries E k extIPs w)
          (\<lambda>w'. tables_of (view w') = drop_ranges k (set (map (the \<circ> ipToUint32) extIPs)) (tables_of (view w)))"
      if ok: "state_ok (view w)" for w
    proof (cases "bm_Lookup (nat_config_map E) w k")
      case (Inl e)
      then show ?thesis using ok nat_config_missing [of w k]
        by (auto simp: remove_entries_def drop_ranges_def fun_upd_idem)
    next
      case (Inr v)
      then show ?thesis using remove_entries_post [OF ok Inr] ok
        by (cases "None \<in> set (map ipToUint32 extIPs)") (simp_all add: remove_entries_def)
    qed
    then show ?thesis by (simp add: refines_def)
  qed
  then have "refines view (remove_entries E k extIPs) (drop_ranges k ((\<lambda>ip. the (ipToUint32 ip)) ` set extIPs))" for k
    by (simp add: comp_def)
  then show ?thesis unfolding RemoveNatConfigAllocs_def by (intro refines_open refines_nc_key)
qed

end

section \<open>port_range_lookup\<close>

abbreviation (input) with_inner :: "bpf_state \<Rightarrow> nat \<Rightarrow> (u32 \<rightharpoonup> u32) \<Rightarrow> bpf_state" where
  "with_inner s i m \<equiv> s\<lparr>v_inner := (v_inner s)(i := m)\<rparr>"

definition set_array :: "u16 set \<Rightarrow> u32 \<Rightarrow> (u32 \<rightharpoonup> u32) \<Rightarrow> (u32 \<rightharpoonup> u32)" where
  "set_array ports pod m = (\<lambda>k. if k \<in> ucast ` ports then Some pod else m k)"

lemma unat_ucast_port: "unat (ucast (p :: u16) :: u32) = unat p"
  using unat_u16_less [of p] by (simp add: unsigned_ucast_eq take_bit_nat_eq_self)

lemma ucast_port_inj [simp]: "(ucast (p :: u16) :: u32) = ucast q \<longleftrightarrow> p = q"
proof
  assume "(ucast p :: u32) = ucast q"
  then have "unat (ucast p :: u32) = unat (ucast q :: u32)" by simp
  then show "p = q" by (simp add: unat_ucast_port word_unat_eq_iff)
qed simp

lemma ucast_port_image [simp]: "(ucast (p :: u16) :: u32) \<in> ucast ` A \<longleftrightarrow> p \<in> A"
  by (auto simp: image_iff)

lemma ucast_port_less: "unat (ucast (p :: u16) :: u32) < inner_MaxEntries"
  using unat_u16_less [of p] by (simp add: inner_MaxEntries_def unat_ucast_port)

text \<open>Writing a linked array changes the row of its external IP; an array that is not linked is not seen.\<close>

lemma tables_of_linked:
  assumes "state_ok s" "v_outer s n e = Some i"
  shows "tables_of (with_inner s i m) = (tables_of s)\<lparr>t_port :=
     (\<lambda>n' e' p. if n' = n \<and> e' = e then (case m (ucast p) of None \<Rightarrow> 0 | Some x \<Rightarrow> x) else pod_at s n' e' p)\<rparr>"
proof -
  have "pod_at (with_inner s i m) n' e' p =
     (if n' = n \<and> e' = e then (case m (ucast p) of None \<Rightarrow> 0 | Some x \<Rightarrow> x) else pod_at s n' e' p)" for n' e' p
  proof (cases "n' = n \<and> e' = e")
    case False
    then have "v_outer s n' e' \<noteq> Some i" using assms unfolding state_ok_def ids_distinct_def by blast
    then show ?thesis using False by (auto simp: pod_at_def split: option.splits)
  qed (use assms(2) in \<open>simp add: pod_at_def\<close>)
  then show ?thesis by (simp add: tables_of_def bucket_def fun_eq_iff)
qed

lemma tables_of_unlinked:
  assumes "\<And>n e. v_outer s n e \<noteq> Some i"
  shows "tables_of (with_inner s i m) = tables_of s"
  using assms by (auto simp: tables_of_def pod_at_def bucket_def fun_eq_iff split: option.splits)

lemma tables_of_link:
  fixes m :: "u32 \<rightharpoonup> u32"
  assumes "state_ok s" "v_outer s n e = None" "\<And>n. i \<notin> ran (v_outer s n)"
  defines "s' \<equiv> (with_inner s i m)\<lparr>v_outer := (v_outer s)(n := (v_outer s n)(e \<mapsto> i))\<rparr>"
  shows "state_ok s'" and "tables_of s' = (tables_of s)\<lparr>t_port :=
     (\<lambda>n' e' p. if n' = n \<and> e' = e then (case m (ucast p) of None \<Rightarrow> 0 | Some x \<Rightarrow> x) else pod_at s n' e' p)\<rparr>"
proof -
  have fresh: "v_outer s n' e' \<noteq> Some i" for n' e' using assms(3) [of n'] by (auto simp: ran_def)
  show "state_ok s'" using assms(1) fresh unfolding state_ok_def ids_distinct_def s'_def
    by (auto split: if_splits)
  have "pod_at s' n' e' p =
     (if n' = n \<and> e' = e then (case m (ucast p) of None \<Rightarrow> 0 | Some x \<Rightarrow> x) else pod_at s n' e' p)" for n' e' p
    using fresh by (auto simp: pod_at_def s'_def split: option.splits)
  then show "tables_of s' = (tables_of s)\<lparr>t_port :=
     (\<lambda>n' e' p. if n' = n \<and> e' = e then (case m (ucast p) of None \<Rightarrow> 0 | Some x \<Rightarrow> x) else pod_at s n' e' p)\<rparr>"
    by (simp add: tables_of_def bucket_def s'_def fun_eq_iff)
qed

lemma set_ports_array:
  assumes "\<And>p. (case m (ucast p) of None \<Rightarrow> 0 | Some x \<Rightarrow> x) = pod_at s n e p"
  shows "(tables_of s)\<lparr>t_port := (\<lambda>n' e' p. if n' = n \<and> e' = e
      then (case set_array A pod m (ucast p) of None \<Rightarrow> 0 | Some x \<Rightarrow> x) else pod_at s n' e' p)\<rparr> =
    set_ports n e A pod (tables_of s)"
proof -
  have "(case set_array A pod m (ucast p) of None \<Rightarrow> 0 | Some x \<Rightarrow> x) =
      (if p \<in> A then pod else pod_at s n e p)" for p
    using assms [of p] by (simp add: set_array_def)
  then show ?thesis by (auto simp: set_ports_def fun_eq_iff intro!: arg_cong [where f = "\<lambda>x. (tables_of s)\<lparr>t_port := x\<rparr>"])
qed

context ebpf_kernel
begin

lemma put_ports_ok:
  "ok_post (put_ports E i pod ps pe w)
     (\<lambda>w'. view w' = with_inner (view w) i (set_array {ps..pe} pod (v_inner (view w) i)))"
proof -
  define I where "I = (\<lambda>ys w'. view w' = with_inner (view w) i (set_array (set ys) pod (v_inner (view w) i)))"
  have "ok_post (put_ports E i pod ps pe w) (I (port_list ps pe))"
    unfolding put_ports_def
  proof (rule ok_post_port_loop)
    show "I [] w" by (simp add: I_def set_array_def)
  next
    fix ys and p :: u16 and v assume I: "I ys v"
    obtain r v' where put: "bm_Put (inner_map E i) (ucast p) pod v = (r, v')" by fastforce
    show "ok_post (ret_err (PortFailed p) (bm_Put (inner_map E i) (ucast p) pod v)) (I (ys @ [p]))"
      using map_law_put [OF inner_law TrueI put] I
      by (cases r) (auto simp: I_def put ret_err_def set_array_def fun_eq_iff)
  qed
  then show ?thesis by (simp add: I_def set_port_list)
qed

lemma put_ports_any:
  "any_post (put_ports E i pod ps pe w) (\<lambda>w'. \<exists>m. view w' = with_inner (view w) i m)"
  unfolding put_ports_def
proof (rule any_post_port_loop)
  show "\<exists>m. view w = with_inner (view w) i m" by (rule exI [of _ "v_inner (view w) i"]) simp
next
  fix p :: u16 and v assume I: "\<exists>m. view v = with_inner (view w) i m"
  obtain r v' where put: "bm_Put (inner_map E i) (ucast p) pod v = (r, v')" by fastforce
  show "any_post (ret_err (PortFailed p) (bm_Put (inner_map E i) (ucast p) pod v)) (\<lambda>w'. \<exists>m. view w' = with_inner (view w) i m)"
    using map_law_put [OF inner_law TrueI put] I by (cases r) (auto simp: put ret_err_def)
  then show "any_post (ret_err (PortFailed p) (bm_Put (inner_map E i) (ucast p) pod v)) (\<lambda>w'. \<exists>m. view w' = with_inner (view w) i m)" .
qed

lemma add_ports_linked:
  assumes ok: "state_ok (view w)" and look: "bm_Lookup (outer_map E n) w e = Inr i"
  shows "any_post (add_ports E n e pod ps pe w) (\<lambda>w'. state_ok (view w')) \<and>
    ok_post (add_ports E n e pod ps pe w) (\<lambda>w'. tables_of (view w') = set_ports n e {ps..pe} pod (tables_of (view w)))"
proof -
  have i: "v_outer (view w) n e = Some i" using map_lawD(1) [OF outer_law TrueI look] .
  have run: "add_ports E n e pod ps pe w = eff_bind (put_ports E i pod ps pe w) (\<lambda>w2. Some (Done w2))"
    using look by (simp add: add_ports_def openOrCreateInnerMap_def)
  have "any_post (put_ports E i pod ps pe w) (\<lambda>w'. state_ok (view w'))"
    by (rule any_post_mono [OF put_ports_any]) (use ok in auto)
  moreover have "ok_post (put_ports E i pod ps pe w)
      (\<lambda>w'. tables_of (view w') = set_ports n e {ps..pe} pod (tables_of (view w)))"
  proof (rule ok_post_mono [OF put_ports_ok])
    fix w' assume "view w' = with_inner (view w) i (set_array {ps..pe} pod (v_inner (view w) i))"
    then show "tables_of (view w') = set_ports n e {ps..pe} pod (tables_of (view w))"
      using i by (simp add: tables_of_linked [OF ok i] set_ports_array pod_at_def)
  qed
  ultimately show ?thesis unfolding run by (auto intro!: any_post_bind ok_post_bind)
qed

lemma add_ports_fresh:
  assumes ok: "state_ok (view w)" and look: "bm_Lookup (outer_map E n) w e = Inl ErrKeyNotExist"
    and new: "NewInnerMap E w = (Inr i, w1)"
  shows "any_post (add_ports E n e pod ps pe w) (\<lambda>w'. state_ok (view w')) \<and>
    ok_post (add_ports E n e pod ps pe w) (\<lambda>w'. tables_of (view w') = set_ports n e {ps..pe} pod (tables_of (view w)))"
proof -
  have none: "v_outer (view w) n e = None" using map_lawD(2) [OF outer_law TrueI look] .
  have fresh: "\<And>n. i \<notin> ran (v_outer (view w) n)" and v1: "view w1 = with_inner (view w) i zero_array"
    using new_law [OF new] by auto
  define link where "link = (\<lambda>w2. ret_err (MapCall ''insert inner map'') (bm_Put (outer_map E n) e i w2))"
  have run: "add_ports E n e pod ps pe w = eff_bind (put_ports E i pod ps pe w1) link"
    using look new by (simp add: add_ports_def openOrCreateInnerMap_def link_def)
  have linked: "any_post (link w2) (\<lambda>w'. state_ok (view w')) \<and>
      ok_post (link w2) (\<lambda>w'. view w' = (with_inner (view w) i m)\<lparr>v_outer := (v_outer (view w))(n := (v_outer (view w) n)(e \<mapsto> i))\<rparr>)"
    if w2: "view w2 = with_inner (view w) i m" for w2 m
  proof -
    obtain r w3 where put: "bm_Put (outer_map E n) e i w2 = (r, w3)" by fastforce
    show ?thesis using map_law_put [OF outer_law TrueI put] w2 ok tables_of_link(1) [OF ok none fresh, of m]
      by (cases r) (simp_all add: link_def put ret_err_def)
  qed
  have "any_post (eff_bind (put_ports E i pod ps pe w1) link) (\<lambda>w'. state_ok (view w'))"
  proof -
    have "any_post (put_ports E i pod ps pe w1) (\<lambda>w'. \<exists>m. view w' = with_inner (view w) i m)"
      by (rule any_post_mono [OF put_ports_any]) (auto simp: v1)
    then show ?thesis using linked ok
      by (cases "put_ports E i pod ps pe w1"; cases "the (put_ports E i pod ps pe w1)") auto
  qed
  moreover have "ok_post (eff_bind (put_ports E i pod ps pe w1) link)
      (\<lambda>w'. tables_of (view w') = set_ports n e {ps..pe} pod (tables_of (view w)))"
  proof (rule ok_post_bind, rule ok_post_mono [OF put_ports_ok])
    fix w2 assume "view w2 = with_inner (view w1) i (set_array {ps..pe} pod (v_inner (view w1) i))"
    then have "view w2 = with_inner (view w) i (set_array {ps..pe} pod zero_array)" by (simp add: v1)
    from linked [OF this, THEN conjunct2]
    show "ok_post (link w2) (\<lambda>w'. tables_of (view w') = set_ports n e {ps..pe} pod (tables_of (view w)))"
      by (rule ok_post_mono)
        (simp add: tables_of_link(2) [OF ok none fresh] set_ports_array zero_array_def ucast_port_less pod_at_def none)
  qed
  ultimately show ?thesis unfolding run by simp
qed

lemma refines_AddPortRange:
  assumes "portRangeMapName proto = Inr n"
  shows "refines view (AddPortRange E extIP podIP ps pe proto)
     (set_ports n (the (ipToUint32 extIP)) {ps..pe} (the (ipToUint32 podIP)))"
proof -
  have "refines view (add_ports E n e pod ps pe) (set_ports n e {ps..pe} pod)" for e pod
  proof -
    have "any_post (add_ports E n e pod ps pe w) (\<lambda>w'. state_ok (view w')) \<and>
        ok_post (add_ports E n e pod ps pe w) (\<lambda>w'. tables_of (view w') = set_ports n e {ps..pe} pod (tables_of (view w)))"
      if ok: "state_ok (view w)" for w
    proof (cases "bm_Lookup (outer_map E n) w e")
      case (Inl err)
      obtain r w1 where new: "NewInnerMap E w = (r, w1)" by fastforce
      show ?thesis
      proof (cases "err = ErrKeyNotExist \<and> (\<exists>i. r = Inr i)")
        case True
        then show ?thesis using add_ports_fresh [OF ok] Inl new by auto
      next
        case False
        then show ?thesis using Inl new ok new_failed [of w _ w1]
          by (cases r) (auto simp: add_ports_def openOrCreateInnerMap_def)
      qed
    next
      case (Inr i)
      then show ?thesis by (rule add_ports_linked [OF ok])
    qed
    then show ?thesis by (simp add: refines_def)
  qed
  then show ?thesis unfolding AddPortRange_def assms by (simp, intro refines_open refines_ip) simp
qed

end

definition clear_array :: "u16 set \<Rightarrow> u32 \<Rightarrow> (u32 \<rightharpoonup> u32) \<Rightarrow> (u32 \<rightharpoonup> u32)" where
  "clear_array ports pod m = (\<lambda>k. if k \<in> ucast ` ports \<and> m k = Some pod then Some 0 else m k)"

lemma clear_ports_array:
  assumes "\<And>p. (case m (ucast p) of None \<Rightarrow> 0 | Some x \<Rightarrow> x) = pod_at s n e p"
  shows "(tables_of s)\<lparr>t_port := (\<lambda>n' e' p. if n' = n \<and> e' = e
      then (case clear_array A pod m (ucast p) of None \<Rightarrow> 0 | Some x \<Rightarrow> x) else pod_at s n' e' p)\<rparr> =
    clear_ports n e A pod (tables_of s)"
proof -
  have "(case clear_array A pod m (ucast p) of None \<Rightarrow> 0 | Some x \<Rightarrow> x) =
      (if p \<in> A \<and> pod_at s n e p = pod then 0 else pod_at s n e p)" for p
    using assms [of p] by (auto simp: clear_array_def split: option.splits)
  then show ?thesis by (auto simp: clear_ports_def fun_eq_iff intro!: arg_cong [where f = "\<lambda>x. (tables_of s)\<lparr>t_port := x\<rparr>"])
qed

context ebpf_kernel
begin

lemma zero_port_any:
  "any_post (zero_port E i pod p w) (\<lambda>w'. \<exists>m. view w' = with_inner (view w) i m)"
proof -
  obtain r w' where put: "bm_Put (inner_map E i) (ucast p) 0 w = (r, w')" by fastforce
  have "\<exists>m. view w = with_inner (view w) i m" by (rule exI [of _ "v_inner (view w) i"]) simp
  then show ?thesis using map_law_put [OF inner_law TrueI put]
    by (cases r) (auto simp: zero_port_def put ret_err_def split: sum.splits)
qed

lemma zero_port_ok:
  assumes "v_outer (view w) n e = Some i"
  shows "ok_post (zero_port E i pod p w) (\<lambda>w'. view w' = with_inner (view w) i (clear_array {p} pod (v_inner (view w) i)))"
proof -
  obtain r w' where put: "bm_Put (inner_map E i) (ucast p) 0 w = (r, w')" by fastforce
  obtain cur where look: "bm_Lookup (inner_map E i) w (ucast p) = Inr cur"
    using array_law [OF assms ucast_port_less] by blast
  have cur: "v_inner (view w) i (ucast p) = Some cur" using map_lawD(1) [OF inner_law TrueI look] .
  have skip: "clear_array {p} pod (v_inner (view w) i) = v_inner (view w) i" if "cur \<noteq> pod"
    using that cur by (auto simp: clear_array_def fun_eq_iff)
  have wr: "clear_array {p} pod (v_inner (view w) i) = (v_inner (view w) i)(ucast p \<mapsto> 0)" if "cur = pod"
    using that cur by (auto simp: clear_array_def fun_eq_iff)
  show ?thesis using map_law_put [OF inner_law TrueI put] skip wr
    by (cases r; cases "cur = pod") (simp_all add: zero_port_def look put ret_err_def)
qed

lemma zero_ports_any:
  "any_post (port_loop (zero_port E i pod) ps pe w) (\<lambda>w'. \<exists>m. view w' = with_inner (view w) i m)"
proof -
  have step: "any_post (zero_port E i pod p v) (\<lambda>w'. \<exists>m. view w' = with_inner (view w) i m)"
    if "\<exists>m. view v = with_inner (view w) i m" for p v
    by (rule any_post_mono [OF zero_port_any]) (use that in auto)
  show ?thesis
    by (rule any_post_port_loop) (auto intro!: step exI [of _ "v_inner (view w) i"])
qed

lemma zero_ports_ok:
  assumes "v_outer (view w) n e = Some i"
  shows "ok_post (port_loop (zero_port E i pod) ps pe w)
     (\<lambda>w'. view w' = with_inner (view w) i (clear_array {ps..pe} pod (v_inner (view w) i)))"
proof -
  define I where "I = (\<lambda>ys w'. view w' = with_inner (view w) i (clear_array (set ys) pod (v_inner (view w) i)))"
  have "ok_post (port_loop (zero_port E i pod) ps pe w) (I (port_list ps pe))"
  proof (rule ok_post_port_loop)
    show "I [] w" by (simp add: I_def clear_array_def)
  next
    fix ys p v assume I: "I ys v"
    then have "v_outer (view v) n e = Some i" using assms by (simp add: I_def)
    from zero_port_ok [OF this, of pod p] show "ok_post (zero_port E i pod p v) (I (ys @ [p]))"
      by (rule ok_post_mono) (use I in \<open>auto simp: I_def clear_array_def fun_eq_iff\<close>)
  qed
  then show ?thesis by (simp add: I_def set_port_list)
qed

lemma remove_ports_post:
  assumes ok: "state_ok (view w)" and pod: "pod = the (ipToUint32 podIP)"
  shows "any_post (remove_ports E n e podIP ps pe w) (\<lambda>w'. state_ok (view w')) \<and>
    ok_post (remove_ports E n e podIP ps pe w) (\<lambda>w'. tables_of (view w') = clear_ports n e {ps..pe} pod (tables_of (view w)))"
proof (cases "bm_Lookup (outer_map E n) w e")
  case (Inl err)
  have "tables_of (view w) = clear_ports n e {ps..pe} pod (tables_of (view w))" if "v_outer (view w) n e = None"
  proof -
    have "pod_at (view w) n e p = 0" for p using that by (simp add: pod_at_def)
    then have "(\<lambda>n' e' p. if n' = n \<and> e' = e \<and> p \<in> {ps..pe} \<and> pod_at (view w) n' e' p = pod then 0
        else pod_at (view w) n' e' p) = pod_at (view w)" by (auto simp: fun_eq_iff)
    then show ?thesis unfolding clear_ports_def tables_of_sel by (simp add: tables_of_def)
  qed
  then show ?thesis using Inl ok map_lawD(2) [OF outer_law TrueI, of n w e] by (auto simp: remove_ports_def)
next
  case (Inr i)
  have i: "v_outer (view w) n e = Some i" using map_lawD(1) [OF outer_law TrueI Inr] .
  have run: "remove_ports E n e podIP ps pe w =
      (if ipToUint32 podIP = None then Some (Panic w) else port_loop (zero_port E i pod) ps pe w)"
    using Inr pod by (auto simp: remove_ports_def with_ip_def)
  have "any_post (port_loop (zero_port E i pod) ps pe w) (\<lambda>w'. state_ok (view w'))"
    by (rule any_post_mono [OF zero_ports_any]) (use ok in auto)
  moreover have "ok_post (port_loop (zero_port E i pod) ps pe w)
      (\<lambda>w'. tables_of (view w') = clear_ports n e {ps..pe} pod (tables_of (view w)))"
    by (rule ok_post_mono [OF zero_ports_ok [OF i]])
      (use i in \<open>simp add: tables_of_linked [OF ok i] clear_ports_array pod_at_def\<close>)
  ultimately show ?thesis using ok by (simp add: run)
qed

lemma refines_RemovePortRange:
  assumes "portRangeMapName proto = Inr n"
  shows "refines view (RemovePortRange E extIP podIP ps pe proto)
     (clear_ports n (the (ipToUint32 extIP)) {ps..pe} (the (ipToUint32 podIP)))"
proof -
  have "refines view (remove_ports E n e podIP ps pe) (clear_ports n e {ps..pe} (the (ipToUint32 podIP)))" for e
    using remove_ports_post by (simp add: refines_def)
  then show ?thesis unfolding RemovePortRange_def assms by (simp, intro refines_open refines_ip) simp
qed

text \<open>The external IPs of a CIDR and the target CIDRs.\<close>

lemma refines_for_ext_ips:
  assumes "expandCIDR cidr = Some (Inr ips)" "\<And>a. refines view (f a) (set_kinds {a} kind)"
  shows "refines view (for_ext_ips E cidr f) (set_kinds ((\<lambda>ip. the (ipToUint32 ip)) ` set ips) kind)"
proof -
  have "fold (\<lambda>ip. set_kinds {the (ipToUint32 ip)} kind) xs t = set_kinds ((\<lambda>ip. the (ipToUint32 ip)) ` set xs) kind t" for xs t
  proof (induction xs arbitrary: t)
    case (Cons x xs)
    then show ?case by (cases t) (auto simp: set_kinds_def fun_eq_iff)
  qed (simp add: set_kinds_def)
  then have fold: "fold (\<lambda>ip. set_kinds {the (ipToUint32 ip)} kind) ips =
      set_kinds ((\<lambda>ip. the (ipToUint32 ip)) ` set ips) kind" by (simp add: fun_eq_iff)
  have "refines view (for_eff (\<lambda>ip. with_ip ip f) ips) (fold (\<lambda>ip. set_kinds {the (ipToUint32 ip)} kind) ips)"
    by (intro refines_for refines_ip) (use assms(2) in auto)
  then show ?thesis unfolding for_ext_ips_def assms(1) fold by (simp add: refines_open)
qed

lemma refines_AddExtIPKind:
  "expandCIDR cidr = Some (Inr ips) \<Longrightarrow>
     refines view (AddExtIPKind E cidr) (set_kinds ((\<lambda>ip. the (ipToUint32 ip)) ` set ips) (Some dstKindExtIP))"
  unfolding AddExtIPKind_def by (rule refines_for_ext_ips) (simp_all add: refines_dst_put)

lemma refines_RemoveExtIPKind:
  "expandCIDR cidr = Some (Inr ips) \<Longrightarrow>
     refines view (RemoveExtIPKind E cidr) (set_kinds ((\<lambda>ip. the (ipToUint32 ip)) ` set ips) None)"
  unfolding RemoveExtIPKind_def by (rule refines_for_ext_ips) (simp_all add: refines_dst_delete)

lemma refines_AddTargetCIDR:
  assumes "no_host_bits (lpm_of cidr (the (ipToUint32 (To4 (net_addr cidr)))))"
  shows "refines view (AddTargetCIDR E cidr) (\<lambda>t. t\<lparr>t_target := (t_target t)
     (lpm_of cidr (the (ipToUint32 (To4 (net_addr cidr)))) \<mapsto>
        \<lparr>tv_Addr = the (ipToUint32 (To4 (net_addr cidr))), tv_Prefixlen = mask_ones cidr\<rparr>)\<rparr>)"
proof (cases "To4 (net_addr cidr) = []")
  case False
  then show ?thesis unfolding AddTargetCIDR_def Let_def
    by (simp, intro refines_open refines_ip)
      (rule refines_put [OF target_law], use assms in \<open>simp_all add: tables_of_other\<close>)
qed (simp add: refines_def AddTargetCIDR_def)

lemma refines_RemoveTargetCIDR:
  assumes "no_host_bits (lpm_of cidr (the (ipToUint32 (To4 (net_addr cidr)))))"
  shows "refines view (RemoveTargetCIDR E cidr)
     (\<lambda>t. t\<lparr>t_target := (t_target t)(lpm_of cidr (the (ipToUint32 (To4 (net_addr cidr)))) := None)\<rparr>)"
proof (cases "To4 (net_addr cidr) = []")
  case False
  then show ?thesis unfolding RemoveTargetCIDR_def Let_def
    by (simp, intro refines_open refines_ip)
      (rule refines_delete [OF target_law], use assms in \<open>simp_all add: tables_of_other\<close>)
qed (simp add: refines_def RemoveTargetCIDR_def)

end

end
