(* ===== verification/DaemonBPF.thy ===== *)
theory DaemonBPF
  imports BPFKernel
begin

text \<open>
  \<open>internal/controller/daemon/bpf.go\<close>: the interfaces through which the daemon's controllers reach the BPF
  maps, one record per Go interface, and their production values. The contract the controllers rely on is
  the locale \<open>sync_maps\<close>; the production values meet it on every kernel that satisfies \<open>ebpf_kernel\<close>.
  \<open>memE\<close> is such a kernel: the maps as functions and an association list, in memory.
\<close>

record 'w TargetCIDRMap =
  tm_Add :: "IPNet \<Rightarrow> 'w \<Rightarrow> (maps_error, 'w) eff"
  tm_Remove :: "IPNet \<Rightarrow> 'w \<Rightarrow> (maps_error, 'w) eff"

record 'w ExtIPKindMap =
  em_Add :: "IPNet \<Rightarrow> 'w \<Rightarrow> (maps_error, 'w) eff"
  em_Remove :: "IPNet \<Rightarrow> 'w \<Rightarrow> (maps_error, 'w) eff"

record 'w PodIPKindMap =
  km_Add :: "net_IP \<Rightarrow> 'w \<Rightarrow> (maps_error, 'w) eff"
  km_Remove :: "net_IP \<Rightarrow> 'w \<Rightarrow> (maps_error, 'w) eff"

record 'w PortRangeLookupMap =
  pm_Add :: "net_IP \<Rightarrow> net_IP \<Rightarrow> u16 \<Rightarrow> u16 \<Rightarrow> u8 \<Rightarrow> 'w \<Rightarrow> (maps_error, 'w) eff"
  pm_Remove :: "net_IP \<Rightarrow> net_IP \<Rightarrow> u16 \<Rightarrow> u16 \<Rightarrow> u8 \<Rightarrow> 'w \<Rightarrow> (maps_error, 'w) eff"

record 'w PodNatPortsMap =
  om_Add :: "net_IP \<Rightarrow> u16 \<Rightarrow> u16 \<Rightarrow> 'w \<Rightarrow> (maps_error, 'w) eff"
  om_Remove :: "net_IP \<Rightarrow> u16 \<Rightarrow> u16 \<Rightarrow> 'w \<Rightarrow> (maps_error, 'w) eff"

record 'w NatConfigMap =
  nm_Upsert :: "net_IP \<Rightarrow> IPNet \<Rightarrow> net_IP \<Rightarrow> u16 \<Rightarrow> u16 \<Rightarrow> 'w \<Rightarrow> (maps_error, 'w) eff"
  nm_RemoveAllocs :: "net_IP \<Rightarrow> IPNet \<Rightarrow> net_IP list \<Rightarrow> 'w \<Rightarrow> (maps_error, 'w) eff"

definition RealTargetCIDRMap :: "'w ebpf \<Rightarrow> 'w TargetCIDRMap" where
  "RealTargetCIDRMap E = \<lparr>tm_Add = AddTargetCIDR E, tm_Remove = RemoveTargetCIDR E\<rparr>"

definition RealExtIPKindMap :: "'w ebpf \<Rightarrow> 'w ExtIPKindMap" where
  "RealExtIPKindMap E = \<lparr>em_Add = AddExtIPKind E, em_Remove = RemoveExtIPKind E\<rparr>"

definition RealPodIPKindMap :: "'w ebpf \<Rightarrow> 'w PodIPKindMap" where
  "RealPodIPKindMap E = \<lparr>km_Add = AddPodIPKind E, km_Remove = RemovePodIPKind E\<rparr>"

definition RealPortRangeLookupMap :: "'w ebpf \<Rightarrow> 'w PortRangeLookupMap" where
  "RealPortRangeLookupMap E = \<lparr>pm_Add = AddPortRange E, pm_Remove = RemovePortRange E\<rparr>"

definition RealPodNatPortsMap :: "'w ebpf \<Rightarrow> 'w PodNatPortsMap" where
  "RealPodNatPortsMap E = \<lparr>om_Add = AddPodNatPorts E, om_Remove = RemovePodNatPorts E\<rparr>"

definition RealNatConfigMap :: "'w ebpf \<Rightarrow> 'w NatConfigMap" where
  "RealNatConfigMap E = \<lparr>nm_Upsert = UpsertNatConfigEntry E, nm_RemoveAllocs = RemoveNatConfigAllocs E\<rparr>"

section \<open>The contract\<close>

abbreviation ip_key :: "net_IP \<Rightarrow> u32" where
  "ip_key ip \<equiv> the (ipToUint32 ip)"

locale sync_maps =
  fixes P :: "'w PortRangeLookupMap" and N :: "'w NatConfigMap" and K :: "'w PodIPKindMap"
    and Q :: "'w PodNatPortsMap" and view :: "'w \<Rightarrow> bpf_state"
  assumes P_Add: "portRangeMapName proto = Inr n \<Longrightarrow>
      refines view (pm_Add P ext pod ps pe proto) (set_ports n (ip_key ext) {ps..pe} (ip_key pod))"
    and P_Remove: "portRangeMapName proto = Inr n \<Longrightarrow>
      refines view (pm_Remove P ext pod ps pe proto) (clear_ports n (ip_key ext) {ps..pe} (ip_key pod))"
    and N_Upsert: "refines view (nm_Upsert N pod cidr ext ps pe) (set_range (nc_key pod cidr) (ip_key ext) (ps, pe))"
    and N_Remove: "refines view (nm_RemoveAllocs N pod cidr exts) (drop_ranges (nc_key pod cidr) (ip_key ` set exts))"
    and K_Add: "refines view (km_Add K pod) (set_kinds {ip_key pod} (Some dstKindPodIP))"
    and K_Remove: "refines view (km_Remove K pod) (set_kinds {ip_key pod} None)"
    and Q_Add: "refines view (om_Add Q pod ps pe) (own_ports (ip_key pod) {ps..pe})"
    and Q_Remove: "refines view (om_Remove Q pod ps pe) (disown_ports (ip_key pod) {ps..pe})"

context ebpf_kernel
begin

lemma real_sync_maps:
  "sync_maps (RealPortRangeLookupMap E) (RealNatConfigMap E) (RealPodIPKindMap E) (RealPodNatPortsMap E) view"
  by unfold_locales
    (simp_all add: RealPortRangeLookupMap_def RealNatConfigMap_def RealPodIPKindMap_def RealPodNatPortsMap_def
      refines_AddPortRange refines_RemovePortRange refines_Upsert refines_AddPodIPKind refines_RemovePodIPKind
      refines_AddPodNatPorts refines_RemovePodNatPorts refines_RemoveAllocs)

end

sublocale ebpf_kernel \<subseteq> real: sync_maps "RealPortRangeLookupMap E" "RealNatConfigMap E"
    "RealPodIPKindMap E" "RealPodNatPortsMap E" view
  by (rule real_sync_maps)

section \<open>A kernel in memory\<close>

record mem_bpf =
  mb_nat :: "nat_config_key \<rightharpoonup> nat_config_val"
  mb_target :: "lpm_key \<rightharpoonup> target_cidr_val"
  mb_kind :: "u32 \<rightharpoonup> u8"
  mb_own :: "pod_port_key \<rightharpoonup> u8"
  mb_outer :: "((string \<times> u32) \<times> nat) list"
  mb_arr :: "nat \<Rightarrow> u32 \<Rightarrow> u32"

definition mem_view :: "mem_bpf \<Rightarrow> bpf_state" where
  "mem_view w = \<lparr>v_nat_config = mb_nat w, v_target_cidrs = mb_target w, v_dst_kind = mb_kind w,
     v_pod_nat_ports = mb_own w, v_outer = (\<lambda>n e. map_of (mb_outer w) (n, e)),
     v_inner = (\<lambda>i k. if unat k < inner_MaxEntries then Some (mb_arr w i k) else None)\<rparr>"

definition fun_map :: "('w \<Rightarrow> 'k \<rightharpoonup> 'v) \<Rightarrow> (('k \<rightharpoonup> 'v) \<Rightarrow> 'w \<Rightarrow> 'w) \<Rightarrow> ('k, 'v, 'w) bpf_map" where
  "fun_map get put =
     \<lparr>bm_Lookup = (\<lambda>w k. case get w k of None \<Rightarrow> Inl ErrKeyNotExist | Some v \<Rightarrow> Inr v),
      bm_Put = (\<lambda>k v w. (None, put ((get w)(k \<mapsto> v)) w)),
      bm_Delete = (\<lambda>k w. if get w k = None then (Some ErrKeyNotExist, w) else (None, put ((get w)(k := None)) w))\<rparr>"

definition mem_outer :: "string \<Rightarrow> (u32, nat, mem_bpf) bpf_map" where
  "mem_outer n =
     \<lparr>bm_Lookup = (\<lambda>w k. case map_of (mb_outer w) (n, k) of None \<Rightarrow> Inl ErrKeyNotExist | Some v \<Rightarrow> Inr v),
      bm_Put = (\<lambda>k v w. (None, w\<lparr>mb_outer := ((n, k), v) # mb_outer w\<rparr>)),
      bm_Delete = (\<lambda>k w. if map_of (mb_outer w) (n, k) = None then (Some ErrKeyNotExist, w)
         else (None, w\<lparr>mb_outer := filter (\<lambda>x. fst x \<noteq> (n, k)) (mb_outer w)\<rparr>))\<rparr>"

definition mem_inner :: "nat \<Rightarrow> (u32, u32, mem_bpf) bpf_map" where
  "mem_inner i =
     \<lparr>bm_Lookup = (\<lambda>w k. if unat k < inner_MaxEntries then Inr (mb_arr w i k) else Inl ErrKeyNotExist),
      bm_Put = (\<lambda>k v w. if unat k < inner_MaxEntries
         then (None, w\<lparr>mb_arr := (mb_arr w)(i := (mb_arr w i)(k := v))\<rparr>) else (Some (ErrBPF ''E2BIG''), w)),
      bm_Delete = (\<lambda>k w. (Some (ErrBPF ''EINVAL''), w))\<rparr>"

definition memE :: "mem_bpf ebpf" where
  "memE = \<lparr>LoadPinnedMap = (\<lambda>w name. None),
     nat_config_map = fun_map mb_nat (\<lambda>m w. w\<lparr>mb_nat := m\<rparr>),
     target_cidrs_map = fun_map mb_target (\<lambda>m w. w\<lparr>mb_target := m\<rparr>),
     dst_kind_map = fun_map mb_kind (\<lambda>m w. w\<lparr>mb_kind := m\<rparr>),
     pod_nat_ports_map = fun_map mb_own (\<lambda>m w. w\<lparr>mb_own := m\<rparr>),
     outer_map = mem_outer, inner_map = mem_inner,
     NewInnerMap = (\<lambda>w. let i = Suc (sum_list (map snd (mb_outer w))) in
       (Inr i, w\<lparr>mb_arr := (mb_arr w)(i := (\<lambda>_. 0))\<rparr>))\<rparr>"

definition mem_empty :: mem_bpf where
  "mem_empty = \<lparr>mb_nat = Map.empty, mb_target = Map.empty, mb_kind = Map.empty, mb_own = Map.empty,
     mb_outer = [], mb_arr = (\<lambda>_ _. 0)\<rparr>"

lemma fun_map_law:
  assumes "\<And>w. get (view w) = g w" "\<And>m w. view (u m w) = put m (view w)"
  shows "map_law K (fun_map g u) view get put"
  using assms by (auto simp: map_law_def fun_map_def split: option.splits if_splits)

lemma map_of_filter_key: "map_of (filter (\<lambda>x. fst x \<noteq> k) xs) = (map_of xs)(k := None)"
  by (induction xs) (auto simp: fun_eq_iff)

lemma mem_outer_law: "map_law (\<lambda>_. True) (mem_outer n) mem_view (\<lambda>s. v_outer s n)
    (\<lambda>m s. s\<lparr>v_outer := (v_outer s)(n := m)\<rparr>)"
  by (auto simp: map_law_def mem_outer_def mem_view_def map_of_filter_key fun_eq_iff split: option.splits if_splits)

lemma mem_inner_law: "map_law (\<lambda>_. True) (mem_inner i) mem_view (\<lambda>s. v_inner s i)
    (\<lambda>m s. s\<lparr>v_inner := (v_inner s)(i := m)\<rparr>)"
  by (auto simp: map_law_def mem_inner_def mem_view_def fun_eq_iff split: if_splits)

lemma snd_le_sum: "x \<in> set xs \<Longrightarrow> snd x \<le> sum_list (map snd xs)" for xs :: "('a \<times> nat) list"
  by (induction xs) auto

interpretation mem: ebpf_kernel memE mem_view
proof
  show "map_law (\<lambda>_. True) (outer_map memE n) mem_view (\<lambda>s. v_outer s n) (\<lambda>m s. s\<lparr>v_outer := (v_outer s)(n := m)\<rparr>)" for n
    by (simp add: memE_def mem_outer_law)
  show "map_law (\<lambda>_. True) (inner_map memE i) mem_view (\<lambda>s. v_inner s i) (\<lambda>m s. s\<lparr>v_inner := (v_inner s)(i := m)\<rparr>)" for i
    by (simp add: memE_def mem_inner_law)
  show "\<exists>v. bm_Lookup (inner_map memE i) w k = Inr v" if "unat k < inner_MaxEntries" for w i k
    using that by (simp add: memE_def mem_inner_def)
  fix w i w' assume new: "NewInnerMap memE w = (Inr i, w')"
  have "i \<notin> ran (v_outer (mem_view w) n)" for n
  proof
    assume "i \<in> ran (v_outer (mem_view w) n)"
    then obtain e where "((n, e), i) \<in> set (mb_outer w)"
      by (auto simp: ran_def mem_view_def dest: map_of_SomeD)
    from snd_le_sum [OF this] new show False by (simp add: memE_def Let_def)
  qed
  moreover have "mem_view w' = (mem_view w)\<lparr>v_inner := (v_inner (mem_view w))(i := zero_array)\<rparr>"
    using new by (auto simp: memE_def Let_def mem_view_def zero_array_def fun_eq_iff)
  ultimately show "(\<forall>n. i \<notin> ran (v_outer (mem_view w) n)) \<and>
    mem_view w' = (mem_view w)\<lparr>v_inner := (v_inner (mem_view w))(i := zero_array)\<rparr>" by blast
qed (auto simp: memE_def Let_def mem_view_def intro!: fun_map_law cong: if_cong)

end
