(* ===== verification/DaemonSync.thy ===== *)
theory DaemonSync
  imports DaemonBPF API
begin

text \<open>
  \<open>internal/controller/daemon/natportrange_controller.go\<close>: every node's daemon writes the port ranges of all
  NATPortRanges into \<open>port_range_lookup\<close>, and those of its own pods also into \<open>pod_nat_ports\<close>, \<open>dst_kind\<close> and
  \<open>nat_config\<close>. The reconciler remembers what it wrote in \<open>synced\<close>, which it updates only when every
  call succeeded; the state of a reconcile is that memory and the world.
\<close>

definition syncProtos :: "u8 list" where
  "syncProtos = [6, 17, 1]"

record syncedNPR =
  sn_PodIP :: string
  sn_NodeName :: string
  sn_TargetCIDRs :: "string list"
  sn_Allocations :: "PortAllocation list"

type_synonym synced = "string \<rightharpoonup> syncedNPR"

record 'w NATPortRangeSyncReconciler =
  sr_Get :: "'w \<Rightarrow> string \<Rightarrow> api_error + NATPortRange"
  sr_NodeName :: string
  sr_PortRangeLookup :: "'w PortRangeLookupMap"
  sr_NatConfig :: "'w NatConfigMap"
  sr_PodIPKind :: "'w PodIPKindMap"
  sr_PodNatPorts :: "'w PodNatPortsMap"

text \<open>The constructor's memory is the empty map.\<close>

definition NewNATPortRangeSyncReconciler ::
    "('w \<Rightarrow> string \<Rightarrow> api_error + NATPortRange) \<Rightarrow> string \<Rightarrow> 'w PortRangeLookupMap \<Rightarrow> 'w NatConfigMap \<Rightarrow>
     'w PodIPKindMap \<Rightarrow> 'w PodNatPortsMap \<Rightarrow> 'w NATPortRangeSyncReconciler \<times> synced" where
  "NewNATPortRangeSyncReconciler c nodeName portRangeLookup natConfig podIPKind podNatPorts =
     (\<lparr>sr_Get = c, sr_NodeName = nodeName, sr_PortRangeLookup = portRangeLookup, sr_NatConfig = natConfig,
       sr_PodIPKind = podIPKind, sr_PodNatPorts = podNatPorts\<rparr>, Map.empty)"

datatype sync_error =
    SyncAPI api_error
  | RemovePortRangeErr maps_error
  | AddPortRangeErr maps_error
  | RemovePodNatPortsErr maps_error
  | AddPodNatPortsErr maps_error
  | AddPodKindErr maps_error
  | RemovePodKindErr maps_error
  | ParseTargetCIDR string
  | RemoveAllocsErr maps_error
  | UpsertErr maps_error

text \<open>A call that ends without an error installs the memory \<open>m'\<close>; any other leaves \<open>m\<close>.\<close>

definition keep_mem :: "'m \<Rightarrow> 'm \<Rightarrow> ('e, 'w) eff \<Rightarrow> ('e, 'm \<times> 'w) eff" where
  "keep_mem m m' r =
     map_option (\<lambda>x. case x of Done w \<Rightarrow> Done (m', w) | Failed e w \<Rightarrow> Failed e (m, w) | Panic w \<Rightarrow> Panic (m, w)) r"

section \<open>Differences\<close>

definition allocKey :: "PortAllocation \<Rightarrow> string" where
  "allocKey a = ExternalIP a @ ''/'' @ show_i32 (pa_PortStart a) @ ''-'' @ show_i32 (pa_PortEnd a)"

definition diffAllocations ::
    "PortAllocation list \<Rightarrow> PortAllocation list \<Rightarrow> PortAllocation list \<times> PortAllocation list" where
  "diffAllocations old cur =
     (let oldSet = set (map allocKey old); currSet = set (map allocKey cur)
      in (filter (\<lambda>a. allocKey a \<notin> currSet) old, filter (\<lambda>a. allocKey a \<notin> oldSet) cur))"

definition diffStringSlices :: "string list \<Rightarrow> string list \<Rightarrow> string list \<times> string list \<times> string list" where
  "diffStringSlices old cur =
     (let oldSet = set old; currSet = set cur
      in (filter (\<lambda>s. s \<notin> currSet) old, filter (\<lambda>s. s \<notin> oldSet) cur, filter (\<lambda>s. s \<in> currSet) old))"

fun unique_ext_ips :: "PortAllocation list \<Rightarrow> string set \<Rightarrow> net_IP list \<Rightarrow> net_IP list" where
  "unique_ext_ips [] seen ips = ips"
| "unique_ext_ips (a # rest) seen ips =
     (if ExternalIP a \<in> seen then unique_ext_ips rest seen ips
      else unique_ext_ips rest (insert (ExternalIP a) seen) (ips @ [ParseIP (ExternalIP a)]))"

definition uniqueExtIPs :: "PortAllocation list \<Rightarrow> net_IP list" where
  "uniqueExtIPs allocs = unique_ext_ips allocs {} []"

section \<open>The loops of the two handlers\<close>

abbreviation port_start :: "PortAllocation \<Rightarrow> u16" where
  "port_start a \<equiv> ucast (pa_PortStart a)"

abbreviation port_end :: "PortAllocation \<Rightarrow> u16" where
  "port_end a \<equiv> ucast (pa_PortEnd a)"

definition remove_ranges ::
    "'w NATPortRangeSyncReconciler \<Rightarrow> net_IP \<Rightarrow> PortAllocation list \<Rightarrow> 'w \<Rightarrow> (sync_error, 'w) eff" where
  "remove_ranges r podIP =
     for_eff (\<lambda>a. for_eff (\<lambda>proto w. wrap_err RemovePortRangeErr
       (pm_Remove (sr_PortRangeLookup r) (ParseIP (ExternalIP a)) podIP (port_start a) (port_end a) proto w)) syncProtos)"

definition add_ranges ::
    "'w NATPortRangeSyncReconciler \<Rightarrow> net_IP \<Rightarrow> PortAllocation list \<Rightarrow> 'w \<Rightarrow> (sync_error, 'w) eff" where
  "add_ranges r podIP =
     for_eff (\<lambda>a. for_eff (\<lambda>proto w. wrap_err AddPortRangeErr
       (pm_Add (sr_PortRangeLookup r) (ParseIP (ExternalIP a)) podIP (port_start a) (port_end a) proto w)) syncProtos)"

definition remove_own ::
    "'w NATPortRangeSyncReconciler \<Rightarrow> net_IP \<Rightarrow> PortAllocation list \<Rightarrow> 'w \<Rightarrow> (sync_error, 'w) eff" where
  "remove_own r podIP = for_eff (\<lambda>a w. wrap_err RemovePodNatPortsErr
     (om_Remove (sr_PodNatPorts r) podIP (port_start a) (port_end a) w))"

definition add_own ::
    "'w NATPortRangeSyncReconciler \<Rightarrow> net_IP \<Rightarrow> PortAllocation list \<Rightarrow> 'w \<Rightarrow> (sync_error, 'w) eff" where
  "add_own r podIP = for_eff (\<lambda>a w. wrap_err AddPodNatPortsErr
     (om_Add (sr_PodNatPorts r) podIP (port_start a) (port_end a) w))"

definition with_cidr :: "string \<Rightarrow> (IPNet \<Rightarrow> 'w \<Rightarrow> (sync_error, 'w) eff) \<Rightarrow> 'w \<Rightarrow> (sync_error, 'w) eff" where
  "with_cidr cidrStr f w =
     (case ParseCIDR cidrStr of None \<Rightarrow> Some (Failed (ParseTargetCIDR cidrStr) w) | Some (_, cidr) \<Rightarrow> f cidr w)"

definition remove_allocs ::
    "'w NATPortRangeSyncReconciler \<Rightarrow> net_IP \<Rightarrow> net_IP list \<Rightarrow> string list \<Rightarrow> 'w \<Rightarrow> (sync_error, 'w) eff" where
  "remove_allocs r podIP extIPs = for_eff (\<lambda>cidrStr. with_cidr cidrStr (\<lambda>cidr w.
     wrap_err RemoveAllocsErr (nm_RemoveAllocs (sr_NatConfig r) podIP cidr extIPs w)))"

definition upsert ::
    "'w NATPortRangeSyncReconciler \<Rightarrow> net_IP \<Rightarrow> IPNet \<Rightarrow> PortAllocation \<Rightarrow> 'w \<Rightarrow> (sync_error, 'w) eff" where
  "upsert r podIP cidr a w = wrap_err UpsertErr
     (nm_Upsert (sr_NatConfig r) podIP cidr (ParseIP (ExternalIP a)) (port_start a) (port_end a) w)"

text \<open>Whole allocations for each new CIDR; new allocations for each CIDR that stays.\<close>

definition upsert_new_cidrs ::
    "'w NATPortRangeSyncReconciler \<Rightarrow> net_IP \<Rightarrow> PortAllocation list \<Rightarrow> string list \<Rightarrow> 'w \<Rightarrow> (sync_error, 'w) eff" where
  "upsert_new_cidrs r podIP allocs =
     for_eff (\<lambda>cidrStr. with_cidr cidrStr (\<lambda>cidr. for_eff (upsert r podIP cidr) allocs))"

definition upsert_new_allocs ::
    "'w NATPortRangeSyncReconciler \<Rightarrow> net_IP \<Rightarrow> string list \<Rightarrow> PortAllocation list \<Rightarrow> 'w \<Rightarrow> (sync_error, 'w) eff" where
  "upsert_new_allocs r podIP cidrs =
     for_eff (\<lambda>a. for_eff (\<lambda>cidrStr. with_cidr cidrStr (\<lambda>cidr. upsert r podIP cidr a)) cidrs)"

section \<open>The handlers\<close>

definition stillUsed :: "'w NATPortRangeSyncReconciler \<Rightarrow> synced \<Rightarrow> string \<Rightarrow> string \<Rightarrow> bool" where
  "stillUsed r sy excludeName podIPStr \<longleftrightarrow>
     (\<exists>name s. sy name = Some s \<and> name \<noteq> excludeName \<and> sn_PodIP s = podIPStr \<and> sn_NodeName s = sr_NodeName r)"

definition maybeRemovePodIPKind ::
    "'w NATPortRangeSyncReconciler \<Rightarrow> synced \<Rightarrow> string \<Rightarrow> string \<Rightarrow> net_IP \<Rightarrow> 'w \<Rightarrow> (sync_error, 'w) eff" where
  "maybeRemovePodIPKind r sy excludeName podIPStr podIP w =
     (if stillUsed r sy excludeName podIPStr then Some (Done w)
      else wrap_err RemovePodKindErr (km_Remove (sr_PodIPKind r) podIP w))"

definition stale_local :: "'w NATPortRangeSyncReconciler \<Rightarrow> synced \<Rightarrow> NATPortRange \<Rightarrow> 'w \<Rightarrow> (sync_error, 'w) eff" where
  "stale_local r sy npr w0 =
     (let podIP = ParseIP (npr_PodIP (npr_Spec npr)); allocs = npr_Allocations (npr_Spec npr) in
      eff_bind (remove_own r podIP allocs w0) (\<lambda>w1.
      eff_bind (remove_allocs r podIP (uniqueExtIPs allocs) (npr_TargetCIDRs (npr_Spec npr)) w1)
        (maybeRemovePodIPKind r sy (npr_Name npr) (npr_PodIP (npr_Spec npr)) podIP)))"

definition syncStale ::
    "'w NATPortRangeSyncReconciler \<Rightarrow> NATPortRange \<Rightarrow> synced \<times> 'w \<Rightarrow> (sync_error, synced \<times> 'w) eff" where
  "syncStale r npr st = (case st of (sy, w0) \<Rightarrow>
     keep_mem sy (sy(npr_Name npr := None))
       (eff_bind (remove_ranges r (ParseIP (npr_PodIP (npr_Spec npr))) (npr_Allocations (npr_Spec npr)) w0)
          (\<lambda>w. if npr_NodeName (npr_Spec npr) = sr_NodeName r then stale_local r sy npr w else Some (Done w))))"

text \<open>The zero value stands in for an NATPortRange that was never synced.\<close>

definition cached_of :: "synced \<Rightarrow> string \<Rightarrow> syncedNPR" where
  "cached_of sy name =
     (case sy name of
        None \<Rightarrow> \<lparr>sn_PodIP = [], sn_NodeName = [], sn_TargetCIDRs = [], sn_Allocations = []\<rparr>
      | Some s \<Rightarrow> s)"

definition alive_local ::
    "'w NATPortRangeSyncReconciler \<Rightarrow> syncedNPR \<Rightarrow> NATPortRange \<Rightarrow> 'w \<Rightarrow> (sync_error, 'w) eff" where
  "alive_local r cached npr w0 =
     (let podIP = ParseIP (npr_PodIP (npr_Spec npr)); allocs = npr_Allocations (npr_Spec npr);
          (toRemove, toAdd) = diffAllocations (sn_Allocations cached) allocs;
          (removedCIDRs, addedCIDRs, commonCIDRs) = diffStringSlices (sn_TargetCIDRs cached) (npr_TargetCIDRs (npr_Spec npr))
      in
      eff_bind (remove_own r podIP toRemove w0) (\<lambda>w1.
      eff_bind (add_own r podIP toAdd w1) (\<lambda>w2.
      eff_bind (wrap_err AddPodKindErr (km_Add (sr_PodIPKind r) podIP w2)) (\<lambda>w3.
      eff_bind (remove_allocs r podIP (uniqueExtIPs (sn_Allocations cached)) removedCIDRs w3) (\<lambda>w4.
      eff_bind (if toRemove = [] then Some (Done w4) else remove_allocs r podIP (uniqueExtIPs toRemove) commonCIDRs w4) (\<lambda>w5.
      eff_bind (upsert_new_cidrs r podIP allocs addedCIDRs w5)
        (upsert_new_allocs r podIP commonCIDRs toAdd)))))))"

definition synced_of :: "NATPortRange \<Rightarrow> syncedNPR" where
  "synced_of npr = \<lparr>sn_PodIP = npr_PodIP (npr_Spec npr), sn_NodeName = npr_NodeName (npr_Spec npr),
     sn_TargetCIDRs = npr_TargetCIDRs (npr_Spec npr), sn_Allocations = npr_Allocations (npr_Spec npr)\<rparr>"

definition syncAlive ::
    "'w NATPortRangeSyncReconciler \<Rightarrow> NATPortRange \<Rightarrow> synced \<times> 'w \<Rightarrow> (sync_error, synced \<times> 'w) eff" where
  "syncAlive r npr st = (case st of (sy, w0) \<Rightarrow>
     let cached = cached_of sy (npr_Name npr); podIP = ParseIP (npr_PodIP (npr_Spec npr));
         (toRemove, toAdd) = diffAllocations (sn_Allocations cached) (npr_Allocations (npr_Spec npr))
     in keep_mem sy (sy(npr_Name npr \<mapsto> synced_of npr))
       (eff_bind (remove_ranges r podIP toRemove w0) (\<lambda>w1.
        eff_bind (add_ranges r podIP toAdd w1) (\<lambda>w2.
          if npr_NodeName (npr_Spec npr) = sr_NodeName r then alive_local r cached npr w2 else Some (Done w2)))))"

definition reconcileSync ::
    "'w NATPortRangeSyncReconciler \<Rightarrow> string \<Rightarrow> synced \<times> 'w \<Rightarrow> (sync_error, synced \<times> 'w) eff" where
  "reconcileSync r name st = (case st of (sy, w) \<Rightarrow>
     (case sr_Get r w name of
        Inl e \<Rightarrow> if e = NotFound then Some (Done (sy(name := None), w)) else Some (Failed (SyncAPI e) (sy, w))
      | Inr npr \<Rightarrow>
          if npr_StaleSince (npr_Spec npr) \<noteq> None \<or> npr_DeletionTimestamp npr \<noteq> None
          then syncStale r npr (sy, w) else syncAlive r npr (sy, w)))"

end
