(* ===== verification/DaemonTables.thy ===== *)
theory DaemonTables
  imports DaemonSync
begin

text \<open>
  The loops of the NATPortRange syncer as operations on \<open>tables\<close>: sets of (map, external IP, port) cells that
  are given to a pod or taken from it, and sequences of \<open>nat_config\<close> entries.
\<close>

section \<open>Keys\<close>

lemma of_char_char_of_nat: "n < 256 \<Longrightarrow> of_char (char_of n) = n" for n :: nat
  by simp

lemma show_nat_Cons_digits: "c \<in> set (show_nat n) \<Longrightarrow> is_digit c"
proof (induction n rule: show_nat.induct)
  case (1 n)
  have "is_digit (char_of (48 + n mod 10))" by (simp add: is_digit_def)
  moreover have "is_digit (char_of (48 + n))" if "n < 10" using that by (simp add: is_digit_def)
  ultimately show ?case using 1 by (auto simp: show_nat.simps [of n] split: if_splits)
qed

definition digits_val :: "string \<Rightarrow> nat" where
  "digits_val s = foldl (\<lambda>n c. n * 10 + digit_val c) 0 s"

lemma digits_val_show_nat: "digits_val (show_nat n) = n"
proof (induction n rule: show_nat.induct)
  case (1 n)
  show ?case
  proof (cases "n < 10")
    case True
    then show ?thesis by (simp add: show_nat.simps [of n] digits_val_def digit_val_def)
  next
    case False
    then have "digits_val (show_nat n) = digits_val (show_nat (n div 10)) * 10 + n mod 10"
      by (simp add: show_nat.simps [of n] digits_val_def digit_val_def)
    then show ?thesis using 1 False by simp
  qed
qed

lemma show_nat_inj [simp]: "show_nat m = show_nat n \<longleftrightarrow> m = n"
  by (metis digits_val_show_nat)

lemma show_nat_not_Nil [simp]: "show_nat n \<noteq> []"
  by (simp add: show_nat.simps [of n])

lemma show_nat_no_sep [simp]: "CHR ''-'' \<notin> set (show_nat n)" "CHR ''/'' \<notin> set (show_nat n)"
  using show_nat_Cons_digits by (force simp: is_digit_def)+

lemma show_i32_no_slash: "CHR ''/'' \<notin> set (show_i32 a)"
  by (simp add: show_i32_def Let_def)

lemma split_at_first:
  assumes "xs @ c # ys = xs' @ c # ys'" "c \<notin> set xs" "c \<notin> set xs'"
  shows "xs = xs' \<and> ys = ys'"
proof -
  have "takeWhile (\<lambda>x. x \<noteq> c) (zs @ c # us) = zs" if "c \<notin> set zs" for zs us
    using that by (induction zs) auto
  then have "xs = xs'" using assms by metis
  with assms(1) show ?thesis by simp
qed

lemma split_at_last:
  assumes "xs @ c # ys = xs' @ c # ys'" "c \<notin> set ys" "c \<notin> set ys'"
  shows "xs = xs' \<and> ys = ys'"
proof -
  have "rev ys @ c # rev xs = rev ys' @ c # rev xs'"
    using arg_cong [OF assms(1), of rev] by simp
  from split_at_first [OF this] assms(2,3) show ?thesis by simp
qed

lemma show_nat_sign: "CHR ''-'' # xs \<noteq> show_nat n @ ys" "show_nat n @ ys \<noteq> CHR ''-'' # xs"
  using show_nat_no_sep(1) [of n] by (cases "show_nat n"; auto)+

lemma show_i32_cases:
  obtains "sint a < 0" "show_i32 a = CHR ''-'' # show_nat (nat (- sint a))"
  | "\<not> sint a < 0" "show_i32 a = show_nat (nat (sint a))"
  by (cases "sint a < 0") (simp_all add: show_i32_def)

lemma show_range_inj:
  assumes eq: "show_i32 a @ CHR ''-'' # xs = show_i32 b @ CHR ''-'' # ys"
  shows "a = b \<and> xs = ys"
proof -
  note first = split_at_first [OF _ show_nat_no_sep(1) show_nat_no_sep(1)]
  have "sint a = sint b \<and> xs = ys"
  proof (cases a rule: show_i32_cases)
    case a: 1
    show ?thesis
    proof (cases b rule: show_i32_cases)
      case 1
      then show ?thesis using eq a first [of "nat (- sint a)" xs "nat (- sint b)" ys]
        by (simp add: eq_nat_nat_iff)
    next
      case 2
      then show ?thesis using eq a by (simp add: show_nat_sign)
    qed
  next
    case a: 2
    show ?thesis
    proof (cases b rule: show_i32_cases)
      case 1
      then show ?thesis using eq a by (simp add: show_nat_sign)
    next
      case 2
      then show ?thesis using eq a first [of "nat (sint a)" xs "nat (sint b)" ys]
        by (simp add: eq_nat_nat_iff)
    qed
  qed
  then show ?thesis by (auto intro: signed_word_eqI)
qed

lemma show_i32_inj: "show_i32 a = show_i32 b \<longleftrightarrow> a = b"
  using show_range_inj [of a "[]" b "[]"] by auto

lemma allocKey_inj: "allocKey a = allocKey b \<longleftrightarrow> a = b"
proof
  assume eq: "allocKey a = allocKey b"
  have no_slash: "CHR ''/'' \<notin> set (show_i32 x @ CHR ''-'' # show_i32 y)" for x y by (simp add: show_i32_no_slash)
  from eq have "ExternalIP a @ CHR ''/'' # (show_i32 (pa_PortStart a) @ CHR ''-'' # show_i32 (pa_PortEnd a)) =
      ExternalIP b @ CHR ''/'' # (show_i32 (pa_PortStart b) @ CHR ''-'' # show_i32 (pa_PortEnd b))"
    by (simp add: allocKey_def)
  from split_at_last [OF this no_slash no_slash]
  have ip: "ExternalIP a = ExternalIP b" and
    "show_i32 (pa_PortStart a) @ CHR ''-'' # show_i32 (pa_PortEnd a) =
     show_i32 (pa_PortStart b) @ CHR ''-'' # show_i32 (pa_PortEnd b)" by auto
  from show_range_inj [OF this(2)] ip show "a = b" by (simp add: show_i32_inj)
qed simp

lemma diffAllocations_eq:
  "diffAllocations old cur = (filter (\<lambda>a. a \<notin> set cur) old, filter (\<lambda>a. a \<notin> set old) cur)"
  by (simp add: diffAllocations_def image_iff allocKey_inj)

lemma unique_ext_ips_set:
  "set (unique_ext_ips as seen ips) = set ips \<union> ParseIP ` {ip. ip \<in> ExternalIP ` set as \<and> ip \<notin> seen}"
  by (induction as seen ips rule: unique_ext_ips.induct) auto

lemma set_uniqueExtIPs: "set (uniqueExtIPs as) = (\<lambda>a. ParseIP (ExternalIP a)) ` set as"
  by (auto simp: uniqueExtIPs_def unique_ext_ips_set)

section \<open>Cells\<close>

type_synonym cell = "string \<times> u32 \<times> u16"

definition give_cells :: "u32 \<Rightarrow> cell set \<Rightarrow> tables \<Rightarrow> tables" where
  "give_cells pod X t = t\<lparr>t_port := (\<lambda>n e p. if (n, e, p) \<in> X then pod else t_port t n e p)\<rparr>"

definition take_cells :: "u32 \<Rightarrow> cell set \<Rightarrow> tables \<Rightarrow> tables" where
  "take_cells pod X t =
     t\<lparr>t_port := (\<lambda>n e p. if (n, e, p) \<in> X \<and> t_port t n e p = pod then 0 else t_port t n e p)\<rparr>"

definition drop_entries :: "(nat_config_key \<times> u32) set \<Rightarrow> tables \<Rightarrow> tables" where
  "drop_entries X t = t\<lparr>t_nat := (\<lambda>k e. if (k, e) \<in> X then None else t_nat t k e)\<rparr>"

text \<open>Table operations indexed by sets that compose by union; loops over them are one operation.\<close>

definition union_op :: "('a set \<Rightarrow> tables \<Rightarrow> tables) \<Rightarrow> bool" where
  "union_op F \<longleftrightarrow> (\<forall>t. F {} t = t) \<and> (\<forall>A B t. F A (F B t) = F (B \<union> A) t)"

lemma union_ops [simp]: "union_op (give_cells pod)" "union_op (take_cells pod)" "union_op drop_entries"
  "union_op (own_ports pod)" "union_op (disown_ports pod)"
proof -
  have "give_cells pod A (give_cells pod B t) = give_cells pod (B \<union> A) t"
    "take_cells pod A (take_cells pod B t) = take_cells pod (B \<union> A) t" for A B t
    by (cases t; auto simp: give_cells_def take_cells_def fun_eq_iff)+
  moreover have "drop_entries A (drop_entries B t) = drop_entries (B \<union> A) t" for A B t
    by (cases t) (auto simp: drop_entries_def fun_eq_iff)
  moreover have "give_cells pod {} t = t" "take_cells pod {} t = t" "drop_entries {} t = t" for t
    by (simp_all add: give_cells_def take_cells_def drop_entries_def)
  ultimately show "union_op (give_cells pod)" "union_op (take_cells pod)" "union_op drop_entries"
    "union_op (own_ports pod)" "union_op (disown_ports pod)"
    by (simp_all add: union_op_def own_ports_Un disown_ports_Un)
qed

lemma refines_for_union:
  assumes "union_op F" "\<And>x. x \<in> set xs \<Longrightarrow> refines view (f x) (F (g x))"
  shows "refines view (for_eff f xs) (F (\<Union>x \<in> set xs. g x))"
proof -
  have "fold (\<lambda>x. F (g x)) xs t = F (\<Union>x \<in> set xs. g x) t" for t
    using assms(1) by (induction xs arbitrary: t) (auto simp: union_op_def Un_commute)
  then have "F (\<Union>x \<in> set xs. g x) = fold (\<lambda>x. F (g x)) xs" by (simp add: fun_eq_iff)
  then show ?thesis using refines_for [OF assms(2)] by simp
qed

lemma ports_cells:
  "set_ports n e A pod = give_cells pod ({n} \<times> {e} \<times> A)" "clear_ports n e A pod = take_cells pod ({n} \<times> {e} \<times> A)"
  by (auto simp: set_ports_def clear_ports_def give_cells_def take_cells_def fun_eq_iff
      intro!: arg_cong [where f = "\<lambda>x. (_ :: tables)\<lparr>t_port := x\<rparr>"])

lemma ranges_entries: "drop_ranges k exts = drop_entries ({k} \<times> exts)"
  by (auto simp: drop_ranges_def drop_entries_def restrict_map_def fun_eq_iff
      intro!: arg_cong [where f = "\<lambda>x. (_ :: tables)\<lparr>t_nat := x\<rparr>"])

section \<open>Entries of nat_config\<close>

type_synonym nat_entry = "(nat_config_key \<times> u32) \<times> (u16 \<times> u16)"

text \<open>A sequence of upserts: the last one on a key and an external IP wins.\<close>

definition put_entries :: "nat_entry list \<Rightarrow> tables \<Rightarrow> tables" where
  "put_entries xs t =
     t\<lparr>t_nat := (\<lambda>k e. case map_of (rev xs) (k, e) of None \<Rightarrow> t_nat t k e | Some r \<Rightarrow> Some r)\<rparr>"

lemma put_entries_Nil [simp]: "put_entries [] t = t"
  by (simp add: put_entries_def)

lemma put_entries_append: "put_entries ys (put_entries xs t) = put_entries (xs @ ys) t"
  by (cases t) (auto simp: put_entries_def fun_eq_iff map_add_def split: option.splits)

lemma set_range_entry: "set_range k e r = put_entries [((k, e), r)]"
  by (auto simp: set_range_def put_entries_def fun_eq_iff
      intro!: arg_cong [where f = "\<lambda>x. (_ :: tables)\<lparr>t_nat := x\<rparr>"])

lemma refines_for_entries:
  assumes "\<And>x. x \<in> set xs \<Longrightarrow> refines view (f x) (put_entries (g x))"
  shows "refines view (for_eff f xs) (put_entries (concat (map g xs)))"
proof -
  have "fold (\<lambda>x. put_entries (g x)) xs t = put_entries (concat (map g xs)) t" for t
    by (induction xs arbitrary: t) (simp_all add: put_entries_append)
  then have "put_entries (concat (map g xs)) = fold (\<lambda>x. put_entries (g x)) xs" by (simp add: fun_eq_iff)
  then show ?thesis using refines_for [OF assms] by simp
qed

section \<open>The loops\<close>

definition sync_names :: "string set" where
  "sync_names = {''port_range_lookup_tcp'', ''port_range_lookup_udp'', ''port_range_lookup_icmp''}"

definition ext_key :: "PortAllocation \<Rightarrow> u32" where
  "ext_key a = ip_key (ParseIP (ExternalIP a))"

definition cells_of :: "PortAllocation list \<Rightarrow> cell set" where
  "cells_of as = (\<Union>a \<in> set as. sync_names \<times> {ext_key a} \<times> {port_start a..port_end a})"

definition ports_of :: "PortAllocation list \<Rightarrow> u16 set" where
  "ports_of as = (\<Union>a \<in> set as. {port_start a..port_end a})"

definition cidr_keys :: "net_IP \<Rightarrow> string \<Rightarrow> nat_config_key list" where
  "cidr_keys podIP c = (case ParseCIDR c of None \<Rightarrow> [] | Some (_, n) \<Rightarrow> [nc_key podIP n])"

definition nat_keys :: "net_IP \<Rightarrow> string list \<Rightarrow> nat_config_key set" where
  "nat_keys podIP cidrs = (\<Union>c \<in> set cidrs. set (cidr_keys podIP c))"

definition alloc_entries :: "net_IP \<Rightarrow> PortAllocation \<Rightarrow> string \<Rightarrow> nat_entry list" where
  "alloc_entries podIP a c = map (\<lambda>k. ((k, ext_key a), (port_start a, port_end a))) (cidr_keys podIP c)"

lemma syncProtos_names: "proto \<in> set syncProtos \<Longrightarrow> \<exists>n \<in> sync_names. portRangeMapName proto = Inr n"
  by (auto simp: syncProtos_def sync_names_def portRangeMapName_def)

lemma sync_names_protos: "(\<Union>proto \<in> set syncProtos. {n. portRangeMapName proto = Inr n}) = sync_names"
  by (auto simp: syncProtos_def sync_names_def portRangeMapName_def)

lemma refines_with_cidr:
  assumes "\<And>ip n. ParseCIDR c = Some (ip, n) \<Longrightarrow> refines view (f n) g"
  shows "refines view (with_cidr c f) g"
  using assms by (cases "ParseCIDR c") (auto simp: with_cidr_def refines_def)

locale syncer = sync_maps "sr_PortRangeLookup r" "sr_NatConfig r" "sr_PodIPKind r" "sr_PodNatPorts r" view
  for r :: "'w NATPortRangeSyncReconciler" and view :: "'w \<Rightarrow> bpf_state"
begin

lemma refines_protos:
  assumes "union_op F" "\<And>proto n. portRangeMapName proto = Inr n \<Longrightarrow> refines view (f proto) (F ({n} \<times> C))"
  shows "refines view (for_eff f syncProtos) (F (sync_names \<times> C))"
proof -
  have "refines view (for_eff f syncProtos) (F (\<Union>proto \<in> set syncProtos. {n. portRangeMapName proto = Inr n} \<times> C))"
  proof (rule refines_for_union [OF assms(1)])
    fix proto assume "proto \<in> set syncProtos"
    then obtain n where n: "portRangeMapName proto = Inr n" using syncProtos_names by blast
    then have "{m. portRangeMapName proto = Inr m} = {n}" by auto
    with assms(2) [OF n] show "refines view (f proto) (F ({n. portRangeMapName proto = Inr n} \<times> C))" by simp
  qed
  moreover have "(\<Union>proto \<in> set syncProtos. {n. portRangeMapName proto = Inr n} \<times> C) = sync_names \<times> C"
    using sync_names_protos by blast
  ultimately show ?thesis by simp
qed

lemma refines_remove_ranges: "refines view (remove_ranges r podIP as) (take_cells (ip_key podIP) (cells_of as))"
  unfolding remove_ranges_def cells_of_def ext_key_def
  by (intro refines_for_union refines_protos refines_wrap) (use P_Remove in \<open>simp_all add: ports_cells\<close>)

lemma refines_add_ranges: "refines view (add_ranges r podIP as) (give_cells (ip_key podIP) (cells_of as))"
  unfolding add_ranges_def cells_of_def ext_key_def
  by (intro refines_for_union refines_protos refines_wrap) (use P_Add in \<open>simp_all add: ports_cells\<close>)

lemma refines_remove_own: "refines view (remove_own r podIP as) (disown_ports (ip_key podIP) (ports_of as))"
  unfolding remove_own_def ports_of_def
  by (intro refines_for_union refines_wrap) (simp_all add: Q_Remove)

lemma refines_add_own: "refines view (add_own r podIP as) (own_ports (ip_key podIP) (ports_of as))"
  unfolding add_own_def ports_of_def
  by (intro refines_for_union refines_wrap) (simp_all add: Q_Add)

lemma refines_remove_allocs:
  "refines view (remove_allocs r podIP (uniqueExtIPs as) cidrs) (drop_entries (nat_keys podIP cidrs \<times> ext_key ` set as))"
proof -
  have exts: "ip_key ` set (uniqueExtIPs as) = ext_key ` set as" by (auto simp: set_uniqueExtIPs ext_key_def)
  have "refines view (remove_allocs r podIP (uniqueExtIPs as) cidrs)
      (drop_entries (\<Union>c \<in> set cidrs. set (cidr_keys podIP c) \<times> ext_key ` set as))"
    unfolding remove_allocs_def
    by (intro refines_for_union refines_with_cidr refines_wrap)
      (use N_Remove in \<open>simp_all add: cidr_keys_def ranges_entries exts [symmetric]\<close>)
  moreover have "(\<Union>c \<in> set cidrs. set (cidr_keys podIP c) \<times> ext_key ` set as) = nat_keys podIP cidrs \<times> ext_key ` set as"
    by (auto simp: nat_keys_def)
  ultimately show ?thesis by simp
qed

lemma refines_upsert:
  "ParseCIDR c = Some (ip, n) \<Longrightarrow> refines view (upsert r podIP n a) (put_entries (alloc_entries podIP a c))"
  unfolding upsert_def by (intro refines_wrap)
    (use N_Upsert in \<open>simp add: alloc_entries_def cidr_keys_def set_range_entry ext_key_def\<close>)

lemma refines_upsert_new_cidrs:
  "refines view (upsert_new_cidrs r podIP as cidrs)
     (put_entries (concat (map (\<lambda>c. concat (map (\<lambda>a. alloc_entries podIP a c) as)) cidrs)))"
  unfolding upsert_new_cidrs_def
  by (intro refines_for_entries refines_with_cidr) (rule refines_upsert)

lemma refines_upsert_new_allocs:
  "refines view (upsert_new_allocs r podIP cidrs as)
     (put_entries (concat (map (\<lambda>a. concat (map (alloc_entries podIP a) cidrs)) as)))"
  unfolding upsert_new_allocs_def
  by (intro refines_for_entries refines_with_cidr) (rule refines_upsert)

lemma refines_maybeRemovePodIPKind:
  "refines view (maybeRemovePodIPKind r sy name podIPStr podIP)
     (if stillUsed r sy name podIPStr then (\<lambda>t. t) else set_kinds {ip_key podIP} None)"
  using K_Remove [of podIP] by (auto simp: refines_def maybeRemovePodIPKind_def)

end

end
