(* ===== verification/DaemonInv.thy ===== *)
theory DaemonInv
  imports DaemonTables
begin

text \<open>
  What the two handlers of the NATPortRange syncer do to the tables, and the invariant that relates the
  reconciler's memory to them: every synced NATPortRange owns its cells of \<open>port_range_lookup\<close>, and on its own
  node its ports of \<open>pod_nat_ports\<close> and its entry of \<open>dst_kind\<close>.
\<close>

section \<open>The handlers on tables\<close>

abbreviation pod_of :: "NATPortRange \<Rightarrow> net_IP" where
  "pod_of npr \<equiv> ParseIP (npr_PodIP (npr_Spec npr))"

abbreviation allocations :: "NATPortRange \<Rightarrow> PortAllocation list" where
  "allocations npr \<equiv> npr_Allocations (npr_Spec npr)"

abbreviation is_local :: "'w NATPortRangeSyncReconciler \<Rightarrow> NATPortRange \<Rightarrow> bool" where
  "is_local r npr \<equiv> npr_NodeName (npr_Spec npr) = sr_NodeName r"

definition stale_local_tables :: "'w NATPortRangeSyncReconciler \<Rightarrow> synced \<Rightarrow> NATPortRange \<Rightarrow> tables \<Rightarrow> tables" where
  "stale_local_tables r sy npr t =
     (if stillUsed r sy (npr_Name npr) (npr_PodIP (npr_Spec npr)) then (\<lambda>t. t) else set_kinds {ip_key (pod_of npr)} None)
       (drop_entries (nat_keys (pod_of npr) (npr_TargetCIDRs (npr_Spec npr)) \<times> ext_key ` set (allocations npr))
         (disown_ports (ip_key (pod_of npr)) (ports_of (allocations npr)) t))"

definition stale_tables :: "'w NATPortRangeSyncReconciler \<Rightarrow> synced \<Rightarrow> NATPortRange \<Rightarrow> tables \<Rightarrow> tables" where
  "stale_tables r sy npr t =
     (let t1 = take_cells (ip_key (pod_of npr)) (cells_of (allocations npr)) t
      in if is_local r npr then stale_local_tables r sy npr t1 else t1)"

definition gone_allocs :: "syncedNPR \<Rightarrow> NATPortRange \<Rightarrow> PortAllocation list" where
  "gone_allocs s npr = filter (\<lambda>a. a \<notin> set (allocations npr)) (sn_Allocations s)"

definition new_allocs :: "syncedNPR \<Rightarrow> NATPortRange \<Rightarrow> PortAllocation list" where
  "new_allocs s npr = filter (\<lambda>a. a \<notin> set (sn_Allocations s)) (allocations npr)"

definition gone_cidrs :: "syncedNPR \<Rightarrow> NATPortRange \<Rightarrow> string list" where
  "gone_cidrs s npr = filter (\<lambda>c. c \<notin> set (npr_TargetCIDRs (npr_Spec npr))) (sn_TargetCIDRs s)"

definition new_cidrs :: "syncedNPR \<Rightarrow> NATPortRange \<Rightarrow> string list" where
  "new_cidrs s npr = filter (\<lambda>c. c \<notin> set (sn_TargetCIDRs s)) (npr_TargetCIDRs (npr_Spec npr))"

definition common_cidrs :: "syncedNPR \<Rightarrow> NATPortRange \<Rightarrow> string list" where
  "common_cidrs s npr = filter (\<lambda>c. c \<in> set (npr_TargetCIDRs (npr_Spec npr))) (sn_TargetCIDRs s)"

definition upserts :: "syncedNPR \<Rightarrow> NATPortRange \<Rightarrow> nat_entry list" where
  "upserts s npr =
     concat (map (\<lambda>c. concat (map (\<lambda>a. alloc_entries (pod_of npr) a c) (allocations npr))) (new_cidrs s npr)) @
     concat (map (\<lambda>a. concat (map (alloc_entries (pod_of npr) a) (common_cidrs s npr))) (new_allocs s npr))"

definition dropped :: "syncedNPR \<Rightarrow> NATPortRange \<Rightarrow> (nat_config_key \<times> u32) set" where
  "dropped s npr =
     nat_keys (pod_of npr) (gone_cidrs s npr) \<times> ext_key ` set (sn_Allocations s) \<union>
     nat_keys (pod_of npr) (common_cidrs s npr) \<times> ext_key ` set (gone_allocs s npr)"

definition alive_local_tables :: "syncedNPR \<Rightarrow> NATPortRange \<Rightarrow> tables \<Rightarrow> tables" where
  "alive_local_tables s npr t =
     put_entries (upserts s npr) (drop_entries (dropped s npr)
       (set_kinds {ip_key (pod_of npr)} (Some dstKindPodIP)
         (own_ports (ip_key (pod_of npr)) (ports_of (new_allocs s npr))
           (disown_ports (ip_key (pod_of npr)) (ports_of (gone_allocs s npr)) t))))"

definition alive_tables :: "'w NATPortRangeSyncReconciler \<Rightarrow> syncedNPR \<Rightarrow> NATPortRange \<Rightarrow> tables \<Rightarrow> tables" where
  "alive_tables r s npr t =
     (let t1 = give_cells (ip_key (pod_of npr)) (cells_of (new_allocs s npr))
                 (take_cells (ip_key (pod_of npr)) (cells_of (gone_allocs s npr)) t)
      in if is_local r npr then alive_local_tables s npr t1 else t1)"

lemma diffs:
  "diffAllocations (sn_Allocations s) (allocations npr) = (gone_allocs s npr, new_allocs s npr)"
  "diffStringSlices (sn_TargetCIDRs s) (npr_TargetCIDRs (npr_Spec npr)) =
     (gone_cidrs s npr, new_cidrs s npr, common_cidrs s npr)"
  by (simp_all add: diffAllocations_eq diffStringSlices_def gone_allocs_def new_allocs_def gone_cidrs_def
      new_cidrs_def common_cidrs_def Let_def)

lemma keep_mem_Done: "keep_mem m m' x = Some (Done (sy, w)) \<longleftrightarrow> sy = m' \<and> x = Some (Done w)"
  by (cases x; cases "the x") (auto simp: keep_mem_def)

lemma keep_mem_Some: "keep_mem m m' x = Some res \<Longrightarrow> \<exists>y. x = Some y \<and> snd (world_of res) = world_of y"
  by (cases x; cases "the x") (auto simp: keep_mem_def)

lemma refines_if: "(b \<Longrightarrow> refines view f g) \<Longrightarrow> (\<not> b \<Longrightarrow> refines view f' g') \<Longrightarrow>
    refines view (\<lambda>w. if b then f w else f' w) (if b then g else g')"
  by (cases b) simp_all

context syncer
begin

lemma refines_stale_local: "refines view (stale_local r sy npr) (stale_local_tables r sy npr)"
proof -
  have "refines view (\<lambda>w. eff_bind (remove_own r (pod_of npr) (allocations npr) w) (\<lambda>w1.
      eff_bind (remove_allocs r (pod_of npr) (uniqueExtIPs (allocations npr)) (npr_TargetCIDRs (npr_Spec npr)) w1)
        (maybeRemovePodIPKind r sy (npr_Name npr) (npr_PodIP (npr_Spec npr)) (pod_of npr))))
    (stale_local_tables r sy npr)"
    unfolding stale_local_tables_def [abs_def]
    by (intro refines_bind refines_remove_own refines_remove_allocs refines_maybeRemovePodIPKind)
  then show ?thesis by (simp add: refines_def stale_local_def Let_def)
qed

lemma refines_alive_local: "refines view (alive_local r s npr) (alive_local_tables s npr)"
proof -
  have un: "drop_entries (B \<union> A) t = drop_entries A (drop_entries B t)" for A B t
    using union_ops(3) by (simp add: union_op_def)
  have none: "drop_entries (A \<times> ext_key ` set []) t = t" for A t
    using union_ops(3) by (simp add: union_op_def)
  have opt: "refines view (\<lambda>w. if gone_allocs s npr = [] then Some (Done w)
        else remove_allocs r (pod_of npr) (uniqueExtIPs (gone_allocs s npr)) (common_cidrs s npr) w)
      (drop_entries (nat_keys (pod_of npr) (common_cidrs s npr) \<times> ext_key ` set (gone_allocs s npr)))"
    using refines_remove_allocs [of "pod_of npr" "gone_allocs s npr" "common_cidrs s npr"] none
    by (cases "gone_allocs s npr = []") (simp_all add: refines_def)
  have "refines view (\<lambda>w0.
      eff_bind (remove_own r (pod_of npr) (gone_allocs s npr) w0) (\<lambda>w1.
      eff_bind (add_own r (pod_of npr) (new_allocs s npr) w1) (\<lambda>w2.
      eff_bind (wrap_err AddPodKindErr (km_Add (sr_PodIPKind r) (pod_of npr) w2)) (\<lambda>w3.
      eff_bind (remove_allocs r (pod_of npr) (uniqueExtIPs (sn_Allocations s)) (gone_cidrs s npr) w3) (\<lambda>w4.
      eff_bind (if gone_allocs s npr = [] then Some (Done w4)
        else remove_allocs r (pod_of npr) (uniqueExtIPs (gone_allocs s npr)) (common_cidrs s npr) w4) (\<lambda>w5.
      eff_bind (upsert_new_cidrs r (pod_of npr) (allocations npr) (new_cidrs s npr) w5)
        (upsert_new_allocs r (pod_of npr) (common_cidrs s npr) (new_allocs s npr))))))))
    (alive_local_tables s npr)"
    unfolding alive_local_tables_def [abs_def] upserts_def dropped_def put_entries_append [symmetric] un
    by (intro refines_bind refines_remove_own refines_add_own refines_wrap K_Add refines_remove_allocs opt
        refines_upsert_new_cidrs refines_upsert_new_allocs)
  then show ?thesis
    by (simp add: refines_def alive_local_def diffs Let_def)
qed

lemma syncStale_spec:
  assumes ok: "state_ok (view w)" and run: "syncStale r npr (sy, w) = Some res"
  shows "state_ok (view (snd (world_of res)))"
    and "res = Done (sy', w') \<Longrightarrow> sy' = sy(npr_Name npr := None) \<and>
           tables_of (view w') = stale_tables r sy npr (tables_of (view w))"
proof -
  define f where "f = (\<lambda>w0. eff_bind (remove_ranges r (pod_of npr) (allocations npr) w0)
          (\<lambda>w. if is_local r npr then stale_local r sy npr w else Some (Done w)))"
  have "refines view f (\<lambda>t. (if is_local r npr then stale_local_tables r sy npr else (\<lambda>t. t))
      (take_cells (ip_key (pod_of npr)) (cells_of (allocations npr)) t))"
    unfolding f_def by (intro refines_bind refines_remove_ranges refines_if refines_stale_local) simp
  moreover have "(if is_local r npr then stale_local_tables r sy npr else (\<lambda>t. t))
      (take_cells (ip_key (pod_of npr)) (cells_of (allocations npr)) t) = stale_tables r sy npr t" for t
    by (simp add: stale_tables_def)
  ultimately have ref: "refines view f (stale_tables r sy npr)" by simp
  have run': "keep_mem sy (sy(npr_Name npr := None)) (f w) = Some res"
    using run by (simp add: syncStale_def f_def)
  from keep_mem_Some [OF this] refinesD(1) [OF ref ok] show "state_ok (view (snd (world_of res)))" by auto
  show "sy' = sy(npr_Name npr := None) \<and> tables_of (view w') = stale_tables r sy npr (tables_of (view w))"
    if "res = Done (sy', w')"
    using run' that refinesD(2) [OF ref ok] by (auto simp: keep_mem_Done)
qed

lemma syncAlive_spec:
  assumes ok: "state_ok (view w)" and run: "syncAlive r npr (sy, w) = Some res"
  shows "state_ok (view (snd (world_of res)))"
    and "res = Done (sy', w') \<Longrightarrow> sy' = sy(npr_Name npr \<mapsto> synced_of npr) \<and>
           tables_of (view w') = alive_tables r (cached_of sy (npr_Name npr)) npr (tables_of (view w))"
proof -
  define s where "s = cached_of sy (npr_Name npr)"
  define f where "f = (\<lambda>w0. eff_bind (remove_ranges r (pod_of npr) (gone_allocs s npr) w0) (\<lambda>w1.
        eff_bind (add_ranges r (pod_of npr) (new_allocs s npr) w1)
          (\<lambda>w2. if is_local r npr then alive_local r s npr w2 else Some (Done w2))))"
  have "refines view f (\<lambda>t. (if is_local r npr then alive_local_tables s npr else (\<lambda>t. t))
      (give_cells (ip_key (pod_of npr)) (cells_of (new_allocs s npr))
         (take_cells (ip_key (pod_of npr)) (cells_of (gone_allocs s npr)) t)))"
    unfolding f_def
    by (intro refines_bind refines_remove_ranges refines_add_ranges refines_if refines_alive_local) simp
  moreover have "(if is_local r npr then alive_local_tables s npr else (\<lambda>t. t))
      (give_cells (ip_key (pod_of npr)) (cells_of (new_allocs s npr))
         (take_cells (ip_key (pod_of npr)) (cells_of (gone_allocs s npr)) t)) = alive_tables r s npr t" for t
    by (simp add: alive_tables_def)
  ultimately have ref: "refines view f (alive_tables r s npr)" by simp
  have run': "keep_mem sy (sy(npr_Name npr \<mapsto> synced_of npr)) (f w) = Some res"
    using run by (simp add: syncAlive_def f_def diffs s_def [symmetric] Let_def cong: if_cong)
  from keep_mem_Some [OF this] refinesD(1) [OF ref ok] show "state_ok (view (snd (world_of res)))" by auto
  show "sy' = sy(npr_Name npr \<mapsto> synced_of npr) \<and>
      tables_of (view w') = alive_tables r (cached_of sy (npr_Name npr)) npr (tables_of (view w))"
    if "res = Done (sy', w')"
    using run' that refinesD(2) [OF ref ok] by (auto simp: keep_mem_Done s_def)
qed

end

section \<open>The memory and the tables\<close>

abbreviation synced_pod :: "syncedNPR \<Rightarrow> u32" where
  "synced_pod s \<equiv> ip_key (ParseIP (sn_PodIP s))"

definition owns_cells :: "tables \<Rightarrow> u32 \<Rightarrow> PortAllocation list \<Rightarrow> bool" where
  "owns_cells t pod as \<longleftrightarrow> (\<forall>(n, e, p) \<in> cells_of as. t_port t n e p = pod)"

definition owns_ports :: "tables \<Rightarrow> u32 \<Rightarrow> PortAllocation list \<Rightarrow> bool" where
  "owns_ports t pod as \<longleftrightarrow> (\<forall>p \<in> ports_of as. t_own t \<lparr>pk_PodIp = pod, pk_Port = p\<rparr> = Some 1)"

definition separate :: "PortAllocation list \<Rightarrow> bool" where
  "separate as \<longleftrightarrow> (\<forall>a \<in> set as. \<forall>b \<in> set as. a \<noteq> b \<longrightarrow> cells_of [a] \<inter> cells_of [b] = {})"

definition apart :: "synced \<Rightarrow> NATPortRange \<Rightarrow> bool" where
  "apart sy npr \<longleftrightarrow> (\<forall>name s. sy name = Some s \<longrightarrow> name \<noteq> npr_Name npr \<longrightarrow>
     cells_of (sn_Allocations s) \<inter> cells_of (allocations npr) = {})"

definition sync_inv :: "synced \<Rightarrow> tables \<Rightarrow> bool" where
  "sync_inv sy t \<longleftrightarrow>
     (\<forall>name s. sy name = Some s \<longrightarrow> owns_cells t (synced_pod s) (sn_Allocations s) \<and> separate (sn_Allocations s)) \<and>
     (\<forall>name s name' s'. sy name = Some s \<longrightarrow> sy name' = Some s' \<longrightarrow> name \<noteq> name' \<longrightarrow>
        cells_of (sn_Allocations s) \<inter> cells_of (sn_Allocations s') = {})"

lemma cells_of_alloc: "cells_of as = (\<Union>a \<in> set as. cells_of [a])"
  by (simp add: cells_of_def)

lemma t_port_local [simp]: "t_port (alive_local_tables s npr t) = t_port t" "t_port (stale_local_tables r sy npr t) = t_port t"
  by (simp_all add: alive_local_tables_def stale_local_tables_def put_entries_def drop_entries_def set_kinds_def
      own_ports_def disown_ports_def)

lemma alive_cell:
  "t_port (alive_tables r s npr t) n e p =
     (if (n, e, p) \<in> cells_of (new_allocs s npr) then ip_key (pod_of npr)
      else if (n, e, p) \<in> cells_of (gone_allocs s npr) \<and> t_port t n e p = ip_key (pod_of npr) then 0
      else t_port t n e p)"
  by (simp add: alive_tables_def Let_def give_cells_def take_cells_def)

lemma stale_cell:
  "t_port (stale_tables r sy npr t) n e p =
     (if (n, e, p) \<in> cells_of (allocations npr) \<and> t_port t n e p = ip_key (pod_of npr) then 0 else t_port t n e p)"
  by (simp add: stale_tables_def Let_def take_cells_def)

lemma separate_gone:
  assumes "separate (sn_Allocations s)" "a \<in> set (sn_Allocations s)" "a \<in> set (allocations npr)"
  shows "cells_of [a] \<inter> cells_of (gone_allocs s npr) = {}"
proof -
  have "cells_of [a] \<inter> cells_of [b] = {}" if "b \<in> set (gone_allocs s npr)" for b
  proof -
    have "b \<in> set (sn_Allocations s)" "a \<noteq> b" using that assms(3) by (auto simp: gone_allocs_def)
    with assms(1,2) show ?thesis unfolding separate_def by blast
  qed
  then show ?thesis unfolding cells_of_alloc [of "gone_allocs s npr"] by blast
qed

text \<open>After a sync the NATPortRange owns its cells; every cell of another one is as it was.\<close>

lemma alive_owns:
  assumes inv: "sync_inv sy t" and pod: "\<And>s. sy (npr_Name npr) = Some s \<Longrightarrow> sn_PodIP s = npr_PodIP (npr_Spec npr)"
  defines "s \<equiv> cached_of sy (npr_Name npr)"
  shows "owns_cells (alive_tables r s npr t) (ip_key (pod_of npr)) (allocations npr)"
proof -
  have "t_port (alive_tables r s npr t) n e p = ip_key (pod_of npr)" if "(n, e, p) \<in> cells_of (allocations npr)" for n e p
  proof -
    from that obtain a where a: "a \<in> set (allocations npr)" "(n, e, p) \<in> cells_of [a]"
      unfolding cells_of_alloc [of "allocations npr"] by blast
    show ?thesis
    proof (cases "a \<in> set (sn_Allocations s)")
      case False
      then have "(n, e, p) \<in> cells_of (new_allocs s npr)"
        using a unfolding cells_of_alloc [of "new_allocs s npr"] by (auto simp: new_allocs_def)
      then show ?thesis by (simp add: alive_cell)
    next
      case True
      then obtain s' where s': "sy (npr_Name npr) = Some s'" "s = s'"
        by (cases "sy (npr_Name npr)") (auto simp: s_def cached_of_def)
      have "(n, e, p) \<in> cells_of (sn_Allocations s)"
        using True a(2) unfolding cells_of_alloc [of "sn_Allocations s"] by blast
      then have "t_port t n e p = synced_pod s"
        using inv s' unfolding sync_inv_def owns_cells_def by fastforce
      moreover have "(n, e, p) \<notin> cells_of (gone_allocs s npr)"
        using separate_gone [of s a npr] True a inv s' unfolding sync_inv_def by blast
      ultimately show ?thesis using pod [OF s'(1)] s'(2) by (simp add: alive_cell)
    qed
  qed
  then show ?thesis by (auto simp: owns_cells_def)
qed

lemma cells_subset: "set as \<subseteq> set bs \<Longrightarrow> cells_of as \<subseteq> cells_of bs"
  by (auto simp: cells_of_def)

lemma alive_frame:
  assumes "(n, e, p) \<notin> cells_of (allocations npr)" "(n, e, p) \<notin> cells_of (sn_Allocations s)"
  shows "t_port (alive_tables r s npr t) n e p = t_port t n e p"
proof -
  have "cells_of (new_allocs s npr) \<subseteq> cells_of (allocations npr)"
    "cells_of (gone_allocs s npr) \<subseteq> cells_of (sn_Allocations s)"
    by (auto intro!: cells_subset simp: new_allocs_def gone_allocs_def)
  then show ?thesis using assms by (auto simp: alive_cell)
qed

lemma alive_inv:
  assumes inv: "sync_inv sy t" and pod: "\<And>s. sy (npr_Name npr) = Some s \<Longrightarrow> sn_PodIP s = npr_PodIP (npr_Spec npr)"
    and sep: "separate (allocations npr)" and ap: "apart sy npr"
  shows "sync_inv (sy(npr_Name npr \<mapsto> synced_of npr)) (alive_tables r (cached_of sy (npr_Name npr)) npr t)"
proof -
  define s where "s = cached_of sy (npr_Name npr)"
  have new: "sn_Allocations (synced_of npr) = allocations npr" "sn_PodIP (synced_of npr) = npr_PodIP (npr_Spec npr)"
    by (simp_all add: synced_of_def)
  have other: "owns_cells (alive_tables r s npr t) (synced_pod s') (sn_Allocations s')"
    if "sy m = Some s'" "m \<noteq> npr_Name npr" for m s'
  proof -
    have "cells_of (sn_Allocations s') \<inter> cells_of (sn_Allocations s) = {}"
      using inv that unfolding sync_inv_def s_def cached_of_def
      by (cases "sy (npr_Name npr)") (auto simp: cells_of_def [of "[]"])
    moreover have "cells_of (sn_Allocations s') \<inter> cells_of (allocations npr) = {}"
      using ap that by (auto simp: apart_def)
    moreover have "owns_cells t (synced_pod s') (sn_Allocations s')" using inv that by (auto simp: sync_inv_def)
    ultimately show ?thesis unfolding owns_cells_def using alive_frame [of _ _ _ npr s r t] by fastforce
  qed
  have "owns_cells (alive_tables r s npr t) (ip_key (pod_of npr)) (allocations npr)"
    unfolding s_def by (rule alive_owns [OF inv pod])
  moreover have "cells_of (sn_Allocations s') \<inter> cells_of (allocations npr) = {}"
    "cells_of (allocations npr) \<inter> cells_of (sn_Allocations s') = {}"
    if "sy m = Some s'" "m \<noteq> npr_Name npr" for m s' using ap that by (auto simp: apart_def)
  ultimately show ?thesis using other inv sep
    unfolding s_def [symmetric] sync_inv_def by (simp add: new)
qed

lemma stale_inv:
  assumes inv: "sync_inv sy t" and ap: "apart sy npr"
  shows "sync_inv (sy(npr_Name npr := None)) (stale_tables r sy' npr t)"
proof -
  have "owns_cells (stale_tables r sy' npr t) (synced_pod s) (sn_Allocations s)"
    if "sy m = Some s" "m \<noteq> npr_Name npr" for m s
  proof -
    have "cells_of (sn_Allocations s) \<inter> cells_of (allocations npr) = {}" using ap that by (auto simp: apart_def)
    moreover have "owns_cells t (synced_pod s) (sn_Allocations s)" using inv that by (auto simp: sync_inv_def)
    ultimately show ?thesis unfolding owns_cells_def by (fastforce simp: stale_cell)
  qed
  then show ?thesis using inv unfolding sync_inv_def by auto
qed

section \<open>Runs of the daemon\<close>

text \<open>
  A run starts with an empty memory. Between reconciles the outside changes the world (the API cache, the
  packets' connection state), but not the cells of \<open>port_range_lookup\<close>: only this reconciler writes them.
  A reconcile that failed is repeated by the work queue; the runs below are those in which every reconcile
  went through. The operator's objects are separate (the ranges of one object do not overlap) and apart
  (those of two objects do not), and an object keeps its pod IP.
\<close>

definition sound_object :: "synced \<Rightarrow> NATPortRange \<Rightarrow> bool" where
  "sound_object sy npr \<longleftrightarrow> separate (allocations npr) \<and> apart sy npr \<and>
     (\<forall>s. sy (npr_Name npr) = Some s \<longrightarrow> sn_PodIP s = npr_PodIP (npr_Spec npr))"

inductive sync_reach :: "'w NATPortRangeSyncReconciler \<Rightarrow> ('w \<Rightarrow> bpf_state) \<Rightarrow> 'w \<Rightarrow> synced \<times> 'w \<Rightarrow> bool"
  for r view w0 where
  start: "sync_reach r view w0 (Map.empty, w0)"
| outside: "sync_reach r view w0 (sy, w) \<Longrightarrow> state_ok (view w') \<Longrightarrow> pod_at (view w') = pod_at (view w) \<Longrightarrow>
     sync_reach r view w0 (sy, w')"
| reconcile: "sync_reach r view w0 (sy, w) \<Longrightarrow>
     (\<And>npr. sr_Get r w name = Inr npr \<Longrightarrow> npr_Name npr = name \<and> sound_object sy npr) \<Longrightarrow>
     reconcileSync r name (sy, w) = Some (Done (sy', w')) \<Longrightarrow> sync_reach r view w0 (sy', w')"

lemma sync_inv_drop: "sync_inv sy t \<Longrightarrow> sync_inv (sy(name := None)) t"
  by (auto simp: sync_inv_def)

lemma sync_inv_cong: "sync_inv sy t \<Longrightarrow> t_port t' = t_port t \<Longrightarrow> sync_inv sy t'"
  by (simp add: sync_inv_def owns_cells_def)

context syncer
begin

lemma reconcileSync_state_ok:
  assumes "state_ok (view w)" "reconcileSync r name (sy, w) = Some res"
  shows "state_ok (view (snd (world_of res)))"
  using assms syncStale_spec(1) [OF assms(1)] syncAlive_spec(1) [OF assms(1)]
  by (auto simp: reconcileSync_def split: sum.splits if_splits)

lemma reconcileSync_inv:
  assumes ok: "state_ok (view w)" and inv: "sync_inv sy (tables_of (view w))"
    and obj: "\<And>npr. sr_Get r w name = Inr npr \<Longrightarrow> npr_Name npr = name \<and> sound_object sy npr"
    and run: "reconcileSync r name (sy, w) = Some (Done (sy', w'))"
  shows "sync_inv sy' (tables_of (view w'))"
proof (cases "sr_Get r w name")
  case (Inl e)
  then show ?thesis using run inv sync_inv_drop by (auto simp: reconcileSync_def split: if_splits)
next
  case (Inr npr)
  note o = obj [OF Inr, unfolded sound_object_def]
  show ?thesis
  proof (cases "npr_StaleSince (npr_Spec npr) \<noteq> None \<or> npr_DeletionTimestamp npr \<noteq> None")
    case True
    then have "syncStale r npr (sy, w) = Some (Done (sy', w'))" using run Inr by (auto simp: reconcileSync_def)
    from syncStale_spec(2) [OF ok this refl] stale_inv [OF inv, of npr] o show ?thesis by auto
  next
    case False
    then have "syncAlive r npr (sy, w) = Some (Done (sy', w'))" using run Inr by (auto simp: reconcileSync_def)
    from syncAlive_spec(2) [OF ok this refl] alive_inv [OF inv, of npr] o show ?thesis by auto
  qed
qed

lemma sync_reach_inv:
  assumes "sync_reach r view w0 st" "state_ok (view w0)"
  shows "state_ok (view (snd st)) \<and> sync_inv (fst st) (tables_of (view (snd st)))"
  using assms
proof (induction rule: sync_reach.induct)
  case start
  then show ?case by (simp add: sync_inv_def)
next
  case (outside sy w w')
  then show ?case using sync_inv_cong [of sy "tables_of (view w)" "tables_of (view w')"] by simp
next
  case (reconcile sy w name sy' w')
  then show ?case using reconcileSync_inv [of w sy name sy' w'] reconcileSync_state_ok [of w name sy] by fastforce
qed

end

section \<open>The production reconciler\<close>

text \<open>\<open>cmd/daemon/main.go\<close> wires the reconciler to the production maps.\<close>

definition real_syncer ::
    "'w ebpf \<Rightarrow> ('w \<Rightarrow> string \<Rightarrow> api_error + NATPortRange) \<Rightarrow> string \<Rightarrow> 'w NATPortRangeSyncReconciler" where
  "real_syncer E client nodeName = fst (NewNATPortRangeSyncReconciler client nodeName (RealPortRangeLookupMap E)
     (RealNatConfigMap E) (RealPodIPKindMap E) (RealPodNatPortsMap E))"

lemma real_syncer_sel [simp]: "sr_Get (real_syncer E c node) = c" "sr_NodeName (real_syncer E c node) = node"
  by (simp_all add: real_syncer_def NewNATPortRangeSyncReconciler_def)

lemma real_syncer: "ebpf_kernel E view \<Longrightarrow> syncer (real_syncer E c node) view"
  by (simp add: syncer_def real_syncer_def NewNATPortRangeSyncReconciler_def ebpf_kernel.real_sync_maps)

interpretation memsync: syncer "real_syncer memE c node" mem_view for c node
  by (rule real_syncer) (rule mem.ebpf_kernel_axioms)

end
