(* ===== verification/Maps_Props.thy ===== *)
theory Maps_Props
  imports DaemonBPF
begin

text \<open>
  The properties of \<open>internal/maps/maps.go\<close>: what each function does to the tables the datapath reads, that the
  in-place compaction is a filter, when the port loops end, and what they do to the last block of ports.
\<close>

section \<open>An example\<close>

definition mx_ext :: net_IP where
  "mx_ext = [203, 0, 113, 1]"

definition mx_pod :: net_IP where
  "mx_pod = [10, 0, 0, 7]"

definition mx_cidr :: IPNet where
  "mx_cidr = \<lparr>net_addr = [198, 51, 100, 0], net_mask = [255, 255, 255, 0]\<rparr>"

lemma mx_keys [simp]: "ipToUint32 mx_ext = Some 24182987" "ipToUint32 mx_pod = Some 117440522"
  "ipToUint32 (To4 mx_pod) = Some 117440522" "ipToUint32 (To4 (net_addr mx_cidr)) = Some 6566854"
  by (simp_all add: mx_ext_def mx_pod_def mx_cidr_def ipToUint32_def To4_def le_uint32_def)

lemma mx_cidr4 [simp]: "To4 (net_addr mx_cidr) \<noteq> []"
  by (simp add: mx_cidr_def To4_def)

lemma mx_add: "\<exists>w1 w2. AddPortRange memE mx_ext mx_pod 50000 50001 6 mem_empty = Some (Done w1) \<and>
    RemovePortRange memE mx_ext mx_pod 50000 50001 6 w1 = Some (Done w2)"
  by (simp add: AddPortRange_def RemovePortRange_def portRangeMapName_def openMap_def with_ip_def add_ports_def
      remove_ports_def openOrCreateInnerMap_def put_ports_def zero_port_def port_loop_list port_list_def upt_rec
      ret_err_def memE_def mem_outer_def mem_inner_def mem_empty_def Let_def inner_MaxEntries_def)

lemma mem_empty_ok [simp]: "state_ok (mem_view mem_empty)" "pod_at (mem_view mem_empty) n e p = 0"
  by (simp_all add: state_ok_def ids_distinct_def mem_view_def mem_empty_def pod_at_def)

section \<open>Refinement\<close>

text \<open>
  C20: on every kernel that satisfies the laws of \<open>ebpf_kernel\<close>, the functions on the port maps refine the
  tables. When \<open>AddPortRange\<close> returns nil, exactly the ports from \<open>portStart\<close> to \<open>portEnd\<close> of the external IP in
  the protocol's map belong to the pod and nothing else has changed, whether or not the inner array existed
  before; \<open>RemovePortRange\<close> frees exactly those ports of the range that belonged to that pod; \<open>AddPodNatPorts\<close>
  and \<open>RemovePodNatPorts\<close> add and remove exactly the pod's own ports. Whatever the outcome, no two external IPs
  ever share an inner array.
\<close>

theorem port_maps_refine_tables:
  assumes "ebpf_kernel E view" "portRangeMapName proto = Inr name"
  shows "refines view (AddPortRange E extIP podIP portStart portEnd proto)
           (set_ports name (ip_key extIP) {portStart..portEnd} (ip_key podIP)) \<and>
         refines view (RemovePortRange E extIP podIP portStart portEnd proto)
           (clear_ports name (ip_key extIP) {portStart..portEnd} (ip_key podIP)) \<and>
         refines view (AddPodNatPorts E podIP portStart portEnd) (own_ports (ip_key podIP) {portStart..portEnd}) \<and>
         refines view (RemovePodNatPorts E podIP portStart portEnd) (disown_ports (ip_key podIP) {portStart..portEnd})"
  using ebpf_kernel.refines_AddPortRange [OF assms] ebpf_kernel.refines_RemovePortRange [OF assms]
    ebpf_kernel.refines_AddPodNatPorts [OF assms(1)] ebpf_kernel.refines_RemovePodNatPorts [OF assms(1)] by simp

theorem port_maps_refine_tables_witness:
  "\<exists>w. AddPortRange memE mx_ext mx_pod 50000 50001 6 mem_empty = Some (Done w) \<and>
     pod_at (mem_view w) ''port_range_lookup_tcp'' 24182987 50001 = 117440522 \<and>
     pod_at (mem_view w) ''port_range_lookup_tcp'' 24182987 50002 = 0"
proof -
  obtain w where w: "AddPortRange memE mx_ext mx_pod 50000 50001 6 mem_empty = Some (Done w)" using mx_add by blast
  have name: "portRangeMapName 6 = Inr ''port_range_lookup_tcp''" by (simp add: portRangeMapName_def)
  have "refines mem_view (AddPortRange memE mx_ext mx_pod 50000 50001 6)
      (set_ports ''port_range_lookup_tcp'' (ip_key mx_ext) {50000..50001} (ip_key mx_pod))"
    using port_maps_refine_tables [OF mem.ebpf_kernel_axioms name, of mx_ext mx_pod 50000 50001] by simp
  from refinesD(2) [OF this mem_empty_ok(1) w]
  have "t_port (tables_of (mem_view w)) = t_port (set_ports ''port_range_lookup_tcp'' 24182987 {50000..50001} 117440522
      (tables_of (mem_view mem_empty)))" by simp
  then have "pod_at (mem_view w) ''port_range_lookup_tcp'' 24182987 50001 = 117440522"
    "pod_at (mem_view w) ''port_range_lookup_tcp'' 24182987 50002 = 0" by (simp_all add: set_ports_def)
  with w show ?thesis by blast
qed

text \<open>
  C21: \<open>UpsertNatConfigEntry\<close> and \<open>RemoveNatConfigAllocs\<close> refine a table from (pod, CIDR) and external IP to a port
  range. The first sets the range of one external IP, appending a slot or overwriting the one that is
  there; the second drops exactly the external IPs given, deleting the entry when none is left. The arrays
  stay well formed: at most 256 slots in use, one for each external IP.
\<close>

theorem nat_config_refines_table:
  assumes "ebpf_kernel E view"
  shows "refines view (UpsertNatConfigEntry E podIP cidr extIP portStart portEnd)
           (set_range (nc_key podIP cidr) (ip_key extIP) (portStart, portEnd)) \<and>
         refines view (RemoveNatConfigAllocs E podIP cidr extIPs)
           (drop_ranges (nc_key podIP cidr) (ip_key ` set extIPs))"
  using ebpf_kernel.refines_Upsert [OF assms] ebpf_kernel.refines_RemoveAllocs [OF assms] by simp

lemma mx_upsert: "\<exists>w. UpsertNatConfigEntry memE mx_pod mx_cidr mx_ext 50000 50063 mem_empty = Some (Done w)"
proof -
  have "set_found ext ps pe 0 0 as = None" for ext ps pe as by (cases as) simp_all
  then obtain v where "upsert_val 24182987 50000 50063 zero_val = Some v"
    using zero_val_sel by (simp add: upsert_val_def)
  then show ?thesis
    by (simp add: UpsertNatConfigEntry_def openMap_def with_nc_key_def with_ip_def upsert_entry_def store_upserted_def
      memE_def fun_map_def mem_empty_def ret_err_def Let_def)
qed

theorem nat_config_refines_table_witness:
  "\<exists>w. UpsertNatConfigEntry memE mx_pod mx_cidr mx_ext 50000 50063 mem_empty = Some (Done w) \<and>
     bucket (mem_view w) (nc_key mx_pod mx_cidr) 24182987 = Some (50000, 50063)"
proof -
  obtain w where w: "UpsertNatConfigEntry memE mx_pod mx_cidr mx_ext 50000 50063 mem_empty = Some (Done w)"
    using mx_upsert by blast
  have "refines mem_view (UpsertNatConfigEntry memE mx_pod mx_cidr mx_ext 50000 50063)
      (set_range (nc_key mx_pod mx_cidr) (ip_key mx_ext) (50000, 50063))"
    using nat_config_refines_table [OF mem.ebpf_kernel_axioms, of mx_pod mx_cidr mx_ext 50000 50063 "[]"] by simp
  from refinesD(2) [OF this mem_empty_ok(1) w]
  have "t_nat (tables_of (mem_view w)) = t_nat (set_range (nc_key mx_pod mx_cidr) 24182987 (50000, 50063)
      (tables_of (mem_view mem_empty)))" by simp
  then have "bucket (mem_view w) (nc_key mx_pod mx_cidr) 24182987 = Some (50000, 50063)" by (simp add: set_range_def)
  with w show ?thesis by blast
qed

text \<open>
  C25: the addresses of the kind map. \<open>AddPodIPKind\<close> and \<open>RemovePodIPKind\<close> set and clear the one entry of the
  pod; \<open>AddExtIPKind\<close> and \<open>RemoveExtIPKind\<close>, when the expansion of the CIDR ends, set and clear exactly the
  entries of the addresses in the expansion. \<open>AddTargetCIDR\<close> and \<open>RemoveTargetCIDR\<close> set and clear one key.
\<close>

theorem kind_maps_refine_tables:
  assumes "ebpf_kernel E view" "expandCIDR cidr = Some (Inr ips)"
    and "no_host_bits (lpm_of target (ip_key (To4 (net_addr target))))"
  shows "refines view (AddPodIPKind E podIP) (set_kinds {ip_key podIP} (Some dstKindPodIP)) \<and>
         refines view (RemovePodIPKind E podIP) (set_kinds {ip_key podIP} None) \<and>
         refines view (AddExtIPKind E cidr) (set_kinds (ip_key ` set ips) (Some dstKindExtIP)) \<and>
         refines view (RemoveExtIPKind E cidr) (set_kinds (ip_key ` set ips) None) \<and>
         refines view (AddTargetCIDR E target) (\<lambda>t. t\<lparr>t_target := (t_target t)(lpm_of target (ip_key (To4 (net_addr target))) \<mapsto>
           \<lparr>tv_Addr = ip_key (To4 (net_addr target)), tv_Prefixlen = mask_ones target\<rparr>)\<rparr>) \<and>
         refines view (RemoveTargetCIDR E target)
           (\<lambda>t. t\<lparr>t_target := (t_target t)(lpm_of target (ip_key (To4 (net_addr target))) := None)\<rparr>)"
  using ebpf_kernel.refines_AddPodIPKind [OF assms(1)] ebpf_kernel.refines_RemovePodIPKind [OF assms(1)]
    ebpf_kernel.refines_AddExtIPKind [OF assms(1,2)] ebpf_kernel.refines_RemoveExtIPKind [OF assms(1,2)]
    ebpf_kernel.refines_AddTargetCIDR [OF assms(1,3)] ebpf_kernel.refines_RemoveTargetCIDR [OF assms(1,3)] by simp

definition mx_pool :: IPNet where
  "mx_pool = \<lparr>net_addr = [203, 0, 113, 4], net_mask = [255, 255, 255, 254]\<rparr>"

lemma mx_pool_ips: "expandCIDR mx_pool = Some (Inr [[203, 0, 113, 4], [203, 0, 113, 5]])"
  by (simp add: expandCIDR_def mx_pool_def To4_def cloneIP_def expand_from.simps Contains_def networkNumberAndMask_def
      incrementIP_def All_less_Suc)

theorem kind_maps_refine_tables_witness:
  "no_host_bits (lpm_of mx_cidr (ip_key (To4 (net_addr mx_cidr)))) \<and>
   refines mem_view (AddExtIPKind memE mx_pool) (set_kinds {74514635, 91291851} (Some dstKindExtIP))"
proof -
  have host: "no_host_bits (lpm_of mx_cidr (ip_key (To4 (net_addr mx_cidr))))"
  proof -
    have "leading_ones 8 0 = (0, 0)" by (simp add: numeral_eq_Suc)
    then have "mask_ones mx_cidr = 24" by (simp add: mx_cidr_def mask_ones_def Mask_Size_def)
    moreover have "{24..<32} = {24, 25, 26, 27, 28, 29, 30, 31 :: nat}" by auto
    ultimately show ?thesis by (simp add: no_host_bits_def lpm_of_def)
  qed
  have ips: "ip_key ` set [[203, 0, 113, 4], [203, 0, 113, 5]] = {74514635, 91291851}"
    by (simp add: ipToUint32_def To4_def le_uint32_def)
  from kind_maps_refine_tables [OF mem.ebpf_kernel_axioms mx_pool_ips host, of mx_pod] host show ?thesis
    unfolding ips by simp
qed

section \<open>Slots\<close>

text \<open>
  \<open>UpsertNatConfigEntry\<close> gives up (\<open>max allocations reached\<close>) exactly when all 256 slots are in use and none
  of them is for the external IP; otherwise the slot it writes is inside the array.
\<close>

theorem upsert_capacity:
  assumes "val_ok v"
  shows "upsert_val ext ps pe v = None \<longleftrightarrow> Count v = 256 \<and> ranges_of v ext = None"
  using assms by (rule upsert_val_None)

theorem upsert_capacity_witness: "val_ok zero_val \<and> upsert_val 24182987 50000 50063 zero_val \<noteq> None"
  using upsert_capacity [OF zero_val_ok(1), of 24182987 50000 50063] zero_val_sel by simp

text \<open>
  C22: the two loops of \<open>RemoveNatConfigAllocs\<close>, which move the surviving slots down in place and clear the
  rest, compute the same array as a filter of the slots in use followed by zero slots; they never index outside the
  array.
\<close>

theorem compact_is_filter:
  assumes "length (PortRangeAllocs v) = 256" "unat (Count v) \<le> 256"
  shows "compact rm v = (let live = take (unat (Count v)) (PortRangeAllocs v);
                             left = filter (\<lambda>a. na_ExtIp a \<notin> rm) live
     in Some \<lparr>PortRangeAllocs = left @ replicate (length live - length left) zero_alloc @
                drop (length live) (PortRangeAllocs v), Count = word_of_nat (length left)\<rparr>)"
  using compact_filter [of v rm] assms by (simp add: val_sized_def slots_def kept_def Let_def)

definition mx_val :: nat_config_val where
  "mx_val = \<lparr>PortRangeAllocs = \<lparr>na_ExtIp = 5, na_PortStart = 1024, na_PortEnd = 1087\<rparr> #
     \<lparr>na_ExtIp = 6, na_PortStart = 2048, na_PortEnd = 2111\<rparr> # replicate 254 zero_alloc, Count = 2\<rparr>"

theorem compact_is_filter_witness:
  "compact {5} mx_val = Some \<lparr>PortRangeAllocs = \<lparr>na_ExtIp = 6, na_PortStart = 2048, na_PortEnd = 2111\<rparr> #
     zero_alloc # replicate 254 zero_alloc, Count = 1\<rparr>"
proof -
  define rest where "rest = replicate 254 zero_alloc"
  have rest: "length rest = 254" by (simp only: rest_def length_replicate)
  have v: "mx_val = \<lparr>PortRangeAllocs = \<lparr>na_ExtIp = 5, na_PortStart = 1024, na_PortEnd = 1087\<rparr> #
     \<lparr>na_ExtIp = 6, na_PortStart = 2048, na_PortEnd = 2111\<rparr> # rest, Count = 2\<rparr>" by (simp only: mx_val_def rest_def)
  have z: "length (PortRangeAllocs mx_val) = 256" "unat (Count mx_val) \<le> 256" by (simp_all add: v rest)
  show ?thesis using compact_is_filter [OF z, of "{5}"] unfolding v rest_def [symmetric]
    by (simp add: Let_def)
qed

lemma mem_open: "LoadPinnedMap memE w n = None"
  and mem_outer_lookup: "bm_Lookup (outer_map memE n) w e =
    (case map_of (mb_outer w) (n, e) of None \<Rightarrow> Inl ErrKeyNotExist | Some v \<Rightarrow> Inr v)"
  and mem_new: "NewInnerMap memE w = (let i = Suc (sum_list (map snd (mb_outer w))) in
       (Inr i, w\<lparr>mb_arr := (mb_arr w)(i := (\<lambda>_. 0))\<rparr>))"
  and mem_nat: "nat_config_map memE = fun_map mb_nat (\<lambda>m w. w\<lparr>mb_nat := m\<rparr>)"
  by (simp_all add: memE_def mem_outer_def)

section \<open>Round trip\<close>

text \<open>
  Removing a range right after it was added leaves the tables as they were, when the range was free.
\<close>

theorem AddPortRange_RemovePortRange:
  assumes "ebpf_kernel E view" "portRangeMapName proto = Inr name" "state_ok (view w)"
    and free: "\<forall>p \<in> {portStart..portEnd}. pod_at (view w) name (ip_key extIP) p = 0"
    and add: "AddPortRange E extIP podIP portStart portEnd proto w = Some (Done w1)"
    and rem: "RemovePortRange E extIP podIP portStart portEnd proto w1 = Some (Done w2)"
  shows "tables_of (view w2) = tables_of (view w)"
proof -
  note a = refinesD(2) [OF ebpf_kernel.refines_AddPortRange [OF assms(1,2)] assms(3) add]
  note r = refinesD(2) [OF ebpf_kernel.refines_RemovePortRange [OF assms(1,2)] a [THEN conjunct1] rem]
  have "tables_of (view w2) = clear_ports name (ip_key extIP) {portStart..portEnd} (ip_key podIP)
      (set_ports name (ip_key extIP) {portStart..portEnd} (ip_key podIP) (tables_of (view w)))" using a r by simp
  also have "\<dots> = tables_of (view w)"
    using free by (auto simp: clear_ports_def set_ports_def tables_of_def fun_eq_iff)
  finally show ?thesis .
qed

theorem AddPortRange_RemovePortRange_witness:
  "\<exists>w1 w2. AddPortRange memE mx_ext mx_pod 50000 50001 6 mem_empty = Some (Done w1) \<and>
     RemovePortRange memE mx_ext mx_pod 50000 50001 6 w1 = Some (Done w2) \<and>
     tables_of (mem_view w2) = tables_of (mem_view mem_empty)"
proof -
  obtain w1 w2 where w: "AddPortRange memE mx_ext mx_pod 50000 50001 6 mem_empty = Some (Done w1)"
    "RemovePortRange memE mx_ext mx_pod 50000 50001 6 w1 = Some (Done w2)" using mx_add by blast
  have name: "portRangeMapName 6 = Inr ''port_range_lookup_tcp''" by (simp add: portRangeMapName_def)
  have "\<forall>p \<in> {50000..50001}. pod_at (mem_view mem_empty) ''port_range_lookup_tcp'' (ip_key mx_ext) p = 0" by simp
  from AddPortRange_RemovePortRange [OF mem.ebpf_kernel_axioms name mem_empty_ok(1) this w] w show ?thesis by blast
qed

section \<open>The port loops\<close>

lemma returns_simps [simp]: "returns (ret_err g x)" "returns (ret_err_missing_ok g x)" "returns (openMap E n w)"
  "returns (zero_port E i pod p w)"
  by (auto simp: ret_err_def ret_err_missing_ok_def openMap_def zero_port_def split: prod.splits option.splits sum.splits)

lemma returns_with_ip: "(\<And>a w. returns (f a w)) \<Longrightarrow> returns (with_ip ip f w)"
  by (auto simp: with_ip_def split: option.splits)

text \<open>
  On ranges that end below port 65535 all four functions return, whatever the kernel answers (the loop
  variable is a \<open>uint16\<close> and the loop condition is \<open>port <= portEnd\<close>).
\<close>

lemma port_loops_return:
  assumes "portEnd \<noteq> 65535"
  shows "returns (AddPortRange E extIP podIP portStart portEnd proto w) \<and>
         returns (RemovePortRange E extIP podIP portStart portEnd proto w) \<and>
         returns (AddPodNatPorts E podIP portStart portEnd w) \<and> returns (RemovePodNatPorts E podIP portStart portEnd w)"
proof (intro conjI)
  have put: "returns (put_ports E i pod portStart portEnd v)" for i pod v
    unfolding put_ports_def by (rule port_loop_returns [OF assms]) simp
  have "returns (add_ports E n e pod portStart portEnd v)" for n e pod v
    unfolding add_ports_def using put by (auto split: prod.splits sum.splits intro!: returns_bind)
  then show "returns (AddPortRange E extIP podIP portStart portEnd proto w)"
    unfolding AddPortRange_def by (cases "portRangeMapName proto") (auto intro!: returns_bind returns_with_ip)
  have "returns (remove_ports E n e podIP portStart portEnd v)" for n e v
    unfolding remove_ports_def by (auto split: sum.splits intro!: returns_with_ip port_loop_returns [OF assms])
  then show "returns (RemovePortRange E extIP podIP portStart portEnd proto w)"
    unfolding RemovePortRange_def by (cases "portRangeMapName proto") (auto intro!: returns_bind returns_with_ip)
  show "returns (AddPodNatPorts E podIP portStart portEnd w)"
    unfolding AddPodNatPorts_def by (intro returns_bind returns_with_ip port_loop_returns [OF assms]) simp_all
  show "returns (RemovePodNatPorts E podIP portStart portEnd w)"
    unfolding RemovePodNatPorts_def by (intro returns_bind returns_with_ip port_loop_returns [OF assms]) simp_all
qed

lemma AddPortRange_not_Done: "AddPortRange E extIP podIP portStart 65535 proto w \<noteq> Some (Done w')"
proof -
  have put: "put_ports E i pod portStart 65535 v \<noteq> Some (Done v')" for i pod v v'
    by (simp add: put_ports_def port_loop_never_Done)
  show ?thesis
    by (auto simp: AddPortRange_def add_ports_def eff_bind_Done with_ip_def put split: sum.splits option.splits prod.splits)
qed

lemma AddPodNatPorts_not_Done: "AddPodNatPorts E podIP portStart 65535 w \<noteq> Some (Done w')"
  by (auto simp: AddPodNatPorts_def eff_bind_Done with_ip_def port_loop_never_Done split: option.splits)

text \<open>
  C23: the last block of ports. With \<open>portEnd = 65535\<close> the loop condition always holds, so on no kernel do
  \<open>AddPortRange\<close>, \<open>AddPodNatPorts\<close> and \<open>RemovePodNatPorts\<close> return nil (with an IPv4 pod), and on a kernel that
  accepts every write \<open>AddPortRange\<close> does not return at all.
\<close>

theorem last_block_never_done:
  "AddPortRange E extIP podIP portStart 65535 proto w \<noteq> Some (Done w') \<and>
   AddPodNatPorts E podIP portStart 65535 w \<noteq> Some (Done w') \<and>
   RemovePodNatPorts E podIP portStart 65535 w \<noteq> Some (Done w') \<and>
   AddPortRange memE mx_ext mx_pod 65472 65535 6 mem_empty = None"
proof (intro conjI)
  show "AddPortRange E extIP podIP portStart 65535 proto w \<noteq> Some (Done w')" by (rule AddPortRange_not_Done)
  show "AddPodNatPorts E podIP portStart 65535 w \<noteq> Some (Done w')" by (rule AddPodNatPorts_not_Done)
  show "RemovePodNatPorts E podIP portStart 65535 w \<noteq> Some (Done w')"
    by (auto simp: RemovePodNatPorts_def eff_bind_Done with_ip_def port_loop_never_Done split: option.splits)
  have "port_loop (\<lambda>port w. ret_err (PortFailed port) (bm_Put (inner_map memE i) (ucast port) pod w)) 65472 65535 v = None"
    for i pod v
    by (rule port_loop_diverges [where I = "\<lambda>_. True"])
      (simp_all add: memE_def mem_inner_def ucast_port_less ret_err_def)
  then have put: "put_ports memE i pod 65472 65535 v = None" for i pod v by (simp add: put_ports_def)
  show "AddPortRange memE mx_ext mx_pod 65472 65535 6 mem_empty = None"
    by (simp add: AddPortRange_def portRangeMapName_def openMap_def with_ip_def add_ports_def openOrCreateInnerMap_def
        mem_open mem_new mem_outer_lookup put mem_empty_def)
qed

end
