(* ===== verification/Daemon_Props.thy ===== *)
theory Daemon_Props
  imports DaemonInv Maps_Props
begin

text \<open>
  The properties of the daemon's NATPortRange controller on the production maps: what a sync installs, what a
  stale sync removes, the invariant of its runs, and where the code falls short of its comments.
\<close>

section \<open>Lemmas\<close>

lemma own_local: "t_own (alive_local_tables s npr t) k =
    (if pk_PodIp k = ip_key (pod_of npr) \<and> pk_Port k \<in> ports_of (new_allocs s npr) then Some 1
     else if pk_PodIp k = ip_key (pod_of npr) \<and> pk_Port k \<in> ports_of (gone_allocs s npr) then None
     else t_own t k)"
  by (simp add: alive_local_tables_def put_entries_def drop_entries_def set_kinds_def own_ports_def disown_ports_def)

lemma kind_local: "t_kind (alive_local_tables s npr t) a =
    (if a = ip_key (pod_of npr) then Some dstKindPodIP else t_kind t a)"
  by (simp add: alive_local_tables_def put_entries_def drop_entries_def set_kinds_def own_ports_def disown_ports_def)

lemma nat_local: "t_nat (alive_local_tables s npr t) k e =
    (case map_of (rev (upserts s npr)) (k, e) of
       Some r \<Rightarrow> Some r
     | None \<Rightarrow> if (k, e) \<in> dropped s npr then None else t_nat t k e)"
  by (simp add: alive_local_tables_def put_entries_def drop_entries_def set_kinds_def own_ports_def disown_ports_def
      split: option.splits)

definition range_entries :: "PortAllocation list \<Rightarrow> (u32 \<times> u16 \<times> u16) list" where
  "range_entries as = map (\<lambda>a. (ext_key a, port_start a, port_end a)) as"

lemma map_of_alloc_entries:
  "map_of (rev (concat (map (\<lambda>a. alloc_entries pod a c) as))) (k, e) =
     (if k \<in> set (cidr_keys pod c) then map_of (rev (range_entries as)) e else None)"
proof (induction as)
  case (Cons a as)
  have "map_of (rev (alloc_entries pod a c)) (k, e) =
      (if k \<in> set (cidr_keys pod c) \<and> e = ext_key a then Some (port_start a, port_end a) else None)"
    by (auto simp: alloc_entries_def cidr_keys_def split: option.splits)
  with Cons show ?case by (auto simp: range_entries_def map_add_def split: option.splits)
qed (simp add: range_entries_def)

lemma map_of_cidr_entries:
  "map_of (rev (concat (map (\<lambda>c. concat (map (\<lambda>a. alloc_entries pod a c) as)) cs))) (k, e) =
     (if k \<in> nat_keys pod cs then map_of (rev (range_entries as)) e else None)"
  by (induction cs) (auto simp: nat_keys_def map_add_def map_of_alloc_entries split: option.splits)

lemma last_range:
  assumes "as = xs @ a # ys" "ext_key a \<notin> ext_key ` set ys"
  shows "map_of (rev (range_entries as)) (ext_key a) = Some (port_start a, port_end a)"
proof -
  have "map_of (rev (range_entries ys)) (ext_key a) = None"
    using assms(2) by (auto simp: map_of_eq_None_iff range_entries_def)
  then show ?thesis by (simp add: assms(1) range_entries_def map_add_def)
qed

lemma first_sync_diff:
  assumes "sy (npr_Name npr) = None"
  shows "new_allocs (cached_of sy (npr_Name npr)) npr = allocations npr"
    "gone_allocs (cached_of sy (npr_Name npr)) npr = []"
    "upserts (cached_of sy (npr_Name npr)) npr =
       concat (map (\<lambda>c. concat (map (\<lambda>a. alloc_entries (pod_of npr) a c) (allocations npr))) (npr_TargetCIDRs (npr_Spec npr)))"
  using assms by (simp_all add: cached_of_def new_allocs_def gone_allocs_def upserts_def new_cidrs_def common_cidrs_def)

lemma for_eff_not_Done:
  assumes "x \<in> set xs" "\<And>v v'. f x v \<noteq> Some (Done v')"
  shows "for_eff f xs w \<noteq> Some (Done w')"
  using assms by (induction xs arbitrary: w) (auto simp: eff_bind_Done)

section \<open>An example\<close>

definition dx_alloc :: PortAllocation where
  "dx_alloc = \<lparr>ExternalIP = ''203.0.113.1'', pa_PortStart = 50000, pa_PortEnd = 50001\<rparr>"

definition dx_npr :: NATPortRange where
  "dx_npr = \<lparr>npr_Name = ''r1'', npr_Finalizers = [], npr_DeletionTimestamp = None, npr_ResourceVersion = 1,
     npr_Spec = \<lparr>npr_PodName = ''p'', npr_PodNamespace = ''d'', npr_PodIP = ''10.0.0.7'', npr_NodeName = ''n1'',
       npr_NATConfig = ''c'', npr_TargetCIDRs = [''198.51.100.0/24''], npr_PortRangeCount = 1, npr_ExcludePorts = [],
       npr_Allocations = [dx_alloc], npr_StaleSince = None\<rparr>\<rparr>"

definition dx_syncer :: "mem_bpf NATPortRangeSyncReconciler" where
  "dx_syncer = real_syncer memE (\<lambda>w name. if name = ''r1'' then Inr dx_npr else Inl NotFound) ''n1''"

lemma dx_ips: "ParseIP ''203.0.113.1'' = v4InV6Prefix @ mx_ext" "ParseIP ''10.0.0.7'' = v4InV6Prefix @ mx_pod"
  by (simp_all add: ParseIP_def ParseAddr_def is_digit_def digit_val_def v4InV6Prefix_def mx_ext_def mx_pod_def
      of_char_def horner_sum_foldr)

text \<open>On the kernel in memory every call on a fresh \<open>nat_config\<close> succeeds.\<close>

definition succeeds :: "(mem_bpf \<Rightarrow> ('e, mem_bpf) eff) \<Rightarrow> bool" where
  "succeeds f \<longleftrightarrow> (\<forall>w. mb_nat w = Map.empty \<longrightarrow> (\<exists>w'. f w = Some (Done w') \<and> mb_nat w' = Map.empty))"

lemma succeeds_bind: "succeeds f \<Longrightarrow> succeeds g \<Longrightarrow> succeeds (\<lambda>w. eff_bind (f w) g)"
  unfolding succeeds_def by (metis eff_bind_simps(1))

lemma succeeds_for: "(\<And>x. x \<in> set xs \<Longrightarrow> succeeds (f x)) \<Longrightarrow> succeeds (for_eff f xs)"
proof (induction xs)
  case (Cons x xs)
  have "succeeds (\<lambda>w. eff_bind (f x w) (for_eff f xs))" by (rule succeeds_bind) (use Cons in auto)
  then show ?case by (simp add: succeeds_def)
qed (simp add: succeeds_def)

lemma succeeds_wrap: "succeeds f \<Longrightarrow> succeeds (\<lambda>w. wrap_err g (f w))"
  by (simp add: succeeds_def)

lemma succeeds_ip: "ipToUint32 ip = Some a \<Longrightarrow> succeeds (f a) \<Longrightarrow> succeeds (with_ip ip f)"
  by (simp add: succeeds_def with_ip_def)

lemma succeeds_open: "succeeds f \<Longrightarrow> succeeds (\<lambda>w. eff_bind (openMap memE n w) f)"
  by (simp add: succeeds_def openMap_def mem_open)

lemma succeeds_port_loop: "e \<noteq> 65535 \<Longrightarrow> (\<And>p. succeeds (f p)) \<Longrightarrow> succeeds (port_loop f s e)"
  using succeeds_for [of "port_list s e" f] by (simp add: succeeds_def port_loop_list)

lemma succeeds_AddPortRange:
  assumes "portRangeMapName proto = Inr n" "ipToUint32 ext = Some e" "ipToUint32 pod = Some a" "pe \<noteq> 65535"
  shows "succeeds (AddPortRange memE ext pod ps pe proto)"
proof -
  have "succeeds (\<lambda>w. ret_err (PortFailed p) (bm_Put (inner_map memE i) (ucast p) a w))" for i p
    by (simp add: succeeds_def memE_def mem_inner_def ucast_port_less ret_err_def)
  then have put: "succeeds (put_ports memE i a ps pe)" for i
    unfolding put_ports_def by (rule succeeds_port_loop [OF assms(4)])
  have link: "succeeds (\<lambda>w. ret_err g (bm_Put (outer_map memE n) e i w))" for g i
    by (simp add: succeeds_def memE_def mem_outer_def ret_err_def)
  have "succeeds (\<lambda>w. add_ports memE n e a ps pe w)"
    unfolding succeeds_def
  proof (intro allI impI)
    fix w :: mem_bpf assume nat: "mb_nat w = Map.empty"
    show "\<exists>w'. add_ports memE n e a ps pe w = Some (Done w') \<and> mb_nat w' = Map.empty"
    proof (cases "map_of (mb_outer w) (n, e)")
      case None
      let ?i = "Suc (sum_list (map snd (mb_outer w)))"
      show ?thesis using succeeds_bind [OF put link, of ?i _ ?i] nat None
        by (simp add: add_ports_def openOrCreateInnerMap_def mem_outer_lookup mem_new Let_def succeeds_def)
    next
      case (Some i)
      then show ?thesis using put [of i] nat
        by (auto simp: add_ports_def openOrCreateInnerMap_def mem_outer_lookup succeeds_def)
    qed
  qed
  then show ?thesis unfolding AddPortRange_def assms(1)
    by (simp, intro succeeds_open succeeds_ip [OF assms(2)] succeeds_ip [OF assms(3)])
qed

lemma dx_keys [simp]: "ipToUint32 (v4InV6Prefix @ mx_ext) = Some 24182987" "ipToUint32 (v4InV6Prefix @ mx_pod) = Some 117440522"
  "To4 (v4InV6Prefix @ mx_pod) = mx_pod"
  by (simp_all add: mx_ext_def mx_pod_def ipToUint32_def To4_def le_uint32_def v4InV6Prefix_def)

lemma dx_cidr: "ParseCIDR ''198.51.100.0/24'' = Some (v4InV6Prefix @ [198, 51, 100, 0], mx_cidr)"
proof -
  have "CIDRMask 24 32 = [255, 255, 255, 0]" by (simp add: CIDRMask_def upt_rec Let_def)
  then show ?thesis
    by (simp add: ParseCIDR_def ParseAddr_def is_digit_def digit_val_def of_char_def horner_sum_foldr Let_def
      IP_Mask_def v4InV6Prefix_def mx_cidr_def)
qed

lemma dx_sel: "npr_Name dx_npr = ''r1''" "allocations dx_npr = [dx_alloc]" "pod_of dx_npr = v4InV6Prefix @ mx_pod"
  "npr_PodIP (npr_Spec dx_npr) = ''10.0.0.7''" "npr_TargetCIDRs (npr_Spec dx_npr) = [''198.51.100.0/24'']"
  "npr_NodeName (npr_Spec dx_npr) = ''n1''" "sr_NodeName dx_syncer = ''n1''" "ParseIP (ExternalIP dx_alloc) = v4InV6Prefix @ mx_ext"
  "port_start dx_alloc = 50000" "port_end dx_alloc = 50001"
  by (simp_all add: dx_npr_def dx_alloc_def dx_syncer_def dx_ips)

lemma dx_maps: "sr_PortRangeLookup dx_syncer = RealPortRangeLookupMap memE" "sr_NatConfig dx_syncer = RealNatConfigMap memE"
  "sr_PodIPKind dx_syncer = RealPodIPKindMap memE" "sr_PodNatPorts dx_syncer = RealPodNatPortsMap memE"
  by (simp_all add: dx_syncer_def real_syncer_def NewNATPortRangeSyncReconciler_def)

lemma dx_ports: "succeeds (add_ranges dx_syncer (pod_of dx_npr) [dx_alloc])"
  "succeeds (add_own dx_syncer (pod_of dx_npr) [dx_alloc])" "succeeds (km_Add (sr_PodIPKind dx_syncer) (pod_of dx_npr))"
proof -
  have "succeeds (AddPortRange memE (v4InV6Prefix @ mx_ext) (v4InV6Prefix @ mx_pod) 50000 50001 proto)"
    if "proto \<in> set syncProtos" for proto
    using syncProtos_names [OF that] succeeds_AddPortRange [OF _ dx_keys(1,2)] by force
  then show "succeeds (add_ranges dx_syncer (pod_of dx_npr) [dx_alloc])"
    unfolding add_ranges_def by (intro succeeds_for succeeds_wrap) (simp add: dx_sel dx_ips dx_maps RealPortRangeLookupMap_def)
  have "succeeds (AddPodNatPorts memE (v4InV6Prefix @ mx_pod) 50000 50001)"
    unfolding AddPodNatPorts_def
    by (intro succeeds_open succeeds_ip [OF dx_keys(2)] succeeds_port_loop)
      (simp_all add: succeeds_def memE_def fun_map_def ret_err_def)
  then show "succeeds (add_own dx_syncer (pod_of dx_npr) [dx_alloc])"
    unfolding add_own_def by (intro succeeds_for succeeds_wrap) (simp add: dx_sel dx_ips dx_maps RealPodNatPortsMap_def)
  have "succeeds (AddPodIPKind memE (v4InV6Prefix @ mx_pod))"
    unfolding AddPodIPKind_def
    by (intro succeeds_open succeeds_ip [OF dx_keys(2)]) (simp add: succeeds_def memE_def fun_map_def ret_err_def)
  then show "succeeds (km_Add (sr_PodIPKind dx_syncer) (pod_of dx_npr))"
    by (simp add: dx_sel dx_ips dx_maps RealPodIPKindMap_def)
qed

lemma dx_upsert:
  assumes "mb_nat w = Map.empty"
  shows "\<exists>w'. upsert_new_cidrs dx_syncer (pod_of dx_npr) [dx_alloc] [''198.51.100.0/24''] w = Some (Done w')"
proof -
  have "set_found ext ps pe 0 0 as = None" for ext ps pe as by (cases as) simp_all
  then obtain v where "upsert_val 24182987 50000 50001 zero_val = Some v"
    using zero_val_sel by (simp add: upsert_val_def)
  then show ?thesis using assms
    by (simp add: upsert_new_cidrs_def with_cidr_def dx_cidr upsert_def dx_sel dx_ips dx_maps RealNatConfigMap_def
      UpsertNatConfigEntry_def openMap_def mem_open with_nc_key_def with_ip_def upsert_entry_def store_upserted_def
      mem_nat fun_map_def ret_err_def wrap_err_def)
qed

lemma dx_run: "\<exists>w. syncAlive dx_syncer dx_npr (Map.empty, mem_empty) = Some (Done ([''r1'' \<mapsto> synced_of dx_npr], w))"
proof -
  let ?s = "cached_of Map.empty (npr_Name dx_npr)"
  have s: "sn_Allocations ?s = []" "sn_TargetCIDRs ?s = []" by (simp_all add: cached_of_def)
  have d: "diffAllocations [] [dx_alloc] = ([], [dx_alloc])"
    "diffStringSlices [] [''198.51.100.0/24''] = ([], [''198.51.100.0/24''], [])"
    by (simp_all add: diffAllocations_eq diffStringSlices_def)
  have "mb_nat mem_empty = Map.empty" by (simp add: mem_empty_def)
  then obtain w1 where w1: "add_ranges dx_syncer (pod_of dx_npr) [dx_alloc] mem_empty = Some (Done w1)" "mb_nat w1 = Map.empty"
    using dx_ports(1) unfolding succeeds_def by blast
  obtain w2 where w2: "add_own dx_syncer (pod_of dx_npr) [dx_alloc] w1 = Some (Done w2)" "mb_nat w2 = Map.empty"
    using dx_ports(2) w1(2) unfolding succeeds_def by blast
  obtain w3 where w3: "km_Add (sr_PodIPKind dx_syncer) (pod_of dx_npr) w2 = Some (Done w3)" "mb_nat w3 = Map.empty"
    using dx_ports(3) w2(2) unfolding succeeds_def by blast
  obtain w4 where w4: "upsert_new_cidrs dx_syncer (pod_of dx_npr) [dx_alloc] [''198.51.100.0/24''] w3 = Some (Done w4)"
    using dx_upsert [OF w3(2)] by blast
  have "alive_local dx_syncer ?s dx_npr w1 = Some (Done w4)"
    using w2(1) w3(1) w4 s
    by (simp add: alive_local_def d dx_sel(2,5) Let_def remove_own_def remove_allocs_def upsert_new_allocs_def wrap_err_def)
  then have "syncAlive dx_syncer dx_npr (Map.empty, mem_empty) =
      keep_mem Map.empty [npr_Name dx_npr \<mapsto> synced_of dx_npr] (Some (Done w4))"
    using w1(1) s by (simp add: syncAlive_def d dx_sel(2,6,7) Let_def remove_ranges_def)
  then show ?thesis by (simp add: keep_mem_def dx_sel(1))
qed

lemma dx_sound: "sync_inv Map.empty t" "sound_object Map.empty dx_npr"
  by (simp_all add: sync_inv_def sound_object_def apart_def separate_def dx_sel(2))

section \<open>Syncing\<close>



text \<open>
  C24: the first sync on the pod's own node. The pod's own ports are exactly extended by its ranges, its address
  is of the pod kind, and for each target CIDR the range recorded for an external IP is the last one the
  object lists for it: \<open>UpsertNatConfigEntry\<close> keeps one range per external IP, so when a pod has several
  ranges on one external IP all but the last are dropped.
\<close>

theorem first_sync_on_own_node:
  assumes "ebpf_kernel E view" "state_ok (view w)" "sy (npr_Name npr) = None" "npr_NodeName (npr_Spec npr) = node"
    and run: "syncAlive (real_syncer E client node) npr (sy, w) = Some (Done (sy', w'))"
  defines "podIP \<equiv> ParseIP (npr_PodIP (npr_Spec npr))" and "allocs \<equiv> npr_Allocations (npr_Spec npr)"
  shows "(\<forall>k. v_pod_nat_ports (view w') k =
            (if pk_PodIp k = ip_key podIP \<and> pk_Port k \<in> ports_of allocs then Some 1 else v_pod_nat_ports (view w) k)) \<and>
         v_dst_kind (view w') = (v_dst_kind (view w))(ip_key podIP \<mapsto> dstKindPodIP) \<and>
         (\<forall>xs a ys k. allocs = xs @ a # ys \<longrightarrow> ext_key a \<notin> ext_key ` set ys \<longrightarrow>
            k \<in> nat_keys podIP (npr_TargetCIDRs (npr_Spec npr)) \<longrightarrow>
            bucket (view w') k (ext_key a) = Some (port_start a, port_end a))"
proof -
  let ?s = "cached_of sy (npr_Name npr)" and ?r = "real_syncer E client node"
  note spec = syncer.syncAlive_spec(2) [OF real_syncer [OF assms(1)] assms(2) run refl]
  note d = first_sync_diff [of sy npr, OF assms(3)]
  define t1 where "t1 = give_cells (ip_key (pod_of npr)) (cells_of (new_allocs ?s npr))
      (take_cells (ip_key (pod_of npr)) (cells_of (gone_allocs ?s npr)) (tables_of (view w)))"
  have t: "tables_of (view w') = alive_local_tables ?s npr t1"
    using spec assms(4) by (simp add: alive_tables_def t1_def)
  have t1: "t_own t1 = v_pod_nat_ports (view w)" "t_kind t1 = v_dst_kind (view w)"
    by (simp_all add: t1_def give_cells_def take_cells_def)
  have "v_pod_nat_ports (view w') = t_own (alive_local_tables ?s npr t1)"
    "v_dst_kind (view w') = t_kind (alive_local_tables ?s npr t1)" "bucket (view w') = t_nat (alive_local_tables ?s npr t1)"
    using t by (metis tables_of_sel)+
  moreover have "ports_of [] = {}" by (simp add: ports_of_def)
  ultimately show ?thesis
    by (auto simp: own_local kind_local nat_local d t1 podIP_def allocs_def fun_eq_iff map_of_cidr_entries last_range)
qed

theorem first_sync_on_own_node_witness:
  "\<exists>w k. syncAlive dx_syncer dx_npr (Map.empty, mem_empty) = Some (Done ([''r1'' \<mapsto> synced_of dx_npr], w)) \<and>
     bucket (mem_view w) k 24182987 = Some (50000, 50001) \<and> v_dst_kind (mem_view w) 117440522 = Some dstKindPodIP"
proof -
  obtain w where w: "syncAlive dx_syncer dx_npr (Map.empty, mem_empty) = Some (Done ([''r1'' \<mapsto> synced_of dx_npr], w))"
    using dx_run by blast
  have "Map.empty (npr_Name dx_npr) = None" by simp
  note first = first_sync_on_own_node [OF mem.ebpf_kernel_axioms mem_empty_ok(1) this dx_sel(6) w [unfolded dx_syncer_def]]
  let ?k = "nc_key (v4InV6Prefix @ mx_pod) mx_cidr"
  have "?k \<in> nat_keys (pod_of dx_npr) (npr_TargetCIDRs (npr_Spec dx_npr))"
    by (simp add: nat_keys_def cidr_keys_def dx_sel dx_ips dx_cidr)
  then have "bucket (mem_view w) ?k (ext_key dx_alloc) = Some (port_start dx_alloc, port_end dx_alloc)"
    using first [THEN conjunct2, THEN conjunct2, rule_format, of "[]" dx_alloc "[]" ?k] dx_sel(2) by simp
  moreover have "ext_key dx_alloc = 24182987" by (simp add: ext_key_def dx_sel)
  moreover have "v_dst_kind (mem_view w) 117440522 = Some dstKindPodIP" using first by (simp add: dx_sel(4) dx_ips(2))
  ultimately show ?thesis using w dx_sel(9,10) by metis
qed

section \<open>Cleaning up\<close>


text \<open>The stale twin of the example: everything the first sync installed is removed again.\<close>

definition dx_stale :: NATPortRange where
  "dx_stale = dx_npr\<lparr>npr_Spec := (npr_Spec dx_npr)\<lparr>npr_Allocations := [], npr_TargetCIDRs := [], npr_StaleSince := Some 5\<rparr>\<rparr>"

lemma dx_stale_run: "\<exists>w. syncStale dx_syncer dx_stale (sy, w0) = Some (Done (sy(''r1'' := None), w))"
proof -
  have ip: "npr_PodIP (npr_Spec dx_stale) = ''10.0.0.7''" by (simp add: dx_stale_def dx_sel)
  have "\<exists>w. km_Remove (sr_PodIPKind dx_syncer) (ParseIP ''10.0.0.7'') w0 = Some (Done w)"
    by (simp add: dx_maps RealPodIPKindMap_def RemovePodIPKind_def openMap_def mem_open with_ip_def dx_ips)
      (auto simp: memE_def fun_map_def ret_err_missing_ok_def)
  then have "\<exists>w. maybeRemovePodIPKind dx_syncer sy ''r1'' ''10.0.0.7'' (ParseIP ''10.0.0.7'') w0 = Some (Done w)"
    by (auto simp: maybeRemovePodIPKind_def)
  then show ?thesis
    by (auto simp: syncStale_def stale_local_def remove_ranges_def remove_own_def remove_allocs_def keep_mem_def ip
        dx_stale_def dx_sel)
qed


text \<open>
  \<open>syncStale\<close> works on the object's current ranges, not on the remembered ones. A port of a range that was
  synced and has since left the object is still the pod's after a stale sync, and the reconciler has
  forgotten it: no later reconcile removes it.
\<close>

theorem syncStale_leaves_old_ranges:
  assumes "ebpf_kernel E view" "state_ok (view w)" "sync_inv sy (tables_of (view w))"
    and "sy (npr_Name npr) = Some s" "sn_PodIP s = npr_PodIP (npr_Spec npr)"
    and "a \<in> set (sn_Allocations s)" "p \<in> {port_start a..port_end a}" "n \<in> sync_names"
    and "(n, ext_key a, p) \<notin> cells_of (npr_Allocations (npr_Spec npr))"
    and run: "syncStale (real_syncer E client node) npr (sy, w) = Some (Done (sy', w'))"
  shows "pod_at (view w') n (ext_key a) p = ip_key (ParseIP (npr_PodIP (npr_Spec npr))) \<and> sy' (npr_Name npr) = None"
proof -
  note spec = syncer.syncStale_spec(2) [OF real_syncer [OF assms(1)] assms(2) run refl]
  have "pod_at (view w') = t_port (stale_tables (real_syncer E client node) sy npr (tables_of (view w)))"
    using spec by (metis tables_of_sel(4))
  moreover have "(n, ext_key a, p) \<in> cells_of (sn_Allocations s)" using assms(6-8) by (auto simp: cells_of_def)
  then have "pod_at (view w) n (ext_key a) p = ip_key (pod_of npr)"
    using assms(3,4,5) unfolding sync_inv_def owns_cells_def by fastforce
  ultimately show ?thesis using assms(9) spec by (simp add: stale_cell)
qed

theorem syncStale_leaves_old_ranges_witness:
  "\<exists>w1 w2. syncAlive dx_syncer dx_npr (Map.empty, mem_empty) = Some (Done ([''r1'' \<mapsto> synced_of dx_npr], w1)) \<and>
     syncStale dx_syncer dx_stale ([''r1'' \<mapsto> synced_of dx_npr], w1) = Some (Done (Map.empty, w2)) \<and>
     pod_at (mem_view w2) ''port_range_lookup_udp'' 24182987 50001 = 117440522"
proof -
  obtain w1 where w1: "syncAlive dx_syncer dx_npr (Map.empty, mem_empty) = Some (Done ([''r1'' \<mapsto> synced_of dx_npr], w1))"
    using dx_run by blast
  obtain w2 where "syncStale dx_syncer dx_stale ([''r1'' \<mapsto> synced_of dx_npr], w1) =
      Some (Done ([''r1'' \<mapsto> synced_of dx_npr](''r1'' := None), w2))" using dx_stale_run by blast
  then have w2: "syncStale dx_syncer dx_stale ([''r1'' \<mapsto> synced_of dx_npr], w1) = Some (Done (Map.empty, w2))" by simp
  note run1 = w1 [unfolded dx_syncer_def]
  have spec: "state_ok (mem_view w1)" "sync_inv [''r1'' \<mapsto> synced_of dx_npr] (tables_of (mem_view w1))"
    using memsync.syncAlive_spec [OF mem_empty_ok(1) run1] alive_inv [OF dx_sound(1), of dx_npr] dx_sound(2) dx_sel(1)
    by (auto simp: sound_object_def)
  have ext: "ext_key dx_alloc = 24182987" by (simp add: ext_key_def dx_sel)
  have "[''r1'' \<mapsto> synced_of dx_npr] (npr_Name dx_stale) = Some (synced_of dx_npr)"
    "sn_PodIP (synced_of dx_npr) = npr_PodIP (npr_Spec dx_stale)" "dx_alloc \<in> set (sn_Allocations (synced_of dx_npr))"
    "50001 \<in> {port_start dx_alloc..port_end dx_alloc}" "''port_range_lookup_udp'' \<in> sync_names"
    "(''port_range_lookup_udp'', ext_key dx_alloc, 50001) \<notin> cells_of (npr_Allocations (npr_Spec dx_stale))"
    by (simp_all add: dx_stale_def dx_sel synced_of_def sync_names_def cells_of_def)
  from syncStale_leaves_old_ranges [OF mem.ebpf_kernel_axioms spec this w2 [unfolded dx_syncer_def]]
  have "pod_at (mem_view w2) ''port_range_lookup_udp'' 24182987 50001 = 117440522"
    by (simp add: ext dx_stale_def dx_sel dx_ips)
  with w1 w2 show ?thesis by blast
qed

section \<open>Runs\<close>



text \<open>
  C26: whatever a reconcile comes back with (nil, an error, a panic), the kernel's maps stay well formed: no two
  external IPs share an inner array, and every \<open>nat_config\<close> value has at most 256 slots in use, one per
  external IP.
\<close>

theorem reconcileSync_keeps_maps_well_formed:
  assumes "ebpf_kernel E view" "state_ok (view w)"
    and "reconcileSync (real_syncer E client node) name (sy, w) = Some res"
  shows "state_ok (view (snd (world_of res)))"
  using syncer.reconcileSync_state_ok [OF real_syncer [OF assms(1)] assms(2,3)] .

theorem reconcileSync_keeps_maps_well_formed_witness:
  "\<exists>res. reconcileSync dx_syncer ''r1'' (Map.empty, mem_empty) = Some res \<and> state_ok (mem_view (snd (world_of res)))"
proof -
  obtain w where w: "syncAlive dx_syncer dx_npr (Map.empty, mem_empty) = Some (Done ([''r1'' \<mapsto> synced_of dx_npr], w))"
    using dx_run by blast
  have get: "sr_Get dx_syncer mem_empty ''r1'' = Inr dx_npr" by (simp add: dx_syncer_def)
  have "reconcileSync dx_syncer ''r1'' (Map.empty, mem_empty) = Some (Done ([''r1'' \<mapsto> synced_of dx_npr], w))"
    using w by (simp add: reconcileSync_def get) (simp add: dx_npr_def)
  from this reconcileSync_keeps_maps_well_formed [OF mem.ebpf_kernel_axioms mem_empty_ok(1) this [unfolded dx_syncer_def]]
  show ?thesis by blast
qed

text \<open>
  A NATPortRange with the last block of ports is never synced. When a range that is new to the daemon ends
  at port 65535, which is where the last block of every allocator ends, no reconcile of the object returns nil
  on any kernel, so the daemon never remembers it.
\<close>

theorem last_block_never_synced:
  assumes "a \<in> set (npr_Allocations (npr_Spec npr))" "port_end a = 65535"
    and "a \<notin> set (sn_Allocations (cached_of sy (npr_Name npr)))"
  shows "syncAlive (real_syncer E client node) npr (sy, w) \<noteq> Some (Done st)"
proof
  let ?r = "real_syncer E client node" and ?s = "cached_of sy (npr_Name npr)"
  assume done_run: "syncAlive ?r npr (sy, w) = Some (Done st)"
  have proto: "for_eff (\<lambda>proto w. wrap_err AddPortRangeErr
      (pm_Add (sr_PortRangeLookup ?r) (ParseIP (ExternalIP a)) podIP (port_start a) (port_end a) proto w)) syncProtos v
        \<noteq> Some (Done v')" for podIP v v'
    using assms(2) by (intro for_eff_not_Done [of 6])
      (simp_all add: syncProtos_def real_syncer_def NewNATPortRangeSyncReconciler_def RealPortRangeLookupMap_def
        AddPortRange_not_Done)
  have "a \<in> set (new_allocs ?s npr)" using assms(1,3) by (simp add: new_allocs_def)
  then have "add_ranges ?r podIP (new_allocs ?s npr) v \<noteq> Some (Done v')" for podIP v v'
    unfolding add_ranges_def by (rule for_eff_not_Done) (rule proto)
  then show False using done_run
    by (cases st) (simp add: syncAlive_def diffs [of ?s npr] Let_def keep_mem_Done eff_bind_Done)
qed

theorem last_block_never_synced_witness:
  "syncAlive dx_syncer (dx_npr\<lparr>npr_Spec := (npr_Spec dx_npr)\<lparr>npr_Allocations :=
     [\<lparr>ExternalIP = ''203.0.113.1'', pa_PortStart = 65472, pa_PortEnd = 65535\<rparr>]\<rparr>\<rparr>) (Map.empty, mem_empty) \<noteq> Some (Done (Map.empty, mem_empty))"
  unfolding dx_syncer_def
  by (rule last_block_never_synced [of "\<lparr>ExternalIP = ''203.0.113.1'', pa_PortStart = 65472, pa_PortEnd = 65535\<rparr>"])
    (simp_all add: cached_of_def)

end
