(* ===== verification/OpDaemon.thy ===== *)
theory OpDaemon
  imports Operator_Props Daemon_Props
begin

text \<open>
  The operator and the daemons together. The operator's invariant gives the contract the daemon's port sync relies on
  (\<open>sound_object\<close>), and a daemon that has reconciled the stored objects has installed them all.
\<close>

section \<open>The operator's objects meet the daemon's contract\<close>

text \<open>
  What the operator does not check: an external address has one spelling, and the pools of two NATConfigs share no
  address (each NATConfig has an allocator of its own).
\<close>

definition addresses_apart :: "npr_store \<Rightarrow> bool" where
  "addresses_apart V \<longleftrightarrow> (\<forall>n x m y. \<forall>pa \<in> set (allocations x). \<forall>pb \<in> set (allocations y). V n = Some x \<longrightarrow> V m = Some y \<longrightarrow>
     ext_key pa = ext_key pb \<longrightarrow> ExternalIP pa = ExternalIP pb \<and> config_of x = config_of y)"

text \<open>The daemon remembers objects as they are stored.\<close>

definition in_step :: "synced \<Rightarrow> npr_store \<Rightarrow> bool" where
  "in_step sy V \<longleftrightarrow> (\<forall>name s. sy name = Some s \<longrightarrow> (\<exists>y. V name = Some y \<and> s = synced_of y))"

lemma cells_disjoint:
  assumes "\<And>a b. a \<in> set as \<Longrightarrow> b \<in> set bs \<Longrightarrow> ext_key a = ext_key b \<Longrightarrow> alloc_ports (to_alloc a) \<inter> alloc_ports (to_alloc b) = {}"
  shows "cells_of as \<inter> cells_of bs = {}"
proof -
  have "False" if "a \<in> set as" "b \<in> set bs" "ext_key a = ext_key b" "p \<in> {port_start a..port_end a}" "p \<in> {port_start b..port_end b}" for a b p
    using assms [OF that(1-3)] that(4,5) unfolding alloc_ports_def to_alloc_def by auto
  then show ?thesis unfolding cells_of_def by fastforce
qed

lemma op_inv_sound_object:
  assumes inv: "op_inv V reg" and addr: "addresses_apart V" and step: "in_step sy V"
    and x: "V n = Some x" "npr_Name x = n"
  shows "sound_object sy x"
  unfolding sound_object_def
proof (intro conjI allI impI)
  show "separate (allocations x)"
    unfolding separate_def
  proof (intro ballI impI)
    fix a b assume ab: "a \<in> set (allocations x)" "b \<in> set (allocations x)" "a \<noteq> b"
    then have "alloc_ports (to_alloc a) \<inter> alloc_ports (to_alloc b) = {}"
      using op_inv_no_overlap [OF inv x(1) ab(1)] by (metis (no_types))
    then show "cells_of [a] \<inter> cells_of [b] = {}" by (intro cells_disjoint) simp
  qed
  show "apart sy x"
    unfolding apart_def
  proof (intro allI impI)
    fix m s assume s: "sy m = Some s" "m \<noteq> npr_Name x"
    then obtain y where y: "V m = Some y" "s = synced_of y" using step by (auto simp: in_step_def)
    have "cells_of (allocations x) \<inter> cells_of (allocations y) = {}"
    proof (rule cells_disjoint)
      fix a b assume ab: "a \<in> set (allocations x)" "b \<in> set (allocations y)" "ext_key a = ext_key b"
      then have "ExternalIP b = ExternalIP a" "config_of y = config_of x"
        using addr x(1) y(1) unfolding addresses_apart_def by metis+
      with op_inv_no_overlap [OF inv x(1) ab(1), THEN conjunct1, rule_format, OF y(1) _ _ ab(2)] s(2) x(2)
      show "alloc_ports (to_alloc a) \<inter> alloc_ports (to_alloc b) = {}" by simp
    qed
    then show "cells_of (sn_Allocations s) \<inter> cells_of (allocations x) = {}" by (auto simp: y(2) synced_of_def)
  qed
  show "sn_PodIP s = npr_PodIP (npr_Spec x)" if "sy (npr_Name x) = Some s" for s
    using that step x by (fastforce simp: in_step_def synced_of_def)
qed

section \<open>A daemon that reconciles the stored objects\<close>

text \<open>A cache that is up to date with the store.\<close>

definition serves :: "npr_store \<Rightarrow> ('v \<Rightarrow> string \<Rightarrow> api_error + NATPortRange) \<Rightarrow> bool" where
  "serves V client \<longleftrightarrow> (\<forall>v name. client v name = (case V name of None \<Rightarrow> Inl NotFound | Some x \<Rightarrow> Inr x))"

definition live :: "NATPortRange \<Rightarrow> bool" where
  "live x \<longleftrightarrow> npr_StaleSince (npr_Spec x) = None \<and> npr_DeletionTimestamp x = None"

lemma in_step_upd: "in_step sy V \<Longrightarrow> V n = Some x \<Longrightarrow> in_step (sy(n \<mapsto> synced_of x)) V" "in_step sy V \<Longrightarrow> in_step (sy(n := None)) V"
  by (auto simp: in_step_def)

lemma reconcile_stored:
  assumes kernel: "ebpf_kernel K bview" and client: "serves V client" and names: "\<And>n x. V n = Some x \<Longrightarrow> npr_Name x = n"
    and ok: "state_ok (bview v)" and run: "reconcileSync (real_syncer K client node) n (sy, v) = Some (Done (sy', v'))"
  shows "sy' = sy(n := (case V n of None \<Rightarrow> None | Some x \<Rightarrow> if live x then Some (synced_of x) else None))"
proof (cases "V n")
  case None
  then show ?thesis using run client by (simp add: reconcileSync_def serves_def)
next
  case (Some x)
  note s = real_syncer [OF kernel, of client node]
  have get: "client v n = Inr x" using client Some by (simp add: serves_def)
  show ?thesis
  proof (cases "live x")
    case True
    then have "syncAlive (real_syncer K client node) x (sy, v) = Some (Done (sy', v'))"
      using run get by (simp add: reconcileSync_def live_def)
    from syncer.syncAlive_spec(2) [OF s ok this refl] True Some names show ?thesis by simp
  next
    case False
    then have "syncStale (real_syncer K client node) x (sy, v) = Some (Done (sy', v'))"
      using run get by (auto simp: reconcileSync_def live_def)
    from syncer.syncStale_spec(2) [OF s ok this refl] False Some names show ?thesis by simp
  qed
qed

lemma reconciled_all:
  assumes kernel: "ebpf_kernel K bview" and client: "serves V client" and names: "\<And>n x. V n = Some x \<Longrightarrow> npr_Name x = n"
    and inv: "op_inv V reg" and addr: "addresses_apart V" and ok: "state_ok (bview v)"
    and run: "for_eff (reconcileSync (real_syncer K client node)) ns (Map.empty, v) = Some (Done (sy, v'))"
  shows "sync_inv sy (tables_of (bview v')) \<and> (\<forall>n \<in> set ns. \<forall>x. V n = Some x \<longrightarrow> live x \<longrightarrow> sy n = Some (synced_of x))"
proof -
  let ?r = "real_syncer K client node"
  note s = real_syncer [OF kernel, of client node]
  define I where "I = (\<lambda>ns st. state_ok (bview (snd st)) \<and> sync_inv (fst st) (tables_of (bview (snd st))) \<and> in_step (fst st) V \<and>
     (\<forall>n \<in> set ns. \<forall>x. V n = Some x \<longrightarrow> live x \<longrightarrow> fst st n = Some (synced_of x)))"
  have "ok_post (for_eff (reconcileSync ?r) ns (Map.empty, v)) (I ns)"
  proof (rule ok_post_for)
    show "I [] (Map.empty, v)" using ok by (simp add: I_def sync_inv_def in_step_def)
  next
    fix ys n st assume I: "I ys st"
    obtain sy v where st: "st = (sy, v)" by (cases st)
    show "ok_post (reconcileSync ?r n st) (I (ys @ [n]))"
      unfolding ok_post_def
    proof (intro allI impI)
      fix st' assume run: "reconcileSync ?r n st = Some (Done st')"
      obtain sy' v' where st': "st' = (sy', v')" by (cases st')
      have ok: "state_ok (bview v)" and step: "in_step sy V" using I by (simp_all add: I_def st)
      note run' = run [unfolded st st']
      have sy': "sy' = sy(n := (case V n of None \<Rightarrow> None | Some x \<Rightarrow> if live x then Some (synced_of x) else None))"
        by (rule reconcile_stored [OF kernel client names ok run'])
      have obj: "npr_Name x = n \<and> sound_object sy x" if "sr_Get ?r v n = Inr x" for x
        using that client names op_inv_sound_object [OF inv addr step, of n x]
        by (auto simp: serves_def split: option.splits)
      have "sync_inv sy' (tables_of (bview v'))"
        using syncer.reconcileSync_inv [OF s ok _ obj run'] I by (simp add: I_def st)
      moreover have "state_ok (bview v')" using syncer.reconcileSync_state_ok [OF s ok run'] by simp
      moreover have "in_step sy' V" using in_step_upd [OF step] by (auto simp: sy' split: option.splits)
      ultimately show "I (ys @ [n]) st'" using I by (auto simp: I_def st st' sy')
    qed
  qed
  from ok_postD [OF this run] show ?thesis by (simp add: I_def)
qed

lemma reconciled_cells:
  assumes "sync_inv sy t" "sy n = Some (synced_of x)" "pa \<in> set (allocations x)" "m \<in> sync_names" "p \<in> {port_start pa..port_end pa}"
  shows "t_port t m (ext_key pa) p = ip_key (pod_of x)"
proof -
  have "owns_cells t (ip_key (pod_of x)) (allocations x)"
    using assms(1,2) unfolding sync_inv_def by (fastforce simp: synced_of_def)
  moreover have "(m, ext_key pa, p) \<in> cells_of (allocations x)" using assms(3-5) by (auto simp: cells_of_def)
  ultimately show ?thesis unfolding owns_cells_def by fastforce
qed

section \<open>An example\<close>

text \<open>A daemon on another node than the pods syncs the two ranges of the operator's example.\<close>

definition od_client :: "mem_bpf \<Rightarrow> string \<Rightarrow> api_error + NATPortRange" where
  "od_client v name = (case OpMem.mem_view ex_two name of None \<Rightarrow> Inl NotFound | Some x \<Rightarrow> Inr x)"

abbreviation "od_syncer \<equiv> real_syncer memE od_client ''m''"

lemma od_ips: "ipToUint32 (ParseIP ''10.0.0.1'') = Some 16777226" "ipToUint32 (ParseIP ''10.1.0.1'') = Some 16777482"
  by (simp_all add: ParseIP_def ParseAddr_def is_digit_def digit_val_def of_char_def horner_sum_foldr ipToUint32_def To4_def
      le_uint32_def v4InV6Prefix_def Let_def)

lemma od_sel: "sr_PortRangeLookup od_syncer = RealPortRangeLookupMap memE" "sr_NodeName od_syncer = ''m''"
  by (simp_all add: real_syncer_def NewNATPortRangeSyncReconciler_def)

lemma od_sync:
  assumes "port_end pa \<noteq> 65535" "ExternalIP pa = ''10.0.0.1''" "sy n = None" "mb_nat v = Map.empty"
    and get: "od_client v n = Inr (ex_npr n [pa])"
  shows "\<exists>v'. reconcileSync od_syncer n (sy, v) = Some (Done (sy(n \<mapsto> synced_of (ex_npr n [pa])), v')) \<and> mb_nat v' = Map.empty"
proof -
  let ?x = "ex_npr n [pa]"
  have x: "npr_Name ?x = n" "allocations ?x = [pa]" "npr_PodIP (npr_Spec ?x) = ''10.1.0.1''" "npr_NodeName (npr_Spec ?x) = ''n''"
    "npr_StaleSince (npr_Spec ?x) = None" "npr_DeletionTimestamp ?x = None" by (simp_all add: ex_npr_def)
  have "succeeds (add_ranges od_syncer (ParseIP ''10.1.0.1'') [pa])"
    unfolding add_ranges_def
  proof (intro succeeds_for succeeds_wrap)
    fix a proto assume "a \<in> set [pa]" "proto \<in> set syncProtos"
    then show "succeeds (pm_Add (sr_PortRangeLookup od_syncer) (ParseIP (ExternalIP a)) (ParseIP ''10.1.0.1'') (port_start a) (port_end a) proto)"
      using syncProtos_names [of proto] succeeds_AddPortRange [OF _ od_ips(1,2) assms(1)] assms(2)
      by (auto simp: od_sel RealPortRangeLookupMap_def)
  qed
  then obtain v' where v': "add_ranges od_syncer (ParseIP ''10.1.0.1'') [pa] v = Some (Done v')" "mb_nat v' = Map.empty"
    using assms(4) unfolding succeeds_def by blast
  have "cached_of sy n = cached_of Map.empty n" using assms(3) by (simp add: cached_of_def)
  then have s: "sn_Allocations (cached_of sy n) = []" by (simp add: cached_of_def)
  have d: "diffAllocations [] [pa] = ([], [pa])" by (simp add: diffAllocations_eq)
  have "syncAlive od_syncer ?x (sy, v) = keep_mem sy (sy(n \<mapsto> synced_of ?x)) (Some (Done v'))"
    using v'(1) s by (simp add: syncAlive_def x d od_sel Let_def remove_ranges_def)
  then show ?thesis using v'(2) get x by (simp add: reconcileSync_def keep_mem_def)
qed

lemma od_run: "\<exists>sy v. for_eff (reconcileSync od_syncer) [''p1'', ''p2''] (Map.empty, mem_empty) = Some (Done (sy, v))"
proof -
  have get: "od_client v ''p1'' = Inr ex_p1" "od_client v ''p2'' = Inr ex_p2" for v by (simp_all add: od_client_def ex_view)
  have e: "port_end (ex_pa 49152 53247) \<noteq> 65535" "port_end (ex_pa 53248 57343) \<noteq> 65535" by simp_all
  have "mb_nat mem_empty = Map.empty" by (simp add: mem_empty_def)
  then obtain v where v: "reconcileSync od_syncer ''p1'' (Map.empty, mem_empty) = Some (Done ([''p1'' \<mapsto> synced_of ex_p1], v))"
    "mb_nat v = Map.empty" using od_sync [where sy = Map.empty, OF e(1) _ _ _ get(1)] by auto
  obtain v' where "reconcileSync od_syncer ''p2'' ([''p1'' \<mapsto> synced_of ex_p1], v) =
      Some (Done ([''p1'' \<mapsto> synced_of ex_p1, ''p2'' \<mapsto> synced_of ex_p2], v'))"
    using od_sync [where sy = "[''p1'' \<mapsto> synced_of ex_p1]", OF e(2) _ _ v(2) get(2)] by auto
  with v show ?thesis by auto
qed

lemma od_addresses: "addresses_apart (OpMem.mem_view ex_two)"
proof -
  have "config_of x = ''c'' \<and> (\<forall>pa \<in> set (allocations x). ExternalIP pa = ''10.0.0.1'')" if "OpMem.mem_view ex_two n = Some x" for n x
    using that by (auto simp: ex_view split: if_splits)
  then show ?thesis by (simp add: addresses_apart_def)
qed

end
