(* ===== verification/DaemonPods.thy ===== *)
theory DaemonPods
  imports API NetIP
begin

text \<open>
  \<open>internal/controller/daemon/pod_controller.go\<close> and \<open>nprr_controller.go\<close>: the daemon asks for ports on behalf
  of the pods of its node, one NATPortRangeRequest per pod and matching NATConfig, and takes the request back a
  grace period after the pod is gone or no longer matches.

  A \<open>podEnv\<close> holds what the handlers call on the Kubernetes client: reads from its cache, and writes that
  return the object as the server stored it (client-go writes the answer into the object it was given). Of a
  \<open>corev1.Pod\<close> the record keeps the fields the sources read; \<open>pod_Containers\<close> are the declared ports of each
  container. Label selectors are a parameter: \<open>Inl\<close> is the error of \<open>LabelSelectorAsSelector\<close>. Times and durations
  are nanoseconds; the clock is read from the world. \<open>Requeue d\<close> is a nil error with \<open>RequeueAfter\<close> \<open>d\<close>.
\<close>

record Pod =
  pod_Namespace :: string
  pod_Name :: string
  pod_Labels :: "string \<rightharpoonup> string"
  pod_Annotations :: "string \<rightharpoonup> string"
  pod_DeletionTimestamp :: "gotime option"
  pod_NodeName :: string
  pod_Containers :: "i32 list list"
  pod_PodIP :: string

record 'w podEnv =
  pe_GetPod :: "'w \<Rightarrow> string \<Rightarrow> string \<Rightarrow> api_error + Pod"
  pe_ListPods :: "'w \<Rightarrow> api_error + Pod list"
  pe_ListNATConfigs :: "'w \<Rightarrow> api_error + NATConfig list"
  pe_GetNPRR :: "'w \<Rightarrow> string \<Rightarrow> api_error + NATPortRangeRequest"
  pe_ListNPRRs :: "'w \<Rightarrow> api_error + NATPortRangeRequest list"
  pe_Create :: "NATPortRangeRequest \<Rightarrow> 'w \<Rightarrow> api_error option \<times> 'w"
  pe_Update :: "NATPortRangeRequest \<Rightarrow> 'w \<Rightarrow> (api_error + NATPortRangeRequest) \<times> 'w"
  pe_UpdateStatus :: "NATPortRangeRequest \<Rightarrow> 'w \<Rightarrow> (api_error + NATPortRangeRequest) \<times> 'w"
  pe_Delete :: "NATPortRangeRequest \<Rightarrow> 'w \<Rightarrow> api_error option \<times> 'w"
  pe_SelectorMatches :: "LabelSelector \<Rightarrow> (string \<rightharpoonup> string) \<Rightarrow> string + bool"
  pe_Now :: "'w \<Rightarrow> gotime"

datatype pod_outcome = Requeue gotime | PodErr api_error | ListNPRRsErr api_error | GetPodErr string string api_error |
  UpdateNPRRErr string api_error

definition second :: gotime where
  "second = 1000000000"

definition deletionGracePeriod :: gotime where
  "deletionGracePeriod = 240 * second"

section \<open>What a pod asks for\<close>

definition nprrName :: "string \<Rightarrow> string \<Rightarrow> string \<Rightarrow> string" where
  "nprrName podNamespace podName natConfig = podNamespace @ ''-'' @ podName @ ''-'' @ natConfig"

definition portRangeCountAnnotation :: string where
  "portRangeCountAnnotation = ''mooring.hanapedia.link/port-range-count''"

text \<open>\<open>strconv.ParseInt(s, 10, 32)\<close>: an optional sign and decimal digits, and \<open>None\<close> for any error.\<close>

fun digits_value :: "string \<Rightarrow> nat \<Rightarrow> nat option" where
  "digits_value [] n = Some n"
| "digits_value (c # s) n = (if is_digit c then digits_value s (n * 10 + digit_val c) else None)"

definition ParseInt32 :: "string \<Rightarrow> int option" where
  "ParseInt32 s =
     (let neg = (s \<noteq> [] \<and> hd s = CHR ''-'');
          body = (if s \<noteq> [] \<and> (hd s = CHR ''-'' \<or> hd s = CHR ''+'') then tl s else s)
      in if body = [] then None
      else (case digits_value body 0 of
          None \<Rightarrow> None
        | Some un \<Rightarrow>
            if \<not> neg \<and> un \<ge> 2 ^ 31 then None
            else if neg \<and> un > 2 ^ 31 then None
            else Some (if neg then - int un else int un)))"

definition desiredPortRangeCount :: "Pod \<Rightarrow> i32 option" where
  "desiredPortRangeCount pod =
     (case pod_Annotations pod portRangeCountAnnotation of
        None \<Rightarrow> None
      | Some raw \<Rightarrow>
          (case ParseInt32 raw of
             None \<Rightarrow> None
           | Some n \<Rightarrow> if n \<le> 0 then None else Some (word_of_int n)))"

definition equalPortRangeCount :: "i32 option \<Rightarrow> i32 option \<Rightarrow> bool" where
  "equalPortRangeCount a b =
     (case (a, b) of (Some x, Some y) \<Rightarrow> x = y | (None, None) \<Rightarrow> True | _ \<Rightarrow> False)"

definition declaredContainerPorts :: "Pod \<Rightarrow> i32 list" where
  "declaredContainerPorts pod = concat (pod_Containers pod)"

definition new_nprr :: "Pod \<Rightarrow> string \<Rightarrow> NATPortRangeRequest" where
  "new_nprr pod ncName =
     \<lparr>nprr_Name = nprrName (pod_Namespace pod) (pod_Name pod) ncName, nprr_DeletionTimestamp = None,
      nprr_ResourceVersion = 0,
      nprr_Spec = \<lparr>nprr_PodName = pod_Name pod, nprr_PodNamespace = pod_Namespace pod, nprr_PodIP = pod_PodIP pod,
        nprr_NodeName = pod_NodeName pod, nprr_NATConfig = ncName,
        nprr_PortRangeCount = desiredPortRangeCount pod, nprr_ExcludePorts = declaredContainerPorts pod\<rparr>,
      nprr_Status = \<lparr>DeletionGracePeriodExpiry = None\<rparr>\<rparr>"

section \<open>The index of requests by pod\<close>

definition podIdentity :: "NATPortRangeRequest \<Rightarrow> string list" where
  "podIdentity nprr = [nprr_PodNamespace (nprr_Spec nprr) @ ''/'' @ nprr_PodName (nprr_Spec nprr)]"

text \<open>\<open>List\<close> with \<open>MatchingFields{podIdentityIndexField: identity}\<close>: the objects the index function maps to it.\<close>

definition list_by_identity :: "'w podEnv \<Rightarrow> string \<Rightarrow> 'w \<Rightarrow> api_error + NATPortRangeRequest list" where
  "list_by_identity E identity w =
     (case pe_ListNPRRs E w of Inl e \<Rightarrow> Inl e | Inr nprrs \<Rightarrow> Inr (filter (\<lambda>n. identity \<in> set (podIdentity n)) nprrs))"

section \<open>The pod controller\<close>

abbreviation expiry_of :: "NATPortRangeRequest \<Rightarrow> gotime option" where
  "expiry_of nprr \<equiv> DeletionGracePeriodExpiry (nprr_Status nprr)"

abbreviation with_expiry :: "NATPortRangeRequest \<Rightarrow> gotime option \<Rightarrow> NATPortRangeRequest" where
  "with_expiry nprr e \<equiv> nprr\<lparr>nprr_Status := (nprr_Status nprr)\<lparr>DeletionGracePeriodExpiry := e\<rparr>\<rparr>"

text \<open>\<open>err != nil && !apierrors.IsConflict(err)\<close> after a write.\<close>

definition unless_conflict :: "(api_error \<Rightarrow> pod_outcome) \<Rightarrow> (api_error + 'a) \<times> 'w \<Rightarrow> pod_outcome option \<times> 'w" where
  "unless_conflict f r =
     (case r of (Inl e, w) \<Rightarrow> (if e = Conflict then None else Some (f e), w) | (Inr _, w) \<Rightarrow> (None, w))"

definition start_grace :: "'w podEnv \<Rightarrow> (api_error \<Rightarrow> pod_outcome) \<Rightarrow> NATPortRangeRequest \<Rightarrow> 'w \<Rightarrow> pod_outcome option \<times> 'w" where
  "start_grace E f nprr w =
     unless_conflict f (pe_UpdateStatus E (with_expiry nprr (Some (pe_Now E w + deletionGracePeriod))) w)"

definition matchingNCs :: "'w podEnv \<Rightarrow> Pod \<Rightarrow> NATConfig list \<Rightarrow> string set" where
  "matchingNCs E pod ncs =
     set (map nc_Name (filter (\<lambda>nc. pe_SelectorMatches E (PodSelector (nc_Spec nc)) (pod_Labels pod) = Inr True) ncs))"

definition existingNCs :: "NATPortRangeRequest list \<Rightarrow> (string \<rightharpoonup> NATPortRangeRequest)" where
  "existingNCs nprrs = foldl (\<lambda>m n. m(nprr_NATConfig (nprr_Spec n) \<mapsto> n)) Map.empty nprrs"

definition create_missing ::
    "'w podEnv \<Rightarrow> Pod \<Rightarrow> (string \<rightharpoonup> NATPortRangeRequest) \<Rightarrow> string \<Rightarrow> 'w \<Rightarrow> pod_outcome option \<times> 'w" where
  "create_missing E pod existing ncName w =
     (if existing ncName \<noteq> None then (None, w)
      else (case pe_Create E (new_nprr pod ncName) w of
          (Some e, w') \<Rightarrow> (if e = AlreadyExists then None else Some (PodErr e), w')
        | (None, w') \<Rightarrow> (None, w')))"

text \<open>A running pod that still matches: clear a stale grace period, then follow the annotation.\<close>

definition keep_request :: "'w podEnv \<Rightarrow> Pod \<Rightarrow> NATPortRangeRequest \<Rightarrow> 'w \<Rightarrow> pod_outcome option \<times> 'w" where
  "keep_request E pod nprr w =
     (let (r, nprr1, w1) =
        (if expiry_of nprr \<noteq> None
         then (case pe_UpdateStatus E (with_expiry nprr None) w of
             (Inl e, w') \<Rightarrow> (if e = Conflict then None else Some (PodErr e), with_expiry nprr None, w')
           | (Inr nprr', w') \<Rightarrow> (None, nprr', w'))
         else (None, nprr, w))
      in if r \<noteq> None then (r, w1)
      else let desired = desiredPortRangeCount pod in
        if \<not> equalPortRangeCount desired (nprr_PortRangeCount (nprr_Spec nprr1))
        then unless_conflict PodErr
               (pe_Update E (nprr1\<lparr>nprr_Spec := (nprr_Spec nprr1)\<lparr>nprr_PortRangeCount := desired\<rparr>\<rparr>) w1)
        else (None, w1))"

definition settle_request ::
    "'w podEnv \<Rightarrow> Pod \<Rightarrow> string set \<Rightarrow> (string \<rightharpoonup> NATPortRangeRequest) \<Rightarrow> string \<Rightarrow> 'w \<Rightarrow> pod_outcome option \<times> 'w" where
  "settle_request E pod matching existing ncName w =
     (case existing ncName of
        None \<Rightarrow> (None, w)
      | Some nprr \<Rightarrow>
          if nprr_DeletionTimestamp nprr \<noteq> None then (None, w)
          else if pod_DeletionTimestamp pod \<noteq> None \<or> ncName \<notin> matching
            then (if expiry_of nprr = None then start_grace E PodErr nprr w else (None, w))
          else keep_request E pod nprr w)"

definition mark_gone :: "'w podEnv \<Rightarrow> NATPortRangeRequest \<Rightarrow> 'w \<Rightarrow> pod_outcome option \<times> 'w" where
  "mark_gone E nprr w =
     (if nprr_DeletionTimestamp nprr \<noteq> None then (None, w)
      else if expiry_of nprr = None then start_grace E PodErr nprr w
      else (None, w))"

definition finish :: "pod_outcome option \<times> 'w \<Rightarrow> pod_outcome \<times> 'w" where
  "finish r = (case r of (None, w) \<Rightarrow> (Requeue 0, w) | (Some e, w) \<Rightarrow> (e, w))"

definition handlePodGone :: "'w podEnv \<Rightarrow> string \<Rightarrow> string \<Rightarrow> 'w \<Rightarrow> pod_outcome \<times> 'w" where
  "handlePodGone E ns name w =
     (case list_by_identity E (ns @ ''/'' @ name) w of
        Inl e \<Rightarrow> (PodErr e, w)
      | Inr nprrs \<Rightarrow> finish (for_ret (mark_gone E) nprrs w))"

text \<open>The orders are those of the two range statements over maps.\<close>

definition reconcilePod ::
    "'w podEnv \<Rightarrow> string go_order \<Rightarrow> string go_order \<Rightarrow> string \<Rightarrow> string \<Rightarrow> 'w \<Rightarrow> pod_outcome \<times> 'w" where
  "reconcilePod E createOrd settleOrd ns name w =
     (case pe_GetPod E w ns name of
        Inl e \<Rightarrow> if e = NotFound then handlePodGone E ns name w else (PodErr e, w)
      | Inr pod \<Rightarrow>
          if pod_PodIP pod = [] then (Requeue (5 * second), w)
          else (case pe_ListNATConfigs E w of
              Inl e \<Rightarrow> (PodErr e, w)
            | Inr ncs \<Rightarrow>
                (let matching = matchingNCs E pod ncs in
                 case list_by_identity E (pod_Namespace pod @ ''/'' @ pod_Name pod) w of
                   Inl e \<Rightarrow> (PodErr e, w)
                 | Inr nprrs \<Rightarrow>
                     (let existing = existingNCs nprrs in
                      case (if pod_DeletionTimestamp pod = None
                            then for_ret (create_missing E pod existing) (visit createOrd matching) w else (None, w)) of
                        (Some e, w1) \<Rightarrow> (e, w1)
                      | (None, w1) \<Rightarrow>
                          finish (for_ret (settle_request E pod matching existing) (visit settleOrd (dom existing)) w1)))))"

text \<open>The pods to reconcile after a change of a NATConfig, as pairs of namespace and name.\<close>

definition natConfigToPods :: "'w podEnv \<Rightarrow> 'w \<Rightarrow> (string \<times> string) list" where
  "natConfigToPods E w =
     (case pe_ListPods E w of Inl e \<Rightarrow> [] | Inr pods \<Rightarrow> map (\<lambda>p. (pod_Namespace p, pod_Name p)) pods)"

section \<open>The request controller\<close>

definition reconcileDaemonNPRR :: "'w podEnv \<Rightarrow> string \<Rightarrow> string \<Rightarrow> 'w \<Rightarrow> pod_outcome \<times> 'w" where
  "reconcileDaemonNPRR E node name w =
     (case pe_GetNPRR E w name of
        Inl e \<Rightarrow> (if e = NotFound then Requeue 0 else PodErr e, w)
      | Inr nprr \<Rightarrow>
          if nprr_NodeName (nprr_Spec nprr) \<noteq> node then (Requeue 0, w)
          else (case expiry_of nprr of
              None \<Rightarrow> (Requeue 0, w)
            | Some expiry \<Rightarrow>
                (let remaining = expiry - pe_Now E w in
                 if remaining > 0 then (Requeue remaining, w)
                 else (case pe_Delete E nprr w of
                     (Some e, w') \<Rightarrow> (if e = NotFound then Requeue 0 else PodErr e, w')
                   | (None, w') \<Rightarrow> (Requeue 0, w')))))"

definition sync_request :: "'w podEnv \<Rightarrow> string \<Rightarrow> NATPortRangeRequest \<Rightarrow> 'w \<Rightarrow> pod_outcome option \<times> 'w" where
  "sync_request E node nprr w =
     (let ns = nprr_PodNamespace (nprr_Spec nprr); name = nprr_PodName (nprr_Spec nprr) in
      if nprr_NodeName (nprr_Spec nprr) \<noteq> node then (None, w)
      else if nprr_DeletionTimestamp nprr \<noteq> None \<or> expiry_of nprr \<noteq> None then (None, w)
      else (case pe_GetPod E w ns name of
          Inr pod \<Rightarrow> (None, w)
        | Inl e \<Rightarrow>
            if e \<noteq> NotFound then (Some (GetPodErr ns name e), w)
            else start_grace E (UpdateNPRRErr (nprr_Name nprr)) nprr w))"

definition Sync :: "'w podEnv \<Rightarrow> string \<Rightarrow> 'w \<Rightarrow> pod_outcome \<times> 'w" where
  "Sync E node w =
     (case pe_ListNPRRs E w of
        Inl e \<Rightarrow> (ListNPRRsErr e, w)
      | Inr nprrs \<Rightarrow> finish (for_ret (sync_request E node) nprrs w))"

end
