(* ===== verification/PodStore.thy ===== *)
theory PodStore
  imports DaemonPods
begin

text \<open>
  What the daemon relies on in the API server for NATPortRangeRequests, as the interface \<open>nprr_api\<close>: \<open>store\<close> are
  the stored requests, \<open>past\<close> every version that was ever stored, which is what a lagging cache may return. Writes are
  checked against the resource version; a status write keeps the spec and the other way round; the server cuts
  times to seconds; a failing call has no effect; the clock does not go back. \<open>accepting_api\<close> is a server that
  also accepts every write that is up to date.
\<close>

type_synonym nprr_store = "string \<rightharpoonup> NATPortRangeRequest"

definition cut_to_second :: "gotime option \<Rightarrow> gotime option \<Rightarrow> bool" where
  "cut_to_second x y \<longleftrightarrow>
     (case (x, y) of (None, None) \<Rightarrow> True | (Some t, Some t') \<Rightarrow> t' \<le> t \<and> t < t' + second | _ \<Rightarrow> False)"

text \<open>\<open>y\<close> is what the server makes of a status write and of a spec write of \<open>x\<close> to its object \<open>cur\<close>.\<close>

definition status_written :: "NATPortRangeRequest \<Rightarrow> NATPortRangeRequest \<Rightarrow> NATPortRangeRequest \<Rightarrow> bool" where
  "status_written cur x y \<longleftrightarrow> nprr_Name y = nprr_Name cur \<and> nprr_Spec y = nprr_Spec cur \<and>
     nprr_DeletionTimestamp y = nprr_DeletionTimestamp cur \<and> cut_to_second (expiry_of x) (expiry_of y)"

definition spec_written :: "NATPortRangeRequest \<Rightarrow> NATPortRangeRequest \<Rightarrow> NATPortRangeRequest \<Rightarrow> bool" where
  "spec_written cur x y \<longleftrightarrow> nprr_Name y = nprr_Name cur \<and> nprr_Spec y = nprr_Spec x \<and>
     nprr_DeletionTimestamp y = nprr_DeletionTimestamp cur \<and> nprr_Status y = nprr_Status cur"

definition current :: "nprr_store \<Rightarrow> NATPortRangeRequest \<Rightarrow> NATPortRangeRequest \<Rightarrow> bool" where
  "current V x cur \<longleftrightarrow> V (nprr_Name x) = Some cur \<and> nprr_ResourceVersion cur = nprr_ResourceVersion x"

locale nprr_api =
  fixes E :: "'w podEnv" and store :: "'w \<Rightarrow> nprr_store" and past :: "'w \<Rightarrow> NATPortRangeRequest set"
  assumes create_ok: "pe_Create E x w = (None, w') \<Longrightarrow> store w (nprr_Name x) = None \<and>
       (\<exists>v. store w' = (store w)(nprr_Name x \<mapsto> x\<lparr>nprr_ResourceVersion := v\<rparr>) \<and>
         past w' = insert (x\<lparr>nprr_ResourceVersion := v\<rparr>) (past w))"
    and status_ok: "pe_UpdateStatus E x w = (Inr y, w') \<Longrightarrow> \<exists>cur. current (store w) x cur \<and> status_written cur x y \<and>
       store w' = (store w)(nprr_Name x \<mapsto> y) \<and> past w' = insert y (past w)"
    and update_ok: "pe_Update E x w = (Inr y, w') \<Longrightarrow> \<exists>cur. current (store w) x cur \<and> spec_written cur x y \<and>
       store w' = (store w)(nprr_Name x \<mapsto> y) \<and> past w' = insert y (past w)"
    and delete_ok: "pe_Delete E x w = (None, w') \<Longrightarrow> \<exists>cur. store w (nprr_Name x) = Some cur \<and>
       (store w' = (store w)(nprr_Name x := None) \<and> past w' = past w \<or>
        (\<exists>t v. store w' = (store w)(nprr_Name x \<mapsto> cur\<lparr>nprr_DeletionTimestamp := Some t, nprr_ResourceVersion := v\<rparr>) \<and>
          past w' = insert (cur\<lparr>nprr_DeletionTimestamp := Some t, nprr_ResourceVersion := v\<rparr>) (past w)))"
    and create_failed: "pe_Create E x w = (Some e, w') \<Longrightarrow> store w' = store w \<and> past w' = past w"
    and status_failed: "pe_UpdateStatus E x w = (Inl e, w') \<Longrightarrow> store w' = store w \<and> past w' = past w"
    and update_failed: "pe_Update E x w = (Inl e, w') \<Longrightarrow> store w' = store w \<and> past w' = past w"
    and delete_failed: "pe_Delete E x w = (Some e, w') \<Longrightarrow> store w' = store w \<and> past w' = past w"
    and stored_name: "store w n = Some x \<Longrightarrow> nprr_Name x = n"
    and stored_past: "store w n = Some x \<Longrightarrow> x \<in> past w"
    and get_past: "pe_GetNPRR E w n = Inr x \<Longrightarrow> x \<in> past w \<and> nprr_Name x = n"
    and list_past: "pe_ListNPRRs E w = Inr xs \<Longrightarrow> set xs \<subseteq> past w"
    and clock: "pe_Now E w \<le> pe_Now E (snd (pe_Create E x w))" "pe_Now E w \<le> pe_Now E (snd (pe_Update E x w))"
      "pe_Now E w \<le> pe_Now E (snd (pe_UpdateStatus E x w))" "pe_Now E w \<le> pe_Now E (snd (pe_Delete E x w))"

locale accepting_api = nprr_api +
  assumes create_accepts: "store w (nprr_Name x) = None \<Longrightarrow> fst (pe_Create E x w) = None"
    and create_exists: "store w (nprr_Name x) = Some cur \<Longrightarrow> fst (pe_Create E x w) = Some AlreadyExists"
    and status_accepts: "current (store w) x cur \<Longrightarrow> \<exists>y. fst (pe_UpdateStatus E x w) = Inr y"
    and update_accepts: "current (store w) x cur \<Longrightarrow> \<exists>y. fst (pe_Update E x w) = Inr y"
    and pods_kept: "pe_GetPod E (snd (pe_UpdateStatus E x w)) ns n = pe_GetPod E w ns n"

section \<open>Grace periods\<close>

text \<open>
  Every expiry that was ever stored for a request was first stored by a call that began at least the grace period,
  less the second the server cuts, before it. \<open>marks\<close> are the names with the start times of such calls.
\<close>

definition graced :: "NATPortRangeRequest set \<Rightarrow> (string \<times> gotime) set \<Rightarrow> bool" where
  "graced P marks \<longleftrightarrow> (\<forall>x \<in> P. \<forall>e. expiry_of x = Some e \<longrightarrow>
     (\<exists>t. (nprr_Name x, t) \<in> marks \<and> t + deletionGracePeriod < e + second))"

text \<open>The requests for which a call stored an expiry no version before it had.\<close>

definition newly_marked :: "NATPortRangeRequest set \<Rightarrow> NATPortRangeRequest set \<Rightarrow> string set" where
  "newly_marked P P' = {n. \<exists>x \<in> P'. nprr_Name x = n \<and> expiry_of x \<noteq> None \<and>
     (\<forall>y \<in> P. nprr_Name y = n \<longrightarrow> expiry_of y \<noteq> expiry_of x)}"

definition marks_after :: "gotime \<Rightarrow> NATPortRangeRequest set \<Rightarrow> NATPortRangeRequest set \<Rightarrow> (string \<times> gotime) set \<Rightarrow> (string \<times> gotime) set" where
  "marks_after t P P' marks = marks \<union> newly_marked P P' \<times> {t}"

text \<open>The versions in \<open>P'\<close> are older versions, as far as expiries go, or were given the grace period from \<open>t\<close> on.\<close>

definition late_expiries :: "gotime \<Rightarrow> NATPortRangeRequest set \<Rightarrow> NATPortRangeRequest set \<Rightarrow> bool" where
  "late_expiries t P P' \<longleftrightarrow> P \<subseteq> P' \<and> (\<forall>x \<in> P'. \<forall>e. expiry_of x = Some e \<longrightarrow>
     t + deletionGracePeriod < e + second \<or> (\<exists>y \<in> P. nprr_Name y = nprr_Name x \<and> expiry_of y = expiry_of x))"

lemma graced_after:
  assumes "graced P marks" "late_expiries t P P'"
  shows "graced P' (marks_after t P P' marks)"
  unfolding graced_def
proof (intro ballI allI impI)
  fix x e assume x: "x \<in> P'" "expiry_of x = Some e"
  show "\<exists>s. (nprr_Name x, s) \<in> marks_after t P P' marks \<and> s + deletionGracePeriod < e + second"
  proof (cases "\<exists>y \<in> P. nprr_Name y = nprr_Name x \<and> expiry_of y = expiry_of x")
    case True
    then obtain y where y: "y \<in> P" "nprr_Name y = nprr_Name x" "expiry_of y = Some e" using x(2) by auto
    with assms(1) show ?thesis unfolding graced_def marks_after_def by (metis UnI1)
  next
    case False
    then have "(nprr_Name x, t) \<in> marks_after t P P' marks" using x by (auto simp: marks_after_def newly_marked_def)
    with assms(2) x False show ?thesis unfolding late_expiries_def by blast
  qed
qed

lemma late_refl [simp]: "late_expiries t P P"
  by (auto simp: late_expiries_def)

lemma late_insert:
  assumes "late_expiries t P Q" "\<And>e. expiry_of x = Some e \<Longrightarrow>
     t + deletionGracePeriod < e + second \<or> (\<exists>y \<in> Q. nprr_Name y = nprr_Name x \<and> expiry_of y = expiry_of x)"
  shows "late_expiries t P (insert x Q)"
  using assms unfolding late_expiries_def by (metis insert_iff subset_insertI2)

context nprr_api
begin

text \<open>Every call of a handler keeps this relation to the world \<open>w0\<close> in which the handler began.\<close>

definition since :: "'w \<Rightarrow> 'w \<Rightarrow> bool" where
  "since w0 w \<longleftrightarrow> late_expiries (pe_Now E w0) (past w0) (past w) \<and> pe_Now E w0 \<le> pe_Now E w"

lemma since_refl: "since w w"
  by (simp add: since_def)

lemma since_status:
  assumes run: "pe_UpdateStatus E (with_expiry x e) v = (r, v')" and v: "since w0 v"
    and e: "e = None \<or> e = Some (pe_Now E v + deletionGracePeriod)"
  shows "since w0 v'"
proof -
  have now: "pe_Now E w0 \<le> pe_Now E v'" using clock(3) [of v "with_expiry x e"] v run by (simp add: since_def)
  show ?thesis
  proof (cases r)
    case (Inl err)
    with status_failed run v now show ?thesis by (auto simp: since_def)
  next
    case (Inr y)
    from status_ok [OF run [unfolded Inr]] obtain cur where y: "status_written cur (with_expiry x e) y" "past v' = insert y (past v)"
      by blast
    have "pe_Now E w0 + deletionGracePeriod < d + second" if "expiry_of y = Some d" for d
      using y(1) that e v by (auto simp: status_written_def cut_to_second_def since_def)
    with v now y(2) show ?thesis by (auto simp: since_def intro!: late_insert)
  qed
qed

lemma since_update:
  assumes run: "pe_Update E x v = (r, v')" and v: "since w0 v"
  shows "since w0 v'"
proof -
  have now: "pe_Now E w0 \<le> pe_Now E v'" using clock(2) [of v x] v run by (simp add: since_def)
  show ?thesis
  proof (cases r)
    case (Inl err)
    with update_failed run v now show ?thesis by (auto simp: since_def)
  next
    case (Inr y)
    from update_ok [OF run [unfolded Inr]] obtain cur where cur: "current (store v) x cur" "spec_written cur x y"
      and past: "past v' = insert y (past v)" by blast
    have "cur \<in> past v" "nprr_Name cur = nprr_Name y" "expiry_of cur = expiry_of y"
      using cur stored_past by (auto simp: current_def spec_written_def)
    with v now past show ?thesis by (auto simp: since_def intro!: late_insert)
  qed
qed

lemma since_create:
  assumes run: "pe_Create E (new_nprr pod nc) v = (r, v')" and v: "since w0 v"
  shows "since w0 v'"
proof -
  have now: "pe_Now E w0 \<le> pe_Now E v'" using clock(1) [of v "new_nprr pod nc"] v run by (simp add: since_def)
  show ?thesis
  proof (cases r)
    case (Some err)
    with create_failed run v now show ?thesis by (auto simp: since_def)
  next
    case None
    with create_ok run obtain u where "past v' = insert ((new_nprr pod nc)\<lparr>nprr_ResourceVersion := u\<rparr>) (past v)" by blast
    with v now show ?thesis by (auto simp: since_def new_nprr_def intro!: late_insert)
  qed
qed

lemma since_delete:
  assumes run: "pe_Delete E x v = (r, v')" and v: "since w0 v"
  shows "since w0 v'"
proof -
  have now: "pe_Now E w0 \<le> pe_Now E v'" using clock(4) [of v x] v run by (simp add: since_def)
  show ?thesis
  proof (cases r)
    case (Some err)
    with delete_failed run v now show ?thesis by (auto simp: since_def)
  next
    case None
    from delete_ok [OF run [unfolded None]] obtain cur t u where "store v (nprr_Name x) = Some cur"
      "past v' = past v \<or> past v' = insert (cur\<lparr>nprr_DeletionTimestamp := Some t, nprr_ResourceVersion := u\<rparr>) (past v)" by blast
    with v now stored_past show ?thesis by (fastforce simp: since_def intro!: late_insert)
  qed
qed

lemma since_grace: "start_grace E f x v = (r, v') \<Longrightarrow> since w0 v \<Longrightarrow> since w0 v'"
  by (auto simp: start_grace_def unless_conflict_def split: prod.splits sum.splits dest: since_status)

lemma since_keep:
  assumes "keep_request E pod x v = (r, v')" "since w0 v"
  shows "since w0 v'"
  using assms since_status [where x = x and e = None] since_update
  by (fastforce simp: keep_request_def unless_conflict_def Let_def split: prod.splits sum.splits if_splits)

lemma since_bodies:
  "create_missing E pod ex c v = (r, v') \<Longrightarrow> since w0 v \<Longrightarrow> since w0 v'"
  "settle_request E pod M ex c v = (r, v') \<Longrightarrow> since w0 v \<Longrightarrow> since w0 v'"
  "mark_gone E x v = (r, v') \<Longrightarrow> since w0 v \<Longrightarrow> since w0 v'"
  "sync_request E node x v = (r, v') \<Longrightarrow> since w0 v \<Longrightarrow> since w0 v'"
  by (auto simp: create_missing_def settle_request_def mark_gone_def sync_request_def Let_def
      split: if_splits prod.splits option.splits sum.splits dest: since_create since_grace since_keep)

lemma since_loops:
  "for_ret (create_missing E pod ex) cs v = (r, v') \<Longrightarrow> since w0 v \<Longrightarrow> since w0 v'"
  "for_ret (settle_request E pod M ex) cs v = (r, v') \<Longrightarrow> since w0 v \<Longrightarrow> since w0 v'"
  "for_ret (mark_gone E) xs v = (r, v') \<Longrightarrow> since w0 v \<Longrightarrow> since w0 v'"
  "for_ret (sync_request E node) xs v = (r, v') \<Longrightarrow> since w0 v \<Longrightarrow> since w0 v'"
  by (erule for_ret_invariant [where I = "since w0"]; blast dest: since_bodies)+

lemma finish_eq: "finish x = (r, w) \<Longrightarrow> \<exists>r'. x = (r', w)"
  by (cases x) (auto simp: finish_def split: option.splits)

lemma since_handlePodGone: "handlePodGone E ns name w = (r, w') \<Longrightarrow> since w w'"
  using since_refl [of w] by (auto simp: handlePodGone_def split: sum.splits dest!: finish_eq dest: since_loops(3))

lemma since_reconcilePod: "reconcilePod E o1 o2 ns name w = (r, w') \<Longrightarrow> since w w'"
  using since_refl [of w]
  by (auto simp: reconcilePod_def Let_def split: sum.splits if_splits prod.splits option.splits
      dest!: finish_eq dest: since_handlePodGone since_loops(1) since_loops(2))

lemma since_Sync: "Sync E node w = (r, w') \<Longrightarrow> since w w'"
  using since_refl [of w] by (auto simp: Sync_def split: sum.splits dest!: finish_eq dest: since_loops(4))

lemma since_reconcileDaemonNPRR: "reconcileDaemonNPRR E node name w = (r, w') \<Longrightarrow> since w w'"
  using since_refl [of w]
  by (auto simp: reconcileDaemonNPRR_def Let_def split: sum.splits if_splits prod.splits option.splits dest: since_delete)

end

end
