(* ===== verification/PodInv.thy ===== *)
theory PodInv
  imports PodStore
begin

text \<open>
  The runs of the daemons' request handling and their invariant. A \<open>daemon_call\<close> is one call of a handler of
  any daemon; between calls others (the operator, users, a new version of the cache) may do anything except store
  an expiry of their own. Only \<open>reconcileDaemonNPRR\<close> deletes, and only after the grace period.
\<close>

section \<open>Calls and runs\<close>

inductive daemon_call :: "'w podEnv \<Rightarrow> 'w \<Rightarrow> 'w \<Rightarrow> bool" for E :: "'w podEnv" where
  call_pod: "reconcilePod E o1 o2 ns name w = (r, w') \<Longrightarrow> daemon_call E w w'"
| call_request: "reconcileDaemonNPRR E node name w = (r, w') \<Longrightarrow> daemon_call E w w'"
| call_sync: "Sync E node w = (r, w') \<Longrightarrow> daemon_call E w w'"

inductive_cases daemon_callE: "daemon_call E w w'"

definition others_step :: "('w \<Rightarrow> NATPortRangeRequest set) \<Rightarrow> 'w \<Rightarrow> 'w \<Rightarrow> bool" where
  "others_step past w w' \<longleftrightarrow> past w \<subseteq> past w' \<and> (\<forall>x \<in> past w'. expiry_of x \<noteq> None \<longrightarrow>
     (\<exists>y \<in> past w. nprr_Name y = nprr_Name x \<and> expiry_of y = expiry_of x))"

inductive nprr_run :: "'w podEnv \<Rightarrow> ('w \<Rightarrow> NATPortRangeRequest set) \<Rightarrow> 'w \<Rightarrow> (string \<times> gotime) set \<Rightarrow> bool"
  for E :: "'w podEnv" and past :: "'w \<Rightarrow> NATPortRangeRequest set" where
  run_start: "\<forall>x \<in> past w. expiry_of x = None \<Longrightarrow> nprr_run E past w {}"
| run_call: "nprr_run E past w marks \<Longrightarrow> daemon_call E w w' \<Longrightarrow>
    nprr_run E past w' (marks_after (pe_Now E w) (past w) (past w') marks)"
| run_others: "nprr_run E past w marks \<Longrightarrow> others_step past w w' \<Longrightarrow> nprr_run E past w' marks"

context nprr_api
begin

lemma call_since: "daemon_call E w w' \<Longrightarrow> since w w'"
  by (auto elim!: daemon_callE dest: since_reconcilePod since_reconcileDaemonNPRR since_Sync)

lemma run_graced: "nprr_run E past w marks \<Longrightarrow> graced (past w) marks"
proof (induction rule: nprr_run.induct)
  case (run_call w marks w')
  then show ?case using call_since by (auto simp: since_def intro: graced_after)
next
  case (run_others w marks w')
  show ?case
    unfolding graced_def
  proof (intro ballI allI impI)
    fix x e assume x: "x \<in> past w'" "expiry_of x = Some e"
    with run_others.hyps(2) obtain y where y: "y \<in> past w" "nprr_Name y = nprr_Name x" "expiry_of y = Some e"
      unfolding others_step_def by (metis option.distinct(1))
    from bspec [OF run_others.IH [unfolded graced_def] y(1)] y(2,3)
    show "\<exists>t. (nprr_Name x, t) \<in> marks \<and> t + deletionGracePeriod < e + second" by simp
  qed
qed (simp add: graced_def)

section \<open>What the handlers keep\<close>

definition undeleted :: "'w \<Rightarrow> 'w \<Rightarrow> bool" where
  "undeleted w0 w \<longleftrightarrow> (\<forall>n x. store w0 n = Some x \<longrightarrow>
     (\<exists>y. store w n = Some y \<and> nprr_DeletionTimestamp y = nprr_DeletionTimestamp x))"

lemma undeleted_refl: "undeleted w w"
  by (simp add: undeleted_def)

lemma undeleted_written:
  assumes "undeleted w0 v" "store v n = Some cur" "store v' = (store v)(n \<mapsto> y)"
    "nprr_DeletionTimestamp y = nprr_DeletionTimestamp cur"
  shows "undeleted w0 v'"
  using assms by (fastforce simp: undeleted_def)

lemma undeleted_status:
  assumes "pe_UpdateStatus E x v = (r, v')" "undeleted w0 v"
  shows "undeleted w0 v'"
proof (cases r)
  case (Inl e)
  with assms status_failed show ?thesis by (auto simp: undeleted_def)
next
  case (Inr y)
  with assms(1) status_ok obtain cur where "current (store v) x cur" "status_written cur x y"
    "store v' = (store v)(nprr_Name x \<mapsto> y)" by blast
  with assms(2) show ?thesis by (auto simp: current_def status_written_def intro: undeleted_written)
qed

lemma undeleted_update:
  assumes "pe_Update E x v = (r, v')" "undeleted w0 v"
  shows "undeleted w0 v'"
proof (cases r)
  case (Inl e)
  with assms update_failed show ?thesis by (auto simp: undeleted_def)
next
  case (Inr y)
  with assms(1) update_ok obtain cur where "current (store v) x cur" "spec_written cur x y"
    "store v' = (store v)(nprr_Name x \<mapsto> y)" by blast
  with assms(2) show ?thesis by (auto simp: current_def spec_written_def intro: undeleted_written)
qed

lemma undeleted_create:
  assumes "pe_Create E x v = (r, v')" "undeleted w0 v"
  shows "undeleted w0 v'"
proof (cases r)
  case (Some e)
  with assms create_failed show ?thesis by (auto simp: undeleted_def)
next
  case None
  with assms(1) create_ok obtain u where "store v (nprr_Name x) = None"
    "store v' = (store v)(nprr_Name x \<mapsto> x\<lparr>nprr_ResourceVersion := u\<rparr>)" by blast
  with assms(2) show ?thesis by (fastforce simp: undeleted_def)
qed

lemma undeleted_grace: "start_grace E f x v = (r, v') \<Longrightarrow> undeleted w0 v \<Longrightarrow> undeleted w0 v'"
  by (auto simp: start_grace_def unless_conflict_def split: prod.splits sum.splits dest: undeleted_status)

lemma undeleted_keep:
  assumes "keep_request E pod x v = (r, v')" "undeleted w0 v"
  shows "undeleted w0 v'"
  using assms undeleted_status undeleted_update
  by (fastforce simp: keep_request_def unless_conflict_def Let_def split: prod.splits sum.splits if_splits)

lemma undeleted_bodies:
  "create_missing E pod ex c v = (r, v') \<Longrightarrow> undeleted w0 v \<Longrightarrow> undeleted w0 v'"
  "settle_request E pod M ex c v = (r, v') \<Longrightarrow> undeleted w0 v \<Longrightarrow> undeleted w0 v'"
  "mark_gone E x v = (r, v') \<Longrightarrow> undeleted w0 v \<Longrightarrow> undeleted w0 v'"
  "sync_request E node x v = (r, v') \<Longrightarrow> undeleted w0 v \<Longrightarrow> undeleted w0 v'"
  by (auto simp: create_missing_def settle_request_def mark_gone_def sync_request_def Let_def
      split: if_splits prod.splits option.splits sum.splits dest: undeleted_create undeleted_grace undeleted_keep)

lemma undeleted_loops:
  "for_ret (create_missing E pod ex) cs v = (r, v') \<Longrightarrow> undeleted w0 v \<Longrightarrow> undeleted w0 v'"
  "for_ret (settle_request E pod M ex) cs v = (r, v') \<Longrightarrow> undeleted w0 v \<Longrightarrow> undeleted w0 v'"
  "for_ret (mark_gone E) xs v = (r, v') \<Longrightarrow> undeleted w0 v \<Longrightarrow> undeleted w0 v'"
  "for_ret (sync_request E node) xs v = (r, v') \<Longrightarrow> undeleted w0 v \<Longrightarrow> undeleted w0 v'"
  by (erule for_ret_invariant [where I = "undeleted w0"]; blast dest: undeleted_bodies)+

lemma undeleted_pod: "reconcilePod E o1 o2 ns name w = (r, w') \<Longrightarrow> undeleted w w'"
  using undeleted_refl [of w]
  by (auto simp: reconcilePod_def handlePodGone_def Let_def split: sum.splits if_splits prod.splits option.splits
      dest!: finish_eq dest: undeleted_loops(1) undeleted_loops(2) undeleted_loops(3))

lemma undeleted_Sync: "Sync E node w = (r, w') \<Longrightarrow> undeleted w w'"
  using undeleted_refl [of w] by (auto simp: Sync_def split: sum.splits dest!: finish_eq dest: undeleted_loops(4))

section \<open>Deletions\<close>

lemma deletion_due:
  assumes "reconcileDaemonNPRR E node name w = (r, w')" "store w' \<noteq> store w"
  shows "\<exists>x e. x \<in> past w \<and> nprr_Name x = name \<and> expiry_of x = Some e \<and> e \<le> pe_Now E w \<and>
     (\<forall>n. n \<noteq> name \<longrightarrow> store w' n = store w n)"
proof -
  from assms obtain x e d where x: "pe_GetNPRR E w name = Inr x" "expiry_of x = Some e" "e \<le> pe_Now E w"
    "pe_Delete E x w = (d, w')"
    by (auto simp: reconcileDaemonNPRR_def Let_def split: sum.splits if_splits option.splits prod.splits)
  have name: "nprr_Name x = name" "x \<in> past w" using get_past [OF x(1)] by auto
  from x(4) assms(2) delete_failed have "d = None" by (cases d) auto
  from delete_ok [OF x(4) [unfolded this]] name(1) have "\<forall>n. n \<noteq> name \<longrightarrow> store w' n = store w n" by auto
  with x name show ?thesis by blast
qed

lemma call_deletes_late:
  assumes run: "nprr_run E past w marks" and call: "daemon_call E w w'"
    and gone: "store w n = Some x" "\<And>y. store w' n = Some y \<Longrightarrow> nprr_DeletionTimestamp y \<noteq> nprr_DeletionTimestamp x"
  shows "\<exists>t. (n, t) \<in> marks \<and> t + deletionGracePeriod - second < pe_Now E w"
  using call
proof (cases rule: daemon_call.cases)
  case (call_request node name r)
  have "store w' n \<noteq> store w n" using gone by auto
  then obtain y e where y: "y \<in> past w" "nprr_Name y = n" "expiry_of y = Some e" "e \<le> pe_Now E w"
    using deletion_due [OF call_request] by metis
  from run_graced [OF run] y(1,3) obtain t where "(nprr_Name y, t) \<in> marks" "t + deletionGracePeriod < e + second"
    unfolding graced_def by blast
  with y show ?thesis by (intro exI [of _ t]) auto
next
  case (call_pod o1 o2 ns name r)
  from undeleted_pod [OF this] gone show ?thesis by (auto simp: undeleted_def)
next
  case (call_sync node r)
  from undeleted_Sync [OF this] gone show ?thesis by (auto simp: undeleted_def)
qed

end

end
