(* ===== verification/PodSettle.thy ===== *)
theory PodSettle
  imports PodInv
begin

text \<open>
  What a reconcile of a pod achieves on a server that accepts up-to-date writes, when the cache is in step with it:
  \<open>settled\<close> says what becomes of each request the pod has, \<open>asked_for\<close> which requests are new.
\<close>

section \<open>Loops\<close>

lemma for_ret_all:
  assumes "distinct xs" "I [] w"
    and "\<And>ys x v. I ys v \<Longrightarrow> x \<in> set xs \<Longrightarrow> x \<notin> set ys \<Longrightarrow> set ys \<subseteq> set xs \<Longrightarrow> \<exists>v'. f x v = (None, v') \<and> I (ys @ [x]) v'"
  shows "\<exists>w'. for_ret f xs w = (None, w') \<and> I xs w'"
proof -
  have "\<exists>w'. for_ret f zs v = (None, w') \<and> I (ys @ zs) w'" if "ys @ zs = xs" "I ys v" for ys zs v
    using that
  proof (induction zs arbitrary: ys v)
    case (Cons z zs)
    have "z \<notin> set ys" using assms(1) Cons.prems(1) by auto
    then obtain v' where v': "f z v = (None, v')" "I (ys @ [z]) v'" using assms(3) [OF Cons.prems(2), of z] Cons.prems(1) by fastforce
    from Cons.IH [of "ys @ [z]" v'] v' Cons.prems(1) show ?case by simp
  qed simp
  from this [of "[]" xs w] assms(2) show ?thesis by simp
qed

section \<open>The specification\<close>

definition belongs :: "string \<Rightarrow> string \<Rightarrow> NATPortRangeRequest \<Rightarrow> bool" where
  "belongs ns name x \<longleftrightarrow> nprr_PodNamespace (nprr_Spec x) @ ''/'' @ nprr_PodName (nprr_Spec x) = ns @ ''/'' @ name"

abbreviation config_for :: "NATPortRangeRequest \<Rightarrow> string" where
  "config_for x \<equiv> nprr_NATConfig (nprr_Spec x)"

text \<open>\<open>y\<close> is \<open>x\<close> with a grace period running.\<close>

definition expiring :: "NATPortRangeRequest \<Rightarrow> NATPortRangeRequest \<Rightarrow> bool" where
  "expiring x y \<longleftrightarrow> nprr_Name y = nprr_Name x \<and> nprr_DeletionTimestamp y = nprr_DeletionTimestamp x \<and>
     nprr_Spec y = nprr_Spec x \<and> expiry_of y \<noteq> None \<and> (expiry_of x \<noteq> None \<longrightarrow> y = x)"

definition still_wanted :: "Pod \<Rightarrow> NATPortRangeRequest \<Rightarrow> NATPortRangeRequest \<Rightarrow> bool" where
  "still_wanted pod x y \<longleftrightarrow> nprr_Name y = nprr_Name x \<and> nprr_DeletionTimestamp y = nprr_DeletionTimestamp x \<and>
     nprr_Spec y = (nprr_Spec x)\<lparr>nprr_PortRangeCount := desiredPortRangeCount pod\<rparr> \<and> expiry_of y = None"

definition settled :: "Pod \<Rightarrow> string set \<Rightarrow> NATPortRangeRequest \<Rightarrow> NATPortRangeRequest \<Rightarrow> bool" where
  "settled pod M x y \<longleftrightarrow>
     (if nprr_DeletionTimestamp x \<noteq> None then y = x
      else if pod_DeletionTimestamp pod \<noteq> None \<or> config_for x \<notin> M then expiring x y
      else still_wanted pod x y)"

definition gone_marked :: "NATPortRangeRequest \<Rightarrow> NATPortRangeRequest \<Rightarrow> bool" where
  "gone_marked x y \<longleftrightarrow> (if nprr_DeletionTimestamp x \<noteq> None then y = x else expiring x y)"

definition has_request :: "nprr_store \<Rightarrow> Pod \<Rightarrow> string \<Rightarrow> bool" where
  "has_request V pod c \<longleftrightarrow> (\<exists>x \<in> ran V. belongs (pod_Namespace pod) (pod_Name pod) x \<and> config_for x = c)"

definition one_each :: "nprr_store \<Rightarrow> Pod \<Rightarrow> bool" where
  "one_each V pod \<longleftrightarrow> (\<forall>x \<in> ran V. \<forall>y \<in> ran V. belongs (pod_Namespace pod) (pod_Name pod) x \<longrightarrow>
     belongs (pod_Namespace pod) (pod_Name pod) y \<longrightarrow> config_for x = config_for y \<longrightarrow> x = y)"

abbreviation request_name :: "Pod \<Rightarrow> string \<Rightarrow> string" where
  "request_name pod c \<equiv> nprrName (pod_Namespace pod) (pod_Name pod) c"

text \<open>The request the handler stores under the name \<open>n\<close>, up to its resource version.\<close>

definition asked_for :: "nprr_store \<Rightarrow> Pod \<Rightarrow> string set \<Rightarrow> string \<Rightarrow> string \<Rightarrow> bool" where
  "asked_for V pod C n c \<longleftrightarrow> c \<in> C \<and> \<not> has_request V pod c \<and> n = request_name pod c \<and> V n = None"

definition created :: "nprr_store \<Rightarrow> Pod \<Rightarrow> string set \<Rightarrow> nprr_store \<Rightarrow> bool" where
  "created V pod C V' \<longleftrightarrow> (\<forall>n. if \<exists>c. asked_for V pod C n c
     then \<exists>c u. asked_for V pod C n c \<and> V' n = Some ((new_nprr pod c)\<lparr>nprr_ResourceVersion := u\<rparr>) else V' n = V n)"

definition settled_on :: "NATPortRangeRequest set \<Rightarrow> Pod \<Rightarrow> string set \<Rightarrow> nprr_store \<Rightarrow> nprr_store \<Rightarrow> bool" where
  "settled_on X pod M V V' \<longleftrightarrow> (\<forall>n. case V n of None \<Rightarrow> V' n = None | Some x \<Rightarrow>
     if x \<in> X then \<exists>y. V' n = Some y \<and> settled pod M x y else V' n = Some x)"

text \<open>The two together: every request of the pod is settled, the missing ones are there, all else is as before.\<close>

definition pod_settled :: "Pod \<Rightarrow> string set \<Rightarrow> nprr_store \<Rightarrow> nprr_store \<Rightarrow> bool" where
  "pod_settled pod M V V' \<longleftrightarrow> (\<forall>n. case V n of
     Some x \<Rightarrow> if belongs (pod_Namespace pod) (pod_Name pod) x
       then \<exists>y. V' n = Some y \<and> settled pod M x y else V' n = Some x
   | None \<Rightarrow> if pod_DeletionTimestamp pod = None \<and> (\<exists>c. asked_for V pod M n c)
       then \<exists>c u. asked_for V pod M n c \<and> V' n = Some ((new_nprr pod c)\<lparr>nprr_ResourceVersion := u\<rparr>) else V' n = None)"

text \<open>The cache of requests is in step with the server.\<close>

definition in_step :: "'w podEnv \<Rightarrow> ('w \<Rightarrow> nprr_store) \<Rightarrow> 'w \<Rightarrow> bool" where
  "in_step E store w \<longleftrightarrow> (\<exists>xs. pe_ListNPRRs E w = Inr xs \<and> set xs = ran (store w) \<and> distinct xs)"

lemma nprrName_config [simp]: "nprrName ns pod c = nprrName ns pod c' \<longleftrightarrow> c = c'"
  by (simp add: nprrName_def)

lemma new_nprr_name [simp]: "nprr_Name (new_nprr pod c) = request_name pod c"
  by (simp add: new_nprr_def)

lemma existingNCs_map_of: "existingNCs xs = map_of (rev (map (\<lambda>x. (config_for x, x)) xs))"
  by (induction xs rule: rev_induct) (simp_all add: existingNCs_def)

lemma existing_iff:
  assumes "set xs = {x \<in> ran V. belongs (pod_Namespace pod) (pod_Name pod) x}" "one_each V pod"
  shows "existingNCs xs c = Some x \<longleftrightarrow> x \<in> ran V \<and> belongs (pod_Namespace pod) (pod_Name pod) x \<and> config_for x = c"
proof
  assume "existingNCs xs c = Some x"
  then have "(c, x) \<in> set (rev (map (\<lambda>x. (config_for x, x)) xs))" unfolding existingNCs_map_of by (rule map_of_SomeD)
  then show "x \<in> ran V \<and> belongs (pod_Namespace pod) (pod_Name pod) x \<and> config_for x = c" using assms(1) by auto
next
  assume x: "x \<in> ran V \<and> belongs (pod_Namespace pod) (pod_Name pod) x \<and> config_for x = c"
  then have "existingNCs xs c \<noteq> None" using assms(1) by (auto simp: existingNCs_map_of map_of_eq_None_iff image_iff)
  then obtain y where y: "existingNCs xs c = Some y" by blast
  then have "(c, y) \<in> set (rev (map (\<lambda>x. (config_for x, x)) xs))" unfolding existingNCs_map_of by (rule map_of_SomeD)
  then have "y \<in> ran V \<and> belongs (pod_Namespace pod) (pod_Name pod) y \<and> config_for y = c" using assms(1) by auto
  with x y assms(2) show "existingNCs xs c = Some x" unfolding one_each_def by metis
qed

lemma existing_dom:
  assumes "set xs = {x \<in> ran V. belongs (pod_Namespace pod) (pod_Name pod) x}" "one_each V pod"
  shows "existingNCs xs c = None \<longleftrightarrow> \<not> has_request V pod c"
  using existing_iff [OF assms, of c] by (cases "existingNCs xs c") (auto simp: has_request_def)

section \<open>Single writes\<close>

context accepting_api
begin

lemma grace_accepted:
  assumes "store v (nprr_Name x) = Some x" "expiry_of x = None"
  shows "\<exists>v' y. start_grace E f x v = (None, v') \<and> store v' = (store v)(nprr_Name x \<mapsto> y) \<and> expiring x y \<and>
     (\<forall>ns n. pe_GetPod E v' ns n = pe_GetPod E v ns n)"
proof -
  let ?x = "with_expiry x (Some (pe_Now E v + deletionGracePeriod))"
  obtain r v' where run: "pe_UpdateStatus E ?x v = (r, v')" by fastforce
  have "current (store v) ?x x" using assms by (simp add: current_def)
  with status_accepts run obtain y where r: "r = Inr y" by (metis fst_conv)
  from status_ok [OF run [unfolded r]] assms have "status_written x ?x y" "store v' = (store v)(nprr_Name x \<mapsto> y)"
    by (auto simp: current_def)
  moreover from this have "expiring x y"
    using assms(2) by (auto simp: status_written_def expiring_def cut_to_second_def split: option.splits)
  moreover have "pe_GetPod E v' ns n = pe_GetPod E v ns n" for ns n using pods_kept [of ?x v ns n] run by simp
  ultimately show ?thesis by (auto simp: start_grace_def run r unless_conflict_def)
qed

lemma keep_accepted:
  assumes "store v (nprr_Name x) = Some x"
  shows "\<exists>v' y. keep_request E pod x v = (None, v') \<and> store v' = (store v)(nprr_Name x \<mapsto> y) \<and> still_wanted pod x y"
proof -
  let ?cnt = "\<lambda>z. z\<lparr>nprr_Spec := (nprr_Spec z)\<lparr>nprr_PortRangeCount := desiredPortRangeCount pod\<rparr>\<rparr>"
  have second_write: "\<exists>v' y. (if \<not> equalPortRangeCount (desiredPortRangeCount pod) (nprr_PortRangeCount (nprr_Spec z))
      then unless_conflict PodErr (pe_Update E (?cnt z) u) else (None, u)) = (None, v') \<and>
      store v' = (store v)(nprr_Name x \<mapsto> y) \<and> still_wanted pod x y"
    if z: "store u = (store v)(nprr_Name x \<mapsto> z)" "nprr_Name z = nprr_Name x" "nprr_Spec z = nprr_Spec x"
      "nprr_DeletionTimestamp z = nprr_DeletionTimestamp x" "expiry_of z = None" for u z
  proof (cases "equalPortRangeCount (desiredPortRangeCount pod) (nprr_PortRangeCount (nprr_Spec z))")
    case True
    then have "still_wanted pod x z" using z by (auto simp: still_wanted_def equalPortRangeCount_def split: option.splits)
    with True z show ?thesis by auto
  next
    case False
    obtain r u' where run: "pe_Update E (?cnt z) u = (r, u')" by fastforce
    have "current (store u) (?cnt z) z" using z by (simp add: current_def)
    with update_accepts run obtain y where r: "r = Inr y" by (metis fst_conv)
    from update_ok [OF run [unfolded r]] z have "spec_written z (?cnt z) y" "store u' = (store u)(nprr_Name x \<mapsto> y)"
      by (auto simp: current_def)
    then have "store u' = (store v)(nprr_Name x \<mapsto> y)" "still_wanted pod x y" using z by (auto simp: spec_written_def still_wanted_def)
    moreover have "unless_conflict PodErr (pe_Update E (?cnt z) u) = (None, u')" by (simp only: run r unless_conflict_def) simp
    ultimately show ?thesis using False by auto
  qed
  show ?thesis
  proof (cases "expiry_of x")
    case None
    with second_write [of v x] assms show ?thesis by (auto simp: keep_request_def fun_upd_idem)
  next
    case (Some e)
    obtain r u where run: "pe_UpdateStatus E (with_expiry x None) v = (r, u)" by fastforce
    have "current (store v) (with_expiry x None) x" using assms by (simp add: current_def)
    with status_accepts run obtain z where r: "r = Inr z" by (metis fst_conv)
    from status_ok [OF run [unfolded r]] assms have "status_written x (with_expiry x None) z" "store u = (store v)(nprr_Name x \<mapsto> z)"
      by (auto simp: current_def)
    with second_write [of u z] Some run r show ?thesis
      by (auto simp: keep_request_def status_written_def cut_to_second_def split: option.splits)
  qed
qed

lemma settle_accepted:
  assumes "existing c = Some x" "config_for x = c" "store v (nprr_Name x) = Some x"
  shows "\<exists>v' y. settle_request E pod M existing c v = (None, v') \<and> store v' = (store v)(nprr_Name x \<mapsto> y) \<and> settled pod M x y"
proof -
  have stay: "store v = (store v)(nprr_Name x \<mapsto> x)" using assms(3) by (simp add: fun_upd_idem)
  consider "nprr_DeletionTimestamp x \<noteq> None"
    | "nprr_DeletionTimestamp x = None" "pod_DeletionTimestamp pod \<noteq> None \<or> c \<notin> M" "expiry_of x = None"
    | "nprr_DeletionTimestamp x = None" "pod_DeletionTimestamp pod \<noteq> None \<or> c \<notin> M" "expiry_of x \<noteq> None"
    | "nprr_DeletionTimestamp x = None" "pod_DeletionTimestamp pod = None" "c \<in> M" by blast
  then show ?thesis
  proof cases
    case 1
    with stay assms show ?thesis by (auto simp: settle_request_def settled_def)
  next
    case 2
    with grace_accepted [OF assms(3), of PodErr] assms show ?thesis by (auto simp: settle_request_def settled_def)
  next
    case 3
    then have "settled pod M x x" using assms(2) by (auto simp: settled_def expiring_def)
    with 3 stay assms show ?thesis by (auto simp: settle_request_def)
  next
    case 4
    with keep_accepted [OF assms(3)] assms show ?thesis by (auto simp: settle_request_def settled_def)
  qed
qed

lemma create_accepted:
  assumes "existing c \<noteq> None \<longleftrightarrow> has_request V pod c" "created V pod C (store v)" "c \<notin> C"
  shows "\<exists>v'. create_missing E pod existing c v = (None, v') \<and> created V pod (insert c C) (store v')"
proof (cases "asked_for V pod {c} (request_name pod c) c")
  case True
  then have "\<not> (\<exists>c'. asked_for V pod C (request_name pod c) c')" using assms(3) by (auto simp: asked_for_def)
  then have free: "store v (request_name pod c) = None" using assms(2) True by (auto simp: created_def asked_for_def)
  obtain r v' where run: "pe_Create E (new_nprr pod c) v = (r, v')" by fastforce
  have r: "r = None" using create_accepts [of v "new_nprr pod c"] free run by simp
  from create_ok [OF run [unfolded r]] obtain u where
    st: "store v' = (store v)(request_name pod c \<mapsto> (new_nprr pod c)\<lparr>nprr_ResourceVersion := u\<rparr>)" by auto
  have "created V pod (insert c C) (store v')"
    unfolding created_def
  proof
    fix n
    show "if \<exists>c'. asked_for V pod (insert c C) n c' then \<exists>c' u. asked_for V pod (insert c C) n c' \<and>
        store v' n = Some ((new_nprr pod c')\<lparr>nprr_ResourceVersion := u\<rparr>) else store v' n = V n"
    proof (cases "n = request_name pod c")
      case True
      then have "asked_for V pod (insert c C) n c" using \<open>asked_for V pod {c} (request_name pod c) c\<close> by (simp add: asked_for_def)
      with st True show ?thesis by auto
    next
      case False
      then have "asked_for V pod (insert c C) n c' \<longleftrightarrow> asked_for V pod C n c'" for c' by (auto simp: asked_for_def)
      then show ?thesis using spec [OF assms(2) [unfolded created_def], of n] st False by (auto split: if_splits)
    qed
  qed
  moreover have "create_missing E pod existing c v = (None, v')"
    using True assms(1) by (simp add: create_missing_def run r asked_for_def)
  ultimately show ?thesis by blast
next
  case False
  then have "asked_for V pod (insert c C) n c' \<longleftrightarrow> asked_for V pod C n c'" for n c' by (auto simp: asked_for_def)
  then have same: "created V pod (insert c C) (store u) \<longleftrightarrow> created V pod C (store u)" for u by (simp add: created_def)
  show ?thesis
  proof (cases "has_request V pod c")
    case True
    with assms(1,2) same show ?thesis by (auto simp: create_missing_def)
  next
    case no: False
    with False have "V (request_name pod c) \<noteq> None" by (simp add: asked_for_def)
    then obtain cur where "store v (nprr_Name (new_nprr pod c)) = Some cur"
      using assms(2) unfolding created_def asked_for_def by (metis new_nprr_name not_None_eq)
    from create_exists [OF this] obtain v' where run: "pe_Create E (new_nprr pod c) v = (Some AlreadyExists, v')"
      by (metis prod.collapse)
    with create_failed [OF run] assms(1,2) same no show ?thesis by (auto simp: create_missing_def)
  qed
qed

lemma create_loop:
  assumes "\<And>c. existing c \<noteq> None \<longleftrightarrow> has_request (store w) pod c" "finite M"
  shows "\<exists>w'. for_ret (create_missing E pod existing) (visit ord M) w = (None, w') \<and> created (store w) pod M (store w')"
proof -
  have "\<exists>w'. for_ret (create_missing E pod existing) (visit ord M) w = (None, w') \<and>
      created (store w) pod (set (visit ord M)) (store w')"
  proof (rule for_ret_all [where I = "\<lambda>ys v. created (store w) pod (set ys) (store v)"])
    show "created (store w) pod (set []) (store w)" by (simp add: created_def asked_for_def)
    fix ys c v assume "created (store w) pod (set ys) (store v)" "c \<notin> set ys"
    from create_accepted [of existing c "store w" pod "set ys" v, OF assms(1) this] show "\<exists>v'. create_missing E pod existing c v = (None, v') \<and>
      created (store w) pod (set (ys @ [c])) (store v')" by simp
  qed (use assms(2) in simp)
  with assms(2) show ?thesis by simp
qed

lemma settle_loop:
  assumes ex: "\<And>c x. existing c = Some x \<Longrightarrow> config_for x = c \<and> store w (nprr_Name x) = Some x"
    and fin: "finite (dom existing)"
  shows "\<exists>w'. for_ret (settle_request E pod M existing) (visit ord (dom existing)) w = (None, w') \<and>
     settled_on (ran existing) pod M (store w) (store w')"
proof -
  let ?done = "\<lambda>ys. {x. \<exists>c \<in> set ys. existing c = Some x}"
  have "\<exists>w'. for_ret (settle_request E pod M existing) (visit ord (dom existing)) w = (None, w') \<and>
      settled_on (?done (visit ord (dom existing))) pod M (store w) (store w')"
  proof (rule for_ret_all [where I = "\<lambda>ys v. settled_on (?done ys) pod M (store w) (store v)"])
    show "settled_on (?done []) pod M (store w) (store w)" by (simp add: settled_on_def split: option.splits)
    fix ys c v assume I: "settled_on (?done ys) pod M (store w) (store v)" and c: "c \<in> set (visit ord (dom existing))" "c \<notin> set ys"
    from c fin obtain x where x: "existing c = Some x" by auto
    have new: "x \<notin> ?done ys"
    proof
      assume "x \<in> ?done ys"
      then obtain c' where "c' \<in> set ys" "existing c' = Some x" by blast
      with ex [OF this(2)] ex [OF x] c(2) show False by simp
    qed
    have "store v (nprr_Name x) = Some x"
      using spec [OF I [unfolded settled_on_def], of "nprr_Name x"] new conjunct2 [OF ex [OF x]] by simp
    from settle_accepted [of existing, OF x conjunct1 [OF ex [OF x]] this]
    obtain v' y where v': "settle_request E pod M existing c v = (None, v')"
      "store v' = (store v)(nprr_Name x \<mapsto> y)" "settled pod M x y" by blast
    have done_eq: "?done (ys @ [c]) = insert x (?done ys)" using x by auto
    have "settled_on (insert x (?done ys)) pod M (store w) (store v')"
      unfolding settled_on_def
    proof
      fix n
      show "case store w n of None \<Rightarrow> store v' n = None | Some z \<Rightarrow>
          if z \<in> insert x (?done ys) then \<exists>y. store v' n = Some y \<and> settled pod M z y else store v' n = Some z"
      proof (cases "n = nprr_Name x")
        case True
        with v' conjunct2 [OF ex [OF x]] show ?thesis by simp
      next
        case False
        then have "store w n \<noteq> Some x" using stored_name by blast
        with spec [OF I [unfolded settled_on_def], of n] v'(2) False show ?thesis by (cases "store w n") auto
      qed
    qed
    with v'(1) done_eq show "\<exists>v'. settle_request E pod M existing c v = (None, v') \<and>
      settled_on (?done (ys @ [c])) pod M (store w) (store v')" by simp
  qed (use fin in simp)
  moreover have "?done (visit ord (dom existing)) = ran existing" using fin by (auto simp: ran_def dom_def)
  ultimately show ?thesis by simp
qed

section \<open>The handlers\<close>

lemma by_identity:
  assumes "in_step E store w"
  shows "\<exists>xs. list_by_identity E (ns @ ''/'' @ name) w = Inr xs \<and> set xs = {x \<in> ran (store w). belongs ns name x} \<and> distinct xs"
  using assms by (auto simp: in_step_def list_by_identity_def podIdentity_def belongs_def)

lemma reconcilePod_settles:
  assumes pod: "pe_GetPod E w ns name = Inr pod" "pod_PodIP pod \<noteq> []" and cfgs: "pe_ListNATConfigs E w = Inr ncs"
    and step: "in_step E store w" and one: "one_each (store w) pod"
  shows "\<exists>w'. reconcilePod E o1 o2 ns name w = (Requeue 0, w') \<and> pod_settled pod (matchingNCs E pod ncs) (store w) (store w')"
proof -
  let ?M = "matchingNCs E pod ncs"
  obtain xs where xs: "list_by_identity E (pod_Namespace pod @ ''/'' @ pod_Name pod) w = Inr xs"
    "set xs = {x \<in> ran (store w). belongs (pod_Namespace pod) (pod_Name pod) x}"
    using by_identity [OF step, of "pod_Namespace pod" "pod_Name pod"] by blast
  let ?ex = "existingNCs xs"
  note ex = existing_iff [OF xs(2) one]
  have fin: "finite ?M" "finite (dom ?ex)" by (simp_all add: matchingNCs_def existingNCs_map_of finite_dom_map_of)
  obtain w1 where w1: "(if pod_DeletionTimestamp pod = None then for_ret (create_missing E pod ?ex) (visit o1 ?M) w
      else (None, w)) = (None, w1)" "created (store w) pod (if pod_DeletionTimestamp pod = None then ?M else {}) (store w1)"
  proof (cases "pod_DeletionTimestamp pod")
    case None
    then show ?thesis using that create_loop [OF _ fin(1), of ?ex w pod o1] existing_dom [OF xs(2) one] by auto
  next
    case (Some t)
    then show ?thesis using that by (simp add: created_def asked_for_def)
  qed
  have old: "store w1 n = Some x" if "store w n = Some x" for n x
    using spec [OF w1(2) [unfolded created_def], of n] that by (auto simp: asked_for_def split: if_splits)
  have "config_for x = c \<and> store w1 (nprr_Name x) = Some x" if "?ex c = Some x" for c x
    using that old stored_name unfolding ex by (auto simp: ran_def)
  from settle_loop [OF this fin(2), of pod ?M o2] obtain w' where
    w': "for_ret (settle_request E pod ?M ?ex) (visit o2 (dom ?ex)) w1 = (None, w')"
    "settled_on (ran ?ex) pod ?M (store w1) (store w')" by blast
  have ran: "x \<in> ran ?ex \<longleftrightarrow> x \<in> ran (store w) \<and> belongs (pod_Namespace pod) (pod_Name pod) x" for x
    using ex unfolding ran_def by (simp add: ran_def)
  have "reconcilePod E o1 o2 ns name w = (Requeue 0, w')"
    using w1(1) w'(1) by (simp add: reconcilePod_def pod cfgs xs(1) [simplified] Let_def finish_def)
  moreover have "pod_settled pod ?M (store w) (store w')"
    unfolding pod_settled_def
  proof
    fix n
    note st = spec [OF w'(2) [unfolded settled_on_def], of n] and cr = spec [OF w1(2) [unfolded created_def], of n]
    show "case store w n of Some x \<Rightarrow> if belongs (pod_Namespace pod) (pod_Name pod) x
          then \<exists>y. store w' n = Some y \<and> settled pod ?M x y else store w' n = Some x
      | None \<Rightarrow> if pod_DeletionTimestamp pod = None \<and> (\<exists>c. asked_for (store w) pod ?M n c)
          then \<exists>c u. asked_for (store w) pod ?M n c \<and> store w' n = Some ((new_nprr pod c)\<lparr>nprr_ResourceVersion := u\<rparr>)
          else store w' n = None"
    proof (cases "store w n")
      case (Some x)
      then show ?thesis using st old [OF Some] ran by (auto simp: ran_def split: if_splits)
    next
      case None
      have fresh: "z \<notin> ran (store w)" if "store w1 n = Some z" for z
        using that stored_name None by (auto simp: ran_def) (metis option.distinct(1))
      then show ?thesis using st cr None ran by (cases "store w1 n") (auto simp: asked_for_def split: if_splits)
    qed
  qed
  ultimately show ?thesis by blast
qed

lemma mark_loop:
  assumes "distinct xs" "\<And>x. x \<in> set xs \<Longrightarrow> store w (nprr_Name x) = Some x"
    and body: "\<And>x v. x \<in> set xs \<Longrightarrow> store v (nprr_Name x) = Some x \<Longrightarrow> (\<And>ns n. pe_GetPod E v ns n = pe_GetPod E w ns n) \<Longrightarrow>
       \<exists>v' y. f x v = (None, v') \<and> store v' = (store v)(nprr_Name x \<mapsto> y) \<and> R x y \<and> (\<forall>ns n. pe_GetPod E v' ns n = pe_GetPod E w ns n)"
  shows "\<exists>w'. for_ret f xs w = (None, w') \<and> (\<forall>n. case store w n of None \<Rightarrow> store w' n = None
     | Some x \<Rightarrow> if x \<in> set xs then \<exists>y. store w' n = Some y \<and> R x y else store w' n = Some x)"
proof -
  let ?I = "\<lambda>ys v. (\<forall>n. case store w n of None \<Rightarrow> store v n = None
     | Some x \<Rightarrow> if x \<in> set ys then \<exists>y. store v n = Some y \<and> R x y else store v n = Some x) \<and>
     (\<forall>ns n. pe_GetPod E v ns n = pe_GetPod E w ns n)"
  have "\<exists>w'. for_ret f xs w = (None, w') \<and> ?I xs w'"
  proof (rule for_ret_all [where I = ?I, OF assms(1)])
    fix ys x v assume I: "?I ys v" and x: "x \<in> set xs" "x \<notin> set ys"
    have sx: "store w (nprr_Name x) = Some x" by (rule assms(2) [OF x(1)])
    have "store v (nprr_Name x) = Some x" using spec [OF conjunct1 [OF I], of "nprr_Name x"] sx x(2) by simp
    then obtain v' y where v': "f x v = (None, v')" "store v' = (store v)(nprr_Name x \<mapsto> y)" "R x y"
      "\<forall>ns n. pe_GetPod E v' ns n = pe_GetPod E w ns n" using body [OF x(1)] I by blast
    have "case store w n of None \<Rightarrow> store v' n = None
      | Some z \<Rightarrow> if z \<in> set (ys @ [x]) then \<exists>y. store v' n = Some y \<and> R z y else store v' n = Some z" for n
    proof (cases "n = nprr_Name x")
      case True
      with v' sx show ?thesis by simp
    next
      case False
      then have "store w n \<noteq> Some x" using stored_name by blast
      with spec [OF conjunct1 [OF I], of n] v'(2) False show ?thesis by (cases "store w n") auto
    qed
    with v' show "\<exists>v'. f x v = (None, v') \<and> ?I (ys @ [x]) v'" by blast
  qed (simp split: option.splits)
  then show ?thesis by blast
qed

lemma gone_accepted:
  assumes "store v (nprr_Name x) = Some x"
  shows "\<exists>v' y. mark_gone E x v = (None, v') \<and> store v' = (store v)(nprr_Name x \<mapsto> y) \<and> gone_marked x y \<and>
     (\<forall>ns n. pe_GetPod E v' ns n = pe_GetPod E v ns n)"
proof (cases "nprr_DeletionTimestamp x = None \<and> expiry_of x = None")
  case True
  with grace_accepted [OF assms, of PodErr] show ?thesis by (auto simp: mark_gone_def gone_marked_def)
next
  case False
  then have "mark_gone E x v = (None, v)" "gone_marked x x" by (auto simp: mark_gone_def gone_marked_def expiring_def)
  moreover have "store v = (store v)(nprr_Name x \<mapsto> x)" using assms by (simp add: fun_upd_idem)
  ultimately show ?thesis by blast
qed

lemma sync_accepted:
  assumes "store v (nprr_Name x) = Some x"
    and "pe_GetPod E v (nprr_PodNamespace (nprr_Spec x)) (nprr_PodName (nprr_Spec x)) \<in> insert (Inl NotFound) (range Inr)"
  shows "\<exists>v' y. sync_request E node x v = (None, v') \<and> store v' = (store v)(nprr_Name x \<mapsto> y) \<and>
     (if nprr_NodeName (nprr_Spec x) = node \<and>
         pe_GetPod E v (nprr_PodNamespace (nprr_Spec x)) (nprr_PodName (nprr_Spec x)) = Inl NotFound then gone_marked x y else y = x) \<and>
     (\<forall>ns n. pe_GetPod E v' ns n = pe_GetPod E v ns n)"
proof (cases "nprr_NodeName (nprr_Spec x) = node \<and> nprr_DeletionTimestamp x = None \<and> expiry_of x = None \<and>
    pe_GetPod E v (nprr_PodNamespace (nprr_Spec x)) (nprr_PodName (nprr_Spec x)) = Inl NotFound")
  case True
  with grace_accepted [OF assms(1), of "UpdateNPRRErr (nprr_Name x)"] show ?thesis by (auto simp: sync_request_def gone_marked_def)
next
  case False
  then have "sync_request E node x v = (None, v)" using assms(2) by (auto simp: sync_request_def Let_def split: sum.splits)
  moreover have "store v = (store v)(nprr_Name x \<mapsto> x)" using assms(1) by (simp add: fun_upd_idem)
  moreover have "gone_marked x x" if "nprr_DeletionTimestamp x \<noteq> None \<or> expiry_of x \<noteq> None"
    using that by (auto simp: gone_marked_def expiring_def)
  ultimately show ?thesis using False by (intro exI [of _ v] exI [of _ x]) auto
qed

lemma handlePodGone_marks:
  assumes "in_step E store w"
  shows "\<exists>w'. handlePodGone E ns name w = (Requeue 0, w') \<and> (\<forall>n. case store w n of None \<Rightarrow> store w' n = None
     | Some x \<Rightarrow> if belongs ns name x then \<exists>y. store w' n = Some y \<and> gone_marked x y else store w' n = Some x)"
proof -
  obtain xs where xs: "list_by_identity E (ns @ ''/'' @ name) w = Inr xs" "set xs = {x \<in> ran (store w). belongs ns name x}"
    "distinct xs" using by_identity [OF assms] by blast
  have stored: "store w (nprr_Name x) = Some x" if "x \<in> set xs" for x using that xs(2) stored_name by (auto simp: ran_def)
  have "\<exists>w'. for_ret (mark_gone E) xs w = (None, w') \<and> (\<forall>n. case store w n of None \<Rightarrow> store w' n = None
     | Some x \<Rightarrow> if x \<in> set xs then \<exists>y. store w' n = Some y \<and> gone_marked x y else store w' n = Some x)"
  proof (rule mark_loop [OF xs(3) stored])
    fix x v assume "store v (nprr_Name x) = Some x" "\<And>ns n. pe_GetPod E v ns n = pe_GetPod E w ns n"
    with gone_accepted [OF this(1)] show "\<exists>v' y. mark_gone E x v = (None, v') \<and> store v' = (store v)(nprr_Name x \<mapsto> y) \<and>
      gone_marked x y \<and> (\<forall>ns n. pe_GetPod E v' ns n = pe_GetPod E w ns n)" by simp
  qed
  then obtain w' where w': "for_ret (mark_gone E) xs w = (None, w')"
    and all: "\<And>n. case store w n of None \<Rightarrow> store w' n = None
      | Some x \<Rightarrow> if x \<in> set xs then \<exists>y. store w' n = Some y \<and> gone_marked x y else store w' n = Some x" by blast
  have "case store w n of None \<Rightarrow> store w' n = None
      | Some x \<Rightarrow> if belongs ns name x then \<exists>y. store w' n = Some y \<and> gone_marked x y else store w' n = Some x" for n
  proof (cases "store w n")
    case (Some x)
    then have "x \<in> set xs \<longleftrightarrow> belongs ns name x" using xs(2) by (auto simp: ran_def)
    with all [of n] Some show ?thesis by simp
  qed (use all [of n] in simp)
  with w' xs(1) show ?thesis by (auto simp: handlePodGone_def finish_def)
qed

lemma Sync_marks:
  assumes "in_step E store w" and get: "\<And>ns n. pe_GetPod E w ns n \<in> insert (Inl NotFound) (range Inr)"
  shows "\<exists>w'. Sync E node w = (Requeue 0, w') \<and> (\<forall>n. case store w n of None \<Rightarrow> store w' n = None
     | Some x \<Rightarrow> if nprr_NodeName (nprr_Spec x) = node \<and>
           pe_GetPod E w (nprr_PodNamespace (nprr_Spec x)) (nprr_PodName (nprr_Spec x)) = Inl NotFound
         then \<exists>y. store w' n = Some y \<and> gone_marked x y else store w' n = Some x)"
proof -
  let ?gone = "\<lambda>x. nprr_NodeName (nprr_Spec x) = node \<and>
     pe_GetPod E w (nprr_PodNamespace (nprr_Spec x)) (nprr_PodName (nprr_Spec x)) = Inl NotFound"
  obtain xs where xs: "pe_ListNPRRs E w = Inr xs" "set xs = ran (store w)" "distinct xs"
    using assms(1) by (auto simp: in_step_def)
  have stored: "store w (nprr_Name x) = Some x" if "x \<in> set xs" for x using that xs(2) stored_name by (auto simp: ran_def)
  have "\<exists>w'. for_ret (sync_request E node) xs w = (None, w') \<and> (\<forall>n. case store w n of None \<Rightarrow> store w' n = None
     | Some x \<Rightarrow> if x \<in> set xs then \<exists>y. store w' n = Some y \<and> (if ?gone x then gone_marked x y else y = x) else store w' n = Some x)"
  proof (rule mark_loop [OF xs(3) stored])
    fix x v assume "store v (nprr_Name x) = Some x" and pods: "\<And>ns n. pe_GetPod E v ns n = pe_GetPod E w ns n"
    from sync_accepted [OF this(1), of node] get pods
    show "\<exists>v' y. sync_request E node x v = (None, v') \<and> store v' = (store v)(nprr_Name x \<mapsto> y) \<and>
        (if ?gone x then gone_marked x y else y = x) \<and> (\<forall>ns n. pe_GetPod E v' ns n = pe_GetPod E w ns n)" by simp
  qed
  then obtain w' where w': "for_ret (sync_request E node) xs w = (None, w')"
    and all: "\<And>n. case store w n of None \<Rightarrow> store w' n = None
      | Some x \<Rightarrow> if x \<in> set xs then \<exists>y. store w' n = Some y \<and> (if ?gone x then gone_marked x y else y = x) else store w' n = Some x"
    by blast
  have "case store w n of None \<Rightarrow> store w' n = None
      | Some x \<Rightarrow> if ?gone x then \<exists>y. store w' n = Some y \<and> gone_marked x y else store w' n = Some x" for n
  proof (cases "store w n")
    case (Some x)
    then have "x \<in> set xs" using xs(2) by (auto simp: ran_def)
    with all [of n] Some show ?thesis by (auto split: if_splits)
  qed (use all [of n] in simp)
  with w' xs(1) show ?thesis by (auto simp: Sync_def finish_def)
qed

end

end
