(* ===== verification/PodMem.thy ===== *)
theory PodMem
  imports PodSettle
begin

text \<open>
  An API server for NATPortRangeRequests in memory: the stored objects as a list with at most one object per name
  in reach, earlier versions beside it, and a clock. It meets \<open>accepting_api\<close>, and its client is executable.
\<close>

record mem_api =
  ma_objs :: "NATPortRangeRequest list"
  ma_past :: "NATPortRangeRequest list"
  ma_version :: nat
  ma_now :: gotime
  ma_pods :: "Pod list"
  ma_configs :: "NATConfig list"

definition mem_store :: "mem_api \<Rightarrow> nprr_store" where
  "mem_store w n = find (\<lambda>x. nprr_Name x = n) (ma_objs w)"

definition mem_past :: "mem_api \<Rightarrow> NATPortRangeRequest set" where
  "mem_past w = set (ma_objs w) \<union> set (ma_past w)"

definition cut :: "gotime option \<Rightarrow> gotime option" where
  "cut e = map_option (\<lambda>t. t div second * second) e"

definition mem_put :: "NATPortRangeRequest \<Rightarrow> mem_api \<Rightarrow> mem_api" where
  "mem_put y w = w\<lparr>ma_objs := y # filter (\<lambda>x. nprr_Name x \<noteq> nprr_Name y) (ma_objs w), ma_past := ma_objs w @ ma_past w,
     ma_version := Suc (ma_version w)\<rparr>"

definition mem_drop :: "string \<Rightarrow> mem_api \<Rightarrow> mem_api" where
  "mem_drop n w = w\<lparr>ma_objs := filter (\<lambda>x. nprr_Name x \<noteq> n) (ma_objs w), ma_past := ma_objs w @ ma_past w\<rparr>"

definition mem_write ::
    "(NATPortRangeRequest \<Rightarrow> NATPortRangeRequest) \<Rightarrow> NATPortRangeRequest \<Rightarrow> mem_api \<Rightarrow> (api_error + NATPortRangeRequest) \<times> mem_api" where
  "mem_write f x w =
     (case mem_store w (nprr_Name x) of
        None \<Rightarrow> (Inl NotFound, w)
      | Some cur \<Rightarrow>
          if nprr_ResourceVersion cur \<noteq> nprr_ResourceVersion x then (Inl Conflict, w)
          else let y = (f cur)\<lparr>nprr_Name := nprr_Name x, nprr_ResourceVersion := Suc (ma_version w)\<rparr> in (Inr y, mem_put y w))"

definition memP :: "mem_api podEnv" where
  "memP = \<lparr>
     pe_GetPod = (\<lambda>w ns n. case find (\<lambda>p. pod_Namespace p = ns \<and> pod_Name p = n) (ma_pods w) of
       None \<Rightarrow> Inl NotFound | Some p \<Rightarrow> Inr p),
     pe_ListPods = (\<lambda>w. Inr (ma_pods w)), pe_ListNATConfigs = (\<lambda>w. Inr (ma_configs w)),
     pe_GetNPRR = (\<lambda>w n. case mem_store w n of None \<Rightarrow> Inl NotFound | Some x \<Rightarrow> Inr x),
     pe_ListNPRRs = (\<lambda>w. Inr (ma_objs w)),
     pe_Create = (\<lambda>x w. if mem_store w (nprr_Name x) \<noteq> None then (Some AlreadyExists, w)
       else (None, mem_put (x\<lparr>nprr_ResourceVersion := Suc (ma_version w)\<rparr>) w)),
     pe_Update = (\<lambda>x. mem_write (\<lambda>cur. cur\<lparr>nprr_Spec := nprr_Spec x\<rparr>) x),
     pe_UpdateStatus = (\<lambda>x. mem_write (\<lambda>cur. cur\<lparr>nprr_Status := \<lparr>DeletionGracePeriodExpiry = cut (expiry_of x)\<rparr>\<rparr>) x),
     pe_Delete = (\<lambda>x w. if mem_store w (nprr_Name x) = None then (Some NotFound, w) else (None, mem_drop (nprr_Name x) w)),
     pe_SelectorMatches = (\<lambda>sel l. Inr (list_all (\<lambda>(k, v). l k = Some v) (MatchLabels sel))),
     pe_Now = ma_now\<rparr>"

lemma find_other_name: "n \<noteq> m \<Longrightarrow> find (\<lambda>x. f x = n) (filter (\<lambda>x. f x \<noteq> m) xs) = find (\<lambda>x. f x = n) xs"
  by (induction xs) auto

lemma find_same_name: "find (\<lambda>x. f x = n) (filter (\<lambda>x. f x \<noteq> n) xs) = None"
  by (induction xs) auto

lemma mem_store_put: "mem_store (mem_put y w) = (mem_store w)(nprr_Name y \<mapsto> y)"
  by (auto simp: mem_store_def mem_put_def fun_eq_iff find_other_name)

lemma mem_store_drop: "mem_store (mem_drop n w) = (mem_store w)(n := None)"
  by (auto simp: mem_store_def mem_drop_def fun_eq_iff find_other_name find_same_name)

lemma mem_past_put: "mem_past (mem_put y w) = insert y (mem_past w)"
  by (auto simp: mem_past_def mem_put_def)

lemma mem_past_drop: "mem_past (mem_drop n w) = mem_past w"
  by (auto simp: mem_past_def mem_drop_def)

lemma mem_store_name: "mem_store w n = Some x \<Longrightarrow> nprr_Name x = n \<and> x \<in> set (ma_objs w)"
  by (auto simp: mem_store_def find_Some_iff)

lemma mem_current_name: "current (mem_store w) x cur \<Longrightarrow> nprr_Name cur = nprr_Name x"
  using mem_store_name by (auto simp: current_def)

lemma mem_write_eq: "mem_write f x w = (Inr y, w') \<longleftrightarrow> (\<exists>cur. current (mem_store w) x cur \<and>
    y = (f cur)\<lparr>nprr_Name := nprr_Name x, nprr_ResourceVersion := Suc (ma_version w)\<rparr> \<and> w' = mem_put y w)"
  by (auto simp: mem_write_def current_def Let_def split: option.splits)

lemma mem_write_failed: "mem_write f x w = (Inl e, w') \<Longrightarrow> w' = w"
  by (auto simp: mem_write_def Let_def split: option.splits if_splits)

lemma cut_cut: "cut_to_second e (cut e)"
proof (cases e)
  case (Some t)
  have "t = t div second * second + t mod second" "0 \<le> t mod second" "t mod second < second" by (simp_all add: second_def)
  with Some show ?thesis by (simp add: cut_to_second_def cut_def minus_mod_eq_div_mult [symmetric])
qed (simp add: cut_to_second_def cut_def)

lemma mem_write_now: "ma_now (snd (mem_write f x w)) = ma_now w" "ma_pods (snd (mem_write f x w)) = ma_pods w"
  by (simp_all add: mem_write_def mem_put_def Let_def split: option.splits)

lemma mem_now [simp]: "ma_now (mem_put y w) = ma_now w" "ma_now (mem_drop n w) = ma_now w"
  by (simp_all add: mem_put_def mem_drop_def)

interpretation memapi: accepting_api memP mem_store mem_past
proof
  fix x w w' y
  show "pe_UpdateStatus memP x w = (Inr y, w') \<Longrightarrow> \<exists>cur. current (mem_store w) x cur \<and> status_written cur x y \<and>
      mem_store w' = (mem_store w)(nprr_Name x \<mapsto> y) \<and> mem_past w' = insert y (mem_past w)"
    using cut_cut [of "expiry_of x"]
    by (fastforce simp: memP_def mem_write_eq mem_store_put mem_past_put status_written_def mem_current_name)
  show "pe_Update memP x w = (Inr y, w') \<Longrightarrow> \<exists>cur. current (mem_store w) x cur \<and> spec_written cur x y \<and>
      mem_store w' = (mem_store w)(nprr_Name x \<mapsto> y) \<and> mem_past w' = insert y (mem_past w)"
    by (fastforce simp: memP_def mem_write_eq mem_store_put mem_past_put spec_written_def mem_current_name)
  show "\<exists>y. fst (pe_UpdateStatus memP x w) = Inr y" "\<exists>y. fst (pe_Update memP x w) = Inr y"
    if "current (mem_store w) x cur" for cur
    using that by (auto simp: memP_def mem_write_def current_def Let_def)
  show "x \<in> mem_past w" if "mem_store w n = Some x" for n
    using mem_store_name [OF that] by (simp add: mem_past_def)
  show "x \<in> mem_past w \<and> nprr_Name x = n" if "pe_GetNPRR memP w n = Inr x" for n
    using that by (auto simp: memP_def mem_past_def split: option.splits dest: mem_store_name)
  show "set xs \<subseteq> mem_past w" if "pe_ListNPRRs memP w = Inr xs" for xs
    using that by (auto simp: memP_def mem_past_def)
qed (auto simp: memP_def mem_store_put mem_past_put mem_store_drop mem_past_drop mem_write_now mem_now
    dest: mem_write_failed mem_store_name split: if_splits option.splits)

end
