(* ===== verification/Cidr.thy ===== *)
theory Cidr
  imports BPFKernel
begin

text \<open>
  IPv4 networks as intervals of numbers: an address is the number its bytes write in base 256,
  \<open>incrementIP\<close> adds one modulo \<open>2^32\<close>, \<open>Contains\<close> compares the leading bits. So the address loop of the program
  lists the addresses of a network in order and ends, except for the network /0.
\<close>

fun ip_val :: "u8 list \<Rightarrow> nat" where
  "ip_val [] = 0"
| "ip_val (b # bs) = unat b * 256 ^ length bs + ip_val bs"

lemma unat_u8_less: "unat (b :: u8) < 256"
  using unsigned_less [of b, where ?'a = nat] by simp

lemma ip_val_less: "ip_val bs < 256 ^ length bs"
proof (induction bs)
  case (Cons b bs)
  have "unat b * 256 ^ length bs + ip_val bs < Suc (unat b) * 256 ^ length bs" using Cons by simp
  also have "\<dots> \<le> 256 * 256 ^ length bs" using unat_u8_less [of b] by (intro mult_le_mono1) simp
  finally show ?case by simp
qed simp

lemma ip_val_append: "ip_val (as @ bs) = ip_val as * 256 ^ length bs + ip_val bs"
  by (induction as) (simp_all add: power_add algebra_simps)

lemma ip_val_inj: "length as = length bs \<Longrightarrow> ip_val as = ip_val bs \<Longrightarrow> as = bs"
proof (induction as bs rule: list_induct2)
  case (Cons a as b bs)
  have lt: "ip_val as < 256 ^ length as" "ip_val bs < 256 ^ length as"
    using ip_val_less [of as] ip_val_less [of bs] Cons.hyps by simp_all
  have eq: "unat a * 256 ^ length as + ip_val as = unat b * 256 ^ length as + ip_val bs"
    using Cons.prems Cons.hyps by simp
  have "(unat a * 256 ^ length as + ip_val as) div 256 ^ length as = (unat b * 256 ^ length as + ip_val bs) div 256 ^ length as"
    using eq by simp
  then have ab: "unat a = unat b" using lt by simp
  with eq have "ip_val as = ip_val bs" by simp
  with Cons.IH ab show ?case by (simp add: word_unat_eq_iff)
qed simp

section \<open>Increment\<close>

lemma length_inc_rev [simp]: "length (inc_rev bs) = length bs"
  by (induction bs) (simp_all add: Let_def)

lemma length_incrementIP [simp]: "length (incrementIP ip) = length ip"
  by (simp add: incrementIP_def)

lemma inc_rev_val: "ip_val (rev (inc_rev bs)) = (ip_val (rev bs) + 1) mod 256 ^ length bs"
proof (induction bs)
  case (Cons b bs)
  show ?case
  proof (cases "b + 1 = 0")
    case True
    then have "b = - 1" by (simp add: eq_neg_iff_add_eq_0)
    then have b: "unat b = 255" by (simp add: unsigned_minus_1_eq_mask mask_eq_exp_minus_1)
    have "ip_val (rev (inc_rev (b # bs))) = ((ip_val (rev bs) + 1) mod 256 ^ length bs) * 256"
      using True Cons by (simp add: Let_def ip_val_append)
    then have "ip_val (rev (inc_rev (b # bs))) = ((ip_val (rev bs) + 1) * 256) mod (256 ^ length bs * 256)"
      by (simp only: mult_mod_left)
    moreover have "ip_val (rev (b # bs)) + 1 = (ip_val (rev bs) + 1) * 256" using b by (simp add: ip_val_append)
    ultimately show ?thesis by (simp only: length_Cons power_Suc mult.commute)
  next
    case False
    then have b: "unat (b + 1) = Suc (unat b)" "unat b < 255"
      using unat_u8_less [of b] unat_u8_less [of "b + 1"] by (auto simp: unat_word_ariths word_unat_eq_iff mod_Suc split: if_splits)
    have "ip_val (rev (b # bs)) + 1 < 256 ^ length (b # bs)"
    proof -
      have "ip_val (rev bs) < 256 ^ length bs" using ip_val_less [of "rev bs"] by simp
      then have "(ip_val (rev bs) + 1) * 256 \<le> 256 ^ length bs * 256" by (intro mult_le_mono1) simp
      with b(2) show ?thesis by (simp add: ip_val_append)
    qed
    then show ?thesis using False b by (simp add: Let_def ip_val_append)
  qed
qed simp

lemma incrementIP_val: "ip_val (incrementIP ip) = (ip_val ip + 1) mod 256 ^ length ip"
  using inc_rev_val [of "rev ip"] by (simp add: incrementIP_def)

section \<open>Masks\<close>

definition mask_byte :: "nat \<Rightarrow> u8" where
  "mask_byte n = (if n \<ge> 8 then 255 else NOT (drop_bit n 255))"

lemma CIDRMask_Suc: "CIDRMask n (8 * Suc l) = mask_byte n # CIDRMask (n - 8) (8 * l)"
proof -
  have "[0..<Suc l] = 0 # map Suc [0..<l]" by (simp add: upt_conv_Cons map_Suc_upt del: upt_Suc)
  then show ?thesis by (simp add: CIDRMask_def mask_byte_def Let_def comp_def del: upt_Suc)
qed

lemma length_CIDRMask [simp]: "length (CIDRMask n bits) = bits div 8"
  by (simp add: CIDRMask_def)

lemma mask_byte_bit: "k < 8 \<Longrightarrow> bit (mask_byte n) k \<longleftrightarrow> 8 - n \<le> k"
proof -
  assume k: "k < 8"
  have m: "(255 :: u8) = Bit_Operations.mask 8" by (simp add: mask_eq_exp_minus_1)
  have bits: "bit (255 :: u8) j \<longleftrightarrow> j < 8" for j unfolding m by (simp only: bit_mask_iff possible_bit_word) simp
  show ?thesis
  proof (cases "n \<ge> 8")
    case True
    then show ?thesis using k by (simp only: mask_byte_def bits if_True) simp
  next
    case False
    then have "bit (mask_byte n) k \<longleftrightarrow> \<not> n + k < 8"
      using k by (simp only: mask_byte_def if_False bit_not_iff bit_drop_bit_eq comp_def bits possible_bit_word) simp
    then show ?thesis using False by auto
  qed
qed

lemma mask_byte_eq:
  "a AND mask_byte n = b AND mask_byte n \<longleftrightarrow> unat a div 2 ^ (8 - n) = unat b div 2 ^ (8 - n)" for a b :: u8
proof -
  have "a AND mask_byte n = b AND mask_byte n \<longleftrightarrow> drop_bit (8 - n) a = drop_bit (8 - n) b"
  proof
    assume eq: "a AND mask_byte n = b AND mask_byte n"
    show "drop_bit (8 - n) a = drop_bit (8 - n) b"
    proof (rule bit_word_eqI)
      fix k assume k: "k < LENGTH(8)"
      show "bit (drop_bit (8 - n) a) k \<longleftrightarrow> bit (drop_bit (8 - n) b) k"
      proof (cases "8 - n + k < 8")
        case True
        have "bit (a AND mask_byte n) (8 - n + k) \<longleftrightarrow> bit (b AND mask_byte n) (8 - n + k)" using eq by simp
        then show ?thesis using True by (simp add: bit_and_iff bit_drop_bit_eq mask_byte_bit)
      next
        case False
        then show ?thesis using bit_imp_le_length [of a "8 - n + k"] bit_imp_le_length [of b "8 - n + k"]
          by (auto simp: bit_drop_bit_eq)
      qed
    qed
  next
    assume eq: "drop_bit (8 - n) a = drop_bit (8 - n) b"
    show "a AND mask_byte n = b AND mask_byte n"
    proof (rule bit_word_eqI)
      fix k assume k: "k < LENGTH(8)"
      show "bit (a AND mask_byte n) k \<longleftrightarrow> bit (b AND mask_byte n) k"
      proof (cases "8 - n \<le> k")
        case True
        have "bit (drop_bit (8 - n) a) (k - (8 - n)) \<longleftrightarrow> bit (drop_bit (8 - n) b) (k - (8 - n))" using eq by simp
        then show ?thesis using True by (simp add: bit_and_iff bit_drop_bit_eq)
      next
        case False
        then show ?thesis using k by (simp add: bit_and_iff mask_byte_bit)
      qed
    qed
  qed
  also have "\<dots> \<longleftrightarrow> unat a div 2 ^ (8 - n) = unat b div 2 ^ (8 - n)"
    unfolding word_unat_eq_iff unsigned_drop_bit_eq
    using unat_u8_less [of a] unat_u8_less [of b] by (simp add: take_bit_nat_eq_self drop_bit_eq_div)
  finally show ?thesis .
qed

lemma radix_div:
  assumes "k \<le> m"
  shows "(x * 2 ^ m + v) div 2 ^ k = x * 2 ^ (m - k) + v div (2 :: nat) ^ k"
proof -
  have "(2 :: nat) ^ m = 2 ^ k * 2 ^ (m - k)" using assms by (simp add: power_add [symmetric])
  then have "x * 2 ^ m + v = v + 2 ^ k * (x * 2 ^ (m - k))" by simp
  then show ?thesis by (simp only: div_mult_self2) simp
qed

lemma radix_eq:
  fixes u v b :: nat
  assumes "u < b" "v < b"
  shows "x * b + u = y * b + v \<longleftrightarrow> x = y \<and> u = v"
proof
  assume eq: "x * b + u = y * b + v"
  then have "(x * b + u) div b = (y * b + v) div b" by simp
  then have "x = y" using assms by simp
  with eq show "x = y \<and> u = v" by simp
qed simp

lemma masked_eq:
  assumes "length as = length bs"
  shows "n \<le> 8 * length as \<Longrightarrow>
    map2 (AND) as (CIDRMask n (8 * length as)) = map2 (AND) bs (CIDRMask n (8 * length as)) \<longleftrightarrow>
    ip_val as div 2 ^ (8 * length as - n) = ip_val bs div 2 ^ (8 * length as - n)"
  using assms
proof (induction as bs arbitrary: n rule: list_induct2)
  case (Cons a as b bs)
  let ?l = "length as"
  have lt: "ip_val as < 2 ^ (8 * ?l)" "ip_val bs < 2 ^ (8 * ?l)"
    using ip_val_less [of as] ip_val_less [of bs] Cons.hyps by (simp_all add: power_mult)
  have two: "(256 :: nat) ^ ?l = 2 ^ (8 * ?l)" by (simp add: power_mult)
  have head: "(map2 (AND) (a # as) (CIDRMask n (8 * length (a # as))) = map2 (AND) (b # bs) (CIDRMask n (8 * length (a # as)))) \<longleftrightarrow>
      unat a div 2 ^ (8 - n) = unat b div 2 ^ (8 - n) \<and>
      map2 (AND) as (CIDRMask (n - 8) (8 * ?l)) = map2 (AND) bs (CIDRMask (n - 8) (8 * ?l))"
    using CIDRMask_Suc [of n ?l] by (simp add: mask_byte_eq)
  show ?case
  proof (cases "n \<ge> 8")
    case True
    define k where "k = 8 * ?l - (n - 8)"
    have k: "8 * length (a # as) - n = k" "k \<le> 8 * ?l" using True by (simp_all add: k_def)
    have small: "v div 2 ^ k < 2 ^ (8 * ?l - k)" if "v < 2 ^ (8 * ?l)" for v :: nat
      using that k(2) by (simp add: div_less_iff_less_mult power_add [symmetric])
    have "unat a * 2 ^ (8 * ?l - k) + ip_val as div 2 ^ k = unat b * 2 ^ (8 * ?l - k) + ip_val bs div 2 ^ k \<longleftrightarrow>
        unat a = unat b \<and> ip_val as div 2 ^ k = ip_val bs div 2 ^ k"
      by (rule radix_eq [OF small [OF lt(1)] small [OF lt(2)]])
    moreover have "(map2 (AND) as (CIDRMask (n - 8) (8 * ?l)) = map2 (AND) bs (CIDRMask (n - 8) (8 * ?l))) \<longleftrightarrow>
        ip_val as div 2 ^ k = ip_val bs div 2 ^ k"
      using Cons.IH [of "n - 8"] Cons.prems by (simp add: k_def)
    ultimately show ?thesis using True Cons.hyps [symmetric] unfolding head k(1) by (simp add: two radix_div [OF k(2)])
  next
    case False
    have "2 ^ (8 * length (a # as) - n) = 2 ^ (8 * ?l) * (2 :: nat) ^ (8 - n)"
      using False by (simp add: power_add [symmetric])
    then have d: "(x * 2 ^ (8 * ?l) + v) div 2 ^ (8 * length (a # as) - n) = x div 2 ^ (8 - n)" if "v < 2 ^ (8 * ?l)" for x v :: nat
      using that by (simp add: div_mult2_eq)
    have "map2 (AND) as (CIDRMask (n - 8) (8 * ?l)) = map2 (AND) bs (CIDRMask (n - 8) (8 * ?l))"
    proof -
      have "ip_val as div 2 ^ (8 * ?l) = ip_val bs div 2 ^ (8 * ?l)" using lt by simp
      then show ?thesis using Cons.IH [of "n - 8"] False by simp
    qed
    then show ?thesis using Cons.hyps [symmetric] d [OF lt(1), of "unat a"] d [OF lt(2), of "unat b"] unfolding head by (simp add: two)
  qed
qed simp

section \<open>The address loop\<close>

definition net4 :: "net_IP \<Rightarrow> nat \<Rightarrow> IPNet" where
  "net4 addr n = \<lparr>net_addr = addr, net_mask = CIDRMask n 32\<rparr>"

text \<open>The number of the first address past the network.\<close>

definition net_end :: "nat \<Rightarrow> nat \<Rightarrow> nat" where
  "net_end v n = (v div 2 ^ (32 - n) + 1) * 2 ^ (32 - n)"

lemma Contains_net4:
  assumes "length addr = 4" "length ip = 4" "n \<le> 32"
  shows "Contains (net4 addr n) ip \<longleftrightarrow> ip_val ip div 2 ^ (32 - n) = ip_val addr div 2 ^ (32 - n)"
proof -
  have c: "Contains (net4 addr n) ip \<longleftrightarrow> (\<forall>i < 4. addr ! i AND CIDRMask n 32 ! i = ip ! i AND CIDRMask n 32 ! i)"
    using assms by (auto simp: Contains_def net4_def networkNumberAndMask_def To4_def Let_def)
  have "(\<forall>i < 4. addr ! i AND CIDRMask n 32 ! i = ip ! i AND CIDRMask n 32 ! i) \<longleftrightarrow>
      map2 (AND) addr (CIDRMask n 32) = map2 (AND) ip (CIDRMask n 32)"
    using assms by (simp add: list_eq_iff_nth_eq)
  with c show ?thesis using masked_eq [of addr ip n] assms by auto
qed

lemma net_end_le:
  assumes "length addr = 4" "n \<le> 32"
  shows "net_end (ip_val addr) n \<le> 2 ^ 32"
proof -
  let ?k = "2 ^ (32 - n) :: nat"
  have "ip_val addr < 2 ^ n * ?k" using ip_val_less [of addr] assms by (simp add: power_add [symmetric])
  then have "ip_val addr div ?k < 2 ^ n" by (simp add: div_less_iff_less_mult)
  then have "net_end (ip_val addr) n \<le> 2 ^ n * ?k" unfolding net_end_def by (intro mult_le_mono1) simp
  then show ?thesis using assms(2) by (simp add: power_add [symmetric])
qed

text \<open>One past the last address is outside, also when the increment wraps around to 0.0.0.0.\<close>

lemma past_network:
  assumes addr: "length addr = 4" "1 \<le> n" "n \<le> 32" and ip: "length ip = 4" and last: "ip_val ip + 1 = net_end (ip_val addr) n"
  shows "\<not> Contains (net4 addr n) (incrementIP ip)"
proof -
  let ?k = "2 ^ (32 - n) :: nat" and ?e = "net_end (ip_val addr) n"
  have v: "ip_val (incrementIP ip) = ?e mod 2 ^ 32" using incrementIP_val [of ip] ip last by simp
  show ?thesis
  proof (cases "?e = 2 ^ 32")
    case True
    have "ip_val addr div ?k \<noteq> 0"
    proof
      assume "ip_val addr div ?k = 0"
      then have "?e = ?k" by (simp add: net_end_def)
      moreover have "?k < 2 ^ 32" using addr(2,3) by (intro power_strict_increasing) auto
      ultimately show False using True by simp
    qed
    then show ?thesis using v True ip addr by (simp add: Contains_net4)
  next
    case False
    then have "ip_val (incrementIP ip) = ?e" using v net_end_le [OF addr(1,3)] by simp
    then show ?thesis using ip addr by (simp add: Contains_net4 net_end_def)
  qed
qed

lemma expand_from_net4:
  assumes "length addr = 4" "1 \<le> n" "n \<le> 32" "length ip = 4" "ip_val ip div 2 ^ (32 - n) = ip_val addr div 2 ^ (32 - n)"
  shows "\<exists>rest. expand_from (net4 addr n) ip acc = Some (acc @ rest) \<and> (\<forall>x \<in> set rest. length x = 4) \<and>
     map ip_val rest = [ip_val ip..<net_end (ip_val addr) n]"
  using assms(4,5)
proof (induction "net_end (ip_val addr) n - ip_val ip" arbitrary: ip acc)
  case 0
  have "ip_val ip < net_end (ip_val addr) n"
    using 0(3) by (simp add: net_end_def) (metis add.commute dividend_less_div_times zero_less_numeral zero_less_power)
  with 0 show ?case by simp
next
  case (Suc d)
  let ?k = "2 ^ (32 - n) :: nat" and ?e = "net_end (ip_val addr) n"
  have in_net: "Contains (net4 addr n) ip" using Suc.prems assms by (simp add: Contains_net4)
  have lt: "ip_val ip < ?e" using Suc.hyps(2) by simp
  have v: "ip_val (incrementIP ip) = (ip_val ip + 1) mod 2 ^ 32"
    using incrementIP_val [of ip] Suc.prems(1) by simp
  have step: "expand_from (net4 addr n) ip acc = expand_from (net4 addr n) (incrementIP ip) (acc @ [ip])"
    using in_net by (subst expand_from.simps) simp
  have top: "?e \<le> 2 ^ 32" by (rule net_end_le [OF assms(1,3)])
  show ?case
  proof (cases "ip_val ip + 1 = ?e")
    case True
    have "\<not> Contains (net4 addr n) (incrementIP ip)" by (rule past_network [OF assms(1-3) Suc.prems(1) True])
    then have "expand_from (net4 addr n) (incrementIP ip) (acc @ [ip]) = Some (acc @ [ip])"
      by (subst expand_from.simps) simp
    then show ?thesis using step True lt Suc.prems(1)
      by (intro exI [of _ "[ip]"]) (simp add: True [symmetric])
  next
    case False
    then have lt2: "ip_val ip + 1 < ?e" using lt by simp
    have same: "(ip_val ip + 1) div ?k = ip_val addr div ?k"
    proof -
      have "ip_val addr div ?k * ?k \<le> ip_val ip + 1" using Suc.prems(2) by (metis div_times_less_eq_dividend le_SucI Suc_eq_plus1)
      moreover have "ip_val ip + 1 < Suc (ip_val addr div ?k) * ?k" using lt2 by (simp add: net_end_def)
      ultimately show ?thesis by (intro div_nat_eqI) (simp_all add: mult.commute)
    qed
    have v1: "ip_val (incrementIP ip) = ip_val ip + 1" using v lt2 top by simp
    have "d = ?e - (ip_val ip + 1)" using Suc.hyps(2) by simp
    then obtain rest where rest: "expand_from (net4 addr n) (incrementIP ip) (acc @ [ip]) = Some ((acc @ [ip]) @ rest)"
      "\<forall>x \<in> set rest. length x = 4" "map ip_val rest = [ip_val ip + 1..<?e]"
      using Suc.hyps(1) [of "incrementIP ip" "acc @ [ip]"] Suc.prems(1) same unfolding v1 by auto
    have "[ip_val ip..<?e] = ip_val ip # [ip_val ip + 1..<?e]" using lt by (simp add: upt_conv_Cons)
    then show ?thesis using step rest Suc.prems(1) by (intro exI [of _ "ip # rest"]) simp
  qed
qed

text \<open>A network that contains every address is never left.\<close>

lemma expand_from_all:
  assumes "\<And>ip. length ip = l \<Longrightarrow> Contains net ip" "length ip = l"
  shows "expand_from net ip acc = None"
proof -
  have False if run: "expand_from net ip acc = Some r" for r
  proof -
    have "net = net \<longrightarrow> length ip = l \<longrightarrow> False"
    proof (rule expand_from.raw_induct [where P = "\<lambda>m ip acc r. m = net \<longrightarrow> length ip = l \<longrightarrow> False"])
      show "expand_from net ip acc = Some r" by (rule run)
    next
      fix loop m ip acc r
      assume IH: "\<And>m ip acc r. loop m ip acc = Some r \<Longrightarrow> m = net \<longrightarrow> length ip = l \<longrightarrow> False"
        and step: "(if Contains m ip then loop m (incrementIP ip) (acc @ [ip]) else Some acc) = Some r"
      show "m = net \<longrightarrow> length ip = l \<longrightarrow> False"
        using step IH [of m "incrementIP ip" "acc @ [ip]" r] assms(1) [of ip] by auto
    qed
    with assms(2) show False by simp
  qed
  then show ?thesis by (cases "expand_from net ip acc") auto
qed

lemma Contains_all: "length addr = 4 \<Longrightarrow> length ip = 4 \<Longrightarrow> Contains (net4 addr 0) ip"
  using ip_val_less [of addr] ip_val_less [of ip] by (simp add: Contains_net4)

section \<open>Parsed networks\<close>

lemma mask_byte_0 [simp]: "mask_byte 0 = 0"
  by (rule bit_word_eqI) (simp add: mask_byte_bit)

lemma CIDRMask_0: "CIDRMask 0 (8 * l) = replicate l 0"
proof (induction l)
  case (Suc l)
  then show ?case using CIDRMask_Suc [of 0 l] by simp
qed (simp add: CIDRMask_def)

lemma mask_byte_dvd: "2 ^ (8 - n) dvd unat (a AND mask_byte n)"
proof -
  define x where "x = a AND mask_byte n"
  have "take_bit (8 - n) x = 0"
    unfolding x_def by (rule bit_word_eqI) (auto simp: bit_take_bit_iff bit_and_iff mask_byte_bit)
  then have "unat (take_bit (8 - n) x) = 0" by simp
  then have "take_bit (8 - n) (unat x) = 0" by (simp add: unsigned_take_bit_eq)
  then show ?thesis unfolding x_def [symmetric] by (simp add: take_bit_eq_mod mod_eq_0_iff_dvd)
qed

lemma masked_low: "n \<le> 8 * length as \<Longrightarrow>
    2 ^ (8 * length as - n) dvd ip_val (map2 (AND) as (CIDRMask n (8 * length as)))"
proof (induction as arbitrary: n)
  case (Cons a as)
  let ?l = "length as" and ?rest = "map2 (AND) as (CIDRMask (n - 8) (8 * length as))"
  have v: "ip_val (map2 (AND) (a # as) (CIDRMask n (8 * length (a # as)))) =
      unat (a AND mask_byte n) * 2 ^ (8 * ?l) + ip_val ?rest"
    using CIDRMask_Suc [of n ?l] by (simp add: power_mult)
  show ?case
  proof (cases "n \<ge> 8")
    case True
    then have k: "8 * length (a # as) - n = 8 * ?l - (n - 8)" by simp
    have "2 ^ (8 * ?l - (n - 8)) dvd ip_val ?rest" using Cons.IH [of "n - 8"] Cons.prems by simp
    moreover have "(2 :: nat) ^ (8 * ?l - (n - 8)) dvd unat (a AND mask_byte n) * 2 ^ (8 * ?l)"
      by (intro dvd_mult le_imp_power_dvd) simp
    ultimately show ?thesis unfolding v k by (rule dvd_add [rotated])
  next
    case False
    then have "n - 8 = 0" by simp
    then have "2 ^ (8 * ?l) dvd ip_val ?rest" using Cons.IH [of 0] by simp
    moreover have "ip_val ?rest < 2 ^ (8 * ?l)" using ip_val_less [of ?rest] by (simp add: power_mult)
    ultimately have "ip_val ?rest = 0" using nat_dvd_not_less by blast
    moreover have "8 * length (a # as) - n = (8 - n) + 8 * ?l" using False by simp
    ultimately show ?thesis unfolding v using mask_byte_dvd [of n a] by (simp add: power_add mult_dvd_mono)
  qed
qed simp

lemma leading_ones_numeral:
  "leading_ones (numeral k) v =
     (if v AND 128 \<noteq> 0 then (case leading_ones (pred_numeral k) (push_bit 1 v) of (n, v') \<Rightarrow> (Suc n, v')) else (0, v))"
  by (simp add: numeral_eq_Suc)

lemma mask_byte_leading_ones:
  assumes "n < 8"
  shows "mask_byte n \<noteq> 255 \<and> leading_ones 8 (mask_byte n) = (n, 0)"
proof -
  have m: "mask_byte (Suc 0) = 128" "mask_byte 2 = 192" "mask_byte 3 = 224" "mask_byte 4 = 240" "mask_byte 5 = 248"
    "mask_byte 6 = 252" "mask_byte 7 = 254" by (simp_all add: mask_byte_def)
  have "n \<in> {0, 1, 2, 3, 4, 5, 6, 7}" using assms by auto
  then show ?thesis unfolding insert_iff by (elim disjE) (simp_all add: m leading_ones_numeral)
qed

lemma simpleMaskLength_CIDRMask: "n \<le> 8 * l \<Longrightarrow> simpleMaskLength (CIDRMask n (8 * l)) = Some n"
proof (induction l arbitrary: n)
  case (Suc l)
  show ?case
  proof (cases "n \<ge> 8")
    case True
    then have "mask_byte n = 255" by (simp add: mask_byte_def)
    then show ?thesis using Suc.IH [of "n - 8"] Suc.prems True by (simp only: CIDRMask_Suc simpleMaskLength.simps) simp
  next
    case False
    then have "mask_byte n \<noteq> 255 \<and> leading_ones 8 (mask_byte n) = (n, 0)" by (intro mask_byte_leading_ones) simp
    moreover have "CIDRMask (n - 8) (8 * l) = replicate l 0" using False CIDRMask_0 by simp
    ultimately show ?thesis by (simp only: CIDRMask_Suc simpleMaskLength.simps) simp
  qed
qed (simp add: CIDRMask_def)

lemma mask_ones_net4: "n \<le> 32 \<Longrightarrow> fst (Mask_Size (net_mask (net4 addr n))) = n"
  using simpleMaskLength_CIDRMask [of n 4] by (simp add: net4_def Mask_Size_def)

lemma parseIPv4Fields_length: "parseIPv4Fields s v d flds = Some b \<Longrightarrow> length flds \<le> 3 \<Longrightarrow> length b = 4"
  by (induction s v d flds rule: parseIPv4Fields.induct) (auto simp: Let_def split: if_splits)

lemma ParseCIDR_net4:
  assumes "ParseCIDR s = Some (ip, net)" "length (net_mask net) = 4"
  shows "\<exists>b n. length b = 4 \<and> n \<le> 32 \<and> net = net4 (map2 (AND) b (CIDRMask n 32)) n"
proof -
  define a where "a = takeWhile (\<lambda>c. c \<noteq> CHR ''/'') s"
  obtain b n where b: "ParseAddr a = Some (Addr4 b)" and n: "n \<le> 32"
    and net: "net = \<lparr>net_addr = IP_Mask (v4InV6Prefix @ b) (CIDRMask n 32), net_mask = CIDRMask n 32\<rparr>"
    using assms by (auto simp: ParseCIDR_def a_def [symmetric] Let_def split: option.splits Addr.splits if_splits)
      (metis linorder_not_less)
  have "length b = 4"
    using b parseIPv4Fields_length [of a 0 0 "[]" b]
    by (auto simp: ParseAddr_def parseIPv6_def Let_def split: option.splits if_splits)
  moreover from this have "IP_Mask (v4InV6Prefix @ b) (CIDRMask n 32) = map2 (AND) b (CIDRMask n 32)"
    by (simp add: IP_Mask_def v4InV6Prefix_def Let_def)
  ultimately show ?thesis using n net by (auto simp: net4_def)
qed

lemma net_end_masked:
  assumes "length b = 4" "n \<le> 32"
  defines "v \<equiv> ip_val (map2 (AND) b (CIDRMask n 32))"
  shows "net_end v n = v + 2 ^ (32 - n)"
proof -
  have "2 ^ (32 - n) dvd v" using masked_low [of n b] assms by simp
  then show ?thesis by (auto simp: net_end_def algebra_simps elim!: dvdE)
qed

lemma expandCIDR_parsed:
  assumes "ParseCIDR s = Some (ip, net)" "length (net_mask net) = 4"
  defines "n \<equiv> fst (Mask_Size (net_mask net))" and "v \<equiv> ip_val (net_addr net)"
  shows "n \<le> 32" "length (net_addr net) = 4"
    and "n = 0 \<Longrightarrow> expandCIDR net = None"
    and "1 \<le> n \<Longrightarrow> \<exists>ips. expandCIDR net = Some (Inr ips) \<and> (\<forall>x \<in> set ips. length x = 4) \<and>
       map ip_val ips = [v..<v + 2 ^ (32 - n)]"
proof -
  obtain b m where b: "length b = 4" "m \<le> 32" and net: "net = net4 (map2 (AND) b (CIDRMask m 32)) m"
    using ParseCIDR_net4 [OF assms(1,2)] by blast
  define addr where "addr = map2 (AND) b (CIDRMask m 32)"
  have n: "n = m" using mask_ones_net4 [OF b(2)] by (simp add: n_def net)
  have addr: "length addr = 4" "net_addr net = addr" "net = net4 addr m" "v = ip_val addr"
    using b by (simp_all add: addr_def net net4_def v_def)
  show "n \<le> 32" "length (net_addr net) = 4" using n b addr by simp_all
  have run: "expandCIDR net = map_option Inr (expand_from net addr [])"
    using addr(1,2) by (auto simp: expandCIDR_def To4_def cloneIP_def Let_def)
  show "expandCIDR net = None" if "n = 0"
    using run expand_from_all [of 4 net addr "[]"] Contains_all [OF addr(1)] addr n that by simp
  show "\<exists>ips. expandCIDR net = Some (Inr ips) \<and> (\<forall>x \<in> set ips. length x = 4) \<and> map ip_val ips = [v..<v + 2 ^ (32 - n)]"
    if "1 \<le> n"
    using expand_from_net4 [OF addr(1) that [unfolded n] b(2) addr(1) refl, of "[]"] run addr n net_end_masked [OF b]
    by (auto simp: addr_def [symmetric])
qed

section \<open>Keys\<close>

text \<open>The bytes of an address are the bytes of its map key, lowest first.\<close>

lemma le_uint32_bit:
  assumes "i < 4" "k < 8"
  shows "bit (le_uint32 b) (8 * i + k) \<longleftrightarrow> bit (b ! i) k"
proof -
  have "i = 0 \<or> i = 1 \<or> i = 2 \<or> i = 3" using assms(1) by auto
  moreover have "\<not> bit x (8 + k)" "\<not> bit x (16 + k)" "\<not> bit x (24 + k)" for x :: u8
    using bit_imp_le_length [of x] by fastforce+
  ultimately show ?thesis using assms(2)
    by (elim disjE) (simp_all add: le_uint32_def bit_or_iff bit_push_bit_iff bit_ucast_iff)
qed

lemma le_uint32_inj:
  assumes "length a = 4" "length b = 4" "le_uint32 a = le_uint32 b"
  shows "a = b"
proof (rule nth_equalityI)
  fix i assume i: "i < length a"
  show "a ! i = b ! i"
  proof (rule bit_word_eqI)
    fix k assume "k < LENGTH(8)"
    then show "bit (a ! i) k \<longleftrightarrow> bit (b ! i) k"
      using le_uint32_bit [of i k a] le_uint32_bit [of i k b] assms i by simp
  qed
qed (simp add: assms)

lemma ipToUint32_4: "length ip = 4 \<Longrightarrow> ipToUint32 ip = Some (le_uint32 ip)"
  by (simp add: ipToUint32_def To4_def)

lemma parsed_no_host_bits:
  assumes "ParseCIDR s = Some (ip, net)" "length (net_mask net) = 4"
  shows "no_host_bits (lpm_of net (the (ipToUint32 (To4 (net_addr net)))))"
proof -
  obtain b n where b: "length b = 4" "n \<le> 32" and net: "net = net4 (map2 (AND) b (CIDRMask n 32)) n"
    using ParseCIDR_net4 [OF assms(1,2)] by blast
  define addr where "addr = map2 (AND) b (CIDRMask n 32)"
  have len: "length addr = 4" using b by (simp add: addr_def)
  have key: "the (ipToUint32 (To4 (net_addr net))) = le_uint32 addr"
    using len by (simp add: net net4_def addr_def [symmetric] To4_def ipToUint32_4)
  have ones: "unat (Prefixlen (lpm_of net x)) = n" for x
    using mask_ones_net4 [OF b(2)] b(2) by (simp add: lpm_of_def mask_ones_def net unsigned_of_nat take_bit_nat_eq_self)
  have "\<not> bit (le_uint32 addr) (8 * (j div 8) + (7 - j mod 8))" if "n \<le> j" "j < 32" for j
  proof -
    have i: "j div 8 < 4" using that by (simp add: div_less_iff_less_mult)
    have "CIDRMask n 32 ! (j div 8) = mask_byte (n - 8 * (j div 8))"
      using i by (simp add: CIDRMask_def mask_byte_def Let_def)
    then have "addr ! (j div 8) = b ! (j div 8) AND mask_byte (n - 8 * (j div 8))" using i b by (simp add: addr_def)
    moreover have "\<not> 8 - (n - 8 * (j div 8)) \<le> 7 - j mod 8"
    proof -
      have "j = 8 * (j div 8) + j mod 8" by simp
      then show ?thesis using that by linarith
    qed
    ultimately show ?thesis using le_uint32_bit [OF i, of "7 - j mod 8" addr] by (simp add: bit_and_iff mask_byte_bit)
  qed
  then show ?thesis using ones b(2) unfolding key no_host_bits_def by (auto simp: lpm_of_def)
qed

end
