(* ===== verification/DaemonConfig.thy ===== *)
theory DaemonConfig
  imports DaemonBPF API Cidr
begin

text \<open>
  \<open>internal/controller/daemon/natconfig_controller.go\<close> and \<open>internal/routing/advertiser.go\<close>: the daemon writes the
  target CIDRs and the external IP pools of every NATConfig into \<open>target_cidrs\<close> and \<open>dst_kind\<close>, and advertises the
  pools when its node matches. CIDRs are shared between NATConfigs, so the reconciler keeps three maps from
  NATConfig names to the CIDR strings it last handled and drops a CIDR only when no other entry lists it. The
  Kubernetes client and label selectors are parameters. A Go map entry set to \<open>nil\<close> is \<open>Some []\<close>.
\<close>

type_synonym tracking = "string \<rightharpoonup> string list"

datatype route_error = OnlyIPv4Prefix | RouteErr string

record 'w RouteAdvertiser =
  ra_AdvertisePrefix :: "IPNet \<Rightarrow> 'w \<Rightarrow> (route_error, 'w) eff"
  ra_WithdrawPrefix :: "IPNet \<Rightarrow> 'w \<Rightarrow> (route_error, 'w) eff"

definition NoopAdvertiser :: "'w RouteAdvertiser" where
  "NoopAdvertiser = \<lparr>ra_AdvertisePrefix = (\<lambda>_ w. Some (Done w)), ra_WithdrawPrefix = (\<lambda>_ w. Some (Done w))\<rparr>"

record 'w NATConfigReconciler =
  cr_GetNATConfig :: "'w \<Rightarrow> string \<Rightarrow> api_error + NATConfig"
  cr_GetNode :: "'w \<Rightarrow> string \<Rightarrow> api_error + (string \<rightharpoonup> string)"
  cr_ListNATConfigs :: "'w \<Rightarrow> api_error + NATConfig list"
  cr_SelectorMatches :: "LabelSelector \<Rightarrow> (string \<rightharpoonup> string) \<Rightarrow> string + bool"
  cr_NodeName :: string
  cr_TargetCIDRs :: "'w TargetCIDRMap"
  cr_ExtIPKind :: "'w ExtIPKindMap"
  cr_RouteAdvertiser :: "'w RouteAdvertiser"

record cfg_memory =
  ncTargetCIDRs :: tracking
  ncExtIPCIDRs :: tracking
  ncAdvertisedCIDRs :: tracking

definition NewNATConfigReconciler_memory :: cfg_memory where
  "NewNATConfigReconciler_memory =
     \<lparr>ncTargetCIDRs = Map.empty, ncExtIPCIDRs = Map.empty, ncAdvertisedCIDRs = Map.empty\<rparr>"

datatype cfg_error =
    CfgAPI api_error
  | CfgParse string
  | CfgMap maps_error
  | CfgRoute route_error
  | CfgGetNode api_error
  | CfgSelector string
  | CfgAt string cfg_error

definition cidrSet :: "string list \<Rightarrow> string set" where
  "cidrSet cidrs = set cidrs"

definition tracked :: "tracking \<Rightarrow> string \<Rightarrow> string list" where
  "tracked tr name = (case tr name of None \<Rightarrow> [] | Some cs \<Rightarrow> cs)"

definition cidrUsedByOther :: "string \<Rightarrow> string \<Rightarrow> tracking \<Rightarrow> bool" where
  "cidrUsedByOther ncName cidr tr \<longleftrightarrow> (\<exists>name cs. tr name = Some cs \<and> name \<noteq> ncName \<and> cidr \<in> set cs)"

definition parsed :: "string \<Rightarrow> (IPNet \<Rightarrow> 'w \<Rightarrow> (cfg_error, 'w) eff) \<Rightarrow> 'w \<Rightarrow> (cfg_error, 'w) eff" where
  "parsed cidr f w = (case ParseCIDR cidr of None \<Rightarrow> Some (Failed (CfgParse cidr) w) | Some (_, ipNet) \<Rightarrow> f ipNet w)"

text \<open>
  The two loops \<open>applyCIDRDiff\<close> and \<open>syncRoutes\<close> share: the additions, and the removals after the memory was
  updated. Go ranges over the sets in orders of its own: \<open>ord i\<close> is the one of the \<open>i\<close>-th range statement.
\<close>

definition add_cidrs ::
    "string go_order \<Rightarrow> string list \<Rightarrow> string list \<Rightarrow> (IPNet \<Rightarrow> 'w \<Rightarrow> (cfg_error, 'w) eff) \<Rightarrow> 'w \<Rightarrow> (cfg_error, 'w) eff" where
  "add_cidrs ord oldCIDRs newCIDRs add =
     for_eff (\<lambda>cidr. if cidr \<in> cidrSet oldCIDRs then (\<lambda>w. Some (Done w)) else parsed cidr add)
       (visit ord (cidrSet newCIDRs))"

definition remove_cidrs ::
    "string go_order \<Rightarrow> string \<Rightarrow> string list \<Rightarrow> string list \<Rightarrow> tracking \<Rightarrow>
     (IPNet \<Rightarrow> 'w \<Rightarrow> (cfg_error, 'w) eff) \<Rightarrow> 'w \<Rightarrow> (cfg_error, 'w) eff" where
  "remove_cidrs ord ncName oldCIDRs newCIDRs tr remove =
     for_eff (\<lambda>cidr. if cidr \<in> cidrSet newCIDRs then (\<lambda>w. Some (Done w))
                else if cidrUsedByOther ncName cidr tr then (\<lambda>w. Some (Done w))
                else parsed cidr remove)
       (visit ord (cidrSet oldCIDRs))"

definition with_tracking :: "tracking \<Rightarrow> ('e, 'w) eff \<Rightarrow> ('e, tracking \<times> 'w) eff" where
  "with_tracking tr r =
     map_option (\<lambda>x. case x of Done w \<Rightarrow> Done (tr, w) | Failed e w \<Rightarrow> Failed e (tr, w) | Panic w \<Rightarrow> Panic (tr, w)) r"

definition applyCIDRDiff ::
    "(nat \<Rightarrow> string go_order) \<Rightarrow> string \<Rightarrow> string list \<Rightarrow> string list \<Rightarrow> (IPNet \<Rightarrow> 'w \<Rightarrow> (cfg_error, 'w) eff) \<Rightarrow>
     (IPNet \<Rightarrow> 'w \<Rightarrow> (cfg_error, 'w) eff) \<Rightarrow> tracking \<times> 'w \<Rightarrow> (cfg_error, tracking \<times> 'w) eff" where
  "applyCIDRDiff ord ncName oldCIDRs newCIDRs add remove st = (case st of (tr, w0) \<Rightarrow>
     eff_bind (with_tracking tr (add_cidrs (ord 0) oldCIDRs newCIDRs add w0)) (\<lambda>(tr, w1).
       let tr' = tr(ncName \<mapsto> newCIDRs)
       in with_tracking tr' (remove_cidrs (ord 1) ncName oldCIDRs newCIDRs tr' remove w1)))"

definition syncRoutes ::
    "'w NATConfigReconciler \<Rightarrow> (nat \<Rightarrow> string go_order) \<Rightarrow> string \<Rightarrow> string list \<Rightarrow> tracking \<times> 'w \<Rightarrow> (cfg_error, tracking \<times> 'w) eff" where
  "syncRoutes r ord ncName newCIDRs st =
     applyCIDRDiff ord ncName (tracked (fst st) ncName) newCIDRs
       (\<lambda>n w. wrap_err CfgRoute (ra_AdvertisePrefix (cr_RouteAdvertiser r) n w))
       (\<lambda>n w. wrap_err CfgRoute (ra_WithdrawPrefix (cr_RouteAdvertiser r) n w)) st"

text \<open>The three steps write the three maps of the memory; an error in one of them ends the handler.\<close>

definition at_memory ::
    "string \<Rightarrow> (tracking \<Rightarrow> cfg_memory) \<Rightarrow> (cfg_error, tracking \<times> 'w) eff \<Rightarrow> (cfg_error, cfg_memory \<times> 'w) eff" where
  "at_memory what put r =
     map_option (\<lambda>x. case x of Done (tr, w) \<Rightarrow> Done (put tr, w) | Failed e (tr, w) \<Rightarrow> Failed (CfgAt what e) (put tr, w)
                            | Panic (tr, w) \<Rightarrow> Panic (put tr, w)) r"

definition syncBPFMaps ::
    "'w NATConfigReconciler \<Rightarrow> (nat \<Rightarrow> string go_order) \<Rightarrow> string \<Rightarrow> string list \<Rightarrow> string list \<Rightarrow> string list \<Rightarrow>
     cfg_memory \<times> 'w \<Rightarrow> (cfg_error, cfg_memory \<times> 'w) eff" where
  "syncBPFMaps r ord ncName desiredTargetCIDRs desiredExtIPCIDRs desiredRouteCIDRs st =
     (let oldTarget = tracked (ncTargetCIDRs (fst st)) ncName; oldExtIP = tracked (ncExtIPCIDRs (fst st)) ncName in
      eff_bind (case st of (m, w) \<Rightarrow> at_memory ''target_cidrs'' (\<lambda>tr. m\<lparr>ncTargetCIDRs := tr\<rparr>)
        (applyCIDRDiff ord ncName oldTarget desiredTargetCIDRs
           (\<lambda>n w. wrap_err CfgMap (tm_Add (cr_TargetCIDRs r) n w))
           (\<lambda>n w. wrap_err CfgMap (tm_Remove (cr_TargetCIDRs r) n w)) (ncTargetCIDRs m, w))) (\<lambda>(m, w).
      eff_bind (at_memory ''dst_kind (ext ip)'' (\<lambda>tr. m\<lparr>ncExtIPCIDRs := tr\<rparr>)
        (applyCIDRDiff (\<lambda>i. ord (i + 2)) ncName oldExtIP desiredExtIPCIDRs
           (\<lambda>n w. wrap_err CfgMap (em_Add (cr_ExtIPKind r) n w))
           (\<lambda>n w. wrap_err CfgMap (em_Remove (cr_ExtIPKind r) n w)) (ncExtIPCIDRs m, w))) (\<lambda>(m, w).
      at_memory ''routes'' (\<lambda>tr. m\<lparr>ncAdvertisedCIDRs := tr\<rparr>)
        (syncRoutes r (\<lambda>i. ord (i + 4)) ncName desiredRouteCIDRs (ncAdvertisedCIDRs m, w)))))"

definition nodeMatchesSelector :: "'w NATConfigReconciler \<Rightarrow> NATConfig \<Rightarrow> 'w \<Rightarrow> cfg_error + bool" where
  "nodeMatchesSelector r nc w =
     (case NodeSelector (nc_Spec nc) of
        None \<Rightarrow> Inr True
      | Some sel \<Rightarrow>
          (case cr_GetNode r w (cr_NodeName r) of
             Inl e \<Rightarrow> Inl (CfgGetNode e)
           | Inr nodeLabels \<Rightarrow>
               (case cr_SelectorMatches r sel nodeLabels of Inl e \<Rightarrow> Inl (CfgSelector e) | Inr b \<Rightarrow> Inr b)))"

definition reconcileDaemonNATConfig ::
    "'w NATConfigReconciler \<Rightarrow> (nat \<Rightarrow> string go_order) \<Rightarrow> string \<Rightarrow> cfg_memory \<times> 'w \<Rightarrow> (cfg_error, cfg_memory \<times> 'w) eff" where
  "reconcileDaemonNATConfig r ord name st =
     (case cr_GetNATConfig r (snd st) name of
        Inl e \<Rightarrow> if e = NotFound then syncBPFMaps r ord name [] [] [] st else Some (Failed (CfgAPI e) st)
      | Inr nc \<Rightarrow>
          (case nodeMatchesSelector r nc (snd st) of
             Inl e \<Rightarrow> Some (Failed e st)
           | Inr nodeMatches \<Rightarrow>
               syncBPFMaps r ord name (nc_TargetCIDRs (nc_Spec nc)) (ExternalIPPool (nc_Spec nc))
                 (if nodeMatches then ExternalIPPool (nc_Spec nc) else []) st))"

text \<open>The names of the NATConfigs to reconcile after a change of a node.\<close>

definition nodeToNATConfigs :: "'w NATConfigReconciler \<Rightarrow> string \<Rightarrow> 'w \<Rightarrow> string list" where
  "nodeToNATConfigs r nodeName w =
     (if nodeName \<noteq> cr_NodeName r then []
      else (case cr_ListNATConfigs r w of Inl e \<Rightarrow> [] | Inr ncs \<Rightarrow> map nc_Name ncs))"

end
