(* ===== verification/DaemonConfigInv.thy ===== *)
theory DaemonConfigInv
  imports DaemonConfig
begin

text \<open>
  The reference counting of the daemon's NATConfig controller. The interface \<open>cidr_store\<close> is what
  \<open>applyCIDRDiff\<close> needs of \<open>add\<close> and \<open>remove\<close>: \<open>cover w\<close> are the entries in the map, \<open>foot n\<close> the entries a
  network stands for. Under it, every network that some NATConfig's memory lists is in the map after
  every call, failed calls included, when different CIDR strings stand for disjoint entries.
\<close>

definition strings_of :: "tracking \<Rightarrow> string set" where
  "strings_of tr = {c. \<exists>name cs. tr name = Some cs \<and> c \<in> set cs}"

definition nets_of :: "string set \<Rightarrow> IPNet set" where
  "nets_of C = {n. \<exists>c \<in> C. \<exists>ip. ParseCIDR c = Some (ip, n)}"

text \<open>Different strings of \<open>C\<close> stand for disjoint entries.\<close>

definition disjoint_cidrs :: "(IPNet \<Rightarrow> 'k set) \<Rightarrow> string set \<Rightarrow> bool" where
  "disjoint_cidrs foot C \<longleftrightarrow> (\<forall>c \<in> C. \<forall>c' \<in> C. \<forall>ip n ip' n'. c \<noteq> c' \<longrightarrow> ParseCIDR c = Some (ip, n) \<longrightarrow>
     ParseCIDR c' = Some (ip', n') \<longrightarrow> foot n \<inter> foot n' = {})"

lemma nets_of_Un: "nets_of (A \<union> B) = nets_of A \<union> nets_of B"
  by (auto simp: nets_of_def)

lemma nets_of_mono: "A \<subseteq> B \<Longrightarrow> nets_of A \<subseteq> nets_of B"
  by (auto simp: nets_of_def)

lemma strings_of_upd: "strings_of (tr(name \<mapsto> cs)) \<subseteq> strings_of tr \<union> set cs"
  by (auto simp: strings_of_def split: if_splits)

lemma with_tracking_Done: "with_tracking tr x = Some (Done (tr', w)) \<longleftrightarrow> tr' = tr \<and> x = Some (Done w)"
  by (cases x; cases "the x") (auto simp: with_tracking_def)

lemma with_tracking_Some: "with_tracking tr x = Some res \<longleftrightarrow>
    (\<exists>y. x = Some y \<and> world_of res = (tr, world_of y) \<and> (\<forall>w. res = Done (tr, w) \<longleftrightarrow> y = Done w) \<and>
      res = (case y of Done w \<Rightarrow> Done (tr, w) | Failed e w \<Rightarrow> Failed e (tr, w) | Panic w \<Rightarrow> Panic (tr, w)))"
  by (cases x; cases "the x") (auto simp: with_tracking_def)

locale cidr_store =
  fixes add remove :: "IPNet \<Rightarrow> 'w \<Rightarrow> (cfg_error, 'w) eff"
    and cover :: "'w \<Rightarrow> 'k set" and foot :: "IPNet \<Rightarrow> 'k set" and ok :: "'w \<Rightarrow> bool" and good :: "IPNet \<Rightarrow> bool"
  assumes add_any: "ok w \<Longrightarrow> good n \<Longrightarrow> any_post (add n w) (\<lambda>w'. ok w' \<and> cover w \<subseteq> cover w')"
    and add_done: "ok w \<Longrightarrow> good n \<Longrightarrow> ok_post (add n w) (\<lambda>w'. foot n \<subseteq> cover w')"
    and remove_any: "ok w \<Longrightarrow> good n \<Longrightarrow> any_post (remove n w) (\<lambda>w'. ok w' \<and> cover w - foot n \<subseteq> cover w')"
begin

definition stored :: "tracking \<Rightarrow> 'w \<Rightarrow> bool" where
  "stored tr w \<longleftrightarrow> ok w \<and> (\<forall>n \<in> nets_of (strings_of tr). foot n \<subseteq> cover w)"

lemma add_cidrs_any:
  assumes "ok w" "nets_of (set new) \<subseteq> Collect good"
  shows "any_post (add_cidrs ord old new add w) (\<lambda>w'. ok w' \<and> cover w \<subseteq> cover w')"
  unfolding add_cidrs_def
proof (rule any_post_for)
  fix c v assume v: "ok v \<and> cover w \<subseteq> cover v" and c: "c \<in> set (visit ord (cidrSet new))"
  have "any_post (parsed c add v) (\<lambda>w'. ok w' \<and> cover w \<subseteq> cover w')"
  proof (cases "ParseCIDR c")
    case (Some p)
    then obtain ip n where p: "ParseCIDR c = Some (ip, n)" by (cases p) auto
    then have "good n" using c assms(2) by (auto simp: nets_of_def cidrSet_def)
    then have "any_post (add n v) (\<lambda>w'. ok w' \<and> cover v \<subseteq> cover w')" using v by (intro add_any) auto
    then show ?thesis using v p by (auto simp: parsed_def elim!: any_post_mono)
  qed (use v in \<open>simp add: parsed_def\<close>)
  then show "any_post ((if c \<in> cidrSet old then \<lambda>w. Some (Done w) else parsed c add) v) (\<lambda>w'. ok w' \<and> cover w \<subseteq> cover w')"
    using v by simp
qed (use assms in simp)

lemma ok_of_any: "any_post m P \<Longrightarrow> ok_post m P"
  by (auto simp: any_post_def ok_post_def)

lemma ok_post_conj: "ok_post m P \<Longrightarrow> ok_post m Q \<Longrightarrow> ok_post m (\<lambda>w. P w \<and> Q w)"
  by (simp add: ok_post_def)

lemma add_cidrs_done:
  assumes "ok w" "nets_of (set new) \<subseteq> Collect good" and old: "\<And>n. n \<in> nets_of (set old) \<Longrightarrow> foot n \<subseteq> cover w"
  shows "ok_post (add_cidrs ord old new add w) (\<lambda>w'. \<forall>n \<in> nets_of (set new). foot n \<subseteq> cover w')"
proof -
  define I where "I = (\<lambda>ys w'. ok w' \<and> cover w \<subseteq> cover w' \<and> (\<forall>n \<in> nets_of (set ys). foot n \<subseteq> cover w'))"
  have "ok_post (add_cidrs ord old new add w) (I (visit ord (cidrSet new)))"
    unfolding add_cidrs_def
  proof (rule ok_post_for)
    show "I [] w" using assms(1) by (simp add: I_def nets_of_def)
  next
    fix ys c v assume I: "I ys v" and c: "c \<in> set (visit ord (cidrSet new))"
    have ext: "nets_of (set (ys @ [c])) = nets_of (set ys) \<union> nets_of {c}" by (simp add: nets_of_Un [symmetric])
    show "ok_post ((if c \<in> cidrSet old then \<lambda>w. Some (Done w) else parsed c add) v) (I (ys @ [c]))"
    proof (cases "c \<in> cidrSet old")
      case True
      then have "nets_of {c} \<subseteq> nets_of (set old)" by (intro nets_of_mono) (simp add: cidrSet_def)
      then show ?thesis using True I old unfolding I_def ext by auto
    next
      case False
      show ?thesis
      proof (cases "ParseCIDR c")
        case (Some p)
        then obtain ip n where p: "ParseCIDR c = Some (ip, n)" by (cases p) auto
        have n: "nets_of {c} = {n}" using p by (auto simp: nets_of_def)
        have g: "good n" using c p assms(2) by (auto simp: nets_of_def cidrSet_def)
        have "ok_post (add n v) (\<lambda>w'. (ok w' \<and> cover v \<subseteq> cover w') \<and> foot n \<subseteq> cover w')"
          using I g by (intro ok_post_conj ok_of_any add_any add_done) (auto simp: I_def)
        then show ?thesis using False p I unfolding I_def ext n by (auto simp: parsed_def elim!: ok_post_mono)
      qed (use False in \<open>simp add: parsed_def\<close>)
    qed
  qed
  then show ?thesis by (rule ok_post_mono) (simp add: I_def cidrSet_def)
qed

lemma remove_cidrs_stored:
  assumes "stored tr w" "tr name = Some new" and C: "strings_of tr \<union> set old \<subseteq> C"
    and dis: "disjoint_cidrs foot C" and good: "nets_of C \<subseteq> Collect good"
  shows "any_post (remove_cidrs ord name old new tr remove w) (stored tr)"
  unfolding remove_cidrs_def
proof (rule any_post_for)
  fix c v assume v: "stored tr v" and c: "c \<in> set (visit ord (cidrSet old))"
  have "any_post (parsed c remove v) (stored tr)" if unused: "c \<notin> cidrSet new" "\<not> cidrUsedByOther name c tr"
  proof (cases "ParseCIDR c")
    case (Some p)
    then obtain ip n where p: "ParseCIDR c = Some (ip, n)" by (cases p) auto
    have cC: "c \<in> C" using c C by (auto simp: cidrSet_def)
    have fresh: "c \<notin> strings_of tr"
    proof
      assume "c \<in> strings_of tr"
      then obtain m cs where "tr m = Some cs" "c \<in> set cs" by (auto simp: strings_of_def)
      with unused assms(2) show False by (cases "m = name") (auto simp: cidrUsedByOther_def cidrSet_def)
    qed
    have apart: "foot m \<inter> foot n = {}" if "m \<in> nets_of (strings_of tr)" for m
    proof -
      from that obtain c' ip' where c': "c' \<in> strings_of tr" "ParseCIDR c' = Some (ip', m)" by (auto simp: nets_of_def)
      then have "c' \<in> C" "c' \<noteq> c" using C fresh by auto
      with dis cC p c'(2) show ?thesis unfolding disjoint_cidrs_def by blast
    qed
    have "good n" using good cC p by (auto simp: nets_of_def)
    then have "any_post (remove n v) (\<lambda>w'. ok w' \<and> cover v - foot n \<subseteq> cover w')"
      using v by (intro remove_any) (auto simp: stored_def)
    then have "any_post (remove n v) (stored tr)"
    proof (rule any_post_mono)
      fix w' assume w': "ok w' \<and> cover v - foot n \<subseteq> cover w'"
      have "foot m \<subseteq> cover w'" if "m \<in> nets_of (strings_of tr)" for m
        using apart [OF that] v w' that unfolding stored_def by blast
      with w' show "stored tr w'" by (simp add: stored_def)
    qed
    then show ?thesis using p by (simp add: parsed_def)
  qed (use v in \<open>simp add: parsed_def\<close>)
  then show "any_post ((if c \<in> cidrSet new then \<lambda>w. Some (Done w) else if cidrUsedByOther name c tr then \<lambda>w. Some (Done w)
      else parsed c remove) v) (stored tr)" using v by simp
qed (rule assms(1))

lemma applyCIDRDiff_stored:
  assumes inv: "stored tr w" and C: "strings_of tr \<union> set new \<subseteq> C"
    and dis: "disjoint_cidrs foot C" and good: "nets_of C \<subseteq> Collect good"
    and run: "applyCIDRDiff ord name (tracked tr name) new add remove (tr, w) = Some res"
  shows "stored (fst (world_of res)) (snd (world_of res)) \<and> fst (world_of res) \<in> {tr, tr(name \<mapsto> new)} \<and>
     (\<forall>st. res = Done st \<longrightarrow> fst st = tr(name \<mapsto> new))"
proof -
  let ?old = "tracked tr name" and ?tr' = "tr(name \<mapsto> new)"
  have ok: "ok w" using inv by (simp add: stored_def)
  have g: "nets_of (set new) \<subseteq> Collect good" using good nets_of_mono [of "set new" C] C by blast
  have old: "set ?old \<subseteq> strings_of tr" by (cases "tr name") (auto simp: tracked_def strings_of_def)
  obtain y where y: "add_cidrs (ord 0) ?old new add w = Some y"
    using run by (cases "add_cidrs (ord 0) ?old new add w") (simp_all add: applyCIDRDiff_def with_tracking_def)
  have grown: "ok (world_of y) \<and> cover w \<subseteq> cover (world_of y)"
    using add_cidrs_any [OF ok g, of "ord 0" ?old] y by (simp add: any_post_def)
  have kept: "stored tr (world_of y)" using inv grown unfolding stored_def by blast
  show ?thesis
  proof (cases y)
    case (Done w1)
    have "\<forall>n \<in> nets_of (set new). foot n \<subseteq> cover w1"
    proof (rule ok_postD [OF add_cidrs_done [OF ok g]])
      show "foot n \<subseteq> cover w" if "n \<in> nets_of (set ?old)" for n
        using that inv nets_of_mono [OF old] by (auto simp: stored_def)
      show "add_cidrs (ord 0) ?old new add w = Some (Done w1)" using y Done by simp
    qed
    moreover have "nets_of (strings_of ?tr') \<subseteq> nets_of (strings_of tr) \<union> nets_of (set new)"
      using nets_of_mono [OF strings_of_upd] by (simp add: nets_of_Un)
    ultimately have st: "stored ?tr' w1"
      using inv grown unfolding stored_def Done world_of.simps by (blast dest: subsetD)
    have C': "strings_of ?tr' \<union> set ?old \<subseteq> C" using C old strings_of_upd [of tr name new] by blast
    have "with_tracking ?tr' (remove_cidrs (ord 1) name ?old new ?tr' remove w1) = Some res"
      using run y Done by (simp add: applyCIDRDiff_def with_tracking_def Let_def)
    then obtain z where "remove_cidrs (ord 1) name ?old new ?tr' remove w1 = Some z" "world_of res = (?tr', world_of z)"
      "res = (case z of Done w \<Rightarrow> Done (?tr', w) | Failed e w \<Rightarrow> Failed e (?tr', w) | Panic w \<Rightarrow> Panic (?tr', w))"
      unfolding with_tracking_Some by blast
    moreover have "any_post (remove_cidrs (ord 1) name ?old new ?tr' remove w1) (stored ?tr')"
      by (rule remove_cidrs_stored [OF st _ C' dis good]) simp
    ultimately show ?thesis by (auto simp: any_post_def split: effect.splits)
  next
    case (Failed e w1)
    then show ?thesis using run y kept by (auto simp: applyCIDRDiff_def with_tracking_def)
  next
    case (Panic w1)
    then show ?thesis using run y kept by (auto simp: applyCIDRDiff_def with_tracking_def)
  qed
qed

end

text \<open>A store whose \<open>remove\<close>, when it returns nil, has taken the network out.\<close>

lemma usedByOther_own [simp]: "cidrUsedByOther name c (tr(name \<mapsto> new)) = cidrUsedByOther name c tr"
  by (auto simp: cidrUsedByOther_def)

definition cidr_dropped :: "tracking \<Rightarrow> string \<Rightarrow> string list \<Rightarrow> string \<Rightarrow> bool" where
  "cidr_dropped tr name new c \<longleftrightarrow> c \<in> set (tracked tr name) \<and> c \<notin> set new \<and> \<not> cidrUsedByOther name c tr"

definition absent :: "(IPNet \<Rightarrow> 'k set) \<Rightarrow> 'k set \<Rightarrow> string \<Rightarrow> bool" where
  "absent foot K c \<longleftrightarrow> (\<forall>ip n. ParseCIDR c = Some (ip, n) \<longrightarrow> foot n \<inter> K = {})"

locale exact_cidr_store = cidr_store +
  assumes remove_done: "ok w \<Longrightarrow> good n \<Longrightarrow> ok_post (remove n w) (\<lambda>w'. cover w' \<subseteq> cover w - foot n)"
begin

lemma remove_cidrs_gone:
  assumes "ok w" "nets_of (set old) \<subseteq> Collect good"
  shows "ok_post (remove_cidrs ord name old new tr remove w)
     (\<lambda>w'. \<forall>c \<in> set old - set new. \<not> cidrUsedByOther name c tr \<longrightarrow> absent foot (cover w') c)"
proof -
  define I where "I = (\<lambda>ys w'. ok w' \<and> (\<forall>c \<in> set ys - set new. \<not> cidrUsedByOther name c tr \<longrightarrow> absent foot (cover w') c))"
  have "ok_post (remove_cidrs ord name old new tr remove w) (I (visit ord (cidrSet old)))"
    unfolding remove_cidrs_def
  proof (rule ok_post_for)
    show "I [] w" using assms(1) by (simp add: I_def)
  next
    fix ys c v assume I: "I ys v" and c: "c \<in> set (visit ord (cidrSet old))"
    show "ok_post ((if c \<in> cidrSet new then \<lambda>w. Some (Done w) else if cidrUsedByOther name c tr then \<lambda>w. Some (Done w)
        else parsed c remove) v) (I (ys @ [c]))"
    proof (cases "c \<in> set new \<or> cidrUsedByOther name c tr")
      case True
      then show ?thesis using I by (auto simp: cidrSet_def I_def)
    next
      case False
      show ?thesis
      proof (cases "ParseCIDR c")
        case (Some p)
        then obtain ip n where p: "ParseCIDR c = Some (ip, n)" by (cases p) auto
        have g: "good n" using c p assms(2) by (auto simp: nets_of_def cidrSet_def)
        have "ok_post (remove n v) (\<lambda>w'. (ok w' \<and> cover v - foot n \<subseteq> cover w') \<and> cover w' \<subseteq> cover v - foot n)"
          using I g by (intro ok_post_conj ok_of_any remove_any remove_done) (auto simp: I_def)
        then have "ok_post (remove n v) (I (ys @ [c]))"
        proof (rule ok_post_mono)
          fix w' assume w': "(ok w' \<and> cover v - foot n \<subseteq> cover w') \<and> cover w' \<subseteq> cover v - foot n"
          have "absent foot (cover w') d" if "absent foot (cover v) d \<or> d = c" for d
          proof (cases "d = c")
            case True
            then show ?thesis using w' p unfolding absent_def by auto
          next
            case False
            then have "absent foot (cover v) d" using that by blast
            moreover have "cover w' \<subseteq> cover v" using w' by blast
            ultimately show ?thesis unfolding absent_def by blast
          qed
          with I w' show "I (ys @ [c]) w'" by (auto simp: I_def)
        qed
        then show ?thesis using False p by (simp add: cidrSet_def parsed_def)
      qed (use False in \<open>simp add: parsed_def cidrSet_def\<close>)
    qed
  qed
  then show ?thesis by (rule ok_post_mono) (simp add: I_def cidrSet_def)
qed

lemma applyCIDRDiff_gone:
  assumes inv: "stored tr w" and good: "nets_of (strings_of tr \<union> set new) \<subseteq> Collect good"
    and run: "applyCIDRDiff ord name (tracked tr name) new add remove (tr, w) = Some (Done (tr', w'))"
    and c: "cidr_dropped tr name new c"
  shows "absent foot (cover w') c"
proof -
  let ?old = "tracked tr name"
  have ok: "ok w" using inv by (simp add: stored_def)
  have old: "set ?old \<subseteq> strings_of tr" by (cases "tr name") (auto simp: tracked_def strings_of_def)
  have g: "nets_of (set new) \<subseteq> Collect good" "nets_of (set ?old) \<subseteq> Collect good"
    using good nets_of_mono [OF old] by (auto simp: nets_of_Un)
  obtain w1 where w1: "add_cidrs (ord 0) ?old new add w = Some (Done w1)"
    "remove_cidrs (ord 1) name ?old new (tr(name \<mapsto> new)) remove w1 = Some (Done w')"
    using run by (auto simp: applyCIDRDiff_def eff_bind_Done with_tracking_Done Let_def)
  have "ok w1" using add_cidrs_any [OF ok g(1), of "ord 0" ?old] w1(1) by (simp add: any_post_def)
  from ok_postD [OF remove_cidrs_gone [OF this g(2)] w1(2)] c show ?thesis by (simp add: cidr_dropped_def)
qed

end

section \<open>The two BPF maps\<close>

definition target_key :: "IPNet \<Rightarrow> lpm_key" where
  "target_key n = lpm_of n (ip_key (To4 (net_addr n)))"

definition target_foot :: "IPNet \<Rightarrow> lpm_key set" where
  "target_foot n = (if To4 (net_addr n) = [] then {} else {target_key n})"

definition ext_foot :: "IPNet \<Rightarrow> u32 set" where
  "ext_foot n = (case expandCIDR n of Some (Inr ips) \<Rightarrow> ip_key ` set ips | _ \<Rightarrow> {})"

definition ext_cover :: "bpf_state \<Rightarrow> u32 set" where
  "ext_cover s = {a. v_dst_kind s a = Some dstKindExtIP}"

text \<open>What holds of the kernel's maps for every NATConfig in the memory.\<close>

definition cfg_stored :: "('w \<Rightarrow> bpf_state) \<Rightarrow> cfg_memory \<Rightarrow> 'w \<Rightarrow> bool" where
  "cfg_stored view m w \<longleftrightarrow> state_ok (view w) \<and>
     (\<forall>n \<in> nets_of (strings_of (ncTargetCIDRs m)). target_foot n \<subseteq> dom (v_target_cidrs (view w))) \<and>
     (\<forall>n \<in> nets_of (strings_of (ncExtIPCIDRs m)). ext_foot n \<subseteq> ext_cover (view w))"

lemma any_post_open: "any_post (f w) P \<Longrightarrow> P w \<Longrightarrow> any_post (eff_bind (openMap E n w) f) P"
  by (auto simp: openMap_def split: option.splits)

lemma any_post_ip: "(\<And>a. ipToUint32 ip = Some a \<Longrightarrow> any_post (f a w) P) \<Longrightarrow> P w \<Longrightarrow> any_post (with_ip ip f w) P"
  by (auto simp: with_ip_def split: option.splits)

abbreviation (input) with_target :: "bpf_state \<Rightarrow> (lpm_key \<rightharpoonup> target_cidr_val) \<Rightarrow> bpf_state" where
  "with_target s m \<equiv> s\<lparr>v_target_cidrs := m\<rparr>"

abbreviation (input) with_kind :: "bpf_state \<Rightarrow> (u32 \<rightharpoonup> u8) \<Rightarrow> bpf_state" where
  "with_kind s m \<equiv> s\<lparr>v_dst_kind := m\<rparr>"

context ebpf_kernel
begin

lemma AddTargetCIDR_any:
  assumes "no_host_bits (target_key n)"
  shows "any_post (AddTargetCIDR E n w) (\<lambda>w'. \<exists>m. view w' = with_target (view w) m \<and> dom (v_target_cidrs (view w)) \<subseteq> dom m)"
proof (cases "To4 (net_addr n) = []")
  case False
  have same: "\<exists>m. view w = with_target (view w) m \<and> dom (v_target_cidrs (view w)) \<subseteq> dom m"
    by (rule exI [of _ "v_target_cidrs (view w)"]) simp
  have "any_post (ret_err MapErr (bm_Put (target_cidrs_map E) (lpm_of n a) v w))
      (\<lambda>w'. \<exists>m. view w' = with_target (view w) m \<and> dom (v_target_cidrs (view w)) \<subseteq> dom m)"
    if "ipToUint32 (To4 (net_addr n)) = Some a" for a v
  proof -
    obtain r w' where put: "bm_Put (target_cidrs_map E) (lpm_of n a) v w = (r, w')" by fastforce
    have "no_host_bits (lpm_of n a)" using assms that by (simp add: target_key_def)
    from map_law_put [OF target_law this put] same show ?thesis
      by (cases r) (auto simp: put ret_err_def intro!: exI [of _ "(v_target_cidrs (view w))(lpm_of n a \<mapsto> v)"])
  qed
  then show ?thesis using False same by (auto simp: AddTargetCIDR_def Let_def intro!: any_post_open any_post_ip)
qed (auto simp: AddTargetCIDR_def intro!: exI [of _ "v_target_cidrs (view w)"])

lemma RemoveTargetCIDR_any:
  assumes "no_host_bits (target_key n)"
  shows "any_post (RemoveTargetCIDR E n w) (\<lambda>w'. \<exists>m. view w' = with_target (view w) m \<and>
     dom (v_target_cidrs (view w)) - target_foot n \<subseteq> dom m)"
proof (cases "To4 (net_addr n) = []")
  case False
  have same: "\<exists>m. view w = with_target (view w) m \<and> dom (v_target_cidrs (view w)) - target_foot n \<subseteq> dom m"
    by (rule exI [of _ "v_target_cidrs (view w)"]) simp
  have "any_post (ret_err_missing_ok f (bm_Delete (target_cidrs_map E) (lpm_of n a) w))
      (\<lambda>w'. \<exists>m. view w' = with_target (view w) m \<and> dom (v_target_cidrs (view w)) - target_foot n \<subseteq> dom m)"
    if ip: "ipToUint32 (To4 (net_addr n)) = Some a" for a f
  proof -
    obtain r w' where del: "bm_Delete (target_cidrs_map E) (lpm_of n a) w = (r, w')" by fastforce
    have "no_host_bits (lpm_of n a)" "target_foot n = {lpm_of n a}"
      using assms ip False by (simp_all add: target_key_def target_foot_def)
    from map_law_delete(1) [OF target_law this(1) del] this(2) same show ?thesis
      by (cases r) (auto simp: del ret_err_missing_ok_def intro!: exI [of _ "(v_target_cidrs (view w))(lpm_of n a := None)"])
  qed
  then show ?thesis using False same by (auto simp: RemoveTargetCIDR_def Let_def intro!: any_post_open any_post_ip)
qed (auto simp: RemoveTargetCIDR_def intro!: exI [of _ "v_target_cidrs (view w)"])

lemma real_target_store:
  "cidr_store (\<lambda>n w. wrap_err CfgMap (tm_Add (RealTargetCIDRMap E) n w))
     (\<lambda>n w. wrap_err CfgMap (tm_Remove (RealTargetCIDRMap E) n w))
     (\<lambda>w. dom (v_target_cidrs (view w))) target_foot (\<lambda>w. state_ok (view w) \<and> v_dst_kind (view w) = kinds)
     (\<lambda>n. no_host_bits (target_key n))"
proof
  fix w n assume ok: "state_ok (view w) \<and> v_dst_kind (view w) = kinds" and key: "no_host_bits (target_key n)"
  show "any_post (wrap_err CfgMap (tm_Add (RealTargetCIDRMap E) n w))
      (\<lambda>w'. (state_ok (view w') \<and> v_dst_kind (view w') = kinds) \<and> dom (v_target_cidrs (view w)) \<subseteq> dom (v_target_cidrs (view w')))"
    by (rule any_post_wrap, simp add: RealTargetCIDRMap_def, rule any_post_mono [OF AddTargetCIDR_any [OF key]])
      (use ok in auto)
  show "any_post (wrap_err CfgMap (tm_Remove (RealTargetCIDRMap E) n w))
      (\<lambda>w'. (state_ok (view w') \<and> v_dst_kind (view w') = kinds) \<and>
        dom (v_target_cidrs (view w)) - target_foot n \<subseteq> dom (v_target_cidrs (view w')))"
    by (rule any_post_wrap, simp add: RealTargetCIDRMap_def, rule any_post_mono [OF RemoveTargetCIDR_any [OF key]])
      (use ok in auto)
  have "ok_post (AddTargetCIDR E n w) (\<lambda>w'. target_foot n \<subseteq> dom (t_target (tables_of (view w'))))"
    using refines_AddTargetCIDR [OF key [unfolded target_key_def]] ok
    unfolding refines_def by (auto simp: target_foot_def target_key_def elim!: ok_post_mono simp del: tables_of_sel)
  then show "ok_post (wrap_err CfgMap (tm_Add (RealTargetCIDRMap E) n w)) (\<lambda>w'. target_foot n \<subseteq> dom (v_target_cidrs (view w')))"
    by (simp add: RealTargetCIDRMap_def)
qed

lemma real_target_exact:
  "exact_cidr_store (\<lambda>n w. wrap_err CfgMap (tm_Add (RealTargetCIDRMap E) n w))
     (\<lambda>n w. wrap_err CfgMap (tm_Remove (RealTargetCIDRMap E) n w))
     (\<lambda>w. dom (v_target_cidrs (view w))) target_foot (\<lambda>w. state_ok (view w) \<and> v_dst_kind (view w) = kinds)
     (\<lambda>n. no_host_bits (target_key n))"
proof (intro exact_cidr_store.intro exact_cidr_store_axioms.intro real_target_store)
  fix w n assume ok: "state_ok (view w) \<and> v_dst_kind (view w) = kinds" and key: "no_host_bits (target_key n)"
  have "ok_post (RemoveTargetCIDR E n w) (\<lambda>w'. dom (t_target (tables_of (view w'))) \<subseteq> dom (t_target (tables_of (view w))) - target_foot n)"
  proof (rule ok_post_mono)
    show "ok_post (RemoveTargetCIDR E n w) (\<lambda>w'. tables_of (view w') =
        tables_of (view w)\<lparr>t_target := (t_target (tables_of (view w)))(target_key n := None)\<rparr>)"
      using refines_RemoveTargetCIDR [OF key [unfolded target_key_def]] ok by (simp add: refines_def target_key_def)
    fix w' assume "tables_of (view w') =
        tables_of (view w)\<lparr>t_target := (t_target (tables_of (view w)))(target_key n := None)\<rparr>"
    then have t: "t_target (tables_of (view w')) = (t_target (tables_of (view w)))(target_key n := None)" by simp
    show "dom (t_target (tables_of (view w'))) \<subseteq> dom (t_target (tables_of (view w))) - target_foot n"
      unfolding t by (auto simp: target_foot_def)
  qed
  then show "ok_post (wrap_err CfgMap (tm_Remove (RealTargetCIDRMap E) n w))
      (\<lambda>w'. dom (v_target_cidrs (view w')) \<subseteq> dom (v_target_cidrs (view w)) - target_foot n)"
    by (simp add: RealTargetCIDRMap_def)
qed

lemma for_ext_ips_any:
  assumes step: "\<And>a v m. a \<in> ext_foot n \<Longrightarrow> view v = with_kind (view w) m \<Longrightarrow> Q m \<Longrightarrow>
       any_post (f a v) (\<lambda>w'. \<exists>m. view w' = with_kind (view w) m \<and> Q m)"
    and start: "Q (v_dst_kind (view w))"
  shows "any_post (for_ext_ips E n f w) (\<lambda>w'. \<exists>m. view w' = with_kind (view w) m \<and> Q m)"
proof -
  have same: "\<exists>m. view w = with_kind (view w) m \<and> Q m" by (rule exI [of _ "v_dst_kind (view w)"]) (simp add: start)
  show ?thesis
  proof (cases "expandCIDR n")
    case (Some r)
    show ?thesis
    proof (cases r)
      case (Inl e)
      then show ?thesis using Some same by (simp add: for_ext_ips_def)
    next
      case (Inr ips)
      have "any_post (for_eff (\<lambda>ip. with_ip ip f) ips w) (\<lambda>w'. \<exists>m. view w' = with_kind (view w) m \<and> Q m)"
      proof (rule any_post_for)
        show "\<exists>m. view w = with_kind (view w) m \<and> Q m" by (rule same)
      next
        fix ip v assume v: "\<exists>m. view v = with_kind (view w) m \<and> Q m" and ip: "ip \<in> set ips"
        show "any_post (with_ip ip f v) (\<lambda>w'. \<exists>m. view w' = with_kind (view w) m \<and> Q m)"
        proof (rule any_post_ip)
          show "\<exists>m. view v = with_kind (view w) m \<and> Q m" by (rule v)
        next
          fix a assume "ipToUint32 ip = Some a"
          then have "a \<in> ext_foot n" using ip Some Inr by (force simp: ext_foot_def)
          with v show "any_post (f a v) (\<lambda>w'. \<exists>m. view w' = with_kind (view w) m \<and> Q m)" using step by blast
        qed
      qed
      then show ?thesis using Some Inr same by (simp add: for_ext_ips_def any_post_open)
    qed
  qed (simp add: for_ext_ips_def)
qed

lemma AddExtIPKind_any:
  "any_post (AddExtIPKind E n w) (\<lambda>w'. \<exists>m. view w' = with_kind (view w) m \<and>
     (\<forall>a. v_dst_kind (view w) a = Some dstKindExtIP \<longrightarrow> m a = Some dstKindExtIP))"
  unfolding AddExtIPKind_def
proof (rule for_ext_ips_any)
  fix a v m assume v: "view v = with_kind (view w) m"
    and Q: "\<forall>a. v_dst_kind (view w) a = Some dstKindExtIP \<longrightarrow> m a = Some dstKindExtIP"
  obtain r w' where put: "bm_Put (dst_kind_map E) a dstKindExtIP v = (r, w')" by fastforce
  show "any_post (ret_err (MapCall ''ext ip'') (bm_Put (dst_kind_map E) a dstKindExtIP v))
      (\<lambda>w'. \<exists>m. view w' = with_kind (view w) m \<and> (\<forall>a. v_dst_kind (view w) a = Some dstKindExtIP \<longrightarrow> m a = Some dstKindExtIP))"
  proof (cases r)
    case None
    with map_law_put [OF dst_kind_law TrueI put] v Q show ?thesis
      by (auto simp: put ret_err_def intro!: exI [of _ "m(a \<mapsto> dstKindExtIP)"])
  next
    case (Some e)
    with map_law_put [OF dst_kind_law TrueI put] v Q show ?thesis by (auto simp: put ret_err_def intro!: exI [of _ m])
  qed
qed simp

lemma RemoveExtIPKind_any:
  "any_post (RemoveExtIPKind E n w) (\<lambda>w'. \<exists>m. view w' = with_kind (view w) m \<and>
     (\<forall>a. a \<notin> ext_foot n \<longrightarrow> m a = v_dst_kind (view w) a))"
  unfolding RemoveExtIPKind_def
proof (rule for_ext_ips_any)
  fix a v m assume a: "a \<in> ext_foot n" and v: "view v = with_kind (view w) m"
    and Q: "\<forall>a. a \<notin> ext_foot n \<longrightarrow> m a = v_dst_kind (view w) a"
  obtain r w' where del: "bm_Delete (dst_kind_map E) a v = (r, w')" by fastforce
  show "any_post (ret_err_missing_ok (MapCall ''remove ext IP'') (bm_Delete (dst_kind_map E) a v))
      (\<lambda>w'. \<exists>m. view w' = with_kind (view w) m \<and> (\<forall>a. a \<notin> ext_foot n \<longrightarrow> m a = v_dst_kind (view w) a))"
  proof (cases r)
    case None
    with map_law_delete(1) [OF dst_kind_law TrueI del] v Q a show ?thesis
      by (auto simp: del ret_err_missing_ok_def intro!: exI [of _ "m(a := None)"])
  next
    case (Some e)
    with map_law_delete(1) [OF dst_kind_law TrueI del] v Q a show ?thesis
      by (auto simp: del ret_err_missing_ok_def intro!: exI [of _ m])
  qed
qed simp

lemma real_ext_store:
  "cidr_store (\<lambda>n w. wrap_err CfgMap (em_Add (RealExtIPKindMap E) n w))
     (\<lambda>n w. wrap_err CfgMap (em_Remove (RealExtIPKindMap E) n w))
     (\<lambda>w. ext_cover (view w)) ext_foot (\<lambda>w. state_ok (view w) \<and> v_target_cidrs (view w) = targets) (\<lambda>n. True)"
proof
  fix w n assume ok: "state_ok (view w) \<and> v_target_cidrs (view w) = targets"
  show "any_post (wrap_err CfgMap (em_Add (RealExtIPKindMap E) n w))
      (\<lambda>w'. (state_ok (view w') \<and> v_target_cidrs (view w') = targets) \<and> ext_cover (view w) \<subseteq> ext_cover (view w'))"
    by (rule any_post_wrap, simp add: RealExtIPKindMap_def, rule any_post_mono [OF AddExtIPKind_any])
      (use ok in \<open>auto simp: ext_cover_def\<close>)
  show "any_post (wrap_err CfgMap (em_Remove (RealExtIPKindMap E) n w))
      (\<lambda>w'. (state_ok (view w') \<and> v_target_cidrs (view w') = targets) \<and> ext_cover (view w) - ext_foot n \<subseteq> ext_cover (view w'))"
    by (rule any_post_wrap, simp add: RealExtIPKindMap_def, rule any_post_mono [OF RemoveExtIPKind_any])
      (use ok in \<open>auto simp: ext_cover_def\<close>)
  have "ok_post (AddExtIPKind E n w) (\<lambda>w'. ext_foot n \<subseteq> ext_cover (view w'))"
  proof (cases "\<exists>ips. expandCIDR n = Some (Inr ips)")
    case True
    then obtain ips where ips: "expandCIDR n = Some (Inr ips)" by blast
    from refines_AddExtIPKind [OF this] ok
    have "ok_post (AddExtIPKind E n w) (\<lambda>w'. tables_of (view w') =
        set_kinds (ip_key ` set ips) (Some dstKindExtIP) (tables_of (view w)))" by (simp add: refines_def)
    then show ?thesis
    proof (rule ok_post_mono)
      fix w' assume "tables_of (view w') = set_kinds (ip_key ` set ips) (Some dstKindExtIP) (tables_of (view w))"
      then have "v_dst_kind (view w') = t_kind (set_kinds (ip_key ` set ips) (Some dstKindExtIP) (tables_of (view w)))"
        by (metis tables_of_sel(1))
      then show "ext_foot n \<subseteq> ext_cover (view w')" by (auto simp: ext_foot_def ips ext_cover_def set_kinds_def)
    qed
  next
    case False
    then have "ext_foot n = {}" by (auto simp: ext_foot_def split: option.splits sum.splits)
    then show ?thesis by (simp add: ok_post_def)
  qed
  then show "ok_post (wrap_err CfgMap (em_Add (RealExtIPKindMap E) n w)) (\<lambda>w'. ext_foot n \<subseteq> ext_cover (view w'))"
    by (simp add: RealExtIPKindMap_def)
qed

lemma real_ext_exact:
  "exact_cidr_store (\<lambda>n w. wrap_err CfgMap (em_Add (RealExtIPKindMap E) n w))
     (\<lambda>n w. wrap_err CfgMap (em_Remove (RealExtIPKindMap E) n w))
     (\<lambda>w. ext_cover (view w)) ext_foot (\<lambda>w. state_ok (view w) \<and> v_target_cidrs (view w) = targets) (\<lambda>n. True)"
proof (intro exact_cidr_store.intro exact_cidr_store_axioms.intro real_ext_store)
  fix w n assume ok: "state_ok (view w) \<and> v_target_cidrs (view w) = targets"
  have "ok_post (RemoveExtIPKind E n w) (\<lambda>w'. ext_cover (view w') \<subseteq> ext_cover (view w) - ext_foot n)"
  proof (cases "\<exists>ips. expandCIDR n = Some (Inr ips)")
    case True
    then obtain ips where ips: "expandCIDR n = Some (Inr ips)" by blast
    from refines_RemoveExtIPKind [OF this] ok
    have "ok_post (RemoveExtIPKind E n w) (\<lambda>w'. tables_of (view w') = set_kinds (ip_key ` set ips) None (tables_of (view w)))"
      by (simp add: refines_def)
    then show ?thesis
    proof (rule ok_post_mono)
      fix w' assume "tables_of (view w') = set_kinds (ip_key ` set ips) None (tables_of (view w))"
      then have "v_dst_kind (view w') = t_kind (set_kinds (ip_key ` set ips) None (tables_of (view w)))"
        by (metis tables_of_sel(1))
      then show "ext_cover (view w') \<subseteq> ext_cover (view w) - ext_foot n"
        by (auto simp: ext_foot_def ips ext_cover_def set_kinds_def split: if_splits)
    qed
  next
    case False
    then show ?thesis by (auto simp: RemoveExtIPKind_def for_ext_ips_def split: option.splits sum.splits)
  qed
  then show "ok_post (wrap_err CfgMap (em_Remove (RealExtIPKindMap E) n w))
      (\<lambda>w'. ext_cover (view w') \<subseteq> ext_cover (view w) - ext_foot n)"
    by (simp add: RealExtIPKindMap_def)
qed

end

interpretation mem_targets: exact_cidr_store "\<lambda>n w. wrap_err CfgMap (tm_Add (RealTargetCIDRMap memE) n w)"
    "\<lambda>n w. wrap_err CfgMap (tm_Remove (RealTargetCIDRMap memE) n w)" "\<lambda>w. dom (v_target_cidrs (mem_view w))" target_foot
    "\<lambda>w. state_ok (mem_view w) \<and> v_dst_kind (mem_view w) = kinds" "\<lambda>n. no_host_bits (target_key n)" for kinds
  by (rule mem.real_target_exact)

interpretation mem_exts: exact_cidr_store "\<lambda>n w. wrap_err CfgMap (em_Add (RealExtIPKindMap memE) n w)"
    "\<lambda>n w. wrap_err CfgMap (em_Remove (RealExtIPKindMap memE) n w)" "\<lambda>w. ext_cover (mem_view w)" ext_foot
    "\<lambda>w. state_ok (mem_view w) \<and> v_target_cidrs (mem_view w) = targets" "\<lambda>n. True" for targets
  by (rule mem.real_ext_exact)

section \<open>The handler\<close>

text \<open>
  The conditions under which a reconcile keeps the maps: the strings in the memory and in the object stand for
  disjoint entries, and the targets are IPv4 networks.
\<close>

definition sound_cidrs :: "cfg_memory \<Rightarrow> string list \<Rightarrow> string list \<Rightarrow> bool" where
  "sound_cidrs m targets pool \<longleftrightarrow>
     disjoint_cidrs target_foot (strings_of (ncTargetCIDRs m) \<union> set targets) \<and>
     disjoint_cidrs ext_foot (strings_of (ncExtIPCIDRs m) \<union> set pool) \<and>
     (\<forall>n \<in> nets_of (strings_of (ncTargetCIDRs m) \<union> set targets). length (net_mask n) = 4)"

text \<open>An advertiser that leaves the BPF maps alone.\<close>

definition routes_apart :: "('w \<Rightarrow> bpf_state) \<Rightarrow> 'w RouteAdvertiser \<Rightarrow> bool" where
  "routes_apart view A \<longleftrightarrow> (\<forall>n w. any_post (ra_AdvertisePrefix A n w) (\<lambda>w'. view w' = view w) \<and>
     any_post (ra_WithdrawPrefix A n w) (\<lambda>w'. view w' = view w))"

text \<open>What neither \<open>add\<close> nor \<open>remove\<close> changes, \<open>applyCIDRDiff\<close> does not change.\<close>

lemma diff_view:
  assumes calls: "\<And>n v. any_post (add n v) (\<lambda>v'. view v' = view v)" "\<And>n v. any_post (remove n v) (\<lambda>v'. view v' = view v)"
    and run: "applyCIDRDiff ord name (tracked tr name) new add remove (tr, w) = Some res"
  shows "view (snd (world_of res)) = view w"
proof -
  have store: "cidr_store add remove (\<lambda>_. {} :: unit set) (\<lambda>_. {}) (\<lambda>w'. view w' = view w) (\<lambda>_. True)"
  proof
    fix n v assume v: "view v = view w"
    show "any_post (add n v) (\<lambda>w'. view w' = view w \<and> {} \<subseteq> {})" "any_post (remove n v) (\<lambda>w'. view w' = view w \<and> {} - {} \<subseteq> {})"
      using calls [of n v] v by simp_all
  qed (simp add: ok_post_def)
  have "cidr_store.stored (\<lambda>_. {} :: unit set) (\<lambda>_. {}) (\<lambda>w'. view w' = view w) tr w"
    by (simp add: cidr_store.stored_def [OF store])
  from cidr_store.applyCIDRDiff_stored [OF store this, of new "strings_of tr \<union> set new" ord name res] run
  show ?thesis by (auto simp: disjoint_cidrs_def cidr_store.stored_def [OF store])
qed

lemma routes_view:
  assumes "routes_apart view (cr_RouteAdvertiser r)" "syncRoutes r ord name new (tr, w) = Some res"
  shows "view (snd (world_of res)) = view w"
  by (rule diff_view [OF _ _ assms(2) [unfolded syncRoutes_def fst_conv]])
    (use assms(1) in \<open>simp_all add: routes_apart_def any_post_wrap\<close>)

lemma eff_bind_SomeE:
  assumes "eff_bind x f = Some res"
  obtains "x = Some res" "\<And>st. res \<noteq> Done st" | st where "x = Some (Done st)" "f st = Some res"
  using assms by (cases x; cases "the x") auto

lemma at_memory_Some: "at_memory what put x = Some res \<longleftrightarrow>
    (\<exists>y. x = Some y \<and> world_of res = (put (fst (world_of y)), snd (world_of y)) \<and>
      res = (case y of Done (tr, w) \<Rightarrow> Done (put tr, w) | Failed e (tr, w) \<Rightarrow> Failed (CfgAt what e) (put tr, w)
                     | Panic (tr, w) \<Rightarrow> Panic (put tr, w)))"
  by (cases x; cases "the x") (auto simp: at_memory_def)

lemma at_memory_Done: "at_memory what put x = Some (Done (m, w)) \<longleftrightarrow> (\<exists>tr. x = Some (Done (tr, w)) \<and> m = put tr)"
  by (cases x; cases "the x") (auto simp: at_memory_def)

lemma parsed_target_key:
  assumes "n \<in> nets_of C" "length (net_mask n) = 4"
  shows "no_host_bits (target_key n)"
  using assms parsed_no_host_bits by (auto simp: nets_of_def target_key_def)

context ebpf_kernel
begin

lemma target_step:
  assumes inv: "cfg_stored view m w" and sound: "sound_cidrs m targets pool"
    and run: "applyCIDRDiff ord name (tracked (ncTargetCIDRs m) name) targets
       (\<lambda>n w. wrap_err CfgMap (tm_Add (RealTargetCIDRMap E) n w))
       (\<lambda>n w. wrap_err CfgMap (tm_Remove (RealTargetCIDRMap E) n w)) (ncTargetCIDRs m, w) = Some res"
  shows "cfg_stored view (m\<lparr>ncTargetCIDRs := fst (world_of res)\<rparr>) (snd (world_of res)) \<and>
     (\<forall>st. res = Done st \<longrightarrow> fst st = (ncTargetCIDRs m)(name \<mapsto> targets) \<and>
       (\<forall>c. cidr_dropped (ncTargetCIDRs m) name targets c \<longrightarrow> absent target_foot (dom (v_target_cidrs (view (snd st)))) c))"
proof -
  note exact = real_target_exact [of "v_dst_kind (view w)"]
  note store = real_target_store [of "v_dst_kind (view w)"]
  let ?C = "strings_of (ncTargetCIDRs m) \<union> set targets"
  have st: "cidr_store.stored (\<lambda>w. dom (v_target_cidrs (view w))) target_foot
      (\<lambda>v. state_ok (view v) \<and> v_dst_kind (view v) = v_dst_kind (view w)) (ncTargetCIDRs m) w"
    using inv by (simp add: cidr_store.stored_def [OF store] cfg_stored_def)
  have good: "nets_of ?C \<subseteq> {n. no_host_bits (target_key n)}"
    using sound parsed_target_key by (auto simp: sound_cidrs_def)
  from sound have dis: "disjoint_cidrs target_foot ?C" by (simp add: sound_cidrs_def)
  have "absent target_foot (dom (v_target_cidrs (view v))) c"
    if "res = Done (tr, v)" "cidr_dropped (ncTargetCIDRs m) name targets c" for tr v c
    using exact_cidr_store.applyCIDRDiff_gone [OF exact st good run [unfolded that(1)] that(2)] .
  with cidr_store.applyCIDRDiff_stored [OF store st subset_refl dis good run] inv show ?thesis
    by (auto simp: cidr_store.stored_def [OF store] cfg_stored_def ext_cover_def)
qed

lemma ext_step:
  assumes inv: "cfg_stored view m w" and sound: "disjoint_cidrs ext_foot (strings_of (ncExtIPCIDRs m) \<union> set pool)"
    and run: "applyCIDRDiff ord name (tracked (ncExtIPCIDRs m) name) pool
       (\<lambda>n w. wrap_err CfgMap (em_Add (RealExtIPKindMap E) n w))
       (\<lambda>n w. wrap_err CfgMap (em_Remove (RealExtIPKindMap E) n w)) (ncExtIPCIDRs m, w) = Some res"
  shows "cfg_stored view (m\<lparr>ncExtIPCIDRs := fst (world_of res)\<rparr>) (snd (world_of res)) \<and>
     v_target_cidrs (view (snd (world_of res))) = v_target_cidrs (view w) \<and>
     (\<forall>st. res = Done st \<longrightarrow> fst st = (ncExtIPCIDRs m)(name \<mapsto> pool) \<and>
       (\<forall>c. cidr_dropped (ncExtIPCIDRs m) name pool c \<longrightarrow> absent ext_foot (ext_cover (view (snd st))) c))"
proof -
  note exact = real_ext_exact [of "v_target_cidrs (view w)"]
  note store = real_ext_store [of "v_target_cidrs (view w)"]
  have st: "cidr_store.stored (\<lambda>w. ext_cover (view w)) ext_foot
      (\<lambda>v. state_ok (view v) \<and> v_target_cidrs (view v) = v_target_cidrs (view w)) (ncExtIPCIDRs m) w"
    using inv by (simp add: cidr_store.stored_def [OF store] cfg_stored_def)
  have "absent ext_foot (ext_cover (view v)) c" if "res = Done (tr, v)" "cidr_dropped (ncExtIPCIDRs m) name pool c" for tr v c
    using exact_cidr_store.applyCIDRDiff_gone [OF exact st _ run [unfolded that(1)] that(2)] by simp
  with cidr_store.applyCIDRDiff_stored [OF store st subset_refl sound _ run] inv show ?thesis
    by (auto simp: cidr_store.stored_def [OF store] cfg_stored_def)
qed

lemma syncBPFMaps_stored:
  assumes inv: "cfg_stored view m w" and sound: "sound_cidrs m targets pool"
    and real: "cr_TargetCIDRs r = RealTargetCIDRMap E" "cr_ExtIPKind r = RealExtIPKindMap E"
    and routes: "routes_apart view (cr_RouteAdvertiser r)"
    and run: "syncBPFMaps r ord name targets pool adv (m, w) = Some res"
  shows "cfg_stored view (fst (world_of res)) (snd (world_of res)) \<and>
     (\<forall>st. res = Done st \<longrightarrow> ncTargetCIDRs (fst st) name = Some targets \<and> ncExtIPCIDRs (fst st) name = Some pool \<and>
       (\<forall>c. cidr_dropped (ncTargetCIDRs m) name targets c \<longrightarrow> absent target_foot (dom (v_target_cidrs (view (snd st)))) c) \<and>
       (\<forall>c. cidr_dropped (ncExtIPCIDRs m) name pool c \<longrightarrow> absent ext_foot (ext_cover (view (snd st))) c))"
  using run unfolding syncBPFMaps_def Let_def prod.case fst_conv
proof (elim eff_bind_SomeE)
  assume t: "at_memory ''target_cidrs'' (\<lambda>tr. m\<lparr>ncTargetCIDRs := tr\<rparr>) (applyCIDRDiff ord name
      (tracked (ncTargetCIDRs m) name) targets (\<lambda>n w. wrap_err CfgMap (tm_Add (cr_TargetCIDRs r) n w))
      (\<lambda>n w. wrap_err CfgMap (tm_Remove (cr_TargetCIDRs r) n w)) (ncTargetCIDRs m, w)) = Some res"
    and stop: "\<And>st. res \<noteq> Done st"
  from t target_step [OF inv sound] stop show ?thesis by (auto simp: at_memory_Some real)
next
  fix st1
  assume t: "at_memory ''target_cidrs'' (\<lambda>tr. m\<lparr>ncTargetCIDRs := tr\<rparr>) (applyCIDRDiff ord name
      (tracked (ncTargetCIDRs m) name) targets (\<lambda>n w. wrap_err CfgMap (tm_Add (cr_TargetCIDRs r) n w))
      (\<lambda>n w. wrap_err CfgMap (tm_Remove (cr_TargetCIDRs r) n w)) (ncTargetCIDRs m, w)) = Some (Done st1)"
    and rest: "(case st1 of (m1, w1) \<Rightarrow> eff_bind (at_memory ''dst_kind (ext ip)'' (\<lambda>tr. m1\<lparr>ncExtIPCIDRs := tr\<rparr>)
        (applyCIDRDiff (\<lambda>i. ord (i + 2)) name (tracked (ncExtIPCIDRs m) name) pool
           (\<lambda>n w. wrap_err CfgMap (em_Add (cr_ExtIPKind r) n w))
           (\<lambda>n w. wrap_err CfgMap (em_Remove (cr_ExtIPKind r) n w)) (ncExtIPCIDRs m1, w1))) (\<lambda>(m, w).
      at_memory ''routes'' (\<lambda>tr. m\<lparr>ncAdvertisedCIDRs := tr\<rparr>)
        (syncRoutes r (\<lambda>i. ord (i + 4)) name adv (ncAdvertisedCIDRs m, w)))) = Some res"
  obtain m1 w1 where st1: "st1 = (m1, w1)" by (cases st1)
  from t st1 have inv1: "cfg_stored view m1 w1"
    and gone1: "\<And>c. cidr_dropped (ncTargetCIDRs m) name targets c \<Longrightarrow> absent target_foot (dom (v_target_cidrs (view w1))) c"
    and m1: "m1 = m\<lparr>ncTargetCIDRs := (ncTargetCIDRs m)(name \<mapsto> targets)\<rparr>"
    by (auto simp: at_memory_Done real dest!: target_step [OF inv sound])
  have old: "tracked (ncExtIPCIDRs m) name = tracked (ncExtIPCIDRs m1) name" by (simp add: m1)
  have dis: "disjoint_cidrs ext_foot (strings_of (ncExtIPCIDRs m1) \<union> set pool)"
    using sound by (simp add: m1 sound_cidrs_def)
  note step = ext_step [OF inv1 dis]
  show ?thesis using rest unfolding st1 prod.case old
  proof (elim eff_bind_SomeE)
    assume e: "at_memory ''dst_kind (ext ip)'' (\<lambda>tr. m1\<lparr>ncExtIPCIDRs := tr\<rparr>)
        (applyCIDRDiff (\<lambda>i. ord (i + 2)) name (tracked (ncExtIPCIDRs m1) name) pool
           (\<lambda>n w. wrap_err CfgMap (em_Add (cr_ExtIPKind r) n w))
           (\<lambda>n w. wrap_err CfgMap (em_Remove (cr_ExtIPKind r) n w)) (ncExtIPCIDRs m1, w1)) = Some res"
      and stop: "\<And>st. res \<noteq> Done st"
    from e step stop show ?thesis by (auto simp: at_memory_Some real)
  next
    fix st2
    assume e: "at_memory ''dst_kind (ext ip)'' (\<lambda>tr. m1\<lparr>ncExtIPCIDRs := tr\<rparr>)
        (applyCIDRDiff (\<lambda>i. ord (i + 2)) name (tracked (ncExtIPCIDRs m1) name) pool
           (\<lambda>n w. wrap_err CfgMap (em_Add (cr_ExtIPKind r) n w))
           (\<lambda>n w. wrap_err CfgMap (em_Remove (cr_ExtIPKind r) n w)) (ncExtIPCIDRs m1, w1)) = Some (Done st2)"
      and last: "(case st2 of (m, w) \<Rightarrow> at_memory ''routes'' (\<lambda>tr. m\<lparr>ncAdvertisedCIDRs := tr\<rparr>)
        (syncRoutes r (\<lambda>i. ord (i + 4)) name adv (ncAdvertisedCIDRs m, w))) = Some res"
    obtain m2 w2 where st2: "st2 = (m2, w2)" by (cases st2)
    from e st2 have inv2: "cfg_stored view m2 w2" "v_target_cidrs (view w2) = v_target_cidrs (view w1)"
      and gone2: "\<And>c. cidr_dropped (ncExtIPCIDRs m1) name pool c \<Longrightarrow> absent ext_foot (ext_cover (view w2)) c"
      and m2: "m2 = m1\<lparr>ncExtIPCIDRs := (ncExtIPCIDRs m1)(name \<mapsto> pool)\<rparr>"
      by (auto simp: at_memory_Done real dest!: step)
    from last st2 obtain y where y: "syncRoutes r (\<lambda>i. ord (i + 4)) name adv (ncAdvertisedCIDRs m2, w2) = Some y"
      "world_of res = (m2\<lparr>ncAdvertisedCIDRs := fst (world_of y)\<rparr>, snd (world_of y))"
      by (auto simp: at_memory_Some)
    with routes_view [OF routes y(1)] inv2 m1 m2 gone1 gone2 show ?thesis by (auto simp: cfg_stored_def)
  qed
qed

end

end
