(* ===== verification/Config_Props.thy ===== *)
theory Config_Props
  imports DaemonConfigInv Daemon_Props
begin

text \<open>
  The properties of the daemon's NATConfig controller on the production maps: what of the external pools and the
  target CIDRs is in the BPF maps after any reconcile, what an error leaves behind, and which addresses
  \<open>expandCIDR\<close> lists.
\<close>

section \<open>Lemmas\<close>

text \<open>The target CIDRs and the pool the handler works towards: those of the object, none when it is gone.\<close>

definition desired_cidrs :: "'w NATConfigReconciler \<Rightarrow> string \<Rightarrow> 'w \<Rightarrow> string list \<times> string list" where
  "desired_cidrs r name w =
     (case cr_GetNATConfig r w name of
        Inl e \<Rightarrow> ([], [])
      | Inr nc \<Rightarrow> (nc_TargetCIDRs (nc_Spec nc), ExternalIPPool (nc_Spec nc)))"

lemma strings_of_tracked: "tr name = Some cs \<Longrightarrow> set cs \<subseteq> strings_of tr"
  by (auto simp: strings_of_def)

text \<open>Stored CIDR strings, spelled out on the two maps.\<close>

lemma stored_targets:
  assumes "cfg_stored view m w" "ncTargetCIDRs m name = Some targets" "c \<in> set targets" "ParseCIDR c = Some (ip, n)"
  shows "target_foot n \<subseteq> dom (v_target_cidrs (view w))"
proof -
  have "n \<in> nets_of (strings_of (ncTargetCIDRs m))"
    using assms(3,4) strings_of_tracked [of "ncTargetCIDRs m", OF assms(2)] by (auto simp: nets_of_def)
  then show ?thesis using assms(1) unfolding cfg_stored_def by blast
qed

lemma stored_pool:
  assumes "cfg_stored view m w" "ncExtIPCIDRs m name = Some pool" "c \<in> set pool" "ParseCIDR c = Some (ip, n)"
  shows "ext_foot n \<subseteq> ext_cover (view w)"
proof -
  have "n \<in> nets_of (strings_of (ncExtIPCIDRs m))"
    using assms(3,4) strings_of_tracked [of "ncExtIPCIDRs m", OF assms(2)] by (auto simp: nets_of_def)
  then show ?thesis using assms(1) unfolding cfg_stored_def by blast
qed

lemma for_eff_skip: "(\<And>x. x \<in> set xs \<Longrightarrow> f x = (\<lambda>w. Some (Done w))) \<Longrightarrow> for_eff f xs w = Some (Done w)"
  by (induction xs) simp_all

lemma applyCIDRDiff_same: "applyCIDRDiff ord name cs cs add remove (tr, w) = Some (Done (tr(name \<mapsto> cs), w))"
proof -
  have "add_cidrs (ord 0) cs cs add w = Some (Done w)"
    "remove_cidrs (ord 1) name cs cs (tr(name \<mapsto> cs)) remove w = Some (Done w)"
    unfolding add_cidrs_def remove_cidrs_def by (rule for_eff_skip; simp add: cidrSet_def)+
  then show ?thesis by (simp add: applyCIDRDiff_def with_tracking_def Let_def)
qed

text \<open>Membership in a parsed IPv4 network, and in a list of consecutive addresses.\<close>

lemma Contains_parsed:
  assumes "ParseCIDR s = Some (ip, net)" "length (net_mask net) = 4" "length x = 4"
  shows "Contains net x \<longleftrightarrow> ip_val x \<in> {ip_val (net_addr net)..<ip_val (net_addr net) + 2 ^ (32 - fst (Mask_Size (net_mask net)))}"
proof -
  obtain b n where b: "length b = 4" "n \<le> 32" and net: "net = net4 (map2 (AND) b (CIDRMask n 32)) n"
    using ParseCIDR_net4 [OF assms(1,2)] by blast
  define v where "v = ip_val (map2 (AND) b (CIDRMask n 32))"
  have n: "fst (Mask_Size (net_mask net)) = n" using mask_ones_net4 [OF b(2)] by (simp add: net)
  have v: "net_end v n = v + 2 ^ (32 - n)" using net_end_masked [OF b] by (simp add: v_def)
  have "Contains net x \<longleftrightarrow> ip_val x div 2 ^ (32 - n) = v div 2 ^ (32 - n)"
    using Contains_net4 [of "map2 (AND) b (CIDRMask n 32)" x n] assms(3) b by (simp add: net v_def)
  also have "\<dots> \<longleftrightarrow> ip_val x \<in> {v..<v + 2 ^ (32 - n)}"
  proof -
    define k :: nat where "k = 2 ^ (32 - n)"
    have k: "0 < k" and v: "v = (v div k) * k" using v by (simp_all add: k_def net_end_def algebra_simps)
    have "a div k = q \<longleftrightarrow> a \<in> {q * k..<q * k + k}" for a q
      using k by (auto simp: div_nat_eqI mult.commute) (metis add.commute dividend_less_times_div)
    from this [of "ip_val x" "v div k"] v show ?thesis by (simp add: k_def)
  qed
  finally show ?thesis by (simp add: n) (simp add: v_def net net4_def)
qed

lemma in_ips:
  assumes "\<forall>x \<in> set ips. length x = 4" "map ip_val ips = [v..<u]"
  shows "x \<in> set ips \<longleftrightarrow> length x = 4 \<and> ip_val x \<in> {v..<u}"
proof
  assume "length x = 4 \<and> ip_val x \<in> {v..<u}"
  moreover from this obtain y where "y \<in> set ips" "ip_val y = ip_val x" using assms(2) by (metis imageE list.set_map set_upt)
  ultimately show "x \<in> set ips" using assms(1) ip_val_inj [of y x] by simp
qed (use assms in \<open>metis imageI list.set_map set_upt\<close>)

section \<open>An example\<close>

definition cx_config :: NATConfig where
  "cx_config = \<lparr>nc_Name = ''c1'', nc_Spec = \<lparr>ExternalIPPool = [''203.0.113.1/32''], PortRangeSize = 64,
     nc_TargetCIDRs = [''198.51.100.0/24''], ReservedPorts = [], AllowRegisteredPorts = False,
     PodSelector = \<lparr>MatchLabels = [], MatchExpressions = []\<rparr>, NodeSelector = None\<rparr>\<rparr>"

definition cx_reconciler :: "mem_bpf NATConfigReconciler" where
  "cx_reconciler = \<lparr>cr_GetNATConfig = (\<lambda>w name. if name = ''c1'' then Inr cx_config else Inl NotFound),
     cr_GetNode = (\<lambda>w name. Inl NotFound), cr_ListNATConfigs = (\<lambda>w. Inr [cx_config]),
     cr_SelectorMatches = (\<lambda>s l. Inr True), cr_NodeName = ''n1'', cr_TargetCIDRs = RealTargetCIDRMap memE,
     cr_ExtIPKind = RealExtIPKindMap memE, cr_RouteAdvertiser = NoopAdvertiser\<rparr>"

abbreviation (input) cx_pool :: IPNet where
  "cx_pool \<equiv> \<lparr>net_addr = mx_ext, net_mask = [255, 255, 255, 255]\<rparr>"

lemma cx_parse: "ParseCIDR ''203.0.113.1/32'' = Some (v4InV6Prefix @ mx_ext, cx_pool)"
proof -
  have "CIDRMask 32 32 = [255, 255, 255, 255]" by (simp add: CIDRMask_def upt_rec Let_def)
  then show ?thesis
    by (simp add: ParseCIDR_def ParseAddr_def is_digit_def digit_val_def of_char_def horner_sum_foldr Let_def
      IP_Mask_def v4InV6Prefix_def mx_ext_def)
qed

lemma cx_expand: "expandCIDR cx_pool = Some (Inr [mx_ext])"
proof -
  have "Contains cx_pool mx_ext"
    by (simp add: Contains_def mx_ext_def networkNumberAndMask_def To4_def Let_def)
  moreover have "\<not> Contains cx_pool (incrementIP mx_ext)"
    by (simp add: Contains_def mx_ext_def networkNumberAndMask_def To4_def Let_def incrementIP_def)
      (rule exI [of _ 3], simp)
  ultimately have "expand_from cx_pool mx_ext [] = Some [mx_ext]"
    by (subst expand_from.simps, simp) (subst expand_from.simps, simp)
  moreover have "To4 mx_ext = mx_ext" "mx_ext \<noteq> []" by (simp_all add: mx_ext_def To4_def)
  ultimately show ?thesis by (simp add: expandCIDR_def cloneIP_def)
qed

lemma cx_sel: "cr_GetNATConfig cx_reconciler w ''c1'' = Inr cx_config" "cr_TargetCIDRs cx_reconciler = RealTargetCIDRMap memE"
  "cr_ExtIPKind cx_reconciler = RealExtIPKindMap memE" "cr_RouteAdvertiser cx_reconciler = NoopAdvertiser"
  "nc_TargetCIDRs (nc_Spec cx_config) = [''198.51.100.0/24'']" "ExternalIPPool (nc_Spec cx_config) = [''203.0.113.1/32'']"
  "NodeSelector (nc_Spec cx_config) = None"
  by (simp_all add: cx_reconciler_def cx_config_def)

lemma cx_routes: "routes_apart view NoopAdvertiser"
  by (simp add: routes_apart_def NoopAdvertiser_def)

lemma visit_single: "visit ord {x} = [x]"
  using length_visit [of "{x}" ord] set_visit [of "{x}" ord] by (cases "visit ord {x}") auto

lemma visit_empty: "visit ord {} = []"
  by (metis card.empty finite.emptyI length_0_conv length_visit)

lemma add_single:
  assumes "ParseCIDR c = Some (ip, n)" "add n w = Some (Done w')"
  shows "applyCIDRDiff ord name [] [c] add remove (tr, w) = Some (Done (tr(name \<mapsto> [c]), w'))"
  using assms visit_single [of "ord 0" c]
  by (simp add: visit_empty applyCIDRDiff_def add_cidrs_def remove_cidrs_def cidrSet_def parsed_def with_tracking_def Let_def)

lemma cx_run: "\<exists>w. reconcileDaemonNATConfig cx_reconciler ord ''c1'' (NewNATConfigReconciler_memory, mem_empty) =
    Some (Done (\<lparr>ncTargetCIDRs = [''c1'' \<mapsto> [''198.51.100.0/24'']], ncExtIPCIDRs = [''c1'' \<mapsto> [''203.0.113.1/32'']],
      ncAdvertisedCIDRs = [''c1'' \<mapsto> [''203.0.113.1/32'']]\<rparr>, w))"
proof -
  obtain w1 where w1: "tm_Add (RealTargetCIDRMap memE) mx_cidr mem_empty = Some (Done w1)"
    by (simp add: RealTargetCIDRMap_def AddTargetCIDR_def openMap_def mem_open with_ip_def Let_def memE_def fun_map_def ret_err_def)
  obtain w2 where w2: "em_Add (RealExtIPKindMap memE) cx_pool w1 = Some (Done w2)"
    by (simp add: RealExtIPKindMap_def AddExtIPKind_def for_ext_ips_def cx_expand openMap_def mem_open with_ip_def Let_def
        memE_def fun_map_def ret_err_def)
  show ?thesis
    by (simp add: reconcileDaemonNATConfig_def cx_sel nodeMatchesSelector_def syncBPFMaps_def Let_def
        NewNATConfigReconciler_memory_def tracked_def syncRoutes_def at_memory_def wrap_err_def NoopAdvertiser_def
        add_single [OF dx_cidr] add_single [OF cx_parse] w1 w2)
qed

lemma cx_sound: "sound_cidrs NewNATConfigReconciler_memory [''198.51.100.0/24''] [''203.0.113.1/32'']"
  by (auto simp: sound_cidrs_def disjoint_cidrs_def NewNATConfigReconciler_memory_def strings_of_def nets_of_def dx_cidr
      mx_cidr_def)

lemma cx_stored: "cfg_stored mem_view NewNATConfigReconciler_memory mem_empty"
  using mem_empty_ok(1) by (simp add: cfg_stored_def NewNATConfigReconciler_memory_def strings_of_def nets_of_def)

section \<open>Properties\<close>

text \<open>
  C27: after every reconcile of a NATConfig on a node, whatever it came back with (nil, an error in the middle, a
  panic), each target CIDR that any NATConfig in the reconciler's memory lists is in \<open>target_cidrs\<close>, and each
  address of each external pool there is marked as external in \<open>dst_kind\<close>: dropping a CIDR from one NATConfig
  never takes it from another that shares it. After a reconcile that returned nil the memory holds the
  object's own CIDRs, so all of them are in the maps, and each CIDR that the NATConfig listed before, lists no
  longer and shares with no other NATConfig is gone from them. Different CIDR strings must stand for disjoint entries.
\<close>

theorem reconcile_keeps_shared_cidrs:
  assumes kernel: "ebpf_kernel E view" and inv: "cfg_stored view m w"
    and real: "cr_TargetCIDRs r = RealTargetCIDRMap E" "cr_ExtIPKind r = RealExtIPKindMap E"
    and routes: "routes_apart view (cr_RouteAdvertiser r)"
    and desired: "desired_cidrs r name w = (targets, pool)" and sound: "sound_cidrs m targets pool"
    and run: "reconcileDaemonNATConfig r ord name (m, w) = Some res"
  shows "cfg_stored view (fst (world_of res)) (snd (world_of res)) \<and>
     (\<forall>m' w'. res = Done (m', w') \<longrightarrow>
       (\<forall>c \<in> set targets. \<forall>ip n. ParseCIDR c = Some (ip, n) \<longrightarrow> target_foot n \<subseteq> dom (v_target_cidrs (view w'))) \<and>
       (\<forall>c \<in> set pool. \<forall>ip n. ParseCIDR c = Some (ip, n) \<longrightarrow> ext_foot n \<subseteq> ext_cover (view w')) \<and>
       (\<forall>c. cidr_dropped (ncTargetCIDRs m) name targets c \<longrightarrow> absent target_foot (dom (v_target_cidrs (view w'))) c) \<and>
       (\<forall>c. cidr_dropped (ncExtIPCIDRs m) name pool c \<longrightarrow> absent ext_foot (ext_cover (view w')) c))"
proof -
  have "(\<exists>adv. syncBPFMaps r ord name targets pool adv (m, w) = Some res) \<or> (\<exists>e. res = Failed e (m, w))"
    using run desired by (auto simp: reconcileDaemonNATConfig_def desired_cidrs_def split: sum.splits if_splits)
  then show ?thesis
  proof (elim disjE exE)
    fix adv assume "syncBPFMaps r ord name targets pool adv (m, w) = Some res"
    from ebpf_kernel.syncBPFMaps_stored [OF kernel inv sound real routes this]
    have st: "cfg_stored view (fst (world_of res)) (snd (world_of res))"
      and mem: "\<And>m' w'. res = Done (m', w') \<Longrightarrow> ncTargetCIDRs m' name = Some targets \<and> ncExtIPCIDRs m' name = Some pool"
      and gone: "\<And>m' w' c. res = Done (m', w') \<Longrightarrow> cidr_dropped (ncTargetCIDRs m) name targets c \<Longrightarrow>
          absent target_foot (dom (v_target_cidrs (view w'))) c"
        "\<And>m' w' c. res = Done (m', w') \<Longrightarrow> cidr_dropped (ncExtIPCIDRs m) name pool c \<Longrightarrow> absent ext_foot (ext_cover (view w')) c"
      by auto
    have in_maps: "\<And>m' w' c ip n. res = Done (m', w') \<Longrightarrow> c \<in> set targets \<Longrightarrow> ParseCIDR c = Some (ip, n) \<Longrightarrow>
          target_foot n \<subseteq> dom (v_target_cidrs (view w'))"
        "\<And>m' w' c ip n. res = Done (m', w') \<Longrightarrow> c \<in> set pool \<Longrightarrow> ParseCIDR c = Some (ip, n) \<Longrightarrow>
          ext_foot n \<subseteq> ext_cover (view w')"
      using st stored_targets [OF _ conjunct1 [OF mem]] stored_pool [OF _ conjunct2 [OF mem]] by fastforce+
    show ?thesis using st in_maps gone by blast
  qed (use inv in simp)
qed

theorem reconcile_keeps_shared_cidrs_witness:
  "\<exists>m' w'. reconcileDaemonNATConfig cx_reconciler (\<lambda>_. sorted_order) ''c1'' (NewNATConfigReconciler_memory, mem_empty) =
     Some (Done (m', w')) \<and> cfg_stored mem_view m' w' \<and> target_key mx_cidr \<in> dom (v_target_cidrs (mem_view w')) \<and>
     v_dst_kind (mem_view w') 24182987 = Some dstKindExtIP"
proof -
  obtain m' w' where run: "reconcileDaemonNATConfig cx_reconciler (\<lambda>_. sorted_order) ''c1''
      (NewNATConfigReconciler_memory, mem_empty) = Some (Done (m', w'))" using cx_run by blast
  have want: "desired_cidrs cx_reconciler ''c1'' mem_empty = ([''198.51.100.0/24''], [''203.0.113.1/32''])"
    by (simp add: desired_cidrs_def cx_sel)
  have "routes_apart mem_view (cr_RouteAdvertiser cx_reconciler)" by (simp add: cx_sel cx_routes)
  from reconcile_keeps_shared_cidrs [OF mem.ebpf_kernel_axioms cx_stored cx_sel(2,3) this want cx_sound run]
  have "cfg_stored mem_view m' w'" "target_foot mx_cidr \<subseteq> dom (v_target_cidrs (mem_view w'))"
    "ext_foot cx_pool \<subseteq> ext_cover (mem_view w')"
    by (auto simp: dx_cidr cx_parse)
  moreover have "target_foot mx_cidr = {target_key mx_cidr}" by (simp add: target_foot_def)
  moreover have "ext_foot cx_pool = {24182987}" by (simp add: ext_foot_def cx_expand)
  ultimately show ?thesis using run by (auto simp: ext_cover_def)
qed

text \<open>
  C29: a failed removal is never retried. When \<open>applyCIDRDiff\<close> fails after it has written the memory (the
  only failures left then are removals), the same call again, as controller-runtime makes it after the error,
  returns nil and calls neither \<open>add\<close> nor \<open>remove\<close>: what the failed call did not remove stays in the map.
\<close>

theorem failed_removal_not_retried:
  assumes "applyCIDRDiff ord name old new add remove (tr, w) = Some (Failed e (tr', w'))" "tr name \<noteq> Some new" "tr' name = Some new"
  shows "applyCIDRDiff ord' name (tracked tr' name) new add' remove' (tr', w') = Some (Done (tr', w')) \<and>
     (\<exists>w1. remove_cidrs (ord 1) name old new tr' remove w1 = Some (Failed e w'))"
proof -
  have "tr'(name \<mapsto> new) = tr'" using assms(3) by (simp add: fun_upd_idem)
  moreover have "tracked tr' name = new" using assms(3) by (simp add: tracked_def)
  ultimately have "applyCIDRDiff ord' name (tracked tr' name) new add' remove' (tr', w') = Some (Done (tr', w'))"
    by (simp add: applyCIDRDiff_same)
  moreover have "\<exists>w1. remove_cidrs (ord 1) name old new tr' remove w1 = Some (Failed e w')"
    using assms by (auto simp: applyCIDRDiff_def with_tracking_def Let_def elim!: eff_bind_SomeE split: effect.splits)
  ultimately show ?thesis by blast
qed

theorem failed_removal_not_retried_witness:
  "applyCIDRDiff (\<lambda>_. sorted_order) ''c1'' [''198.51.100.0/24''] [] (\<lambda>n w. Some (Done w)) (\<lambda>n w. Some (Failed (CfgMap OnlyIPv4) w))
     ([''c1'' \<mapsto> [''198.51.100.0/24'']], ()) = Some (Failed (CfgMap OnlyIPv4) ([''c1'' \<mapsto> []], ())) \<and>
   applyCIDRDiff (\<lambda>_. sorted_order) ''c1'' (tracked [''c1'' \<mapsto> []] ''c1'') [] (\<lambda>n w. Some (Done w))
     (\<lambda>n w. Some (Failed (CfgMap OnlyIPv4) w)) ([''c1'' \<mapsto> []], ()) = Some (Done ([''c1'' \<mapsto> []], ()))"
proof -
  have run: "applyCIDRDiff (\<lambda>_. sorted_order) ''c1'' [''198.51.100.0/24''] [] (\<lambda>n w. Some (Done w))
      (\<lambda>n w. Some (Failed (CfgMap OnlyIPv4) w)) ([''c1'' \<mapsto> [''198.51.100.0/24'']], ()) =
        Some (Failed (CfgMap OnlyIPv4) ([''c1'' \<mapsto> []], ()))"
    by (simp add: applyCIDRDiff_def add_cidrs_def remove_cidrs_def cidrSet_def visit_single visit_empty with_tracking_def
        Let_def parsed_def dx_cidr cidrUsedByOther_def)
  from run failed_removal_not_retried [OF run, of "\<lambda>_. sorted_order" "\<lambda>n w. Some (Done w)"] show ?thesis by simp
qed

text \<open>
  C28: the expansion of an external pool. For a parsed IPv4 CIDR with prefix length \<open>n\<close> of at least 1,
  \<open>expandCIDR\<close> ends and lists, in increasing order and each once, exactly the \<open>2 ^ (32 - n)\<close> addresses the
  network contains. For prefix length 0 it never ends: its loop leaves only at an address outside of the network.
\<close>

theorem expandCIDR_lists_network:
  assumes "ParseCIDR s = Some (ip, net)" "length (net_mask net) = 4"
  defines "n \<equiv> fst (Mask_Size (net_mask net))"
  shows "(expandCIDR net = None \<longleftrightarrow> n = 0) \<and>
     (1 \<le> n \<longrightarrow> (\<exists>ips. expandCIDR net = Some (Inr ips) \<and> length ips = 2 ^ (32 - n) \<and> sorted (map ip_val ips) \<and>
        distinct ips \<and> (\<forall>x. x \<in> set ips \<longleftrightarrow> length x = 4 \<and> Contains net x)))"
proof (cases "n = 0")
  case True
  then show ?thesis using expandCIDR_parsed(3) [OF assms(1,2)] by (simp add: n_def)
next
  case False
  obtain ips where ips: "expandCIDR net = Some (Inr ips)" "\<forall>x \<in> set ips. length x = 4"
    "map ip_val ips = [ip_val (net_addr net)..<ip_val (net_addr net) + 2 ^ (32 - n)]"
    using expandCIDR_parsed(4) [OF assms(1,2)] False by (auto simp: n_def)
  have "length ips = 2 ^ (32 - n)" using arg_cong [OF ips(3), of length] by simp
  moreover have "sorted (map ip_val ips)" "distinct (map ip_val ips)" by (simp_all add: ips(3))
  moreover have "x \<in> set ips \<longleftrightarrow> length x = 4 \<and> Contains net x" for x
    using Contains_parsed [OF assms(1,2)] in_ips [OF ips(2,3)] by (auto simp: n_def)
  ultimately show ?thesis using ips(1) False by (auto simp: distinct_map)
qed

theorem expandCIDR_lists_network_witness:
  "\<exists>ips. expandCIDR mx_cidr = Some (Inr ips) \<and> length ips = 256 \<and> [198, 51, 100, 7] \<in> set ips"
proof -
  have "mx_cidr = net4 [198, 51, 100, 0] 24" by (simp add: net4_def mx_cidr_def CIDRMask_def upt_rec Let_def)
  moreover have "length (net_mask mx_cidr) = 4" by (simp add: mx_cidr_def)
  ultimately have m: "length (net_mask mx_cidr) = 4" "fst (Mask_Size (net_mask mx_cidr)) = 24"
    using mask_ones_net4 [of 24 "[198, 51, 100, 0]"] by simp_all
  from expandCIDR_lists_network [OF dx_cidr m(1)] obtain ips where
    "expandCIDR mx_cidr = Some (Inr ips)" "length ips = 256" "\<And>x. x \<in> set ips \<longleftrightarrow> length x = 4 \<and> Contains mx_cidr x"
    by (auto simp: m(2))
  moreover have "Contains mx_cidr [198, 51, 100, 7]"
    by (simp add: Contains_def mx_cidr_def networkNumberAndMask_def To4_def Let_def numeral_eq_Suc less_Suc_eq)
  ultimately show ?thesis by simp
qed

end
