(* ===== verification/Pod_Props.thy ===== *)
theory Pod_Props
  imports PodMem DaemonTables Requests Config_Props
begin

text \<open>
  The properties of the daemon's pod and request controllers: what a reconcile of a pod makes of its requests, when a
  request is deleted, the name clash of two pods, and the port range count on its way from the annotation to the operator.
\<close>

section \<open>Lemmas\<close>

lemma settled_same_pod: "settled pod M x y \<Longrightarrow> belongs ns name y = belongs ns name x \<and> config_for y = config_for x"
  by (auto simp: settled_def expiring_def still_wanted_def belongs_def split: if_splits)

lemma pod_settled_requests:
  assumes "pod_settled pod M V V'" "has_request V' pod c"
  shows "has_request V pod c \<or> (\<exists>n. asked_for V pod M n c)"
proof -
  obtain n y where y: "V' n = Some y" "belongs (pod_Namespace pod) (pod_Name pod) y" "config_for y = c"
    using assms(2) by (auto simp: has_request_def ran_def)
  show ?thesis
  proof (cases "V n")
    case (Some x)
    then have "belongs (pod_Namespace pod) (pod_Name pod) x \<and> config_for x = c"
      using spec [OF assms(1) [unfolded pod_settled_def], of n] y settled_same_pod by (fastforce split: if_splits)
    with Some show ?thesis by (auto simp: has_request_def ran_def)
  next
    case None
    then obtain c' u where "asked_for V pod M n c'" "V' n = Some ((new_nprr pod c')\<lparr>nprr_ResourceVersion := u\<rparr>)"
      using spec [OF assms(1) [unfolded pod_settled_def], of n] y(1) by (auto split: if_splits)
    with y show ?thesis by (auto simp: new_nprr_def)
  qed
qed

lemma digits_value_foldl: "(\<And>c. c \<in> set s \<Longrightarrow> is_digit c) \<Longrightarrow> digits_value s n = Some (foldl (\<lambda>n c. n * 10 + digit_val c) n s)"
  by (induction s arbitrary: n) auto

lemma ParseInt32_show_nat:
  assumes "n < 2 ^ 31"
  shows "ParseInt32 (show_nat n) = Some (int n)"
proof -
  obtain c s where cs: "show_nat n = c # s" using show_nat_not_Nil by (cases "show_nat n") auto
  then have "is_digit c" using show_nat_Cons_digits [of c n] by simp
  then have "c \<noteq> CHR ''-''" "c \<noteq> CHR ''+''" by (auto simp: is_digit_def)
  moreover have "digits_value (show_nat n) 0 = Some n"
    using digits_value_foldl [of "show_nat n" 0] show_nat_Cons_digits digits_val_show_nat [of n] by (simp add: digits_val_def)
  ultimately show ?thesis using assms by (simp add: ParseInt32_def cs Let_def)
qed

section \<open>An example\<close>

definition px_pod :: Pod where
  "px_pod = \<lparr>pod_Namespace = ''a'', pod_Name = ''b-c'', pod_Labels = Map.empty,
     pod_Annotations = [portRangeCountAnnotation \<mapsto> ''2''], pod_DeletionTimestamp = None, pod_NodeName = ''n1'',
     pod_Containers = [[80], [443]], pod_PodIP = ''10.0.0.7''\<rparr>"

text \<open>A request of the pod \<open>c\<close> in the namespace \<open>a-b\<close>, whose name is that of a request of \<open>b-c\<close> in \<open>a\<close>.\<close>

definition px_other :: NATPortRangeRequest where
  "px_other = (new_nprr (px_pod\<lparr>pod_Namespace := ''a-b'', pod_Name := ''c''\<rparr>) ''c1'')\<lparr>nprr_ResourceVersion := 1\<rparr>"

definition px_world :: "NATPortRangeRequest list \<Rightarrow> mem_api" where
  "px_world objs = \<lparr>ma_objs = objs, ma_past = [], ma_version = 1, ma_now = 0, ma_pods = [px_pod], ma_configs = [cx_config]\<rparr>"

lemma px_sel: "pe_GetPod memP (px_world xs) ''a'' ''b-c'' = Inr px_pod" "pe_ListNATConfigs memP (px_world xs) = Inr [cx_config]"
  "pod_PodIP px_pod \<noteq> []" "matchingNCs memP px_pod [cx_config] = {''c1''}" "pod_DeletionTimestamp px_pod = None"
  by (simp_all add: memP_def px_world_def px_pod_def matchingNCs_def cx_config_def)

lemma px_in_step:
  assumes "distinct (map nprr_Name xs)"
  shows "in_step memP mem_store (px_world xs)"
proof -
  have "find (\<lambda>y. nprr_Name y = nprr_Name x) xs = Some x" if "x \<in> set xs" for x
    using assms that by (induction xs) auto
  then have "set xs \<subseteq> ran (mem_store (px_world xs))" by (fastforce simp: ran_def mem_store_def px_world_def)
  moreover have "ran (mem_store (px_world xs)) \<subseteq> set xs"
    by (auto simp: ran_def px_world_def dest!: mem_store_name)
  ultimately show ?thesis using assms by (auto simp: in_step_def memP_def px_world_def distinct_map)
qed

lemma px_names: "request_name px_pod ''c1'' = ''a-b-c-c1''" "nprr_Name px_other = ''a-b-c-c1''" "\<not> belongs ''a'' ''b-c'' px_other"
  by (simp_all add: px_other_def nprrName_def px_pod_def new_nprr_def belongs_def)

lemma px_empty: "mem_store (px_world []) = Map.empty"
  by (simp add: fun_eq_iff mem_store_def px_world_def)

lemma px_asks: "desiredPortRangeCount px_pod = Some 2" "declaredContainerPorts px_pod = [80, 443]"
proof -
  have "show_nat 2 = ''2''" by code_simp
  then have "ParseInt32 ''2'' = Some 2" using ParseInt32_show_nat [of 2] by simp
  then show "desiredPortRangeCount px_pod = Some 2" by (simp add: desiredPortRangeCount_def px_pod_def)
qed (simp add: declaredContainerPorts_def px_pod_def)

section \<open>Properties\<close>

text \<open>
  C30: a reconcile of a pod with an address, on a server that accepts up-to-date writes and with a cache in step with
  it, returns nil and leaves exactly these requests. A request of the pod for a NATConfig that no longer
  matches, and every request of a terminating pod, has a grace period running; a request that still matches has
  none and carries the count of the annotation; one that is being deleted is left alone. For each matching
  NATConfig without a request a new one is stored, unless the pod is terminating or the name is taken. All
  requests of other pods are as they were.
\<close>

theorem reconcilePod_settles_requests:
  assumes api: "accepting_api E store past" and pod: "pe_GetPod E w ns name = Inr pod" "pod_PodIP pod \<noteq> []"
    and cfgs: "pe_ListNATConfigs E w = Inr ncs" and step: "in_step E store w" and one: "one_each (store w) pod"
  shows "\<exists>w'. reconcilePod E o1 o2 ns name w = (Requeue 0, w') \<and> pod_settled pod (matchingNCs E pod ncs) (store w) (store w')"
  using accepting_api.reconcilePod_settles [OF api pod cfgs step one] .

theorem reconcilePod_settles_requests_witness:
  "\<exists>w' x. reconcilePod memP sorted_order sorted_order ''a'' ''b-c'' (px_world []) = (Requeue 0, w') \<and>
     mem_store w' ''a-b-c-c1'' = Some x \<and> nprr_PortRangeCount (nprr_Spec x) = Some 2 \<and> nprr_ExcludePorts (nprr_Spec x) = [80, 443]"
proof -
  have one: "one_each (mem_store (px_world [])) px_pod" and step: "in_step memP mem_store (px_world [])"
    by (simp add: one_each_def px_empty) (rule px_in_step, simp)
  obtain w' where w': "reconcilePod memP sorted_order sorted_order ''a'' ''b-c'' (px_world []) = (Requeue 0, w')"
    and settled: "pod_settled px_pod {''c1''} Map.empty (mem_store w')"
    using reconcilePod_settles_requests [OF memapi.accepting_api_axioms px_sel(1,3,2) step one] px_sel(4) px_empty by metis
  have ask: "asked_for Map.empty px_pod {''c1''} ''a-b-c-c1'' c \<longleftrightarrow> c = ''c1''" for c
    using px_names(1) by (auto simp: asked_for_def has_request_def)
  have "\<exists>c u. c = ''c1'' \<and> mem_store w' ''a-b-c-c1'' = Some ((new_nprr px_pod c)\<lparr>nprr_ResourceVersion := u\<rparr>)"
    using spec [OF settled [unfolded pod_settled_def], of "''a-b-c-c1''"] unfolding ask px_sel(5) by simp
  then obtain u where "mem_store w' ''a-b-c-c1'' = Some ((new_nprr px_pod ''c1'')\<lparr>nprr_ResourceVersion := u\<rparr>)" by blast
  with w' px_asks show ?thesis by (simp add: new_nprr_def)
qed

text \<open>
  Two pods can have the same request name, since names are joined with a character that names contain. A
  pod whose request name for a NATConfig is taken by the request of another pod gets no request for it: the reconcile
  returns nil, and after it the pod still has none, however often it is repeated.
\<close>

theorem request_name_taken:
  assumes api: "accepting_api E store past" and pod: "pe_GetPod E w ns name = Inr pod" "pod_PodIP pod \<noteq> []"
    and cfgs: "pe_ListNATConfigs E w = Inr ncs" and step: "in_step E store w" and one: "one_each (store w) pod"
    and c: "c \<in> matchingNCs E pod ncs" "\<not> has_request (store w) pod c"
    and taken: "store w (request_name pod c) = Some x" "\<not> belongs (pod_Namespace pod) (pod_Name pod) x"
  shows "\<exists>w'. reconcilePod E o1 o2 ns name w = (Requeue 0, w') \<and> \<not> has_request (store w') pod c \<and>
     store w' (request_name pod c) = Some x"
proof -
  obtain w' where w': "reconcilePod E o1 o2 ns name w = (Requeue 0, w')"
    "pod_settled pod (matchingNCs E pod ncs) (store w) (store w')"
    using accepting_api.reconcilePod_settles [OF api pod cfgs step one] by blast
  have "\<not> asked_for (store w) pod (matchingNCs E pod ncs) n c" for n using taken(1) by (auto simp: asked_for_def)
  with pod_settled_requests [OF w'(2)] c(2) have "\<not> has_request (store w') pod c" by blast
  moreover have "store w' (request_name pod c) = Some x"
    using spec [OF w'(2) [unfolded pod_settled_def], of "request_name pod c"] taken by simp
  ultimately show ?thesis using w'(1) by blast
qed

theorem request_name_taken_witness:
  "\<exists>w'. reconcilePod memP sorted_order sorted_order ''a'' ''b-c'' (px_world [px_other]) = (Requeue 0, w') \<and>
     \<not> has_request (mem_store w') px_pod ''c1'' \<and> mem_store w' ''a-b-c-c1'' = Some px_other"
proof -
  let ?V = "mem_store (px_world [px_other])"
  have ran: "ran ?V = {px_other}" by (auto simp: mem_store_def px_world_def ran_def)
  have pod: "\<not> belongs (pod_Namespace px_pod) (pod_Name px_pod) px_other" using px_names(3) by (simp add: px_pod_def)
  then have "one_each ?V px_pod" "\<not> has_request ?V px_pod ''c1''" by (simp_all add: one_each_def has_request_def ran)
  moreover have "?V (request_name px_pod ''c1'') = Some px_other" by (simp add: px_names mem_store_def px_world_def)
  moreover have "in_step memP mem_store (px_world [px_other])" by (rule px_in_step) simp
  moreover have "''c1'' \<in> matchingNCs memP px_pod [cx_config]" by (simp add: px_sel(4))
  ultimately show ?thesis
    using request_name_taken [OF memapi.accepting_api_axioms px_sel(1,3,2), of "[px_other]" "''c1''" px_other] pod px_names(1)
    by metis
qed

text \<open>
  C31: no daemon deletes a request before its grace period is over. In every run of any number of daemons, beside
  whatever others do to the requests (as long as they set no expiry) and with caches that may lag behind, the only call
  that deletes a request, or starts its deletion, is one made more than 239 seconds after some daemon's call first
  stored an expiry for it: 240 seconds less the second to which the server cuts times.
\<close>

theorem deletion_waits_for_grace_period:
  assumes "nprr_api E store past" "nprr_run E past w marks" "daemon_call E w w'" "store w n = Some x"
    and "\<forall>y. store w' n = Some y \<longrightarrow> nprr_DeletionTimestamp y \<noteq> nprr_DeletionTimestamp x"
  shows "\<exists>t. (n, t) \<in> marks \<and> t + 239 * second < pe_Now E w"
proof -
  have "\<exists>t. (n, t) \<in> marks \<and> t + deletionGracePeriod - second < pe_Now E w"
    by (rule nprr_api.call_deletes_late [OF assms(1-4)]) (use assms(5) in blast)
  then show ?thesis by (simp add: deletionGracePeriod_def second_def add.commute)
qed

text \<open>Marking the request of a pod that is gone, waiting five minutes, deleting it.\<close>

definition px_marked :: NATPortRangeRequest where
  "px_marked = px_other\<lparr>nprr_Status := \<lparr>DeletionGracePeriodExpiry = Some (240 * second)\<rparr>, nprr_ResourceVersion := 2\<rparr>"

definition px_later :: mem_api where
  "px_later = (mem_put px_marked (px_world [px_other]))\<lparr>ma_now := 300 * second\<rparr>"

lemma px_mark: "reconcilePod memP sorted_order sorted_order ''a-b'' ''c'' (px_world [px_other]) =
    (Requeue 0, mem_put px_marked (px_world [px_other]))"
proof -
  have get: "pe_GetPod memP (px_world [px_other]) ''a-b'' ''c'' = Inl NotFound" by (simp add: memP_def px_world_def px_pod_def)
  have list: "list_by_identity memP (''a-b'' @ ''/'' @ ''c'') (px_world [px_other]) = Inr [px_other]"
    by (simp add: list_by_identity_def memP_def px_world_def podIdentity_def px_other_def new_nprr_def px_pod_def)
  have "px_other\<lparr>nprr_Status := \<lparr>DeletionGracePeriodExpiry = Some 240000000000\<rparr>, nprr_Name := ''a-b-c-c1'',
      nprr_ResourceVersion := Suc (Suc 0)\<rparr> = px_marked"
    by (simp add: px_marked_def px_other_def new_nprr_def nprrName_def px_pod_def second_def)
  moreover have "nprr_DeletionTimestamp px_other = None" "expiry_of px_other = None" "nprr_ResourceVersion px_other = 1"
    by (simp_all add: px_other_def new_nprr_def)
  ultimately have "mark_gone memP px_other (px_world [px_other]) = (None, mem_put px_marked (px_world [px_other]))"
    by (simp add: mark_gone_def start_grace_def unless_conflict_def memP_def mem_write_def mem_store_def px_world_def Let_def
        cut_def deletionGracePeriod_def second_def px_names(2))
  with get list show ?thesis by (simp add: reconcilePod_def handlePodGone_def finish_def)
qed

theorem deletion_waits_for_grace_period_witness:
  "\<exists>marks r w' t. nprr_run memP mem_past px_later marks \<and> reconcileDaemonNPRR memP ''n1'' ''a-b-c-c1'' px_later = (r, w') \<and>
     mem_store px_later ''a-b-c-c1'' = Some px_marked \<and> mem_store w' ''a-b-c-c1'' = None \<and>
     (''a-b-c-c1'', t) \<in> marks \<and> t + 239 * second < 300 * second"
proof -
  let ?w0 = "px_world [px_other]" and ?w1 = "mem_put px_marked (px_world [px_other])"
  have "nprr_run memP mem_past ?w0 {}"
    by (rule run_start) (simp add: mem_past_def px_world_def px_other_def new_nprr_def)
  note run_call [OF this call_pod [OF px_mark]]
  then obtain marks where "nprr_run memP mem_past ?w1 marks" by (rule that)
  moreover have "others_step mem_past ?w1 px_later" by (auto simp: others_step_def px_later_def mem_past_def)
  ultimately have run: "nprr_run memP mem_past px_later marks" by (rule run_others)
  have name: "nprr_Name px_marked = ''a-b-c-c1''" by (simp add: px_marked_def px_names(2))
  have stored: "mem_store px_later ''a-b-c-c1'' = Some px_marked" by (simp add: px_later_def mem_store_def mem_put_def name)
  have "expiry_of px_marked = Some (240 * second)" "nprr_NodeName (nprr_Spec px_marked) = ''n1''"
    by (simp_all add: px_marked_def px_other_def new_nprr_def px_pod_def)
  moreover have "pe_GetNPRR memP px_later ''a-b-c-c1'' = Inr px_marked"
    "pe_Delete memP px_marked px_later = (None, mem_drop ''a-b-c-c1'' px_later)" by (simp_all add: memP_def stored name)
  moreover have now: "pe_Now memP px_later = 300 * second" by (simp add: memP_def px_later_def)
  ultimately have del: "reconcileDaemonNPRR memP ''n1'' ''a-b-c-c1'' px_later = (Requeue 0, mem_drop ''a-b-c-c1'' px_later)"
    by (simp add: reconcileDaemonNPRR_def second_def)
  have gone: "mem_store (mem_drop ''a-b-c-c1'' px_later) ''a-b-c-c1'' = None" by (simp add: mem_store_drop)
  have "\<forall>y. mem_store (mem_drop ''a-b-c-c1'' px_later) ''a-b-c-c1'' = Some y \<longrightarrow>
      nprr_DeletionTimestamp y \<noteq> nprr_DeletionTimestamp px_marked" unfolding gone by (simp only: option.distinct simp_thms)
  then have "\<exists>t. (''a-b-c-c1'', t) \<in> marks \<and> t + 239 * second < pe_Now memP px_later"
    by (rule deletion_waits_for_grace_period [where store = mem_store and past = mem_past and w = px_later,
        OF memapi.nprr_api_axioms run call_request [OF del] stored])
  then obtain t where t: "(''a-b-c-c1'', t) \<in> marks" "t + 239 * second < 300 * second" unfolding now by blast
  show ?thesis by (intro exI conjI) (rule run, rule del, rule stored, rule gone, rule t(1), rule t(2))
qed

text \<open>
  C33: the number of port ranges a pod asks for, from the annotation to the operator. Every decimal number from 1 to
  \<open>2 ^ 31 - 1\<close> in the annotation is read back as it was written and put into the request; the operator then
  keeps its 16 low bits only, so a request for 65536 ranges is one for none.
\<close>

theorem annotation_count_reaches_operator:
  assumes "pod_Annotations pod portRangeCountAnnotation = Some (show_nat n)" "0 < n" "n < 2 ^ 31"
  shows "nprr_PortRangeCount (nprr_Spec (new_nprr pod c)) = Some (word_of_nat n) \<and>
     sint (the (nprr_PortRangeCount (nprr_Spec (new_nprr pod c)))) = int n \<and>
     unat (requested_count (new_nprr pod c)) = n mod 2 ^ 16"
proof -
  have d: "desiredPortRangeCount pod = Some (word_of_nat n)"
    using assms by (simp add: desiredPortRangeCount_def ParseInt32_show_nat)
  have "sint (word_of_nat n :: i32) = int n"
    using assms(3) by (simp add: signed_of_nat signed_take_bit_int_eq_self)
  moreover have "unat (ucast (word_of_nat n :: i32) :: u16) = n mod 2 ^ 16"
    by (simp add: unsigned_ucast_eq unsigned_of_nat take_bit_eq_mod mod_mod_cancel)
  ultimately show ?thesis by (simp add: new_nprr_def d requested_count_def)
qed

theorem annotation_count_reaches_operator_witness:
  "unat (requested_count (new_nprr (px_pod\<lparr>pod_Annotations := [portRangeCountAnnotation \<mapsto> show_nat 65536]\<rparr>) ''c1'')) = 0"
  using annotation_count_reaches_operator [of "px_pod\<lparr>pod_Annotations := [portRangeCountAnnotation \<mapsto> show_nat 65536]\<rparr>" 65536 "''c1''"]
  by simp

text \<open>
  C32: requests of pods that are gone. The reconcile of a pod that no longer exists, and the scan at the start of
  a daemon, start the grace period of exactly the requests concerned (all of that pod; all of this node
  whose pod is missing) that have none running and are not being deleted, and change no other request.
\<close>

theorem requests_of_gone_pods_expire:
  assumes "accepting_api E store past" "in_step E store w"
  shows "(pe_GetPod E w ns name = Inl NotFound \<longrightarrow>
      (\<exists>w'. reconcilePod E o1 o2 ns name w = (Requeue 0, w') \<and> (\<forall>n. case store w n of None \<Rightarrow> store w' n = None
        | Some x \<Rightarrow> if belongs ns name x then \<exists>y. store w' n = Some y \<and> gone_marked x y else store w' n = Some x))) \<and>
    ((\<forall>ns n. pe_GetPod E w ns n \<in> insert (Inl NotFound) (range Inr)) \<longrightarrow>
      (\<exists>w'. Sync E node w = (Requeue 0, w') \<and> (\<forall>n. case store w n of None \<Rightarrow> store w' n = None
        | Some x \<Rightarrow> if nprr_NodeName (nprr_Spec x) = node \<and>
              pe_GetPod E w (nprr_PodNamespace (nprr_Spec x)) (nprr_PodName (nprr_Spec x)) = Inl NotFound
            then \<exists>y. store w' n = Some y \<and> gone_marked x y else store w' n = Some x)))"
proof (intro conjI impI)
  assume "pe_GetPod E w ns name = Inl NotFound"
  then have "reconcilePod E o1 o2 ns name w = handlePodGone E ns name w" by (simp add: reconcilePod_def)
  with accepting_api.handlePodGone_marks [OF assms, of ns name]
  show "\<exists>w'. reconcilePod E o1 o2 ns name w = (Requeue 0, w') \<and> (\<forall>n. case store w n of None \<Rightarrow> store w' n = None
      | Some x \<Rightarrow> if belongs ns name x then \<exists>y. store w' n = Some y \<and> gone_marked x y else store w' n = Some x)" by simp
next
  assume "\<forall>ns n. pe_GetPod E w ns n \<in> insert (Inl NotFound) (range Inr)"
  then show "\<exists>w'. Sync E node w = (Requeue 0, w') \<and> (\<forall>n. case store w n of None \<Rightarrow> store w' n = None
      | Some x \<Rightarrow> if nprr_NodeName (nprr_Spec x) = node \<and>
            pe_GetPod E w (nprr_PodNamespace (nprr_Spec x)) (nprr_PodName (nprr_Spec x)) = Inl NotFound
          then \<exists>y. store w' n = Some y \<and> gone_marked x y else store w' n = Some x)"
    using accepting_api.Sync_marks [OF assms, of node] by blast
qed

theorem requests_of_gone_pods_expire_witness:
  "\<exists>w' y. Sync memP ''n1'' (px_world [px_other]) = (Requeue 0, w') \<and> mem_store w' ''a-b-c-c1'' = Some y \<and> expiry_of y \<noteq> None"
proof -
  have get: "\<forall>ns n. pe_GetPod memP (px_world [px_other]) ns n \<in> insert (Inl NotFound) (range Inr)"
    by (simp add: memP_def split: option.splits)
  have step: "in_step memP mem_store (px_world [px_other])" by (rule px_in_step) simp
  from requests_of_gone_pods_expire [OF memapi.accepting_api_axioms step, of "[]" "[]" sorted_order sorted_order "''n1''"] get
  obtain w' where w': "Sync memP ''n1'' (px_world [px_other]) = (Requeue 0, w')"
    and all: "\<And>n. case mem_store (px_world [px_other]) n of None \<Rightarrow> mem_store w' n = None
      | Some x \<Rightarrow> if nprr_NodeName (nprr_Spec x) = ''n1'' \<and> pe_GetPod memP (px_world [px_other])
            (nprr_PodNamespace (nprr_Spec x)) (nprr_PodName (nprr_Spec x)) = Inl NotFound
          then \<exists>y. mem_store w' n = Some y \<and> gone_marked x y else mem_store w' n = Some x" by blast
  have "mem_store (px_world [px_other]) ''a-b-c-c1'' = Some px_other" by (simp add: mem_store_def px_world_def px_names(2))
  moreover have "nprr_NodeName (nprr_Spec px_other) = ''n1''" "nprr_DeletionTimestamp px_other = None"
    "nprr_PodNamespace (nprr_Spec px_other) = ''a-b''" "nprr_PodName (nprr_Spec px_other) = ''c''"
    "pe_GetPod memP (px_world [px_other]) ''a-b'' ''c'' = Inl NotFound"
    by (simp_all add: px_other_def new_nprr_def px_pod_def memP_def px_world_def)
  ultimately obtain y where "mem_store w' ''a-b-c-c1'' = Some y" "gone_marked px_other y" "nprr_DeletionTimestamp px_other = None"
    using all [of "''a-b-c-c1''"] by auto
  with w' show ?thesis by (auto simp: gone_marked_def expiring_def)
qed

end
