(* ===== verification/Loader.thy ===== *)
theory Loader
  imports Prelude
begin

text \<open>
  \<open>internal/loader/loader.go\<close>: loading the BPF programs, attaching them to the uplink and pinning maps, programs and
  links in the BPF file system, and taking all of it away again.

  The kernel, cilium/ebpf, the operating system and the bindings bpf2go generates are a parameter, a \<open>loaderEnv\<close>:
  each call returns an error, or \<open>None\<close> for nil, and a new world. Maps, programs and links are handles. \<open>ld_Load\<close> parses the
  embedded object of a program, \<open>ld_Assign\<close> loads it into the kernel with some maps replaced. Deferred calls
  are written where they run. Go maps of objects to pin are visited in an order that is an argument.
\<close>

type_synonym handle = nat

datatype bpf_object = SnatEgressObj | NatGcObj | RevnatIngressObj | RevnatXdpObj

text \<open>What loading an object gives: its maps and programs by their names, and all handles \<open>Close\<close> closes.\<close>

record bpf_objects =
  obj_maps :: "string \<Rightarrow> handle"
  obj_progs :: "string \<Rightarrow> handle"

record 'w loaderEnv =
  ld_InterfaceByName :: "'w \<Rightarrow> string \<Rightarrow> string + int"
  ld_MkdirAll :: "string \<Rightarrow> 'w \<Rightarrow> string option \<times> 'w"
  ld_Stat :: "'w \<Rightarrow> string \<Rightarrow> string option"
  ld_Load :: "bpf_object \<Rightarrow> 'w \<Rightarrow> string option \<times> 'w"
  ld_Assign :: "bpf_object \<Rightarrow> (string \<rightharpoonup> handle) \<Rightarrow> 'w \<Rightarrow> (string + bpf_objects) \<times> 'w"
  ld_CloseObjects :: "bpf_objects \<Rightarrow> 'w \<Rightarrow> 'w"
  ld_Pin :: "handle \<Rightarrow> string \<Rightarrow> 'w \<Rightarrow> string option \<times> 'w"
  ld_AttachTCX :: "int \<Rightarrow> handle \<Rightarrow> bool \<Rightarrow> 'w \<Rightarrow> (string + handle) \<times> 'w"
  ld_AttachXDP :: "int \<Rightarrow> handle \<Rightarrow> bool \<Rightarrow> 'w \<Rightarrow> (string + handle) \<times> 'w"
  ld_CloseLink :: "handle \<Rightarrow> 'w \<Rightarrow> string option \<times> 'w"
  ld_LoadPinnedLink :: "string \<Rightarrow> 'w \<Rightarrow> (string + handle) \<times> 'w"
  ld_RemoveAll :: "string \<Rightarrow> 'w \<Rightarrow> string option \<times> 'w"

datatype load_error =
    InvalidMode string
  | InterfaceErr string string
  | MkdirErr string string
  | AlreadyAttached string string
  | LoadErr string string
  | PinErr string string
  | AttachErr string string
  | XDPErr string string
  | DetachErr string string
  | RemoveErr string

section \<open>Modes and paths\<close>

definition bpffsRoot :: string where
  "bpffsRoot = ''/sys/fs/bpf/mooring''"

definition loader_mapsDir :: string where
  "loader_mapsDir = bpffsRoot @ ''/maps''"

definition linksDir :: string where
  "linksDir = bpffsRoot @ ''/links''"

definition progsDir :: string where
  "progsDir = bpffsRoot @ ''/progs''"

text \<open>\<open>filepath.Join\<close> of a clean directory and a plain name.\<close>

definition joined :: "string \<Rightarrow> string \<Rightarrow> string" where
  "joined dir name = dir @ ''/'' @ name"

definition AttachModeTCX :: string where
  "AttachModeTCX = ''tcx''"

definition AttachModeXDP :: string where
  "AttachModeXDP = ''xdp''"

definition linkName :: "string \<Rightarrow> string" where
  "linkName m = (if m = AttachModeXDP then ''revnat_xdp'' else ''revnat_ingress'')"

definition other :: "string \<Rightarrow> string" where
  "other m = (if m = AttachModeXDP then AttachModeTCX else AttachModeXDP)"

definition validateMode :: "string \<Rightarrow> load_error option" where
  "validateMode mode = (if mode \<noteq> AttachModeTCX \<and> mode \<noteq> AttachModeXDP then Some (InvalidMode mode) else None)"

section \<open>Steps\<close>

type_synonym 'w load_result = "load_error option \<times> 'w"

definition and_then :: "'w load_result \<Rightarrow> ('w \<Rightarrow> 'w load_result) \<Rightarrow> 'w load_result" where
  "and_then r f = (case r of (None, w) \<Rightarrow> f w | (Some e, w) \<Rightarrow> (Some e, w))"

definition lift_err :: "(string \<Rightarrow> load_error) \<Rightarrow> string option \<times> 'w \<Rightarrow> 'w load_result" where
  "lift_err f r = (case r of (None, w) \<Rightarrow> (None, w) | (Some e, w) \<Rightarrow> (Some (f e), w))"

text \<open>The loops over a Go map from names to objects to pin, under a directory.\<close>

definition pin_all ::
    "'w loaderEnv \<Rightarrow> string go_order \<Rightarrow> string \<Rightarrow> string set \<Rightarrow> (string \<Rightarrow> handle) \<Rightarrow> 'w \<Rightarrow> 'w load_result" where
  "pin_all E ord dir names h =
     for_ret (\<lambda>name w. lift_err (PinErr name) (ld_Pin E (h name) (joined dir name) w)) (visit ord names)"

definition pin_link :: "'w loaderEnv \<Rightarrow> string \<Rightarrow> handle \<Rightarrow> 'w \<Rightarrow> 'w load_result" where
  "pin_link E name l w =
     (case ld_Pin E l (joined linksDir name) w of
        (Some e, w1) \<Rightarrow> (Some (PinErr name e), snd (ld_CloseLink E l w1))
      | (None, w1) \<Rightarrow> (None, snd (ld_CloseLink E l w1)))"

definition snat_maps :: "string set" where
  "snat_maps = {''nat_config'', ''nat_map_tcp'', ''nat_map_any'', ''nat_map_gc_signal'', ''target_cidrs''}"

definition revnat_maps :: "string set" where
  "revnat_maps = {''dst_kind'', ''port_range_lookup_tcp'', ''port_range_lookup_udp'', ''port_range_lookup_icmp'', ''pod_nat_ports''}"

definition gc_progs :: "string set" where
  "gc_progs = {''gc_nat_map_tcp'', ''gc_nat_map_any''}"

definition natMapReplacements :: "bpf_objects \<Rightarrow> (string \<rightharpoonup> handle)" where
  "natMapReplacements snatObjs =
     [''nat_map_tcp'' \<mapsto> obj_maps snatObjs ''nat_map_tcp'', ''nat_map_any'' \<mapsto> obj_maps snatObjs ''nat_map_any'',
      ''target_cidrs'' \<mapsto> obj_maps snatObjs ''target_cidrs'']"

text \<open>Parsing and loading an object, a body, and the deferred \<open>Close\<close>.\<close>

definition with_objects ::
    "'w loaderEnv \<Rightarrow> string \<Rightarrow> string \<Rightarrow> bpf_object \<Rightarrow> (string \<rightharpoonup> handle) \<Rightarrow> (bpf_objects \<Rightarrow> 'w \<Rightarrow> 'w load_result) \<Rightarrow>
     'w \<Rightarrow> 'w load_result" where
  "with_objects E specName name b repl body w =
     and_then (lift_err (LoadErr specName) (ld_Load E b w)) (\<lambda>w1.
       (case ld_Assign E b repl w1 of
          (Inl e, w2) \<Rightarrow> (Some (LoadErr name e), w2)
        | (Inr objs, w2) \<Rightarrow> (case body objs w2 of (r, w3) \<Rightarrow> (r, ld_CloseObjects E objs w3))))"

definition loadNatGc :: "'w loaderEnv \<Rightarrow> string go_order \<Rightarrow> (string \<rightharpoonup> handle) \<Rightarrow> 'w \<Rightarrow> 'w load_result" where
  "loadNatGc E ord repl =
     with_objects E ''nat_gc spec'' ''nat_gc'' NatGcObj repl (\<lambda>objs. pin_all E ord progsDir gc_progs (obj_progs objs))"

definition loadRevnatTCX :: "'w loaderEnv \<Rightarrow> string go_order \<Rightarrow> int \<Rightarrow> (string \<rightharpoonup> handle) \<Rightarrow> 'w \<Rightarrow> 'w load_result" where
  "loadRevnatTCX E ord ifindex repl =
     with_objects E ''revnat_ingress spec'' ''revnat_ingress'' RevnatIngressObj repl (\<lambda>objs w.
       and_then (pin_all E ord loader_mapsDir revnat_maps (obj_maps objs) w) (\<lambda>w1.
         (case ld_AttachTCX E ifindex (obj_progs objs ''revnat_ingress'') False w1 of
            (Inl e, w2) \<Rightarrow> (Some (AttachErr ''revnat_ingress'' e), w2)
          | (Inr l, w2) \<Rightarrow> pin_link E (linkName AttachModeTCX) l w2)))"

definition attachXDPWithFallback :: "'w loaderEnv \<Rightarrow> int \<Rightarrow> handle \<Rightarrow> 'w \<Rightarrow> (load_error + handle) \<times> 'w" where
  "attachXDPWithFallback E ifindex prog w =
     (case ld_AttachXDP E ifindex prog False w of
        (Inr l, w1) \<Rightarrow> (Inr l, w1)
      | (Inl e, w1) \<Rightarrow>
          (case ld_AttachXDP E ifindex prog True w1 of
             (Inl genErr, w2) \<Rightarrow> (Inl (XDPErr e genErr), w2)
           | (Inr l, w2) \<Rightarrow> (Inr l, w2)))"

definition loadRevnatXDP :: "'w loaderEnv \<Rightarrow> string go_order \<Rightarrow> int \<Rightarrow> (string \<rightharpoonup> handle) \<Rightarrow> 'w \<Rightarrow> 'w load_result" where
  "loadRevnatXDP E ord ifindex repl =
     with_objects E ''revnat_xdp spec'' ''revnat_xdp'' RevnatXdpObj repl (\<lambda>objs w.
       and_then (pin_all E ord loader_mapsDir revnat_maps (obj_maps objs) w) (\<lambda>w1.
         (case attachXDPWithFallback E ifindex (obj_progs objs ''revnat_xdp'') w1 of
            (Inl e, w2) \<Rightarrow> (Some e, w2)
          | (Inr l, w2) \<Rightarrow> pin_link E (linkName AttachModeXDP) l w2)))"

section \<open>The operations\<close>

definition unload_link :: "'w loaderEnv \<Rightarrow> string \<Rightarrow> 'w \<Rightarrow> 'w load_result" where
  "unload_link E name w =
     (case ld_LoadPinnedLink E (joined linksDir name) w of
        (Inl e, w1) \<Rightarrow> (None, w1)
      | (Inr l, w1) \<Rightarrow> lift_err (DetachErr name) (ld_CloseLink E l w1))"

definition Unload :: "'w loaderEnv \<Rightarrow> 'w \<Rightarrow> 'w load_result" where
  "Unload E w =
     and_then (for_ret (unload_link E) [''snat_egress'', ''revnat_ingress'', ''revnat_xdp''] w)
       (\<lambda>w1. lift_err RemoveErr (ld_RemoveAll E bpffsRoot w1))"

text \<open>
  \<open>Load\<close> after its checks: the part whose errors the deferred \<open>Unload\<close> rolls back. \<open>ord i\<close> is the order of the
  \<open>i\<close>-th range over a Go map.
\<close>

definition load_programs :: "'w loaderEnv \<Rightarrow> (nat \<Rightarrow> string go_order) \<Rightarrow> int \<Rightarrow> string \<Rightarrow> 'w \<Rightarrow> 'w load_result" where
  "load_programs E ord ifindex mode =
     with_objects E ''snat_egress'' ''snat_egress'' SnatEgressObj Map.empty (\<lambda>objs w.
       and_then (pin_all E (ord 0) loader_mapsDir snat_maps (obj_maps objs) w) (\<lambda>w1.
       and_then (loadNatGc E (ord 1) (natMapReplacements objs) w1) (\<lambda>w2.
         (case ld_AttachTCX E ifindex (obj_progs objs ''snat_egress'') True w2 of
            (Inl e, w3) \<Rightarrow> (Some (AttachErr ''snat_egress'' e), w3)
          | (Inr l, w3) \<Rightarrow>
              and_then (pin_link E ''snat_egress'' l w3) (\<lambda>w4.
                if mode = AttachModeXDP then loadRevnatXDP E (ord 2) ifindex (natMapReplacements objs) w4
                else loadRevnatTCX E (ord 2) ifindex (natMapReplacements objs) w4)))))"

definition Load :: "'w loaderEnv \<Rightarrow> (nat \<Rightarrow> string go_order) \<Rightarrow> string \<Rightarrow> string \<Rightarrow> 'w \<Rightarrow> 'w load_result" where
  "Load E ord iface mode w =
     (case validateMode mode of
        Some e \<Rightarrow> (Some e, w)
      | None \<Rightarrow>
          (case ld_InterfaceByName E w iface of
             Inl e \<Rightarrow> (Some (InterfaceErr iface e), w)
           | Inr ifindex \<Rightarrow>
               and_then (for_ret (\<lambda>dir w. lift_err (MkdirErr dir) (ld_MkdirAll E dir w)) [loader_mapsDir, linksDir, progsDir] w)
                 (\<lambda>w1.
                   if ld_Stat E w1 (joined linksDir (linkName (other mode))) = None
                   then (Some (AlreadyAttached (other mode) mode), w1)
                   else (case load_programs E ord ifindex mode w1 of
                       (None, w2) \<Rightarrow> (None, w2)
                     | (Some e, w2) \<Rightarrow> (Some e, snd (Unload E w2))))))"

definition EnsureLoaded :: "'w loaderEnv \<Rightarrow> (nat \<Rightarrow> string go_order) \<Rightarrow> string \<Rightarrow> string \<Rightarrow> 'w \<Rightarrow> 'w load_result" where
  "EnsureLoaded E ord iface mode w =
     (case validateMode mode of
        Some e \<Rightarrow> (Some e, w)
      | None \<Rightarrow>
          if ld_Stat E w (joined linksDir (linkName mode)) = None then (None, w) else Load E ord iface mode w)"

end
