(* ===== verification/LoaderInv.thy ===== *)
theory LoaderInv
  imports Loader
begin

text \<open>
  What the loader relies on in the BPF file system, as the interface \<open>bpffs\<close>: \<open>pins\<close> are the objects pinned under
  \<open>bpffsRoot\<close>. A pin never replaces another; only \<open>RemoveAll\<close> takes pins away. Under it: at most one of the two
  revnat links is ever pinned, and a load from scratch is all or nothing.
\<close>

type_synonym pin_state = "string \<rightharpoonup> handle"

locale bpffs =
  fixes E :: "'w loaderEnv" and pins :: "'w \<Rightarrow> pin_state"
  assumes pin_ok: "ld_Pin E h p w = (None, w') \<Longrightarrow> pins w p = None \<and> pins w' = (pins w)(p \<mapsto> h)"
    and pin_failed: "ld_Pin E h p w = (Some e, w') \<Longrightarrow> pins w' = pins w"
    and stat: "ld_Stat E w (joined linksDir n) = None \<longleftrightarrow> pins w (joined linksDir n) \<noteq> None"
    and remove_ok: "ld_RemoveAll E bpffsRoot w = (None, w') \<Longrightarrow> pins w' = Map.empty"
    and remove_failed: "ld_RemoveAll E bpffsRoot w = (Some e, w') \<Longrightarrow> pins w' \<subseteq>\<^sub>m pins w"
    and mkdir_pins: "pins (snd (ld_MkdirAll E d w)) = pins w"
    and load_pins: "pins (snd (ld_Load E b w)) = pins w" "pins (snd (ld_Assign E b repl w)) = pins w"
      "pins (ld_CloseObjects E objs w) = pins w"
    and link_pins: "pins (snd (ld_AttachTCX E i h egress w)) = pins w" "pins (snd (ld_AttachXDP E i h generic w)) = pins w"
      "pins (snd (ld_CloseLink E h w)) = pins w" "pins (snd (ld_LoadPinnedLink E p w)) = pins w"

section \<open>Paths\<close>

definition map_paths :: "string set \<Rightarrow> string set" where
  "map_paths names = joined loader_mapsDir ` names"

definition snat_paths :: "string set" where
  "snat_paths = map_paths snat_maps \<union> joined progsDir ` gc_progs \<union> {joined linksDir ''snat_egress''}"

definition revnat_paths :: "string \<Rightarrow> string set" where
  "revnat_paths mode = map_paths revnat_maps \<union> {joined linksDir (linkName mode)}"

text \<open>Everything a load in a mode pins.\<close>

definition loaded_paths :: "string \<Rightarrow> string set" where
  "loaded_paths mode = snat_paths \<union> revnat_paths mode"

abbreviation link_path :: "string \<Rightarrow> string" where
  "link_path mode \<equiv> joined linksDir (linkName mode)"

lemma joined_inj [simp]: "joined d n = joined d n' \<longleftrightarrow> n = n'"
  by (simp add: joined_def)

lemma modes [simp]: "AttachModeTCX \<noteq> AttachModeXDP" "other AttachModeXDP = AttachModeTCX" "other AttachModeTCX = AttachModeXDP"
  "linkName AttachModeXDP = ''revnat_xdp''" "linkName AttachModeTCX = ''revnat_ingress''"
  by (simp_all add: AttachModeTCX_def AttachModeXDP_def other_def linkName_def)

lemma validateMode_iff: "validateMode mode = None \<longleftrightarrow> mode = AttachModeTCX \<or> mode = AttachModeXDP"
  by (auto simp: validateMode_def)

lemma other_link:
  assumes "mode = AttachModeTCX \<or> mode = AttachModeXDP"
  shows "link_path (other mode) \<notin> loaded_paths mode"
  using assms
  by (auto simp: loaded_paths_def snat_paths_def revnat_paths_def map_paths_def snat_maps_def revnat_maps_def gc_progs_def
      joined_def linksDir_def loader_mapsDir_def progsDir_def)

lemma finite_names [simp]: "finite snat_maps" "finite revnat_maps" "finite gc_progs"
  by (simp_all add: snat_maps_def revnat_maps_def gc_progs_def)

definition one_link :: "pin_state \<Rightarrow> bool" where
  "one_link V \<longleftrightarrow> V (link_path AttachModeTCX) = None \<or> V (link_path AttachModeXDP) = None"

text \<open>Any sequence of loads and unloads, failed ones included, from a clean file system.\<close>

inductive loader_reach :: "'w loaderEnv \<Rightarrow> ('w \<Rightarrow> pin_state) \<Rightarrow> 'w \<Rightarrow> bool"
  for E :: "'w loaderEnv" and pins :: "'w \<Rightarrow> pin_state" where
  reach_clean: "pins w = Map.empty \<Longrightarrow> loader_reach E pins w"
| reach_load: "loader_reach E pins w \<Longrightarrow> Load E ord iface mode w = (r, w') \<Longrightarrow> loader_reach E pins w'"
| reach_ensure: "loader_reach E pins w \<Longrightarrow> EnsureLoaded E ord iface mode w = (r, w') \<Longrightarrow> loader_reach E pins w'"
| reach_unload: "loader_reach E pins w \<Longrightarrow> Unload E w = (r, w') \<Longrightarrow> loader_reach E pins w'"

section \<open>Pins a step adds\<close>

text \<open>\<open>pinned_on V V' P r\<close>: the step kept all pins, added pins in \<open>P\<close> only, and all of them when it returned nil.\<close>

definition pinned_on :: "pin_state \<Rightarrow> pin_state \<Rightarrow> string set \<Rightarrow> load_error option \<Rightarrow> bool" where
  "pinned_on V V' P r \<longleftrightarrow> V \<subseteq>\<^sub>m V' \<and> dom V' \<subseteq> dom V \<union> P \<and> (r = None \<longrightarrow> dom V \<inter> P = {} \<and> P \<subseteq> dom V')"

lemma pinned_on_refl: "pinned_on V V {} r" "r \<noteq> None \<Longrightarrow> pinned_on V V P r"
  by (auto simp: pinned_on_def)

lemma pinned_on_seq:
  assumes "pinned_on V V1 P None" "pinned_on V1 V2 Q r"
  shows "pinned_on V V2 (P \<union> Q) r"
proof -
  have le: "V \<subseteq>\<^sub>m V1" "V1 \<subseteq>\<^sub>m V2" "dom V1 \<subseteq> dom V \<union> P" "dom V2 \<subseteq> dom V1 \<union> Q" "dom V \<inter> P = {}" "P \<subseteq> dom V1"
    using assms by (simp_all add: pinned_on_def)
  have "V \<subseteq>\<^sub>m V2" using le(1,2) by (rule map_le_trans)
  moreover have "dom V2 \<subseteq> dom V \<union> (P \<union> Q)" using le(3,4) by blast
  moreover have "dom V \<inter> (P \<union> Q) = {} \<and> P \<union> Q \<subseteq> dom V2" if "r = None"
  proof -
    have "dom V1 \<inter> Q = {}" "Q \<subseteq> dom V2" using assms(2) that by (simp_all add: pinned_on_def)
    moreover have "dom V \<subseteq> dom V1" "dom V1 \<subseteq> dom V2" using le(1,2) by (simp_all add: map_le_implies_dom_le)
    ultimately show ?thesis using le(5,6) by blast
  qed
  ultimately show ?thesis by (simp add: pinned_on_def)
qed

lemma pinned_on_stop:
  assumes "pinned_on V V1 P r" "r \<noteq> None"
  shows "pinned_on V V1 (P \<union> Q) r"
  using assms by (auto simp: pinned_on_def)

lemma pinned_on_and_then:
  assumes "pinned_on V (pins (snd x)) P (fst x)"
    and "\<And>w. x = (None, w) \<Longrightarrow> pinned_on (pins w) (pins (snd (f w))) Q (fst (f w))"
  shows "pinned_on V (pins (snd (and_then x f))) (P \<union> Q) (fst (and_then x f))"
proof (cases "fst x")
  case None
  then obtain w where w: "x = (None, w)" by (cases x) auto
  from pinned_on_seq [OF assms(1) [unfolded w fst_conv snd_conv] assms(2) [OF w]] show ?thesis by (simp add: and_then_def w)
next
  case (Some e)
  then obtain w where "x = (Some e, w)" by (cases x) auto
  then show ?thesis using pinned_on_stop [OF assms(1)] by (simp add: and_then_def)
qed

context bpffs
begin

lemma pin_step: "pinned_on (pins w) (pins (snd (lift_err f (ld_Pin E h p w)))) {p} (fst (lift_err f (ld_Pin E h p w)))"
proof (cases "ld_Pin E h p w")
  case (Pair r w')
  then show ?thesis using pin_ok [of h p w w'] pin_failed [of h p w _ w']
    by (cases r) (auto simp: lift_err_def pinned_on_def map_le_def)
qed

lemma pin_all_step:
  assumes "finite names"
  shows "pinned_on (pins w) (pins (snd (pin_all E ord dir names h w))) (joined dir ` names) (fst (pin_all E ord dir names h w))"
proof -
  have "pinned_on (pins w) (pins (snd (for_ret (\<lambda>name w. lift_err (PinErr name) (ld_Pin E (h name) (joined dir name) w)) ns w)))
     (joined dir ` set ns) (fst (for_ret (\<lambda>name w. lift_err (PinErr name) (ld_Pin E (h name) (joined dir name) w)) ns w))" for ns w
  proof (induction ns arbitrary: w)
    case (Cons n ns)
    obtain r w1 where step: "lift_err (PinErr n) (ld_Pin E (h n) (joined dir n) w) = (r, w1)" by fastforce
    have one: "pinned_on (pins w) (pins w1) {joined dir n} r"
      using pin_step [of w "PinErr n" "h n" "joined dir n"] step by simp
    show ?case
    proof (cases r)
      case None
      from pinned_on_seq [OF one [unfolded None] Cons.IH [of w1]] show ?thesis by (simp add: step None)
    next
      case (Some e)
      with pinned_on_stop [OF one, of "joined dir ` set ns"] show ?thesis by (simp add: step)
    qed
  qed (simp add: pinned_on_refl)
  from this [of w "visit ord names"] assms show ?thesis by (simp add: pin_all_def)
qed

lemma pin_link_step:
  "pinned_on (pins w) (pins (snd (pin_link E n l w))) {joined linksDir n} (fst (pin_link E n l w))"
proof (cases "ld_Pin E l (joined linksDir n) w")
  case (Pair r w')
  then show ?thesis using pin_ok [of l "joined linksDir n" w w'] pin_failed [of l "joined linksDir n" w _ w']
    by (cases r) (auto simp: pin_link_def pinned_on_def map_le_def link_pins)
qed

lemma with_objects_step:
  assumes "\<And>objs w. pinned_on (pins w) (pins (snd (body objs w))) P (fst (body objs w))"
  shows "pinned_on (pins w) (pins (snd (with_objects E sn n b repl body w))) P (fst (with_objects E sn n b repl body w))"
proof -
  obtain r w1 where l: "ld_Load E b w = (r, w1)" by fastforce
  obtain x w2 where a: "ld_Assign E b repl w1 = (x, w2)" by fastforce
  have p: "pins w1 = pins w" "pins w2 = pins w" using load_pins(1) [of b w] load_pins(2) [of b repl w1] l a by simp_all
  show ?thesis
  proof (cases r)
    case None
    show ?thesis
    proof (cases x)
      case (Inr objs)
      then show ?thesis using assms [of w2 objs] p
        by (cases "body objs w2") (simp add: with_objects_def l a None lift_err_def and_then_def load_pins)
    qed (simp add: with_objects_def l a None lift_err_def and_then_def p pinned_on_refl)
  qed (simp add: with_objects_def l lift_err_def and_then_def p pinned_on_refl)
qed

lemma attach_step:
  assumes "pins (snd att) = pins w" "\<And>l w2. pinned_on (pins w2) (pins (snd (g l w2))) P (fst (g l w2))"
  shows "pinned_on (pins w) (pins (snd (case att of (Inl e, w2) \<Rightarrow> (Some (f e), w2) | (Inr l, w2) \<Rightarrow> g l w2))) P
      (fst (case att of (Inl e, w2) \<Rightarrow> (Some (f e), w2) | (Inr l, w2) \<Rightarrow> g l w2))"
  using assms(1) assms(2) [of "snd att"] by (cases att; cases "fst att") (auto simp: pinned_on_refl)

lemma revnat_step:
  "pinned_on (pins w) (pins (snd (loadRevnatTCX E ord i repl w))) (revnat_paths AttachModeTCX) (fst (loadRevnatTCX E ord i repl w))"
  "pinned_on (pins w) (pins (snd (loadRevnatXDP E ord i repl w))) (revnat_paths AttachModeXDP) (fst (loadRevnatXDP E ord i repl w))"
proof -
  have xdp: "pins (snd (attachXDPWithFallback E i prog w)) = pins w" for prog w
    using link_pins(2) [of i prog False w] link_pins(2) [of i prog True "snd (ld_AttachXDP E i prog False w)"]
    by (auto simp: attachXDPWithFallback_def split: prod.splits sum.splits)
  show "pinned_on (pins w) (pins (snd (loadRevnatTCX E ord i repl w))) (revnat_paths AttachModeTCX) (fst (loadRevnatTCX E ord i repl w))"
    unfolding loadRevnatTCX_def revnat_paths_def map_paths_def
    by (intro with_objects_step pinned_on_and_then pin_all_step attach_step pin_link_step) (simp_all add: link_pins)
  show "pinned_on (pins w) (pins (snd (loadRevnatXDP E ord i repl w))) (revnat_paths AttachModeXDP) (fst (loadRevnatXDP E ord i repl w))"
    unfolding loadRevnatXDP_def revnat_paths_def map_paths_def
    by (intro with_objects_step pinned_on_and_then pin_all_step attach_step [where f = "\<lambda>e. e"] pin_link_step) (simp_all add: xdp)
qed

lemma loadNatGc_step:
  "pinned_on (pins w) (pins (snd (loadNatGc E ord repl w))) (joined progsDir ` gc_progs) (fst (loadNatGc E ord repl w))"
  unfolding loadNatGc_def by (intro with_objects_step pin_all_step) simp

lemma load_programs_step:
  assumes "mode = AttachModeTCX \<or> mode = AttachModeXDP"
  shows "pinned_on (pins w) (pins (snd (load_programs E ord i mode w))) (loaded_paths mode) (fst (load_programs E ord i mode w))"
proof -
  have paths: "loaded_paths mode = map_paths snat_maps \<union> (joined progsDir ` gc_progs \<union>
      ({joined linksDir ''snat_egress''} \<union> revnat_paths mode))"
    by (auto simp: loaded_paths_def snat_paths_def)
  have rev: "pinned_on (pins v) (pins (snd (if mode = AttachModeXDP then loadRevnatXDP E o2 i repl v else loadRevnatTCX E o2 i repl v)))
      (revnat_paths mode) (fst (if mode = AttachModeXDP then loadRevnatXDP E o2 i repl v else loadRevnatTCX E o2 i repl v))" for v o2 repl
    using assms revnat_step by auto
  show ?thesis unfolding load_programs_def paths map_paths_def
    by (intro with_objects_step pinned_on_and_then pin_all_step loadNatGc_step attach_step pin_link_step rev) (simp_all add: link_pins)
qed

section \<open>Unloading\<close>

lemma unload_link_pins: "pins (snd (unload_link E n w)) = pins w"
  using link_pins(4) [of "joined linksDir n" w] link_pins(3)
  by (auto simp: unload_link_def lift_err_def split: prod.splits sum.splits option.splits) (metis snd_conv)+

lemma unload_links_pins: "pins (snd (for_ret (unload_link E) ns w)) = pins w"
proof (induction ns arbitrary: w)
  case (Cons n ns)
  show ?case using Cons.IH [of "snd (unload_link E n w)"] unload_link_pins [of n w]
    by (cases "unload_link E n w"; cases "fst (unload_link E n w)") auto
qed simp

lemma Unload_shrinks: "pins (snd (Unload E w)) \<subseteq>\<^sub>m pins w"
proof -
  let ?ns = "[''snat_egress'', ''revnat_ingress'', ''revnat_xdp'']"
  obtain r w1 where l: "for_ret (unload_link E) ?ns w = (r, w1)" by fastforce
  then have p: "pins w1 = pins w" using unload_links_pins [of ?ns w] by simp
  obtain r2 w2 where rm: "ld_RemoveAll E bpffsRoot w1 = (r2, w2)" by fastforce
  have "pins w2 \<subseteq>\<^sub>m pins w" using remove_ok [of w1 w2] remove_failed [of w1 _ w2] rm p by (cases r2) auto
  with l p rm show ?thesis by (cases r; cases r2) (auto simp: Unload_def and_then_def lift_err_def)
qed

lemma Unload_clears:
  assumes "fst (Unload E w) = None"
  shows "pins (snd (Unload E w)) = Map.empty"
proof -
  let ?ns = "[''snat_egress'', ''revnat_ingress'', ''revnat_xdp'']"
  obtain r w1 where l: "for_ret (unload_link E) ?ns w = (r, w1)" by fastforce
  obtain r2 w2 where rm: "ld_RemoveAll E bpffsRoot w1 = (r2, w2)" by fastforce
  have none: "r = None" "r2 = None" using assms l rm by (cases r; cases r2; simp add: Unload_def and_then_def lift_err_def)+
  with remove_ok [of w1 w2] l rm show ?thesis by (simp add: Unload_def and_then_def lift_err_def)
qed

section \<open>Load\<close>

lemma mkdirs_pins: "pins (snd (for_ret (\<lambda>dir w. lift_err (MkdirErr dir) (ld_MkdirAll E dir w)) ds w)) = pins w"
proof (induction ds arbitrary: w)
  case (Cons d ds)
  obtain r w1 where "ld_MkdirAll E d w = (r, w1)" by fastforce
  then show ?case using Cons.IH [of w1] mkdir_pins [of d w] by (cases r) (auto simp: lift_err_def)
qed simp

text \<open>\<open>Load\<close> up to its first program: refused with all pins kept, or on its way with a valid mode and no link of the other.\<close>

lemma Load_checked:
  assumes run: "Load E ord iface mode w = (r, w')"
  obtains (refused) "r \<noteq> None" "pins w' = pins w"
  | (checked) i w1 where "mode = AttachModeTCX \<or> mode = AttachModeXDP" "pins w (link_path (other mode)) = None" "pins w1 = pins w"
      "(r, w') = (case load_programs E ord i mode w1 of (None, w2) \<Rightarrow> (None, w2) | (Some e, w2) \<Rightarrow> (Some e, snd (Unload E w2)))"
proof (cases "validateMode mode = None \<and> (\<exists>i. ld_InterfaceByName E w iface = Inr i)")
  case False
  then have "r \<noteq> None \<and> w' = w"
    using run unfolding Load_def by (auto split: option.splits sum.splits) (metis option.distinct(1))
  then show thesis using refused by simp
next
  case True
  then obtain i where i: "validateMode mode = None" "ld_InterfaceByName E w iface = Inr i" by blast
  let ?dirs = "for_ret (\<lambda>dir w. lift_err (MkdirErr dir) (ld_MkdirAll E dir w)) [loader_mapsDir, linksDir, progsDir] w"
  obtain d w1 where dirs: "?dirs = (d, w1)" by fastforce
  have p1: "pins w1 = pins w" using mkdirs_pins [of "[loader_mapsDir, linksDir, progsDir]" w] dirs by simp
  have stat1: "ld_Stat E w1 (link_path (other mode)) = None \<longleftrightarrow> pins w (link_path (other mode)) \<noteq> None"
    using stat [of w1 "linkName (other mode)"] p1 by simp
  have mode: "mode = AttachModeTCX \<or> mode = AttachModeXDP" using i(1) by (simp add: validateMode_iff)
  have run': "and_then (d, w1) (\<lambda>w1. if ld_Stat E w1 (link_path (other mode)) = None
      then (Some (AlreadyAttached (other mode) mode), w1)
      else (case load_programs E ord i mode w1 of (None, w2) \<Rightarrow> (None, w2) | (Some e, w2) \<Rightarrow> (Some e, snd (Unload E w2)))) = (r, w')"
    using run i dirs by (simp add: Load_def)
  show thesis
  proof (cases "d = None \<and> pins w (link_path (other mode)) = None")
    case True
    with run' stat1 show thesis using checked [OF mode _ p1, of i] by (simp add: and_then_def)
  next
    case False
    with run' stat1 p1 have "r \<noteq> None \<and> pins w' = pins w" by (cases d) (auto simp: and_then_def)
    then show thesis using refused by simp
  qed
qed

text \<open>
  The outcomes of \<open>Load\<close>: refused by a check with all pins kept; loaded, with exactly the new pins; or rolled back by
  \<open>Unload\<close>, in a world that had the old pins and some of the new ones.
\<close>

lemma Load_cases:
  assumes "Load E ord iface mode w = (r, w')"
  obtains (refused) "r \<noteq> None" "pins w' = pins w"
  | (loaded) "r = None" "mode = AttachModeTCX \<or> mode = AttachModeXDP" "pins w (link_path (other mode)) = None"
      "pinned_on (pins w) (pins w') (loaded_paths mode) None"
  | (rolled_back) w2 where "r \<noteq> None" "mode = AttachModeTCX \<or> mode = AttachModeXDP" "pins w (link_path (other mode)) = None"
      "pinned_on (pins w) (pins w2) (loaded_paths mode) r" "w' = snd (Unload E w2)"
proof (rule Load_checked [OF assms])
  fix i w1
  assume ch: "mode = AttachModeTCX \<or> mode = AttachModeXDP" "pins w (link_path (other mode)) = None" "pins w1 = pins w"
    "(r, w') = (case load_programs E ord i mode w1 of (None, w2) \<Rightarrow> (None, w2) | (Some e, w2) \<Rightarrow> (Some e, snd (Unload E w2)))"
  obtain x w2 where lp: "load_programs E ord i mode w1 = (x, w2)" by fastforce
  have step: "pinned_on (pins w) (pins w2) (loaded_paths mode) x"
    using load_programs_step [OF ch(1), of w1 ord i] lp ch(3) by simp
  show thesis
  proof (cases x)
    case None
    with ch(4) lp step show thesis using loaded [OF _ ch(1,2)] by simp
  next
    case (Some e)
    with ch(4) lp step show thesis using rolled_back [OF _ ch(1,2), of w2] by simp
  qed
qed (rule refused)

lemma Load_one_link:
  assumes "Load E ord iface mode w = (r, w')" "one_link (pins w)"
  shows "one_link (pins w')"
  using assms(1)
proof (cases rule: Load_cases)
  case loaded
  then have "pins w' (link_path (other mode)) = None"
    using other_link [OF loaded(2)] by (auto simp: pinned_on_def)
  with loaded(2) show ?thesis by (auto simp: one_link_def)
next
  case (rolled_back w2)
  then have "pins w2 (link_path (other mode)) = None"
    using other_link [OF rolled_back(2)] by (auto simp: pinned_on_def)
  then have "pins w' (link_path (other mode)) = None"
    using Unload_shrinks [of w2] rolled_back(5) by (auto simp: map_le_def dom_def)
  with rolled_back(2) show ?thesis by (auto simp: one_link_def)
qed (use assms(2) in simp)

lemma EnsureLoaded_eq:
  "EnsureLoaded E ord iface mode w = (r, w') \<Longrightarrow> w' = w \<or> Load E ord iface mode w = (r, w')"
  by (auto simp: EnsureLoaded_def split: option.splits if_splits)

lemma reach_one_link: "loader_reach E pins w \<Longrightarrow> one_link (pins w)"
proof (induction rule: loader_reach.induct)
  case (reach_load w ord iface mode r w')
  then show ?case using Load_one_link by blast
next
  case (reach_ensure w ord iface mode r w')
  then show ?case using Load_one_link EnsureLoaded_eq by blast
next
  case (reach_unload w r w')
  then have "pins w' \<subseteq>\<^sub>m pins w" using Unload_shrinks [of w] by simp
  then have "pins w p = None \<Longrightarrow> pins w' p = None" for p by (auto simp: map_le_def dom_def)
  with reach_unload.IH show ?case by (auto simp: one_link_def)
qed (simp add: one_link_def)

end

section \<open>A file system in memory\<close>

record mem_fs =
  fs_pins :: "(string \<times> handle) list"
  fs_next :: handle

definition memL :: "mem_fs loaderEnv" where
  "memL = \<lparr>ld_InterfaceByName = (\<lambda>w n. if n = ''eth0'' then Inr 2 else Inl ''no such network interface''),
     ld_MkdirAll = (\<lambda>d w. (None, w)),
     ld_Stat = (\<lambda>w p. if map_of (fs_pins w) p = None then Some ''no such file or directory'' else None),
     ld_Load = (\<lambda>b w. (None, w)),
     ld_Assign = (\<lambda>b repl w. (Inr \<lparr>obj_maps = (\<lambda>n. case repl n of Some h \<Rightarrow> h | None \<Rightarrow> fs_next w), obj_progs = (\<lambda>n. fs_next w)\<rparr>,
        w\<lparr>fs_next := Suc (fs_next w)\<rparr>)),
     ld_CloseObjects = (\<lambda>objs w. w),
     ld_Pin = (\<lambda>h p w. if map_of (fs_pins w) p \<noteq> None then (Some ''file exists'', w)
        else (None, w\<lparr>fs_pins := (p, h) # fs_pins w\<rparr>)),
     ld_AttachTCX = (\<lambda>i h eg w. (Inr (fs_next w), w\<lparr>fs_next := Suc (fs_next w)\<rparr>)),
     ld_AttachXDP = (\<lambda>i h g w. if g then (Inr (fs_next w), w\<lparr>fs_next := Suc (fs_next w)\<rparr>)
        else (Inl ''numerical result out of range'', w)),
     ld_CloseLink = (\<lambda>h w. (None, w)),
     ld_LoadPinnedLink = (\<lambda>p w. (case map_of (fs_pins w) p of None \<Rightarrow> Inl ''no such file or directory'' | Some h \<Rightarrow> Inr h, w)),
     ld_RemoveAll = (\<lambda>d w. (None, w\<lparr>fs_pins := []\<rparr>))\<rparr>"

interpretation memfs: bpffs memL "\<lambda>w. map_of (fs_pins w)"
  by unfold_locales (auto simp: memL_def split: if_splits)

end
