(* ===== verification/Loader_Props.thy ===== *)
theory Loader_Props
  imports LoaderInv
begin

text \<open>The properties of the loader: mutual exclusion of the two revnat modes, loads that are all or nothing, and what a second load does.\<close>

section \<open>Lemmas\<close>

context bpffs
begin

lemma Load_proceeds:
  assumes mode: "mode = AttachModeTCX \<or> mode = AttachModeXDP" and iface: "ld_InterfaceByName E w iface = Inr i"
    and dirs: "\<And>d v. fst (ld_MkdirAll E d v) = None" and free: "pins w (link_path (other mode)) = None"
  obtains w1 where "pins w1 = pins w" "Load E ord iface mode w =
     (case load_programs E ord i mode w1 of (None, w2) \<Rightarrow> (None, w2) | (Some e, w2) \<Rightarrow> (Some e, snd (Unload E w2)))"
proof -
  let ?dirs = "for_ret (\<lambda>dir w. lift_err (MkdirErr dir) (ld_MkdirAll E dir w)) [loader_mapsDir, linksDir, progsDir] w"
  have "fst (for_ret (\<lambda>dir w. lift_err (MkdirErr dir) (ld_MkdirAll E dir w)) ds v) = None" for ds v
  proof (induction ds arbitrary: v)
    case (Cons d ds)
    show ?case using Cons.IH dirs [of d v] by (cases "ld_MkdirAll E d v") (simp add: lift_err_def)
  qed simp
  then have "fst ?dirs = None" .
  then obtain w1 where w1: "?dirs = (None, w1)" by (cases ?dirs) (simp only: fst_conv)
  show thesis
  proof (rule that)
    show p: "pins w1 = pins w" using mkdirs_pins [of "[loader_mapsDir, linksDir, progsDir]" w] w1 by simp
    have "ld_Stat E w1 (link_path (other mode)) \<noteq> None" using stat [of w1 "linkName (other mode)"] free p by simp
    moreover have "validateMode mode = None" using mode by (simp add: validateMode_iff)
    ultimately show "Load E ord iface mode w =
       (case load_programs E ord i mode w1 of (None, w2) \<Rightarrow> (None, w2) | (Some e, w2) \<Rightarrow> (Some e, snd (Unload E w2)))"
      unfolding Load_def by (simp only: iface w1 option.case sum.case and_then_def prod.case if_False)
  qed
qed

end

section \<open>Properties\<close>

text \<open>
  C34: the two revnat modes exclude each other. After any sequence of loads, conditional loads and unloads, in any mode,
  on any interface and with any failures on the way, at most one of the links \<open>revnat_ingress\<close> and \<open>revnat_xdp\<close> is pinned.
\<close>

theorem one_revnat_mode:
  assumes "bpffs E pins" "loader_reach E pins w"
  shows "pins w (joined linksDir ''revnat_ingress'') = None \<or> pins w (joined linksDir ''revnat_xdp'') = None"
  using bpffs.reach_one_link [OF assms] by (simp add: one_link_def)

definition lx_clean :: mem_fs where
  "lx_clean = \<lparr>fs_pins = [], fs_next = 1\<rparr>"

lemma lx_runs:
  "fst (Load memL (\<lambda>_. sorted_order) ''eth0'' ''xdp'' lx_clean) = None"
  "Load memL (\<lambda>_. sorted_order) ''eth0'' ''tcx'' (snd (Load memL (\<lambda>_. sorted_order) ''eth0'' ''xdp'' lx_clean)) =
     (Some (AlreadyAttached ''xdp'' ''tcx''), snd (Load memL (\<lambda>_. sorted_order) ''eth0'' ''xdp'' lx_clean))"
  "map_of (fs_pins (snd (Load memL (\<lambda>_. sorted_order) ''eth0'' ''xdp'' lx_clean))) (joined linksDir ''revnat_xdp'') \<noteq> None"
  by code_simp+

theorem one_revnat_mode_witness:
  "\<exists>w1 w2. Load memL (\<lambda>_. sorted_order) ''eth0'' ''xdp'' lx_clean = (None, w1) \<and>
     Load memL (\<lambda>_. sorted_order) ''eth0'' ''tcx'' w1 = (Some (AlreadyAttached ''xdp'' ''tcx''), w2) \<and>
     map_of (fs_pins w2) (joined linksDir ''revnat_ingress'') = None"
proof -
  let ?L = "\<lambda>mode. Load memL (\<lambda>_. sorted_order) ''eth0'' mode"
  have "loader_reach memL (\<lambda>w. map_of (fs_pins w)) lx_clean" by (rule reach_clean) (simp add: lx_clean_def)
  from reach_load [OF this prod.collapse [symmetric]]
  have "loader_reach memL (\<lambda>w. map_of (fs_pins w)) (snd (?L ''xdp'' lx_clean))" .
  from reach_load [OF this lx_runs(2)]
  have "loader_reach memL (\<lambda>w. map_of (fs_pins w)) (snd (?L ''xdp'' lx_clean))" .
  from one_revnat_mode [OF memfs.bpffs_axioms this] lx_runs(3)
  have "map_of (fs_pins (snd (?L ''xdp'' lx_clean))) (joined linksDir ''revnat_ingress'') = None" by blast
  with lx_runs(1,2) show ?thesis by (metis prod.collapse)
qed

text \<open>
  C36: a load from a clean file system is all or nothing. When unloading works, \<open>Load\<close> either returns nil with exactly the
  ten maps, the two garbage collection programs, the egress link and the link of its mode pinned, or returns an error and
  leaves nothing pinned, whichever of its steps failed.
\<close>

theorem Load_all_or_nothing:
  assumes fs: "bpffs E pins" and clean: "pins w = Map.empty" and undo: "\<forall>v. fst (Unload E v) = None"
    and run: "Load E ord iface mode w = (r, w')"
  shows "(r = None \<and> dom (pins w') = loaded_paths mode) \<or> (r \<noteq> None \<and> pins w' = Map.empty)"
proof (rule bpffs.Load_cases [OF fs run])
  assume "r = None" "pinned_on (pins w) (pins w') (loaded_paths mode) None"
  then show ?thesis using clean by (auto simp: pinned_on_def)
next
  fix w2 assume "r \<noteq> None" "w' = snd (Unload E w2)"
  then show ?thesis using bpffs.Unload_clears [OF fs] undo by auto
qed (use clean in simp)

lemma mem_Unload: "fst (Unload memL v) = None"
  by (simp add: Unload_def unload_link_def memL_def and_then_def lift_err_def split: option.splits)

theorem Load_all_or_nothing_witness:
  "\<exists>w'. Load memL (\<lambda>_. sorted_order) ''eth0'' ''xdp'' lx_clean = (None, w') \<and> dom (map_of (fs_pins w')) = loaded_paths ''xdp''"
proof -
  obtain r w' where run: "Load memL (\<lambda>_. sorted_order) ''eth0'' ''xdp'' lx_clean = (r, w')" by fastforce
  have "map_of (fs_pins lx_clean) = Map.empty" by (simp add: lx_clean_def)
  from Load_all_or_nothing [OF memfs.bpffs_axioms this _ run] mem_Unload run lx_runs(1) show ?thesis by auto
qed

text \<open>
  C37: loading twice in the same mode takes down a datapath that runs. In the state a successful \<open>Load\<close> leaves, a second
  \<open>Load\<close> in the same mode fails at the first map it pins and its rollback removes every pin of the first; only
  \<open>EnsureLoaded\<close>, which looks for the link of its own mode, returns nil and changes nothing.
\<close>

theorem second_Load_unloads:
  assumes fs: "bpffs E pins" and mode: "mode = AttachModeTCX \<or> mode = AttachModeXDP"
    and pinned: "dom (pins w) = loaded_paths mode" and undo: "\<forall>v. fst (Unload E v) = None"
    and iface: "ld_InterfaceByName E w iface = Inr i" and dirs: "\<forall>d v. fst (ld_MkdirAll E d v) = None"
  shows "(\<exists>e w'. Load E ord iface mode w = (Some e, w') \<and> pins w' = Map.empty) \<and> EnsureLoaded E ord iface mode w = (None, w)"
proof
  have free: "pins w (link_path (other mode)) = None" using other_link [OF mode] pinned by auto
  obtain w1 where w1: "pins w1 = pins w" "Load E ord iface mode w =
     (case load_programs E ord i mode w1 of (None, w2) \<Rightarrow> (None, w2) | (Some e, w2) \<Rightarrow> (Some e, snd (Unload E w2)))"
  proof (rule bpffs.Load_proceeds [OF fs mode iface _ free, of ord])
    show "fst (ld_MkdirAll E d v) = None" for d v using dirs by simp
  qed
  obtain r w2 where r: "load_programs E ord i mode w1 = (r, w2)" by fastforce
  have "pinned_on (pins w1) (pins w2) (loaded_paths mode) r"
    using bpffs.load_programs_step [OF fs mode, of w1 ord i] r by simp
  moreover have "loaded_paths mode \<noteq> {}" by (simp add: loaded_paths_def revnat_paths_def)
  ultimately have "r \<noteq> None" using pinned w1(1) by (auto simp: pinned_on_def)
  then obtain e where "r = Some e" by blast
  with w1(2) r bpffs.Unload_clears [OF fs, of w2] undo
  show "\<exists>e w'. Load E ord iface mode w = (Some e, w') \<and> pins w' = Map.empty" by simp
  have "link_path mode \<in> dom (pins w)" by (simp add: pinned loaded_paths_def revnat_paths_def)
  then have "ld_Stat E w (link_path mode) = None" using bpffs.stat [OF fs, of w "linkName mode"] by auto
  then show "EnsureLoaded E ord iface mode w = (None, w)" using mode by (auto simp: EnsureLoaded_def validateMode_def)
qed

definition lx_loaded :: mem_fs where
  "lx_loaded = \<lparr>fs_pins = map (\<lambda>p. (p, 1))
     (map (joined loader_mapsDir) [''nat_config'', ''nat_map_tcp'', ''nat_map_any'', ''nat_map_gc_signal'', ''target_cidrs'', ''dst_kind'',
        ''port_range_lookup_tcp'', ''port_range_lookup_udp'', ''port_range_lookup_icmp'', ''pod_nat_ports''] @
      map (joined progsDir) [''gc_nat_map_tcp'', ''gc_nat_map_any''] @ map (joined linksDir) [''snat_egress'', ''revnat_ingress'']),
     fs_next = 2\<rparr>"

theorem second_Load_unloads_witness:
  "\<exists>e w'. Load memL (\<lambda>_. sorted_order) ''eth0'' ''tcx'' lx_loaded = (Some e, w') \<and> map_of (fs_pins w') = Map.empty"
proof -
  have tcx: "''tcx'' = AttachModeTCX" by (simp add: AttachModeTCX_def)
  have "dom (map_of (fs_pins lx_loaded)) = loaded_paths AttachModeTCX"
    by (simp add: dom_map_of_conv_image_fst lx_loaded_def loaded_paths_def snat_paths_def revnat_paths_def map_paths_def
        snat_maps_def revnat_maps_def gc_progs_def insert_commute)
  moreover have "ld_InterfaceByName memL lx_loaded ''eth0'' = Inr 2" "\<forall>d v. fst (ld_MkdirAll memL d v) = None"
    by (simp_all add: memL_def)
  ultimately have "(\<exists>e w'. Load memL (\<lambda>_. sorted_order) ''eth0'' AttachModeTCX lx_loaded = (Some e, w') \<and> map_of (fs_pins w') = Map.empty) \<and>
      EnsureLoaded memL (\<lambda>_. sorted_order) ''eth0'' AttachModeTCX lx_loaded = (None, lx_loaded)"
    by (intro second_Load_unloads [where i = 2, OF memfs.bpffs_axioms]) (simp_all add: mem_Unload)
  then show ?thesis unfolding tcx by (rule conjunct1)
qed

end
