(* ===== verification/Speaker.thy ===== *)
theory Speaker
  imports DaemonConfigInv DaemonPods
begin

text \<open>
  \<open>internal/routing/bgp\<close>: the configuration of the embedded BGP speaker from the environment, and the speaker as the
  route advertiser of the daemon's NATConfig controller. GoBGP and protobuf are a parameter, a \<open>bgpEnv\<close>: \<open>bg_Any\<close> is the
  error of \<open>anypb.New\<close>, \<open>bg_srv\<close> whether \<open>Start\<close> has stored a server yet (before that \<open>s.srv\<close> is nil and a call on it
  panics). The interface \<open>bgp_server\<close> states what the speaker relies on: \<open>rib\<close> are the prefixes announced.
\<close>

section \<open>Configuration\<close>

record BGPConfig =
  LocalASN :: u32
  RemoteASN :: u32
  RouterID :: string
  PeerAddr :: string
  LocalAddr :: string
  NextHop :: string

datatype env_error = MustBeSet string | InvalidUint32 string

text \<open>\<open>strconv.ParseUint(s, 10, 32)\<close>: decimal digits only, and \<open>None\<close> for any error.\<close>

definition ParseUint32 :: "string \<Rightarrow> nat option" where
  "ParseUint32 s =
     (if s = [] then None
      else (case digits_value s 0 of None \<Rightarrow> None | Some n \<Rightarrow> if n \<ge> 2 ^ 32 then None else Some n))"

text \<open>\<open>os.Getenv\<close> is a function; it gives the empty string for a variable that is not set.\<close>

definition requireUint32Env :: "(string \<Rightarrow> string) \<Rightarrow> string \<Rightarrow> env_error + u32" where
  "requireUint32Env getenv key =
     (if getenv key = [] then Inl (MustBeSet key)
      else (case ParseUint32 (getenv key) of None \<Rightarrow> Inl (InvalidUint32 key) | Some n \<Rightarrow> Inr (word_of_nat n)))"

definition env_or :: "(string \<Rightarrow> string) \<Rightarrow> string \<Rightarrow> string \<Rightarrow> string" where
  "env_or getenv key dflt = (if getenv key = [] then dflt else getenv key)"

definition FromEnv :: "(string \<Rightarrow> string) \<Rightarrow> env_error + BGPConfig" where
  "FromEnv getenv =
     (case requireUint32Env getenv ''BGP_LOCAL_ASN'' of
        Inl e \<Rightarrow> Inl e
      | Inr localASN \<Rightarrow>
          (case requireUint32Env getenv ''BGP_REMOTE_ASN'' of
             Inl e \<Rightarrow> Inl e
           | Inr remoteASN \<Rightarrow>
               (let routerID = getenv ''BGP_ROUTER_ID'' in
                if routerID = [] then Inl (MustBeSet ''BGP_ROUTER_ID'')
                else Inr \<lparr>LocalASN = localASN, RemoteASN = remoteASN, RouterID = routerID,
                       PeerAddr = env_or getenv ''BGP_PEER_ADDR'' ''127.0.0.1'',
                       LocalAddr = env_or getenv ''BGP_LOCAL_ADDR'' ''127.0.0.1'',
                       NextHop = env_or getenv ''BGP_NEXT_HOP'' routerID\<rparr>)))"

lemma requireUint32Env_Inr: "requireUint32Env g key = Inr n \<longleftrightarrow> ParseUint32 (g key) = Some (unat n)"
proof
  assume "requireUint32Env g key = Inr n"
  then obtain k where k: "ParseUint32 (g key) = Some k" "n = word_of_nat k"
    by (auto simp: requireUint32Env_def split: if_splits option.splits)
  then have "k < 2 ^ 32" by (auto simp: ParseUint32_def split: if_splits option.splits)
  with k show "ParseUint32 (g key) = Some (unat n)" by (simp add: unsigned_of_nat take_bit_nat_eq_self)
next
  assume "ParseUint32 (g key) = Some (unat n)"
  then show "requireUint32Env g key = Inr n" by (cases "g key = []") (simp_all add: requireUint32Env_def ParseUint32_def)
qed

text \<open>The configuration is accepted exactly when the two ASNs are 32-bit numbers, taken over unchanged, and the router ID is set.\<close>

lemma FromEnv_Inr:
  "FromEnv g = Inr cfg \<longleftrightarrow>
     ParseUint32 (g ''BGP_LOCAL_ASN'') = Some (unat (LocalASN cfg)) \<and> ParseUint32 (g ''BGP_REMOTE_ASN'') = Some (unat (RemoteASN cfg)) \<and>
     RouterID cfg = g ''BGP_ROUTER_ID'' \<and> RouterID cfg \<noteq> [] \<and> NextHop cfg = env_or g ''BGP_NEXT_HOP'' (RouterID cfg) \<and>
     PeerAddr cfg = env_or g ''BGP_PEER_ADDR'' ''127.0.0.1'' \<and> LocalAddr cfg = env_or g ''BGP_LOCAL_ADDR'' ''127.0.0.1''"
  unfolding requireUint32Env_Inr [symmetric]
  by (cases cfg) (auto simp: FromEnv_def Let_def split: sum.splits if_splits)

section \<open>The speaker\<close>

datatype bgp_msg = IPAddressPrefix u32 string | OriginAttribute u32 | NextHopAttribute string

record bgp_path =
  bp_Nlri :: bgp_msg
  bp_Pattrs :: "bgp_msg list"

record 'w bgpEnv =
  bg_Any :: "bgp_msg \<Rightarrow> string option"
  bg_srv :: "'w \<Rightarrow> bool"
  bg_NewServer :: "'w \<Rightarrow> 'w"
  bg_StartBgp :: "u32 \<Rightarrow> string \<Rightarrow> int \<Rightarrow> 'w \<Rightarrow> string option \<times> 'w"
  bg_AddPeer :: "string \<Rightarrow> u32 \<Rightarrow> string \<Rightarrow> 'w \<Rightarrow> string option \<times> 'w"
  bg_Wait :: "'w \<Rightarrow> 'w"
  bg_StopBgp :: "'w \<Rightarrow> string option \<times> 'w"
  bg_AddPath :: "bgp_path \<Rightarrow> 'w \<Rightarrow> string option \<times> 'w"
  bg_DeletePath :: "bgp_path \<Rightarrow> 'w \<Rightarrow> string option \<times> 'w"

definition buildPath :: "'w bgpEnv \<Rightarrow> BGPConfig \<Rightarrow> IPNet \<Rightarrow> route_error + bgp_path" where
  "buildPath B cfg prefix =
     (if To4 (net_addr prefix) = [] then Inl OnlyIPv4Prefix
      else let nlri = IPAddressPrefix (mask_ones prefix) (IP_String (net_addr prefix));
               origin = OriginAttribute 0; nextHop = NextHopAttribute (NextHop cfg) in
        (case bg_Any B nlri of
           Some e \<Rightarrow> Inl (RouteErr e)
         | None \<Rightarrow>
             (case bg_Any B origin of
                Some e \<Rightarrow> Inl (RouteErr e)
              | None \<Rightarrow>
                  (case bg_Any B nextHop of
                     Some e \<Rightarrow> Inl (RouteErr e)
                   | None \<Rightarrow> Inr \<lparr>bp_Nlri = nlri, bp_Pattrs = [origin, nextHop]\<rparr>))))"

definition ret_route :: "string option \<times> 'w \<Rightarrow> (route_error, 'w) eff" where
  "ret_route r = (case r of (None, w) \<Rightarrow> Some (Done w) | (Some e, w) \<Rightarrow> Some (Failed (RouteErr e) w))"

definition AdvertisePrefix :: "'w bgpEnv \<Rightarrow> BGPConfig \<Rightarrow> IPNet \<Rightarrow> 'w \<Rightarrow> (route_error, 'w) eff" where
  "AdvertisePrefix B cfg prefix w =
     (case buildPath B cfg prefix of
        Inl e \<Rightarrow> Some (Failed e w)
      | Inr path \<Rightarrow> if \<not> bg_srv B w then Some (Panic w) else ret_route (bg_AddPath B path w))"

definition WithdrawPrefix :: "'w bgpEnv \<Rightarrow> BGPConfig \<Rightarrow> IPNet \<Rightarrow> 'w \<Rightarrow> (route_error, 'w) eff" where
  "WithdrawPrefix B cfg prefix w =
     (case buildPath B cfg prefix of
        Inl e \<Rightarrow> Some (Failed e w)
      | Inr path \<Rightarrow> if \<not> bg_srv B w then Some (Panic w) else ret_route (bg_DeletePath B path w))"

definition BGPSpeaker :: "'w bgpEnv \<Rightarrow> BGPConfig \<Rightarrow> 'w RouteAdvertiser" where
  "BGPSpeaker B cfg = \<lparr>ra_AdvertisePrefix = AdvertisePrefix B cfg, ra_WithdrawPrefix = WithdrawPrefix B cfg\<rparr>"

text \<open>\<open>bg_Wait\<close> is the time until the context is cancelled.\<close>

datatype speaker_error = StartErr string | PeerErr string string | StopErr string

definition startSpeaker :: "'w bgpEnv \<Rightarrow> BGPConfig \<Rightarrow> 'w \<Rightarrow> speaker_error option \<times> 'w" where
  "startSpeaker B cfg w =
     (case bg_StartBgp B (LocalASN cfg) (RouterID cfg) (- 1) (bg_NewServer B w) of
        (Some e, w1) \<Rightarrow> (Some (StartErr e), w1)
      | (None, w1) \<Rightarrow>
          (case bg_AddPeer B (PeerAddr cfg) (RemoteASN cfg) (LocalAddr cfg) w1 of
             (Some e, w2) \<Rightarrow> (Some (PeerErr (PeerAddr cfg) e), w2)
           | (None, w2) \<Rightarrow>
               (case bg_StopBgp B (bg_Wait B w2) of
                  (Some e, w3) \<Rightarrow> (Some (StopErr e), w3)
                | (None, w3) \<Rightarrow> (None, w3))))"

section \<open>What is announced\<close>

definition nlri_of :: "IPNet \<Rightarrow> bgp_msg" where
  "nlri_of n = IPAddressPrefix (mask_ones n) (IP_String (net_addr n))"

definition route_foot :: "IPNet \<Rightarrow> bgp_msg set" where
  "route_foot n = (if To4 (net_addr n) = [] then {} else {nlri_of n})"

text \<open>Every prefix the controller's memory lists is announced.\<close>

definition announced :: "('w \<Rightarrow> bgp_msg set) \<Rightarrow> tracking \<Rightarrow> 'w \<Rightarrow> bool" where
  "announced rib tr w \<longleftrightarrow> (\<forall>n \<in> nets_of (strings_of tr). route_foot n \<subseteq> rib w)"

locale bgp_server =
  fixes B :: "'w bgpEnv" and rib :: "'w \<Rightarrow> bgp_msg set"
  assumes add_ok: "bg_AddPath B p w = (None, w') \<Longrightarrow> rib w' = insert (bp_Nlri p) (rib w)"
    and delete_ok: "bg_DeletePath B p w = (None, w') \<Longrightarrow> rib w' = rib w - {bp_Nlri p}"
    and add_failed: "bg_AddPath B p w = (Some e, w') \<Longrightarrow> rib w' = rib w"
    and delete_failed: "bg_DeletePath B p w = (Some e, w') \<Longrightarrow> rib w' = rib w"
begin

lemma buildPath_Inr: "buildPath B cfg n = Inr p \<Longrightarrow> bp_Nlri p = nlri_of n \<and> To4 (net_addr n) \<noteq> []"
  by (auto simp: buildPath_def nlri_of_def Let_def split: if_splits option.splits)

lemma advertise_any: "any_post (AdvertisePrefix B cfg n w) (\<lambda>w'. rib w \<subseteq> rib w')"
  using add_ok add_failed
  by (auto simp: AdvertisePrefix_def ret_route_def split: sum.splits prod.splits option.splits)

lemma advertise_done: "ok_post (AdvertisePrefix B cfg n w) (\<lambda>w'. route_foot n \<subseteq> rib w')"
  using add_ok buildPath_Inr [of cfg n]
  by (auto simp: AdvertisePrefix_def ret_route_def route_foot_def ok_post_def split: sum.splits prod.splits option.splits if_splits)

lemma withdraw_any: "any_post (WithdrawPrefix B cfg n w) (\<lambda>w'. rib w - route_foot n \<subseteq> rib w')"
  using delete_ok delete_failed buildPath_Inr [of cfg n]
  by (auto simp: WithdrawPrefix_def ret_route_def route_foot_def split: sum.splits prod.splits option.splits)

lemma withdraw_done: "ok_post (WithdrawPrefix B cfg n w) (\<lambda>w'. rib w' \<subseteq> rib w - route_foot n)"
  using delete_ok buildPath_Inr [of cfg n]
  by (auto simp: WithdrawPrefix_def ret_route_def route_foot_def ok_post_def split: sum.splits prod.splits option.splits if_splits)

lemma speaker_store:
  "exact_cidr_store (\<lambda>n w. wrap_err CfgRoute (ra_AdvertisePrefix (BGPSpeaker B cfg) n w))
     (\<lambda>n w. wrap_err CfgRoute (ra_WithdrawPrefix (BGPSpeaker B cfg) n w)) rib route_foot (\<lambda>_. True) (\<lambda>_. True)"
  by unfold_locales (simp_all add: BGPSpeaker_def any_post_wrap advertise_any advertise_done withdraw_any withdraw_done)

lemma syncRoutes_announced:
  assumes speaker: "cr_RouteAdvertiser r = BGPSpeaker B cfg" and inv: "announced rib tr w"
    and dis: "disjoint_cidrs route_foot (strings_of tr \<union> set new)"
    and run: "syncRoutes r ord name new (tr, w) = Some res"
  shows "announced rib (fst (world_of res)) (snd (world_of res)) \<and>
     (\<forall>st. res = Done st \<longrightarrow> fst st = tr(name \<mapsto> new) \<and>
       (\<forall>c. cidr_dropped tr name new c \<longrightarrow> absent route_foot (rib (snd st)) c))"
proof -
  note exact = speaker_store [of cfg]
  note store = exact_cidr_store.axioms(1) [OF exact]
  note run' = run [unfolded syncRoutes_def speaker fst_conv]
  have st: "cidr_store.stored rib route_foot (\<lambda>_. True) tr w"
    using inv by (simp add: announced_def cidr_store.stored_def [OF store])
  have "absent route_foot (rib v) c" if "res = Done (tr', v)" "cidr_dropped tr name new c" for tr' v c
    using exact_cidr_store.applyCIDRDiff_gone [OF exact st _ run' [unfolded that(1)] that(2)] by simp
  with cidr_store.applyCIDRDiff_stored [OF store st subset_refl dis _ run']
  show ?thesis by (auto simp: announced_def cidr_store.stored_def [OF store])
qed

end

section \<open>A server in memory\<close>

record mem_rib =
  mr_rib :: "bgp_msg list"
  mr_up :: bool

definition memB :: "mem_rib bgpEnv" where
  "memB = \<lparr>bg_Any = (\<lambda>m. None), bg_srv = mr_up, bg_NewServer = (\<lambda>w. w\<lparr>mr_up := True\<rparr>),
     bg_StartBgp = (\<lambda>a i p w. (None, w)), bg_AddPeer = (\<lambda>a b c w. (None, w)), bg_Wait = (\<lambda>w. w), bg_StopBgp = (\<lambda>w. (None, w)),
     bg_AddPath = (\<lambda>p w. (None, w\<lparr>mr_rib := bp_Nlri p # mr_rib w\<rparr>)),
     bg_DeletePath = (\<lambda>p w. (None, w\<lparr>mr_rib := removeAll (bp_Nlri p) (mr_rib w)\<rparr>))\<rparr>"

interpretation memrib: bgp_server memB "\<lambda>w. set (mr_rib w)"
  by unfold_locales (auto simp: memB_def)

interpretation memroutes: exact_cidr_store "\<lambda>n w. wrap_err CfgRoute (ra_AdvertisePrefix (BGPSpeaker memB cfg) n w)"
    "\<lambda>n w. wrap_err CfgRoute (ra_WithdrawPrefix (BGPSpeaker memB cfg) n w)" "\<lambda>w. set (mr_rib w)" route_foot "\<lambda>_. True" "\<lambda>_. True" for cfg
  by (rule memrib.speaker_store)

end
