(* ===== verification/Speaker_Props.thy ===== *)
theory Speaker_Props
  imports Speaker Config_Props
begin

text \<open>
  The daemon's NATConfig controller together with the BGP speaker: what is announced to the router after any
  reconcile.
\<close>

section \<open>Lemmas\<close>

text \<open>The routes the handler works towards: the pool, when the object exists and its node selector takes this node.\<close>

definition desired_routes :: "'w NATConfigReconciler \<Rightarrow> string \<Rightarrow> 'w \<Rightarrow> string list" where
  "desired_routes r name w =
     (case cr_GetNATConfig r w name of
        Inl e \<Rightarrow> []
      | Inr nc \<Rightarrow> (case nodeMatchesSelector r nc w of Inr True \<Rightarrow> ExternalIPPool (nc_Spec nc) | _ \<Rightarrow> []))"

text \<open>Two BPF maps whose operations leave a part of the world alone.\<close>

definition maps_apart :: "('w \<Rightarrow> 'v) \<Rightarrow> 'w NATConfigReconciler \<Rightarrow> bool" where
  "maps_apart part r \<longleftrightarrow> (\<forall>n w.
     any_post (tm_Add (cr_TargetCIDRs r) n w) (\<lambda>w'. part w' = part w) \<and>
     any_post (tm_Remove (cr_TargetCIDRs r) n w) (\<lambda>w'. part w' = part w) \<and>
     any_post (em_Add (cr_ExtIPKind r) n w) (\<lambda>w'. part w' = part w) \<and>
     any_post (em_Remove (cr_ExtIPKind r) n w) (\<lambda>w'. part w' = part w))"

lemma at_memory_ran:
  assumes "at_memory what put x = Some res"
  obtains y where "x = Some y" "world_of res = (put (fst (world_of y)), snd (world_of y))"
    "\<And>m w. res = Done (m, w) \<Longrightarrow> y = Done (fst (world_of y), w)"
  using assms by (cases "the x") (auto simp: at_memory_def)

text \<open>The handler reaches the routes with the advertised part of the memory and of the world untouched, or stops before.\<close>

lemma syncBPFMaps_routes:
  assumes apart: "maps_apart part r" and run: "syncBPFMaps r ord name targets pool adv (m, w) = Some res"
  obtains (stopped) "\<And>st. res \<noteq> Done st" "ncAdvertisedCIDRs (fst (world_of res)) = ncAdvertisedCIDRs m"
      "part (snd (world_of res)) = part w"
    | (routes) w2 y where "part w2 = part w" "syncRoutes r (\<lambda>i. ord (i + 4)) name adv (ncAdvertisedCIDRs m, w2) = Some y"
      "ncAdvertisedCIDRs (fst (world_of res)) = fst (world_of y)" "snd (world_of res) = snd (world_of y)"
      "\<And>m' w'. res = Done (m', w') \<Longrightarrow> y = Done (ncAdvertisedCIDRs m', w')"
proof -
  have calls: "any_post (wrap_err CfgMap (tm_Add (cr_TargetCIDRs r) n v)) (\<lambda>w'. part w' = part v)"
    "any_post (wrap_err CfgMap (tm_Remove (cr_TargetCIDRs r) n v)) (\<lambda>w'. part w' = part v)"
    "any_post (wrap_err CfgMap (em_Add (cr_ExtIPKind r) n v)) (\<lambda>w'. part w' = part v)"
    "any_post (wrap_err CfgMap (em_Remove (cr_ExtIPKind r) n v)) (\<lambda>w'. part w' = part v)" for n v
    using apart by (simp_all add: maps_apart_def any_post_wrap)
  show thesis using run unfolding syncBPFMaps_def Let_def prod.case fst_conv
  proof (elim eff_bind_SomeE, goal_cases)
    case 1
    then show ?case using diff_view [OF calls(1,2)] by (intro stopped) (auto simp: at_memory_Some)
  next
    case (2 st1)
    then obtain tr1 w1 where st1: "st1 = (m\<lparr>ncTargetCIDRs := tr1\<rparr>, w1)" and w1: "part w1 = part w"
      using diff_view [OF calls(1,2)] by (cases st1) (force simp: at_memory_Done)
    have same: "tracked (ncExtIPCIDRs m) name = tracked (ncExtIPCIDRs (m\<lparr>ncTargetCIDRs := tr1\<rparr>)) name" by simp
    show ?case using 2(2) unfolding st1 prod.case same
    proof (elim eff_bind_SomeE, goal_cases)
      case 1
      then show ?case using diff_view [OF calls(3,4)] w1 by (intro stopped) (auto simp: at_memory_Some)
    next
      case (2 st2)
      then obtain tr2 w2 where st2: "st2 = (m\<lparr>ncTargetCIDRs := tr1, ncExtIPCIDRs := tr2\<rparr>, w2)" and w2: "part w2 = part w"
        using diff_view [OF calls(3,4)] w1 by (cases st2) (force simp: at_memory_Done)
      from 2(2) [unfolded st2 prod.case] show ?case
      proof (rule at_memory_ran)
        fix y assume y: "syncRoutes r (\<lambda>i. ord (i + 4)) name adv
            (ncAdvertisedCIDRs (m\<lparr>ncTargetCIDRs := tr1, ncExtIPCIDRs := tr2\<rparr>), w2) = Some y"
          "world_of res = (m\<lparr>ncTargetCIDRs := tr1, ncExtIPCIDRs := tr2, ncAdvertisedCIDRs := fst (world_of y)\<rparr>, snd (world_of y))"
          "\<And>m w. res = Done (m, w) \<Longrightarrow> y = Done (fst (world_of y), w)"
        have "y = Done (ncAdvertisedCIDRs m', w')" if "res = Done (m', w')" for m' w' using y(2) y(3) [OF that] that by simp
        with w2 y show ?case by (intro routes [of w2 y]) simp_all
      qed
    qed
  qed
qed

lemma announced_cidr:
  assumes "announced rib tr w" "tr name = Some cs" "c \<in> set cs" "ParseCIDR c = Some (ip, n)"
  shows "route_foot n \<subseteq> rib w"
proof -
  have "n \<in> nets_of (strings_of tr)" using assms(3,4) strings_of_tracked [of tr, OF assms(2)] by (auto simp: nets_of_def)
  then show ?thesis using assms(1) by (simp add: announced_def)
qed

section \<open>An example\<close>

definition sx_maps :: "mem_rib TargetCIDRMap" where
  "sx_maps = \<lparr>tm_Add = (\<lambda>n w. Some (Done w)), tm_Remove = (\<lambda>n w. Some (Done w))\<rparr>"

definition sx_bgp :: BGPConfig where
  "sx_bgp = \<lparr>LocalASN = 64512, RemoteASN = 64513, RouterID = ''192.0.2.1'', PeerAddr = ''127.0.0.1'',
     LocalAddr = ''127.0.0.1'', NextHop = ''192.0.2.1''\<rparr>"

definition sx_reconciler :: "mem_rib NATConfigReconciler" where
  "sx_reconciler = \<lparr>cr_GetNATConfig = (\<lambda>w name. if name = ''c1'' then Inr cx_config else Inl NotFound),
     cr_GetNode = (\<lambda>w name. Inl NotFound), cr_ListNATConfigs = (\<lambda>w. Inr [cx_config]),
     cr_SelectorMatches = (\<lambda>s l. Inr True), cr_NodeName = ''n1'', cr_TargetCIDRs = sx_maps,
     cr_ExtIPKind = \<lparr>em_Add = (\<lambda>n w. Some (Done w)), em_Remove = (\<lambda>n w. Some (Done w))\<rparr>,
     cr_RouteAdvertiser = BGPSpeaker memB sx_bgp\<rparr>"

section \<open>Properties\<close>


lemma sx_route: "route_foot cx_pool = {IPAddressPrefix 32 ''203.0.113.1''}"
proof -
  have s: "IP_String mx_ext = ''203.0.113.1''"
    by (simp add: mx_ext_def IP_String_def To4_def show4_def show_nat.simps char_of_def bit_Suc_0_iff)
  moreover have "net_mask (net4 mx_ext 32) = [255, 255, 255, 255]" by (simp add: net4_def CIDRMask_def upt_rec Let_def)
  then have "fst (Mask_Size [255, 255, 255, 255]) = 32" using mask_ones_net4 [of 32 mx_ext] by simp
  ultimately show ?thesis by (simp add: route_foot_def nlri_of_def mask_ones_def mx_ext_def To4_def)
qed

lemma sx_sel: "cr_GetNATConfig sx_reconciler w ''c1'' = Inr cx_config" "cr_TargetCIDRs sx_reconciler = sx_maps"
  "em_Add (cr_ExtIPKind sx_reconciler) = (\<lambda>n w. Some (Done w))" "em_Remove (cr_ExtIPKind sx_reconciler) = (\<lambda>n w. Some (Done w))"
  "cr_RouteAdvertiser sx_reconciler = BGPSpeaker memB sx_bgp"
  by (simp_all add: sx_reconciler_def)

lemma sx_run: "\<exists>m' w'. reconcileDaemonNATConfig sx_reconciler ord ''c1'' (NewNATConfigReconciler_memory, \<lparr>mr_rib = [], mr_up = True\<rparr>) =
    Some (Done (m', w'))"
proof -
  have "To4 mx_ext \<noteq> []" by (simp add: mx_ext_def To4_def)
  then have adv: "AdvertisePrefix memB sx_bgp cx_pool \<lparr>mr_rib = [], mr_up = True\<rparr> =
      Some (Done \<lparr>mr_rib = [nlri_of cx_pool], mr_up = True\<rparr>)"
    by (simp add: AdvertisePrefix_def buildPath_def memB_def ret_route_def nlri_of_def Let_def)
  show ?thesis
    by (simp add: reconcileDaemonNATConfig_def sx_sel cx_sel nodeMatchesSelector_def syncBPFMaps_def Let_def
        NewNATConfigReconciler_memory_def tracked_def syncRoutes_def at_memory_def wrap_err_def BGPSpeaker_def
        add_single [OF dx_cidr] add_single [OF cx_parse] adv sx_maps_def)
qed


end
