(* ===== verification/Moorctl.thy ===== *)
theory Moorctl
  imports Maps_Props LoaderInv
begin

text \<open>
  \<open>cmd/moorctl\<close>: the command line tool. The flags of a command are the arguments of its function
  (\<open>MoorctlCLI\<close> has the command tree). \<open>map\<close> commands write the BPF maps, \<open>diag stage1\<close> reads them and prints lines,
  \<open>load\<close> and \<open>unload\<close> call the loader. Under the interface \<open>ebpf_kernel\<close> the \<open>map\<close> commands refine table operations.
\<close>

section \<open>map.go\<close>

datatype ctl_error =
    InvalidFlag string string
  | PortOrder
  | InvalidProto string
  | CtlMap maps_error
  | OpenDiag string bpf_error
  | OpenInner bpf_error

definition runNatConfigAdd ::
    "'w ebpf \<Rightarrow> string \<Rightarrow> string \<Rightarrow> string \<Rightarrow> u16 \<Rightarrow> u16 \<Rightarrow> 'w \<Rightarrow> (ctl_error, 'w) eff" where
  "runNatConfigAdd E ncPodIP ncExtIP ncTargetCIDR ncPortStart ncPortEnd w =
     (let podIP = To4 (ParseIP ncPodIP); extIP = To4 (ParseIP ncExtIP) in
      if podIP = [] then Some (Failed (InvalidFlag ''pod-ip'' ncPodIP) w)
      else if extIP = [] then Some (Failed (InvalidFlag ''ext-ip'' ncExtIP) w)
      else (case ParseCIDR ncTargetCIDR of
          None \<Rightarrow> Some (Failed (InvalidFlag ''target-cidr'' ncTargetCIDR) w)
        | Some (ip, targetCIDR) \<Rightarrow>
            if ncPortEnd < ncPortStart then Some (Failed PortOrder w)
            else wrap_err CtlMap (UpsertNatConfigEntry E podIP targetCIDR extIP ncPortStart ncPortEnd w)))"

definition runTargetCIDRAdd :: "'w ebpf \<Rightarrow> string \<Rightarrow> 'w \<Rightarrow> (ctl_error, 'w) eff" where
  "runTargetCIDRAdd E tcCIDR w =
     (case ParseCIDR tcCIDR of
        None \<Rightarrow> Some (Failed (InvalidFlag ''cidr'' tcCIDR) w)
      | Some (ip, cidr) \<Rightarrow> wrap_err CtlMap (AddTargetCIDR E cidr w))"

definition runExtIPAdd :: "'w ebpf \<Rightarrow> string \<Rightarrow> 'w \<Rightarrow> (ctl_error, 'w) eff" where
  "runExtIPAdd E extIPCIDR w =
     (case ParseCIDR extIPCIDR of
        None \<Rightarrow> Some (Failed (InvalidFlag ''cidr'' extIPCIDR) w)
      | Some (ip, cidr) \<Rightarrow> wrap_err CtlMap (AddExtIPKind E cidr w))"

definition allProtos :: "u8 list" where
  "allProtos = [6, 17, 1]"

definition parseProto :: "string \<Rightarrow> ctl_error + u8" where
  "parseProto s =
     (if s = ''tcp'' then Inr 6 else if s = ''udp'' then Inr 17 else if s = ''icmp'' then Inr 1 else Inl (InvalidProto s))"

definition runPortRangeAdd ::
    "'w ebpf \<Rightarrow> string \<Rightarrow> string \<Rightarrow> u16 \<Rightarrow> u16 \<Rightarrow> string \<Rightarrow> 'w \<Rightarrow> (ctl_error, 'w) eff" where
  "runPortRangeAdd E prExtIP prPodIP prPortStart prPortEnd prProto w =
     (let extIP = To4 (ParseIP prExtIP); podIP = To4 (ParseIP prPodIP) in
      if extIP = [] then Some (Failed (InvalidFlag ''ext-ip'' prExtIP) w)
      else if podIP = [] then Some (Failed (InvalidFlag ''pod-ip'' prPodIP) w)
      else if prPortEnd < prPortStart then Some (Failed PortOrder w)
      else (case if prProto = [] then Inr allProtos else map_sum id (\<lambda>proto. [proto]) (parseProto prProto) of
          Inl e \<Rightarrow> Some (Failed e w)
        | Inr protos \<Rightarrow>
            eff_bind (for_eff (\<lambda>proto w. wrap_err CtlMap (AddPortRange E extIP podIP prPortStart prPortEnd proto w)) protos w)
              (\<lambda>w. wrap_err CtlMap (AddPodNatPorts E podIP prPortStart prPortEnd w))))"

section \<open>load.go and unload.go\<close>

definition runLoad :: "'w loaderEnv \<Rightarrow> (nat \<Rightarrow> string go_order) \<Rightarrow> string \<Rightarrow> string \<Rightarrow> 'w \<Rightarrow> 'w load_result" where
  "runLoad L ord loadIface loadMode = Load L ord loadIface loadMode"

definition runUnload :: "'w loaderEnv \<Rightarrow> 'w \<Rightarrow> 'w load_result" where
  "runUnload L = Unload L"

section \<open>diag.go\<close>

text \<open>
  The two calls of \<open>cilium/ebpf\<close> that no other part makes: the lookup of \<open>target_cidrs\<close> into a \<open>uint8\<close>, which gives
  only its error, and \<open>NewMapFromFD\<close>, which gives the map that an open descriptor of the process stands for.
\<close>

record 'w diagEnv =
  dg_LookupTarget :: "'w \<Rightarrow> lpm_key \<Rightarrow> bpf_error option"
  dg_NewMapFromFD :: "'w \<Rightarrow> int \<Rightarrow> bpf_error + nat"

datatype diag_status = FOUND | NOT_FOUND | DIAG_ERROR bpf_error

definition diagCheck :: "bpf_error option \<Rightarrow> diag_status" where
  "diagCheck err =
     (case err of None \<Rightarrow> FOUND | Some e \<Rightarrow> if e = ErrKeyNotExist then NOT_FOUND else DIAG_ERROR e)"

datatype diag_line =
    TargetLine string diag_status
  | KindLine string diag_status
  | KindFound string string
  | OuterLine string diag_status
  | PortLine u16 diag_status
  | PortFound u16 string
  | PortZero u16

definition diagIPToU32 :: "net_IP \<Rightarrow> u32" where
  "diagIPToU32 ip = le_uint32 (To4 ip)"

definition diagMapsDir :: string where
  "diagMapsDir = ''/sys/fs/bpf/mooring/maps''"

definition diag_open :: "'w ebpf \<Rightarrow> 'w \<Rightarrow> string \<Rightarrow> (diag_line list \<times> ctl_error option) \<Rightarrow> diag_line list \<times> ctl_error option" where
  "diag_open E w name rest =
     (case LoadPinnedMap E w (diagMapsDir @ ''/'' @ name) of Some e \<Rightarrow> ([], Some (OpenDiag name e)) | None \<Rightarrow> rest)"

text \<open>The lines printed and the error returned; nothing is written to the maps.\<close>

definition put_bytes :: "u32 \<Rightarrow> net_IP" where
  "put_bytes v = [ucast v, ucast (drop_bit 8 v), ucast (drop_bit 16 v), ucast (drop_bit 24 v)]"

definition diag_inner :: "'w ebpf \<Rightarrow> nat \<Rightarrow> u16 \<Rightarrow> 'w \<Rightarrow> diag_line" where
  "diag_inner E inner diagDstPort w =
     (case bm_Lookup (inner_map E inner) w (ucast diagDstPort) of
        Inl e \<Rightarrow> PortLine diagDstPort (diagCheck (Some e))
      | Inr podIPRaw \<Rightarrow> if podIPRaw \<noteq> 0 then PortFound diagDstPort (IP_String (put_bytes podIPRaw)) else PortZero diagDstPort)"

definition diag_port ::
    "'w ebpf \<Rightarrow> 'w diagEnv \<Rightarrow> string \<Rightarrow> string \<Rightarrow> u32 \<Rightarrow> u16 \<Rightarrow> 'w \<Rightarrow> diag_line list \<times> ctl_error option" where
  "diag_port E D portRangeMap diagDstIP dstU32 diagDstPort w =
     diag_open E w portRangeMap
       (case bm_Lookup (outer_map E portRangeMap) w dstU32 of
          Inl e \<Rightarrow> ([OuterLine diagDstIP (diagCheck (Some e))], None)
        | Inr innerFD \<Rightarrow>
            (case dg_NewMapFromFD D w (int innerFD) of
               Inl e \<Rightarrow> ([OuterLine diagDstIP FOUND], Some (OpenInner e))
             | Inr inner \<Rightarrow> ([OuterLine diagDstIP FOUND, diag_inner E inner diagDstPort w], None)))"

definition kindName :: "u8 \<Rightarrow> string" where
  "kindName k = (if k = 1 then ''EXT_IP'' else if k = 2 then ''POD_IP'' else [])"

definition runDiagStage1 ::
    "'w ebpf \<Rightarrow> 'w diagEnv \<Rightarrow> string \<Rightarrow> string \<Rightarrow> u16 \<Rightarrow> string \<Rightarrow> 'w \<Rightarrow> diag_line list \<times> ctl_error option" where
  "runDiagStage1 E D diagSrcIP diagDstIP diagDstPort diagProto w =
     (let srcIP = To4 (ParseIP diagSrcIP); dstIP = To4 (ParseIP diagDstIP) in
      if srcIP = [] then ([], Some (InvalidFlag ''src-ip'' diagSrcIP))
      else if dstIP = [] then ([], Some (InvalidFlag ''dst-ip'' diagDstIP))
      else (case parseProto diagProto of
          Inl e \<Rightarrow> ([], Some e)
        | Inr proto \<Rightarrow>
            let srcU32 = diagIPToU32 srcIP; dstU32 = diagIPToU32 dstIP;
                portRangeMap = (if proto = 6 then ''port_range_lookup_tcp'' else if proto = 17 then ''port_range_lookup_udp''
                                else if proto = 1 then ''port_range_lookup_icmp'' else []) in
            diag_open E w ''target_cidrs''
              (let l1 = TargetLine diagSrcIP (diagCheck (dg_LookupTarget D w \<lparr>Prefixlen = 32, Addr = srcU32\<rparr>));
                   (ls, err) = diag_open E w ''dst_kind''
                     (case bm_Lookup (dst_kind_map E) w dstU32 of
                        Inl e \<Rightarrow> ([KindLine diagDstIP (diagCheck (Some e))], None)
                      | Inr kindVal \<Rightarrow>
                          let l2 = KindFound diagDstIP (kindName kindVal) in
                          if kindVal \<noteq> 1 then ([l2], None)
                          else apfst ((#) l2) (diag_port E D portRangeMap diagDstIP dstU32 diagDstPort w))
               in (l1 # ls, err))))"

end
