(* ===== verification/Moorctl_Props.thy ===== *)
theory Moorctl_Props
  imports Moorctl Config_Props
begin

text \<open>The properties of the command line tool: what its \<open>map\<close> commands write, and what \<open>diag stage1\<close> prints.\<close>

section \<open>Lemmas\<close>

text \<open>The lookup maps of the \<open>--proto\<close> flag, all three for the default.\<close>

definition flag_maps :: "string \<Rightarrow> string list" where
  "flag_maps proto =
     (if proto = [] then [''port_range_lookup_tcp'', ''port_range_lookup_udp'', ''port_range_lookup_icmp'']
      else [''port_range_lookup_'' @ proto])"

definition port_range_flags :: "string \<Rightarrow> string \<Rightarrow> u16 \<Rightarrow> u16 \<Rightarrow> string \<Rightarrow> bool" where
  "port_range_flags ext pod ps pe proto \<longleftrightarrow> To4 (ParseIP ext) \<noteq> [] \<and> To4 (ParseIP pod) \<noteq> [] \<and> ps \<le> pe \<and>
     proto \<in> {[], ''tcp'', ''udp'', ''icmp''}"

lemma returns_wrap [simp]: "returns (wrap_err f x) \<longleftrightarrow> returns x"
  by (cases x) (simp_all add: wrap_err_def)

lemma runPortRangeAdd_flags:
  assumes "port_range_flags ext pod ps pe proto"
  obtains protos where "map portRangeMapName protos = map Inr (flag_maps proto)"
    "\<And>w. runPortRangeAdd E ext pod ps pe proto w =
       eff_bind (for_eff (\<lambda>p w. wrap_err CtlMap (AddPortRange E (To4 (ParseIP ext)) (To4 (ParseIP pod)) ps pe p w)) protos w)
         (\<lambda>w. wrap_err CtlMap (AddPodNatPorts E (To4 (ParseIP pod)) ps pe w))"
proof
  let ?protos = "if proto = [] then allProtos else [projr (parseProto proto)]"
  show "map portRangeMapName ?protos = map Inr (flag_maps proto)"
    using assms by (auto simp: port_range_flags_def flag_maps_def allProtos_def parseProto_def portRangeMapName_def)
  show "runPortRangeAdd E ext pod ps pe proto w =
       eff_bind (for_eff (\<lambda>p w. wrap_err CtlMap (AddPortRange E (To4 (ParseIP ext)) (To4 (ParseIP pod)) ps pe p w)) ?protos w)
         (\<lambda>w. wrap_err CtlMap (AddPodNatPorts E (To4 (ParseIP pod)) ps pe w))" for w
    using assms by (auto simp: port_range_flags_def runPortRangeAdd_def Let_def parseProto_def)
qed

lemma runPortRangeAdd_bad_flags:
  "\<not> port_range_flags ext pod ps pe proto \<Longrightarrow> \<exists>e. runPortRangeAdd E ext pod ps pe proto w = Some (Failed e w)"
  by (auto simp: runPortRangeAdd_def port_range_flags_def Let_def parseProto_def)

context ebpf_kernel
begin

lemma refines_runPortRangeAdd:
  "refines view (runPortRangeAdd E ext pod ps pe proto) (\<lambda>t. own_ports (ip_key (To4 (ParseIP pod))) {ps..pe}
     (fold (\<lambda>n. set_ports n (ip_key (To4 (ParseIP ext))) {ps..pe} (ip_key (To4 (ParseIP pod)))) (flag_maps proto) t))"
proof (cases "port_range_flags ext pod ps pe proto")
  case True
  then show ?thesis
  proof (rule runPortRangeAdd_flags [where E = E])
    let ?ext = "To4 (ParseIP ext)" and ?pod = "To4 (ParseIP pod)"
    fix protos assume names: "map portRangeMapName protos = map Inr (flag_maps proto)"
      and run: "\<And>w. runPortRangeAdd E ext pod ps pe proto w =
        eff_bind (for_eff (\<lambda>p w. wrap_err CtlMap (AddPortRange E ?ext ?pod ps pe p w)) protos w)
          (\<lambda>w. wrap_err CtlMap (AddPodNatPorts E ?pod ps pe w))"
    have flags: "flag_maps proto = map (\<lambda>p. projr (portRangeMapName p)) protos"
      using arg_cong [OF names, of "map projr"] by (simp add: comp_def)
    have "refines view (AddPortRange E ?ext ?pod ps pe p) (set_ports (projr (portRangeMapName p)) (ip_key ?ext) {ps..pe} (ip_key ?pod))"
      if "p \<in> set protos" for p
    proof -
      have "portRangeMapName p \<in> set (map Inr (flag_maps proto))" using that unfolding names [symmetric] by simp
      then show ?thesis by (intro refines_AddPortRange) auto
    qed
    then have "refines view (for_eff (\<lambda>p w. wrap_err CtlMap (AddPortRange E ?ext ?pod ps pe p w)) protos)
        (fold (\<lambda>p. set_ports (projr (portRangeMapName p)) (ip_key ?ext) {ps..pe} (ip_key ?pod)) protos)"
      by (intro refines_for refines_wrap)
    from refines_bind [OF this refines_wrap [OF refines_AddPodNatPorts]] show ?thesis
      by (simp add: run [abs_def] flags fold_map comp_def)
  qed
next
  case False
  show ?thesis
  proof (rule refinesI)
    fix w assume ok: "state_ok (view w)"
    obtain e where "runPortRangeAdd E ext pod ps pe proto w = Some (Failed e w)" using runPortRangeAdd_bad_flags [OF False, of E w] by blast
    with ok show "any_post (runPortRangeAdd E ext pod ps pe proto w) (\<lambda>w'. state_ok (view w'))"
      "ok_post (runPortRangeAdd E ext pod ps pe proto w) (\<lambda>w'. tables_of (view w') =
        own_ports (ip_key (To4 (ParseIP pod))) {ps..pe} (fold (\<lambda>n. set_ports n (ip_key (To4 (ParseIP ext))) {ps..pe}
          (ip_key (To4 (ParseIP pod)))) (flag_maps proto) (tables_of (view w))))" by simp_all
  qed
qed

lemma refines_runNatConfigAdd:
  assumes "ParseCIDR cidr = Some (ip, net)"
  shows "refines view (runNatConfigAdd E pod ext cidr ps pe)
     (set_range (nc_key (To4 (ParseIP pod)) net) (ip_key (To4 (ParseIP ext))) (ps, pe))"
  by (cases "To4 (ParseIP pod) = []"; cases "To4 (ParseIP ext) = []"; cases "pe < ps")
    (simp_all add: runNatConfigAdd_def [abs_def] Let_def assms refines_wrap refines_Upsert)

lemma refines_runTargetCIDRAdd:
  assumes "ParseCIDR cidr = Some (ip, net)" "length (net_mask net) = 4"
  shows "refines view (runTargetCIDRAdd E cidr) (\<lambda>t. t\<lparr>t_target := (t_target t)(target_key net \<mapsto>
     \<lparr>tv_Addr = ip_key (To4 (net_addr net)), tv_Prefixlen = mask_ones net\<rparr>)\<rparr>)"
  using refines_wrap [OF refines_AddTargetCIDR [OF parsed_no_host_bits [OF assms]]]
  by (simp add: runTargetCIDRAdd_def [abs_def] assms(1) target_key_def)

lemma refines_runExtIPAdd:
  assumes "ParseCIDR cidr = Some (ip, net)" "length (net_mask net) = 4"
  shows "refines view (runExtIPAdd E cidr) (set_kinds (ip_key ` {x. length x = 4 \<and> Contains net x}) (Some dstKindExtIP))"
proof (cases "expandCIDR net")
  case None
  then show ?thesis
    by (auto simp: runExtIPAdd_def [abs_def] assms(1) AddExtIPKind_def for_ext_ips_def refines_def wrap_err_def)
next
  case (Some r)
  then obtain ips where ips: "expandCIDR net = Some (Inr ips)" "\<forall>x \<in> set ips. length x = 4"
    "map ip_val ips = [ip_val (net_addr net)..<ip_val (net_addr net) + 2 ^ (32 - fst (Mask_Size (net_mask net)))]"
    using expandCIDR_parsed(3,4) [OF assms] by fastforce
  have "set ips = {x. length x = 4 \<and> Contains net x}" using Contains_parsed [OF assms] in_ips [OF ips(2,3)] by auto
  with refines_wrap [OF refines_AddExtIPKind [OF ips(1)]] show ?thesis
    by (simp add: runExtIPAdd_def [abs_def] assms(1))
qed

end

section \<open>Properties\<close>

text \<open>
  C39: the \<open>moorctl map\<close> commands write what their flags say. \<open>port-range add\<close> gives the ports of the range to the pod
  in the lookup map of the \<open>--proto\<close> flag, in all three without the flag, and marks them as the pod's own;
  \<open>nat-config add\<close> sets the range of one (pod, CIDR, external IP); \<open>target-cidr add\<close> sets one key; \<open>ext-ip add\<close> marks
  exactly the addresses of the network. Each changes the tables so when it returns nil, and never breaks their soundness.
\<close>

theorem map_commands_refine_tables:
  assumes "ebpf_kernel E view" "ParseCIDR cidr = Some (ip, net)" "length (net_mask net) = 4"
  shows "refines view (runPortRangeAdd E ext pod ps pe proto) (\<lambda>t. own_ports (ip_key (To4 (ParseIP pod))) {ps..pe}
           (fold (\<lambda>n. set_ports n (ip_key (To4 (ParseIP ext))) {ps..pe} (ip_key (To4 (ParseIP pod)))) (flag_maps proto) t)) \<and>
         refines view (runNatConfigAdd E pod ext cidr ps pe)
           (set_range (nc_key (To4 (ParseIP pod)) net) (ip_key (To4 (ParseIP ext))) (ps, pe)) \<and>
         refines view (runTargetCIDRAdd E cidr) (\<lambda>t. t\<lparr>t_target := (t_target t)(target_key net \<mapsto>
           \<lparr>tv_Addr = ip_key (To4 (net_addr net)), tv_Prefixlen = mask_ones net\<rparr>)\<rparr>) \<and>
         refines view (runExtIPAdd E cidr) (set_kinds (ip_key ` {x. length x = 4 \<and> Contains net x}) (Some dstKindExtIP))"
  using ebpf_kernel.refines_runPortRangeAdd [OF assms(1)] ebpf_kernel.refines_runNatConfigAdd [OF assms(1,2)]
    ebpf_kernel.refines_runTargetCIDRAdd [OF assms] ebpf_kernel.refines_runExtIPAdd [OF assms] by blast

lemma tx_ips: "To4 (ParseIP ''203.0.113.1'') = mx_ext" "To4 (ParseIP ''10.0.0.7'') = mx_pod"
  "ipToUint32 mx_ext = Some 24182987" "ipToUint32 mx_pod = Some 117440522"
  by (simp_all add: dx_ips mx_ext_def mx_pod_def To4_def v4InV6Prefix_def ipToUint32_def le_uint32_def)

lemma tx_flags: "port_range_flags ''203.0.113.1'' ''10.0.0.7'' 50000 50063 ''udp''"
  by (simp add: port_range_flags_def tx_ips) (simp add: mx_ext_def mx_pod_def)

lemma tx_run: "\<exists>w. runPortRangeAdd memE ''203.0.113.1'' ''10.0.0.7'' 50000 50063 ''udp'' mem_empty = Some (Done w)"
proof (rule runPortRangeAdd_flags [OF tx_flags, where E = memE])
  fix protos assume names: "map portRangeMapName protos = map Inr (flag_maps ''udp'')"
    and run: "\<And>w. runPortRangeAdd memE ''203.0.113.1'' ''10.0.0.7'' 50000 50063 ''udp'' w =
      eff_bind (for_eff (\<lambda>p w. wrap_err CtlMap (AddPortRange memE (To4 (ParseIP ''203.0.113.1'')) (To4 (ParseIP ''10.0.0.7''))
        50000 50063 p w)) protos w) (\<lambda>w. wrap_err CtlMap (AddPodNatPorts memE (To4 (ParseIP ''10.0.0.7'')) 50000 50063 w))"
  have "\<exists>n. portRangeMapName p = Inr n" if "p \<in> set protos" for p
  proof -
    have "portRangeMapName p \<in> set (map Inr (flag_maps ''udp''))" using that unfolding names [symmetric] by simp
    then show ?thesis by auto
  qed
  then have add: "succeeds (AddPortRange memE mx_ext mx_pod 50000 50063 p)" if "p \<in> set protos" for p
    using that succeeds_AddPortRange [OF _ tx_ips(3,4)] by force
  have own: "succeeds (AddPodNatPorts memE mx_pod 50000 50063)"
    unfolding AddPodNatPorts_def
    by (intro succeeds_open succeeds_ip [OF tx_ips(4)] succeeds_port_loop)
      (simp_all add: succeeds_def memE_def fun_map_def ret_err_def)
  have "succeeds (runPortRangeAdd memE ''203.0.113.1'' ''10.0.0.7'' 50000 50063 ''udp'')"
    unfolding run [abs_def] tx_ips by (intro succeeds_bind succeeds_for succeeds_wrap add own)
  then show ?thesis by (force simp: succeeds_def mem_empty_def)
qed

theorem map_commands_refine_tables_witness:
  "\<exists>w. runPortRangeAdd memE ''203.0.113.1'' ''10.0.0.7'' 50000 50063 ''udp'' mem_empty = Some (Done w) \<and>
     pod_at (mem_view w) ''port_range_lookup_udp'' 24182987 50017 = 117440522 \<and>
     pod_at (mem_view w) ''port_range_lookup_tcp'' 24182987 50017 = 0 \<and>
     pod_at (mem_view w) ''port_range_lookup_udp'' 24182987 50064 = 0"
proof -
  obtain w where w: "runPortRangeAdd memE ''203.0.113.1'' ''10.0.0.7'' 50000 50063 ''udp'' mem_empty = Some (Done w)"
    using tx_run by blast
  have mask: "length (net_mask mx_cidr) = 4" by (simp add: mx_cidr_def)
  have "refines mem_view (runPortRangeAdd memE ''203.0.113.1'' ''10.0.0.7'' 50000 50063 ''udp'')
      (\<lambda>t. own_ports 117440522 {50000..50063} (set_ports ''port_range_lookup_udp'' 24182987 {50000..50063} 117440522 t))"
    using map_commands_refine_tables [OF mem.ebpf_kernel_axioms dx_cidr mask, of "''203.0.113.1''" "''10.0.0.7''" 50000 50063 "''udp''"]
    by (simp add: tx_ips flag_maps_def)
  from refinesD(2) [OF this mem_empty_ok(1) w]
  have "t_port (tables_of (mem_view w)) = t_port (set_ports ''port_range_lookup_udp'' 24182987 {50000..50063} 117440522
      (tables_of (mem_view mem_empty)))" by (simp add: own_ports_def)
  then have "pod_at (mem_view w) ''port_range_lookup_udp'' 24182987 50017 = 117440522"
    "pod_at (mem_view w) ''port_range_lookup_tcp'' 24182987 50017 = 0"
    "pod_at (mem_view w) ''port_range_lookup_udp'' 24182987 50064 = 0" by (simp_all add: set_ports_def)
  with w show ?thesis by blast
qed

text \<open>
  The flags of \<open>port-range add\<close>. With flags that name no IPv4 address, no known protocol or a range that starts
  above its end it fails and has written nothing; with good flags and an end below 65535 it returns, whatever the
  kernel answers; with 65535 as the end it never returns nil.
\<close>

theorem port_range_add_flags:
  "(\<not> port_range_flags ext pod ps pe proto \<longrightarrow> (\<exists>e. runPortRangeAdd E ext pod ps pe proto w = Some (Failed e w))) \<and>
   (pe \<noteq> 65535 \<longrightarrow> returns (runPortRangeAdd E ext pod ps pe proto w)) \<and>
   runPortRangeAdd E ext pod ps 65535 proto w \<noteq> Some (Done w')"
proof (intro conjI impI)
  show bad: "\<exists>e. runPortRangeAdd E ext pod ps pe proto w = Some (Failed e w)" if "\<not> port_range_flags ext pod ps pe proto" for pe
    by (rule runPortRangeAdd_bad_flags [OF that])
  show "returns (runPortRangeAdd E ext pod ps pe proto w)" if pe: "pe \<noteq> 65535"
  proof (cases "port_range_flags ext pod ps pe proto")
    case True
    then show ?thesis
      by (rule runPortRangeAdd_flags [where E = E]) (simp add: returns_bind returns_for port_loops_return [OF pe])
  qed (use bad in force)
  show "runPortRangeAdd E ext pod ps 65535 proto w \<noteq> Some (Done w')"
  proof (cases "port_range_flags ext pod ps 65535 proto")
    case True
    then show ?thesis
      by (rule runPortRangeAdd_flags [where E = E]) (simp add: eff_bind_Done AddPodNatPorts_not_Done)
  qed (use bad in force)
qed

theorem port_range_add_flags_witness:
  "returns (runPortRangeAdd memE ''203.0.113.1'' ''10.0.0.7'' 50000 65534 [] mem_empty) \<and>
   (\<exists>e. runPortRangeAdd memE ''203.0.113.1'' ''10.0.0.7'' 50000 50063 ''sctp'' mem_empty = Some (Failed e mem_empty))"
  using port_range_add_flags [of "''203.0.113.1''" "''10.0.0.7''" 50000 65534 "[]" memE mem_empty]
    port_range_add_flags [of "''203.0.113.1''" "''10.0.0.7''" 50000 50063 "''sctp''" memE mem_empty]
  by (simp add: port_range_flags_def)

section \<open>The diagnosis\<close>

text \<open>
  \<open>diag stage1\<close> opens the value that the lookup map holds as a file descriptor. That value is the ID of the
  inner map (as the comment in \<open>maps.go\<close> says), so on a packet that the datapath would deliver it reports an
  error whenever the process has no descriptor with the number of the ID.
\<close>

lemma diag_opens_id_as_descriptor:
  assumes flags: "To4 (ParseIP src) \<noteq> []" "To4 (ParseIP dst) \<noteq> []"
    and opened: "\<And>name. LoadPinnedMap E w (diagMapsDir @ ''/'' @ name) = None"
    and kind: "bm_Lookup (dst_kind_map E) w (diagIPToU32 (To4 (ParseIP dst))) = Inr dstKindExtIP"
    and outer: "bm_Lookup (outer_map E ''port_range_lookup_tcp'') w (diagIPToU32 (To4 (ParseIP dst))) = Inr i"
    and fd: "dg_NewMapFromFD D w (int i) = Inl e"
  shows "snd (runDiagStage1 E D src dst port ''tcp'' w) = Some (OpenInner e)"
  using flags opened kind outer fd
  by (simp add: runDiagStage1_def Let_def parseProto_def diag_open_def diag_port_def dstKindExtIP_def)

end
