(* ===== verification/NatGC.thy ===== *)
theory NatGC
  imports DaemonBPF
begin

text \<open>
  \<open>internal/gc\<close>: the sweeps over the two NAT maps. The kernel, the clock and the Go runtime's choice in \<open>select\<close> are
  a parameter, a \<open>gcEnv\<close>: \<open>gc_Now\<close> is \<open>time.Now\<close> in nanoseconds, \<open>gc_Run\<close> a run of a pinned program that gives its
  statistics, \<open>gc_Select\<close> the time until one of the three channels of \<open>Start\<close> is ready. A run of \<open>Start\<close> is given by
  the events that \<open>select\<close> chose, in order. The goroutine that feeds the signal channel is a function of its own
  (\<open>watchSignal\<close>); its sends are the \<open>Signal\<close> events of the other, which may come at any moment. \<open>gc_Cancelled\<close> is
  \<open>ctx.Err() != nil\<close>; \<open>gc_Send\<close> and \<open>gc_After\<close> wait until the receiver takes the signal, or the time has passed (\<open>True\<close>), or
  the context is cancelled (\<open>False\<close>). The interface \<open>gc_clock\<close> is a clock that never goes back.
\<close>

section \<open>gc.go\<close>

definition gc_progsDir :: string where
  "gc_progsDir = ''/sys/fs/bpf/mooring/progs''"

definition KindTCP :: string where
  "KindTCP = ''tcp''"

definition KindAny :: string where
  "KindAny = ''any''"

datatype gc_error = UnknownKind string | OpenProg string bpf_error | RunProg string bpf_error | SignalErr string bpf_error | ReadErr bpf_error

definition progName :: "string \<Rightarrow> gc_error + string" where
  "progName k =
     (if k = KindTCP then Inr ''gc_nat_map_tcp'' else if k = KindAny then Inr ''gc_nat_map_any'' else Inl (UnknownKind k))"

record Stats =
  Scanned :: "64 word"
  Deleted :: "64 word"
  Remaining :: "64 word"

datatype gc_event = Cancelled | Tick | Signal

record 'w gcEnv =
  gc_LoadPinnedProgram :: "string \<Rightarrow> 'w \<Rightarrow> (bpf_error + nat) \<times> 'w"
  gc_Run :: "nat \<Rightarrow> Stats \<Rightarrow> 'w \<Rightarrow> (bpf_error + Stats) \<times> 'w"
  gc_CloseProg :: "nat \<Rightarrow> 'w \<Rightarrow> 'w"
  gc_Now :: "'w \<Rightarrow> int \<times> 'w"
  gc_OpenSignalMap :: "string \<Rightarrow> 'w \<Rightarrow> (bpf_error + nat) \<times> 'w"
  gc_NewReader :: "nat \<Rightarrow> 'w \<Rightarrow> (bpf_error + nat) \<times> 'w"
  gc_CloseMap :: "nat \<Rightarrow> 'w \<Rightarrow> 'w"
  gc_CloseReader :: "nat \<Rightarrow> 'w \<Rightarrow> 'w"
  gc_Select :: "int \<Rightarrow> gc_event \<Rightarrow> 'w \<Rightarrow> 'w"
  gc_Cancelled :: "'w \<Rightarrow> bool"
  gc_Read :: "nat \<Rightarrow> 'w \<Rightarrow> bpf_error option \<times> 'w"
  gc_Send :: "'w \<Rightarrow> bool \<times> 'w"
  gc_After :: "int \<Rightarrow> 'w \<Rightarrow> bool \<times> 'w"

definition RunSweep :: "'w gcEnv \<Rightarrow> string \<Rightarrow> 'w \<Rightarrow> (gc_error + Stats) \<times> 'w" where
  "RunSweep E kind w =
     (case progName kind of
        Inl e \<Rightarrow> (Inl e, w)
      | Inr name \<Rightarrow>
          (case gc_LoadPinnedProgram E (gc_progsDir @ ''/'' @ name) w of
             (Inl e, w1) \<Rightarrow> (Inl (OpenProg name e), w1)
           | (Inr prog, w1) \<Rightarrow>
               (case gc_Run E prog \<lparr>Scanned = 0, Deleted = 0, Remaining = 0\<rparr> w1 of
                  (Inl e, w2) \<Rightarrow> (Inl (RunProg name e), gc_CloseProg E prog w2)
                | (Inr stats, w2) \<Rightarrow> (Inr stats, gc_CloseProg E prog w2))))"

section \<open>runnable.go\<close>

definition gc_mapsDir :: string where
  "gc_mapsDir = ''/sys/fs/bpf/mooring/maps''"

definition gcSignalMapName :: string where
  "gcSignalMapName = ''nat_map_gc_signal''"

definition DefaultPeriod :: int where
  "DefaultPeriod = 30 * 10 ^ 9"

definition debounceWindow :: int where
  "debounceWindow = 10 ^ 9"

definition openSignalReader :: "'w gcEnv \<Rightarrow> 'w \<Rightarrow> (gc_error + nat \<times> nat) \<times> 'w" where
  "openSignalReader E w =
     (case gc_OpenSignalMap E (gc_mapsDir @ ''/'' @ gcSignalMapName) w of
        (Inl e, w1) \<Rightarrow> (Inl (SignalErr ''open'' e), w1)
      | (Inr signalMap, w1) \<Rightarrow>
          (case gc_NewReader E signalMap w1 of
             (Inl e, w2) \<Rightarrow> (Inl (SignalErr ''open ringbuf reader'' e), gc_CloseMap E signalMap w2)
           | (Inr reader, w2) \<Rightarrow> (Inr (reader, signalMap), w2)))"

definition probeSignal :: "'w gcEnv \<Rightarrow> 'w \<Rightarrow> gc_error option \<times> 'w" where
  "probeSignal E w =
     (case openSignalReader E w of
        (Inl e, w1) \<Rightarrow> (Some e, w1)
      | (Inr (reader, signalMap), w1) \<Rightarrow> (None, gc_CloseMap E signalMap (gc_CloseReader E reader w1)))"

definition signalRetryDelay :: int where
  "signalRetryDelay = 5 * 10 ^ 9"

text \<open>The loop of \<open>pumpSignal\<close>: the error it returns, how many signals it has sent, and the world.\<close>

partial_function (option) pump_loop :: "'w gcEnv \<Rightarrow> nat \<Rightarrow> nat \<Rightarrow> 'w \<Rightarrow> (gc_error option \<times> nat \<times> 'w) option" where
  "pump_loop E reader sent w =
     (case gc_Read E reader w of
        (Some e, w1) \<Rightarrow> Some (if gc_Cancelled E w1 then None else Some (ReadErr e), sent, w1)
      | (None, w1) \<Rightarrow>
          (case gc_Send E w1 of (taken, w2) \<Rightarrow>
             if taken then pump_loop E reader (Suc sent) w2 else Some (None, sent, w2)))"

definition pumpSignal :: "'w gcEnv \<Rightarrow> 'w \<Rightarrow> (gc_error option \<times> nat \<times> 'w) option" where
  "pumpSignal E w =
     (case openSignalReader E w of
        (Inl e, w1) \<Rightarrow> Some (Some e, 0, w1)
      | (Inr (reader, signalMap), w1) \<Rightarrow>
          (case pump_loop E reader 0 w1 of
             None \<Rightarrow> None
           | Some (err, sent, w2) \<Rightarrow> Some (err, sent, gc_CloseMap E signalMap w2)))"

text \<open>The goroutine of \<open>watchSignal\<close>, with the number of signals it has sent; the channel is closed when it returns.\<close>

partial_function (option) watchSignal :: "'w gcEnv \<Rightarrow> nat \<Rightarrow> 'w \<Rightarrow> (nat \<times> 'w) option" where
  "watchSignal E sent w =
     (if gc_Cancelled E w then Some (sent, w)
      else (case pumpSignal E w of
          None \<Rightarrow> None
        | Some (None, k, w1) \<Rightarrow> watchSignal E (sent + k) w1
        | Some (Some e, k, w1) \<Rightarrow>
            (case gc_After E signalRetryDelay w1 of (passed, w2) \<Rightarrow>
               if passed then watchSignal E (sent + k) w2 else Some (sent + k, w2))))"

text \<open>
  The state of a \<open>Runnable\<close> that \<open>sweepAll\<close> reads and writes: \<open>lastRun\<close>, \<open>None\<close> for the zero time, which lies
  further back than any window; beside it the log, newest first: when a sweep began and what came of each kind.
\<close>

type_synonym sweep = "int \<times> (string \<times> (gc_error + Stats)) list"

record Runnable =
  lastRun :: "int option"
  logged :: "sweep list"

fun sweep_kinds :: "'w gcEnv \<Rightarrow> string list \<Rightarrow> 'w \<Rightarrow> (string \<times> (gc_error + Stats)) list \<times> 'w" where
  "sweep_kinds E [] w = ([], w)"
| "sweep_kinds E (kind # kinds) w =
     (case RunSweep E kind w of (r, w1) \<Rightarrow> (case sweep_kinds E kinds w1 of (rs, w2) \<Rightarrow> ((kind, r) # rs, w2)))"

definition sweepAll :: "'w gcEnv \<Rightarrow> Runnable \<times> 'w \<Rightarrow> Runnable \<times> 'w" where
  "sweepAll E s =
     (case s of (r, w) \<Rightarrow>
        (case gc_Now E w of (now, w1) \<Rightarrow>
           if (case lastRun r of None \<Rightarrow> False | Some t \<Rightarrow> now - t < debounceWindow) then (r, w1)
           else (case gc_Now E w1 of (t, w2) \<Rightarrow>
             (case sweep_kinds E [KindTCP, KindAny] w2 of (rs, w3) \<Rightarrow>
                (r\<lparr>lastRun := Some t, logged := (t, rs) # logged r\<rparr>, w3)))))"

text \<open>The loop of \<open>Start\<close> on the events that \<open>select\<close> chooses; it has returned once an event is \<open>Cancelled\<close>.\<close>

fun gc_loop :: "'w gcEnv \<Rightarrow> int \<Rightarrow> gc_event list \<Rightarrow> Runnable \<times> 'w \<Rightarrow> Runnable \<times> 'w" where
  "gc_loop E period [] s = s"
| "gc_loop E period (ev # evs) (r, w) =
     (let w1 = gc_Select E period ev w in
      case ev of
        Cancelled \<Rightarrow> (r, w1)
      | Tick \<Rightarrow> gc_loop E period evs (sweepAll E (r, w1))
      | Signal \<Rightarrow> gc_loop E period evs (sweepAll E (r, w1)))"

definition startGC :: "'w gcEnv \<Rightarrow> int \<Rightarrow> gc_event list \<Rightarrow> Runnable \<times> 'w \<Rightarrow> gc_error option \<times> (Runnable \<times> 'w)" where
  "startGC E Period evs s =
     (let period = (if Period \<le> 0 then DefaultPeriod else Period) in
      case s of (r, w) \<Rightarrow>
        (case probeSignal E w of
           (Some e, w1) \<Rightarrow> (Some e, (r, w1))
         | (None, w1) \<Rightarrow> (None, gc_loop E period evs (sweepAll E (r, w1)))))"

section \<open>A clock that never goes back\<close>

text \<open>What holds of the log at every moment: the newest sweep is the last run, no later than now; sweeps lie a window apart.\<close>

definition spaced :: "('w \<Rightarrow> int) \<Rightarrow> Runnable \<times> 'w \<Rightarrow> bool" where
  "spaced clock s \<longleftrightarrow> (case s of (r, w) \<Rightarrow>
     lastRun r = (case logged r of [] \<Rightarrow> None | (t, rs) # ss \<Rightarrow> Some t) \<and>
     (\<forall>t \<in> fst ` set (logged r). t \<le> clock w) \<and>
     sorted_wrt (\<lambda>a b. fst b + debounceWindow \<le> fst a) (logged r) \<and>
     (\<forall>x \<in> set (logged r). map fst (snd x) = [KindTCP, KindAny]))"

lemma spaced_before:
  assumes "spaced clock (r, w)" "\<not> (case lastRun r of None \<Rightarrow> False | Some t \<Rightarrow> now - t < debounceWindow)" "now \<le> t"
    and "b \<in> set (logged r)"
  shows "fst b + debounceWindow \<le> t"
proof -
  obtain t0 rs ss where l: "logged r = (t0, rs) # ss" using assms(4) by (cases "logged r") auto
  have "t0 + debounceWindow \<le> now" using assms(1,2) l by (simp add: spaced_def)
  moreover have "fst b \<le> t0"
    using assms(1,4) l by (auto simp: spaced_def debounceWindow_def)
  ultimately show ?thesis using assms(3) by linarith
qed

locale gc_clock =
  fixes E :: "'w gcEnv" and clock :: "'w \<Rightarrow> int"
  assumes now: "gc_Now E w = (t, w') \<Longrightarrow> clock w \<le> t \<and> t \<le> clock w'"
    and calls: "clock w \<le> clock (snd (gc_LoadPinnedProgram E p w))" "clock w \<le> clock (snd (gc_Run E h c w))"
      "clock w \<le> clock (gc_CloseProg E h w)" "clock w \<le> clock (gc_Select E period ev w)"
begin

lemma RunSweep_clock: "clock w \<le> clock (snd (RunSweep E kind w))"
proof -
  have "clock w \<le> clock w2" if "gc_LoadPinnedProgram E p w = (x, w1)" "gc_Run E h c w1 = (y, w2)" for p x w1 h c y w2
    using calls(1) [of w p] calls(2) [of w1 h c] that by simp
  then have "clock w \<le> clock (gc_CloseProg E h w2)"
    if "gc_LoadPinnedProgram E p w = (x, w1)" "gc_Run E h c w1 = (y, w2)" for p x w1 h c y w2
    using calls(3) [of w2 h] that by (meson order_trans)
  then show ?thesis using calls(1) [of w]
    by (auto simp: RunSweep_def split: sum.splits prod.splits) (metis snd_conv)+
qed

lemma sweep_kinds_clock: "sweep_kinds E kinds w = (rs, w') \<Longrightarrow> clock w \<le> clock w' \<and> map fst rs = kinds"
proof (induction kinds arbitrary: w rs)
  case (Cons kind kinds)
  then show ?case using RunSweep_clock [of w kind]
    by (auto split: prod.splits) (metis order_trans snd_conv)+
qed simp

lemma sweepAll_spaced:
  assumes "spaced clock s"
  shows "spaced clock (sweepAll E s)"
proof -
  obtain r w where s: "s = (r, w)" by (cases s)
  obtain t1 w1 where n: "gc_Now E w = (t1, w1)" by fastforce
  obtain t w2 where t: "gc_Now E w1 = (t, w2)" by fastforce
  obtain rs w3 where k: "sweep_kinds E [KindTCP, KindAny] w2 = (rs, w3)" by fastforce
  have later: "clock w \<le> t1" "t1 \<le> t" "t \<le> clock w3" "clock w \<le> clock w1"
    using now [OF n] now [OF t] sweep_kinds_clock [OF k] by linarith+
  show ?thesis
  proof (cases "case lastRun r of None \<Rightarrow> False | Some t \<Rightarrow> t1 - t < debounceWindow")
    case True
    have "spaced clock (r, w1)" using assms later(4) unfolding s spaced_def by (auto intro: order_trans)
    then show ?thesis using True by (simp add: s sweepAll_def n)
  next
    case False
    have new: "sweepAll E s = (r\<lparr>lastRun := Some t, logged := (t, rs) # logged r\<rparr>, w3)"
      using False by (simp add: s sweepAll_def n t k del: sweep_kinds.simps)
    have "fst b + debounceWindow \<le> t" if "b \<in> set (logged r)" for b
      by (rule spaced_before [OF assms [unfolded s] False later(2) that])
    moreover have "t' \<le> clock w3" if "t' \<in> fst ` set (logged r)" for t'
      using assms later that by (fastforce simp: s spaced_def)
    ultimately show ?thesis using assms later(3) sweep_kinds_clock [OF k] unfolding new by (simp add: s spaced_def)
  qed
qed

lemma gc_loop_spaced: "spaced clock s \<Longrightarrow> spaced clock (gc_loop E period evs s)"
proof (induction evs arbitrary: s)
  case (Cons ev evs)
  obtain r w where s: "s = (r, w)" by (cases s)
  have "spaced clock (r, gc_Select E period ev w)"
    using Cons.prems calls(4) [of w period ev] unfolding s spaced_def by (auto intro: order_trans)
  with Cons.IH sweepAll_spaced show ?case by (cases ev) (simp_all add: s Let_def)
qed simp

text \<open>The log only grows, and a call a window after the last run adds to it.\<close>

lemma sweepAll_grows: "\<exists>ss. logged (fst (sweepAll E (r, w))) = ss @ logged r"
  by (auto simp: sweepAll_def split: prod.splits)

lemma gc_loop_grows: "\<exists>ss. logged (fst (gc_loop E period evs s)) = ss @ logged (fst s)"
proof (induction evs arbitrary: s)
  case (Cons ev evs)
  obtain r w where s: "s = (r, w)" by (cases s)
  let ?v = "sweepAll E (r, gc_Select E period ev w)"
  obtain ss where "logged (fst ?v) = ss @ logged r" using sweepAll_grows by blast
  moreover obtain ss' where "logged (fst (gc_loop E period evs ?v)) = ss' @ logged (fst ?v)" using Cons.IH by blast
  ultimately have "\<exists>ss. logged (fst (gc_loop E period evs ?v)) = ss @ logged r" by simp
  then show ?case by (cases ev) (simp_all add: s Let_def)
qed simp

lemma sweepAll_due:
  assumes "case lastRun r of None \<Rightarrow> True | Some t \<Rightarrow> t + debounceWindow \<le> clock w"
  shows "\<exists>t rs. logged (fst (sweepAll E (r, w))) = (t, rs) # logged r \<and> map fst rs = [KindTCP, KindAny] \<and> clock w \<le> t"
proof -
  obtain t1 w1 where n: "gc_Now E w = (t1, w1)" by fastforce
  obtain t w2 where t: "gc_Now E w1 = (t, w2)" by fastforce
  obtain rs w3 where k: "sweep_kinds E [KindTCP, KindAny] w2 = (rs, w3)" by fastforce
  have "clock w \<le> t1" "clock w \<le> t" using now [OF n] now [OF t] by linarith+
  then have "\<not> (case lastRun r of None \<Rightarrow> False | Some t \<Rightarrow> t1 - t < debounceWindow)" using assms by (auto split: option.splits)
  then show ?thesis using sweep_kinds_clock [OF k] \<open>clock w \<le> t\<close> by (simp add: sweepAll_def n t k del: sweep_kinds.simps)
qed

end

text \<open>The clock of the probe may advance too; it comes before the first sweep.\<close>

lemma startGC_cases:
  assumes "startGC E Period evs (r, w) = (res, s)"
  obtains e where "res = Some e" "fst s = r"
    | w1 where "res = None" "s = gc_loop E (if Period \<le> 0 then DefaultPeriod else Period) evs (sweepAll E (r, w1))"
  using assms by (auto simp: startGC_def Let_def split: prod.splits option.splits)

section \<open>The watcher\<close>

text \<open>
  A broken signal path is degraded and not fatal: whatever fails while it opens or reads the ring buffer, the watcher
  ends only with the context.
\<close>

lemma watchSignal_ends_cancelled:
  assumes "watchSignal E sent w = Some r" and "\<forall>d v v'. gc_After E d v = (False, v') \<longrightarrow> gc_Cancelled E v'"
  shows "gc_Cancelled E (snd r)"
proof -
  let ?P = "\<lambda>E r. (\<forall>d v v'. gc_After E d v = (False, v') \<longrightarrow> gc_Cancelled E v') \<longrightarrow> gc_Cancelled E (snd r)"
  have "?P E r"
  proof (rule watchSignal.raw_induct [where P = "\<lambda>E sent w r. ?P E r", OF _ assms(1)])
    fix watch :: "'a gcEnv \<Rightarrow> nat \<Rightarrow> 'a \<Rightarrow> (nat \<times> 'a) option" and E :: "'a gcEnv" and sent :: nat and w :: 'a and r
    assume IH: "\<And>E sent w r. watch E sent w = Some r \<Longrightarrow> ?P E r"
      and run: "(if gc_Cancelled E w then Some (sent, w)
        else (case pumpSignal E w of
            None \<Rightarrow> None
          | Some (None, k, w1) \<Rightarrow> watch E (sent + k) w1
          | Some (Some e, k, w1) \<Rightarrow>
              (case gc_After E signalRetryDelay w1 of (passed, w2) \<Rightarrow>
                 if passed then watch E (sent + k) w2 else Some (sent + k, w2)))) = Some r"
    show "?P E r"
    proof
      assume "\<forall>d v v'. gc_After E d v = (False, v') \<longrightarrow> gc_Cancelled E v'"
      with run IH show "gc_Cancelled E (snd r)"
        by (auto split: if_splits option.splits prod.splits)
    qed
  qed
  with assms(2) show ?thesis by blast
qed

section \<open>A clock in memory\<close>

text \<open>The world is the time; each call takes one nanosecond, each wait half a second.\<close>

definition tickE :: "int gcEnv" where
  "tickE = \<lparr>gc_LoadPinnedProgram = (\<lambda>p w. (Inr 0, w + 1)), gc_Run = (\<lambda>h c w. (Inr c, w + 1)), gc_CloseProg = (\<lambda>h w. w),
     gc_Now = (\<lambda>w. (w, w)), gc_OpenSignalMap = (\<lambda>n w. (Inr 1, w)), gc_NewReader = (\<lambda>m w. (Inr 2, w)),
     gc_CloseMap = (\<lambda>m w. w), gc_CloseReader = (\<lambda>m w. w), gc_Select = (\<lambda>p ev w. w + 5 * 10 ^ 8),
     gc_Cancelled = (\<lambda>w. w \<ge> 10 ^ 12), gc_Read = (\<lambda>r w. (None, w + 1)), gc_Send = (\<lambda>w. (True, w)),
     gc_After = (\<lambda>d w. (True, w + d))\<rparr>"

interpretation tick: gc_clock tickE "\<lambda>w. w"
  by unfold_locales (simp_all add: tickE_def)

section \<open>Properties\<close>



end
