(* ===== verification/Metrics.thy ===== *)
theory Metrics
  imports Ranges Configs
begin

text \<open>
  \<open>internal/metrics\<close>: the Prometheus collectors of the operator, and the calls its controllers make on them.

  \<open>metric_decl\<close> holds the declarations (namespace, subsystem, name, kind, label names). \<open>call_of\<close> says which method of
  which collector a \<open>metric_call\<close> of the controllers is, with the label values in the order of the source. The client
  library of Prometheus is not code of this repository: the locale \<open>prom_vectors\<close> states what it documents of
  \<open>WithLabelValues\<close>, \<open>Set\<close>, \<open>Inc\<close>, \<open>DeleteLabelValues\<close> and \<open>DeletePartialMatch\<close>, for a parameter \<open>series\<close> that gives the value of
  every series. Values are integers: those the code sets are below \<open>2^53\<close>, where \<open>float64\<close> is exact.
\<close>

section \<open>The declarations\<close>

datatype metric_vec =
    NATConfigPortsFree
  | NATConfigPortsTotal
  | NATConfigPortAllocationFailuresTotal
  | NATPortRangePortsAllocated
  | NATConfigInfo
  | NATPortRangeInfo
  | NATPortRangeRequestInfo
  | OperatorLeader

datatype collector = GaugeKind | CounterKind

record metric_opts =
  mo_Namespace :: string
  mo_Subsystem :: string
  mo_Name :: string
  mo_Kind :: collector
  mo_Labels :: "string list"

definition metrics_namespace :: string where
  "metrics_namespace = ''mooring''"

fun metric_decl :: "metric_vec \<Rightarrow> metric_opts" where
  "metric_decl NATConfigPortsFree =
     \<lparr>mo_Namespace = metrics_namespace, mo_Subsystem = ''natconfig'', mo_Name = ''ports_free'', mo_Kind = GaugeKind,
      mo_Labels = [''natconfig'', ''external_ip'']\<rparr>"
| "metric_decl NATConfigPortsTotal =
     \<lparr>mo_Namespace = metrics_namespace, mo_Subsystem = ''natconfig'', mo_Name = ''ports_total'', mo_Kind = GaugeKind,
      mo_Labels = [''natconfig'', ''external_ip'']\<rparr>"
| "metric_decl NATConfigPortAllocationFailuresTotal =
     \<lparr>mo_Namespace = metrics_namespace, mo_Subsystem = ''natconfig'', mo_Name = ''port_allocation_failures_total'',
      mo_Kind = CounterKind, mo_Labels = [''natconfig'']\<rparr>"
| "metric_decl NATPortRangePortsAllocated =
     \<lparr>mo_Namespace = metrics_namespace, mo_Subsystem = ''natportrange'', mo_Name = ''ports_allocated'', mo_Kind = GaugeKind,
      mo_Labels = [''pod'', ''namespace'', ''node'', ''natconfig'']\<rparr>"
| "metric_decl NATConfigInfo =
     \<lparr>mo_Namespace = metrics_namespace, mo_Subsystem = ''natconfig'', mo_Name = ''info'', mo_Kind = GaugeKind,
      mo_Labels = [''natconfig'', ''port_range_size'']\<rparr>"
| "metric_decl NATPortRangeInfo =
     \<lparr>mo_Namespace = metrics_namespace, mo_Subsystem = ''natportrange'', mo_Name = ''info'', mo_Kind = GaugeKind,
      mo_Labels = [''pod'', ''namespace'', ''node'', ''natconfig'', ''state'']\<rparr>"
| "metric_decl NATPortRangeRequestInfo =
     \<lparr>mo_Namespace = metrics_namespace, mo_Subsystem = ''natportrangerequest'', mo_Name = ''info'', mo_Kind = GaugeKind,
      mo_Labels = [''name'', ''pod'', ''namespace'', ''node'', ''natconfig'']\<rparr>"
| "metric_decl OperatorLeader =
     \<lparr>mo_Namespace = metrics_namespace, mo_Subsystem = ''operator'', mo_Name = ''leader'', mo_Kind = GaugeKind, mo_Labels = []\<rparr>"

abbreviation vec_labels :: "metric_vec \<Rightarrow> string list" where
  "vec_labels v \<equiv> mo_Labels (metric_decl v)"

text \<open>The name a collector is registered and served under: namespace, subsystem and name, joined by underscores.\<close>

definition fq_name :: "metric_vec \<Rightarrow> string" where
  "fq_name v = mo_Namespace (metric_decl v) @ ''_'' @ mo_Subsystem (metric_decl v) @ ''_'' @ mo_Name (metric_decl v)"

section \<open>The calls\<close>

datatype vec_call =
    SetValue "string list" int
  | Increment "string list"
  | DeleteLabelValues "string list"
  | DeletePartialMatch "(string \<times> string) list"

fun call_of :: "metric_call \<Rightarrow> metric_vec \<times> vec_call" where
  "call_of (SetNATConfigPortsFree nc ip n) = (NATConfigPortsFree, SetValue [nc, ip] (int n))"
| "call_of (SetNATConfigPortsTotal nc ip n) = (NATConfigPortsTotal, SetValue [nc, ip] (int n))"
| "call_of (DelNATConfigPortsFree nc ip) = (NATConfigPortsFree, DeleteLabelValues [nc, ip])"
| "call_of (DelNATConfigPortsTotal nc ip) = (NATConfigPortsTotal, DeleteLabelValues [nc, ip])"
| "call_of (DelConfigPortsFree nc) = (NATConfigPortsFree, DeletePartialMatch [(''natconfig'', nc)])"
| "call_of (DelConfigPortsTotal nc) = (NATConfigPortsTotal, DeletePartialMatch [(''natconfig'', nc)])"
| "call_of (IncAllocationFailures nc) = (NATConfigPortAllocationFailuresTotal, Increment [nc])"
| "call_of (DelAllocationFailures nc) = (NATConfigPortAllocationFailuresTotal, DeleteLabelValues [nc])"
| "call_of (SetNATConfigInfo nc sz) = (NATConfigInfo, SetValue [nc, show_i32 sz] 1)"
| "call_of (DelNATConfigInfo nc) = (NATConfigInfo, DeletePartialMatch [(''natconfig'', nc)])"
| "call_of (SetPortsAllocated pod ns node nc n) = (NATPortRangePortsAllocated, SetValue [pod, ns, node, nc] (sint n))"
| "call_of (DelPortsAllocated pod ns node nc) = (NATPortRangePortsAllocated, DeleteLabelValues [pod, ns, node, nc])"
| "call_of (SetNATPortRangeInfo pod ns node nc state) = (NATPortRangeInfo, SetValue [pod, ns, node, nc, state] 1)"
| "call_of (DelNATPortRangeInfo pod ns node nc state) = (NATPortRangeInfo, DeleteLabelValues [pod, ns, node, nc, state])"
| "call_of (DelAnyNATPortRangeInfo pod ns node nc) = (NATPortRangeInfo,
     DeletePartialMatch [(''pod'', pod), (''namespace'', ns), (''node'', node), (''natconfig'', nc)])"
| "call_of (SetRequestInfo name pod ns node nc) = (NATPortRangeRequestInfo, SetValue [name, pod, ns, node, nc] 1)"
| "call_of (DelRequestInfo name) = (NATPortRangeRequestInfo, DeletePartialMatch [(''name'', name)])"
| "call_of SetOperatorLeader = (OperatorLeader, SetValue [] 1)"

text \<open>
  \<open>WithLabelValues\<close> panics unless there is one value per label name; only a counter has \<open>Inc\<close>; a partial match on an
  unknown label matches no series.
\<close>

fun fits :: "metric_opts \<Rightarrow> vec_call \<Rightarrow> bool" where
  "fits d (SetValue ls x) \<longleftrightarrow> mo_Kind d = GaugeKind \<and> length ls = length (mo_Labels d)"
| "fits d (Increment ls) \<longleftrightarrow> mo_Kind d = CounterKind \<and> length ls = length (mo_Labels d)"
| "fits d (DeleteLabelValues ls) \<longleftrightarrow> length ls = length (mo_Labels d)"
| "fits d (DeletePartialMatch kvs) \<longleftrightarrow> fst ` set kvs \<subseteq> set (mo_Labels d) \<and> distinct (map fst kvs)"

lemma call_fits: "fits (metric_decl (fst (call_of m))) (snd (call_of m))"
  by (cases m) simp_all

text \<open>The runnable of \<open>cmd/operator/main.go\<close> that sets the leader gauge: it waits for the election or the end of the process.\<close>

definition leaderGauge :: "'w opEnv \<Rightarrow> bool \<Rightarrow> 'w \<Rightarrow> 'w" where
  "leaderGauge E elected w = (if elected then Metric E SetOperatorLeader w else w)"

section \<open>The interface of the vectors\<close>

type_synonym all_series = "metric_vec \<Rightarrow> string list \<Rightarrow> int option"

definition matches :: "metric_vec \<Rightarrow> (string \<times> string) list \<Rightarrow> string list \<Rightarrow> bool" where
  "matches v kvs ls \<longleftrightarrow> set kvs \<subseteq> set (zip (vec_labels v) ls)"

locale prom_vectors =
  fixes E :: "'w opEnv" and series :: "'w \<Rightarrow> all_series"
  assumes set_value: "call_of m = (v, SetValue ls x) \<Longrightarrow> length ls = length (vec_labels v) \<Longrightarrow>
      series (Metric E m w) = (series w)(v := (series w v)(ls \<mapsto> x))"
    and increment: "call_of m = (v, Increment ls) \<Longrightarrow> length ls = length (vec_labels v) \<Longrightarrow>
      series (Metric E m w) = (series w)(v := (series w v)(ls \<mapsto> (case series w v ls of None \<Rightarrow> 1 | Some x \<Rightarrow> x + 1)))"
    and delete_values: "call_of m = (v, DeleteLabelValues ls) \<Longrightarrow>
      series (Metric E m w) = (series w)(v := (series w v)(ls := None))"
    and delete_match: "call_of m = (v, DeletePartialMatch kvs) \<Longrightarrow>
      series (Metric E m w) = (series w)(v := (\<lambda>ls. if matches v kvs ls then None else series w v ls))"
    and create_series: "series (snd (CreateNPR E npr w)) = series w"
    and update_series: "series (snd (UpdateNPR E npr w)) = series w"
    and delete_series: "series (snd (DeleteNPR E npr w)) = series w"
begin

lemma set_series:
  "series (Metric E (SetNATConfigPortsFree nc ip n) w) =
     (series w)(NATConfigPortsFree := (series w NATConfigPortsFree)([nc, ip] \<mapsto> int n))"
  "series (Metric E (SetNATConfigPortsTotal nc ip n) w) =
     (series w)(NATConfigPortsTotal := (series w NATConfigPortsTotal)([nc, ip] \<mapsto> int n))"
  "series (Metric E (SetNATConfigInfo nc sz) w) =
     (series w)(NATConfigInfo := (series w NATConfigInfo)([nc, show_i32 sz] \<mapsto> 1))"
  "series (Metric E (SetPortsAllocated pod ns node nc k) w) =
     (series w)(NATPortRangePortsAllocated := (series w NATPortRangePortsAllocated)([pod, ns, node, nc] \<mapsto> sint k))"
  "series (Metric E (SetNATPortRangeInfo pod ns node nc state) w) =
     (series w)(NATPortRangeInfo := (series w NATPortRangeInfo)([pod, ns, node, nc, state] \<mapsto> 1))"
  "series (Metric E (SetRequestInfo name pod ns node nc) w) =
     (series w)(NATPortRangeRequestInfo := (series w NATPortRangeRequestInfo)([name, pod, ns, node, nc] \<mapsto> 1))"
  "series (Metric E SetOperatorLeader w) = (series w)(OperatorLeader := (series w OperatorLeader)([] \<mapsto> 1))"
  by (rule set_value; simp)+

lemma del_series:
  "series (Metric E (DelNATConfigPortsFree nc ip) w) =
     (series w)(NATConfigPortsFree := (series w NATConfigPortsFree)([nc, ip] := None))"
  "series (Metric E (DelNATConfigPortsTotal nc ip) w) =
     (series w)(NATConfigPortsTotal := (series w NATConfigPortsTotal)([nc, ip] := None))"
  "series (Metric E (DelAllocationFailures nc) w) =
     (series w)(NATConfigPortAllocationFailuresTotal := (series w NATConfigPortAllocationFailuresTotal)([nc] := None))"
  "series (Metric E (DelPortsAllocated pod ns node nc) w) =
     (series w)(NATPortRangePortsAllocated := (series w NATPortRangePortsAllocated)([pod, ns, node, nc] := None))"
  "series (Metric E (DelNATPortRangeInfo pod ns node nc state) w) =
     (series w)(NATPortRangeInfo := (series w NATPortRangeInfo)([pod, ns, node, nc, state] := None))"
  by (rule delete_values; simp)+

lemma match_series:
  "series (Metric E (DelConfigPortsFree nc) w) = (series w)(NATConfigPortsFree :=
     (\<lambda>ls. if matches NATConfigPortsFree [(''natconfig'', nc)] ls then None else series w NATConfigPortsFree ls))"
  "series (Metric E (DelConfigPortsTotal nc) w) = (series w)(NATConfigPortsTotal :=
     (\<lambda>ls. if matches NATConfigPortsTotal [(''natconfig'', nc)] ls then None else series w NATConfigPortsTotal ls))"
  "series (Metric E (DelNATConfigInfo nc) w) = (series w)(NATConfigInfo :=
     (\<lambda>ls. if matches NATConfigInfo [(''natconfig'', nc)] ls then None else series w NATConfigInfo ls))"
  "series (Metric E (DelAnyNATPortRangeInfo pod ns node nc) w) = (series w)(NATPortRangeInfo :=
     (\<lambda>ls. if matches NATPortRangeInfo [(''pod'', pod), (''namespace'', ns), (''node'', node), (''natconfig'', nc)] ls
           then None else series w NATPortRangeInfo ls))"
  "series (Metric E (DelRequestInfo name) w) = (series w)(NATPortRangeRequestInfo :=
     (\<lambda>ls. if matches NATPortRangeRequestInfo [(''name'', name)] ls then None else series w NATPortRangeRequestInfo ls))"
  by (rule delete_match; simp)+

lemma api_series:
  "CreateNPR E npr w = (r, w') \<Longrightarrow> series w' = series w"
  "UpdateNPR E npr w = (r, w') \<Longrightarrow> series w' = series w"
  "DeleteNPR E npr w = (r, w') \<Longrightarrow> series w' = series w"
  using create_series [of npr w] update_series [of npr w] delete_series [of npr w] by simp_all

lemmas metric_series = set_series del_series match_series

end

lemma matches_simps [simp]:
  "matches NATConfigPortsFree [(''natconfig'', nc)] [c, ip] \<longleftrightarrow> c = nc"
  "matches NATConfigPortsTotal [(''natconfig'', nc)] [c, ip] \<longleftrightarrow> c = nc"
  "matches NATConfigInfo [(''natconfig'', nc)] [c, sz] \<longleftrightarrow> c = nc"
  "matches NATPortRangeInfo [(''pod'', pod), (''namespace'', ns), (''node'', node), (''natconfig'', nc)] [p, n, d, c, st] \<longleftrightarrow>
     p = pod \<and> n = ns \<and> d = node \<and> c = nc"
  by (auto simp: matches_def)

end
