(* ===== verification/MetricsInv.thy ===== *)
theory MetricsInv
  imports Metrics OpReach
begin

text \<open>
  The series of the operator follow its allocators: \<open>port_rows\<close> ties the gauges of free and total ports to the registry.
  Every handler keeps it, whatever the API server answers (\<open>prom_vectors\<close> is the only assumption); \<open>metric_reach\<close>
  are the runs of an operator process.
\<close>

section \<open>Allocators that keep their IPs\<close>

definition widens :: "BlockAllocator \<Rightarrow> BlockAllocator \<Rightarrow> bool" where
  "widens a b \<longleftrightarrow> dom (ips a) \<subseteq> dom (ips b) \<and> totalBlocks b = totalBlocks a \<and> blockSize b = blockSize a \<and>
     (alloc_inv a \<longrightarrow> alloc_inv b)"

definition keeps :: "BlockAllocator \<Rightarrow> BlockAllocator \<Rightarrow> bool" where
  "keeps a b \<longleftrightarrow> dom (ips b) = dom (ips a) \<and> totalBlocks b = totalBlocks a \<and> blockSize b = blockSize a \<and>
     (alloc_inv a \<longrightarrow> alloc_inv b)"

lemma keeps_widens: "keeps a b \<Longrightarrow> widens a b"
  by (simp add: keeps_def widens_def)

lemma keeps_refl [simp, intro]: "keeps a a"
  by (simp add: keeps_def)

lemma keeps_trans [trans]: "keeps a b \<Longrightarrow> keeps b c \<Longrightarrow> keeps a c"
  by (auto simp: keeps_def)

lemma widens_refl [simp, intro]: "widens a a"
  by (simp add: widens_def)

lemma widens_trans [trans]: "widens a b \<Longrightarrow> widens b c \<Longrightarrow> widens a c"
  by (auto simp: widens_def)

lemma widens_EnsureIP: "widens a (EnsureIP a ip)"
  using EnsureIP_inv [of a ip] by (auto simp: widens_def EnsureIP_def)

lemma widens_foldl_EnsureIP: "widens a (foldl EnsureIP a xs)"
proof (induction xs arbitrary: a)
  case (Cons ip xs)
  show ?case using widens_trans [OF widens_EnsureIP Cons.IH] by simp
qed simp

lemma keeps_SetReservedPorts: "keeps a (SetReservedPorts a ports)"
  using SetReservedPorts_inv [of a ports] by (simp add: keeps_def SetReservedPorts_def)

lemma alloc_pod_loop_fields:
  "alloc_pod_loop ord cnt xs a used res rb = (r, b) \<Longrightarrow>
     dom (ips b) = dom (ips a) \<and> totalBlocks b = totalBlocks a \<and> blockSize b = blockSize a"
proof (induction ord cnt xs a used res rb rule: alloc_pod_loop.induct)
  case (2 ord cnt ip rest a used res rb)
  show ?case
  proof (cases "ips a ip")
    case None
    with 2(2) show ?thesis by (auto simp: rollback_def split: option.splits)
  next
    case (Some free)
    show ?thesis
    proof (cases "pickFromSet (ord ip) free cnt used")
      case (Inl e)
      with 2(2) Some show ?thesis
        by (auto simp: rollback_def notify_exhausted_def split: option.splits if_splits)
    next
      case (Inr chosen)
      from 2(2) Some Inr have "alloc_pod_loop ord cnt rest (a\<lparr>ips := (ips a)(ip \<mapsto> free - set chosen)\<rparr>)
          (used \<union> set chosen) (res(ip \<mapsto> map (block_alloc a) chosen)) (rb(ip \<mapsto> chosen)) = (r, b)" by simp
      from 2(1) [OF Some Inr this] Some show ?thesis by (simp add: insert_absorb domI del: fun_upd_apply)
    qed
  qed
qed simp

lemma keeps_AllocateForPod: "AllocateForPod ord a xs cnt ex = (r, b) \<Longrightarrow> keeps a b"
  using AllocateForPod_inv [of a ord xs cnt ex r b]
  by (simp add: keeps_def AllocateForPod_def alloc_pod_loop_fields split: if_splits option.splits)

lemma keeps_AllocateForIP: "AllocateForIP ord a ip cnt starts ex = (r, b) \<Longrightarrow> keeps a b"
  using AllocateForIP_inv [of a ord ip cnt starts ex r b]
  by (auto simp: keeps_def AllocateForIP_def notify_exhausted_def split: option.splits sum.splits if_splits)

lemma keeps_Free: "finite (dom m) \<Longrightarrow> keeps a (snd (Free kord a m))"
  using Free_inv [of a m kord "fst (Free kord a m)" "snd (Free kord a m)"]
  by (auto simp: keeps_def Free_def return_blocks_eq split: sum.splits)

lemma keeps_MarkUsed: "keeps a (snd (MarkUsed a ip ps))"
  using MarkUsed_inv [of a ip ps "fst (MarkUsed a ip ps)" "snd (MarkUsed a ip ps)"]
  by (auto simp: keeps_def MarkUsed_def split: sum.splits option.splits)

lemma keeps_mark_allocs: "keeps a (mark_allocs pas a)"
  unfolding mark_allocs_def
proof (induction pas arbitrary: a)
  case (Cons pa pas)
  show ?case using keeps_trans [OF keeps_MarkUsed Cons.IH] by simp
qed simp

lemma keeps_add_blocks:
  "add_blocks ord cnt ex xs a new old rb = (r, b, new', rb') \<Longrightarrow> finite (dom rb) \<Longrightarrow> keeps a b \<and> finite (dom rb')"
proof (induction ord cnt ex xs a new old rb rule: add_blocks.induct)
  case (2 ord cnt ex ip rest a new old rb)
  obtain q c where q: "AllocateForIP (ord ip) a ip cnt old ex = (q, c)" by fastforce
  show ?case
  proof (cases q)
    case (Inl e)
    with 2(2,3) q keeps_AllocateForIP [OF q] show ?thesis by auto
  next
    case (Inr als)
    with 2(1) [OF q [symmetric] Inr] 2(2,3) q keeps_trans [OF keeps_AllocateForIP [OF q]] show ?thesis
      by (simp add: finite_dom_push_fold)
  qed
qed simp

lemma alloc_pod_loop_finite:
  "alloc_pod_loop ord cnt xs a used res rb = (Inr m, b) \<Longrightarrow> finite (dom res) \<Longrightarrow> finite (dom m)"
  by (induction ord cnt xs a used res rb rule: alloc_pod_loop.induct) (auto split: option.splits sum.splits)

lemma AllocateForPod_finite: "AllocateForPod ord a xs cnt ex = (Inr m, b) \<Longrightarrow> finite (dom m)"
  by (auto simp: AllocateForPod_def dest: alloc_pod_loop_finite split: if_splits option.splits)

lemma trim_blocks_finite:
  "trim_blocks byIP d xs m new = (m', new') \<Longrightarrow> finite (dom m) \<Longrightarrow> finite (dom m')"
  by (induction byIP d xs m new rule: trim_blocks.induct)
    (auto simp: Let_def finite_dom_to_alloc_fold split: if_splits)

section \<open>The rows of the gauges\<close>

definition total_ports :: "BlockAllocator \<Rightarrow> int" where
  "total_ports a = int (unat (TotalBlocks a) * unat (BlockSize a))"

definition free_ports :: "BlockAllocator \<Rightarrow> string \<Rightarrow> int option" where
  "free_ports a ip = map_option (\<lambda>n. int (unat n * unat (BlockSize a))) (FreeCount a ip)"

definition port_rows :: "AllocatorRegistry \<Rightarrow> all_series \<Rightarrow> bool" where
  "port_rows reg S \<longleftrightarrow>
     (\<forall>cfg a. allocators reg cfg = Some a \<longrightarrow> alloc_inv a) \<and>
     (\<forall>cfg ip n. S NATConfigPortsFree [cfg, ip] = Some n \<longrightarrow>
        (\<exists>a. allocators reg cfg = Some a \<and> ips a ip \<noteq> None \<and> 0 \<le> n \<and> n \<le> total_ports a)) \<and>
     (\<forall>cfg ip. S NATConfigPortsTotal [cfg, ip] =
        (if S NATConfigPortsFree [cfg, ip] = None then None else map_option total_ports (allocators reg cfg)))"

lemma port_rowsD:
  assumes "port_rows reg S"
  shows "allocators reg cfg = Some a \<Longrightarrow> alloc_inv a"
    "S NATConfigPortsFree [cfg, ip] = Some n \<Longrightarrow>
       \<exists>a. allocators reg cfg = Some a \<and> ips a ip \<noteq> None \<and> 0 \<le> n \<and> n \<le> total_ports a"
    "S NATConfigPortsTotal [cfg, ip] =
       (if S NATConfigPortsFree [cfg, ip] = None then None else map_option total_ports (allocators reg cfg))"
  using assms unfolding port_rows_def by blast+

lemma port_rows_cong:
  "S' NATConfigPortsFree = S NATConfigPortsFree \<Longrightarrow> S' NATConfigPortsTotal = S NATConfigPortsTotal \<Longrightarrow>
     port_rows reg S' = port_rows reg S"
  unfolding port_rows_def by simp

lemma widens_total: "widens a b \<Longrightarrow> total_ports b = total_ports a"
  by (simp add: widens_def total_ports_def TotalBlocks_def BlockSize_def)

lemma port_rows_set_alloc:
  assumes "port_rows reg S" "alloc_inv a" "\<And>b. allocators reg cfg = Some b \<Longrightarrow> widens b a"
  shows "port_rows (set_alloc reg cfg a) S"
proof -
  have free: "\<exists>b. ((allocators reg)(cfg \<mapsto> a)) c = Some b \<and> ips b ip \<noteq> None \<and> 0 \<le> n \<and> n \<le> total_ports b"
    if n: "S NATConfigPortsFree [c, ip] = Some n" for c ip n
  proof (cases "c = cfg")
    case True
    with port_rowsD(2) [OF assms(1) n] obtain b where
      b: "allocators reg cfg = Some b" "ips b ip \<noteq> None" "0 \<le> n" "n \<le> total_ports b" by blast
    have "widens b a" by (rule assms(3) [OF b(1)])
    with b True show ?thesis using widens_total [of b a] by (auto simp: widens_def)
  qed (use port_rowsD(2) [OF assms(1) n] in simp)
  have total: "map_option total_ports (((allocators reg)(cfg \<mapsto> a)) c) = map_option total_ports (allocators reg c)"
    if "S NATConfigPortsFree [c, ip] \<noteq> None" for c ip
  proof -
    from that obtain n where "S NATConfigPortsFree [c, ip] = Some n" by blast
    from port_rowsD(2) [OF assms(1) this] show ?thesis using assms(3) by (cases "c = cfg") (auto dest: widens_total)
  qed
  have inv: "alloc_inv b" if "((allocators reg)(cfg \<mapsto> a)) c = Some b" for c b
    using that assms(2) port_rowsD(1) [OF assms(1)] by (auto split: if_splits)
  show ?thesis
    unfolding port_rows_def set_alloc_def using free total inv port_rowsD(3) [OF assms(1)] by simp
qed

lemma port_rows_widen:
  "port_rows reg S \<Longrightarrow> allocators reg cfg = Some a \<Longrightarrow> widens a b \<Longrightarrow> port_rows (set_alloc reg cfg b) S"
  by (rule port_rows_set_alloc) (auto simp: widens_def dest: port_rowsD(1))

lemma port_rows_keep:
  "port_rows reg S \<Longrightarrow> allocators reg cfg = Some a \<Longrightarrow> keeps a b \<Longrightarrow> port_rows (set_alloc reg cfg b) S"
  by (rule port_rows_widen) (auto intro: keeps_widens)

lemma allocators_set_alloc [simp]: "allocators (set_alloc reg cfg a) = (allocators reg)(cfg \<mapsto> a)"
  by (simp add: set_alloc_def)

lemma EnsureAllocator_rows:
  assumes "EnsureAllocator reg cfg bs arp rp = (r, reg')" "port_rows reg S"
  shows "port_rows reg' S" "r = Inr a \<Longrightarrow> allocators reg' cfg = Some a"
proof -
  have "port_rows reg' S \<and> (\<forall>a. r = Inr a \<longrightarrow> allocators reg' cfg = Some a)"
  proof (cases "allocators reg cfg")
    case (Some a)
    with assms show ?thesis
      by (auto simp: EnsureAllocator_def Let_def intro: port_rows_keep keeps_SetReservedPorts)
  next
    case None
    with assms show ?thesis
      by (auto simp: EnsureAllocator_def Let_def split: sum.splits
          intro!: port_rows_set_alloc SetReservedPorts_inv dest: New_alloc_inv(1))
  qed
  then show "port_rows reg' S" "r = Inr a \<Longrightarrow> allocators reg' cfg = Some a" by blast+
qed

lemma free_ports_bounds:
  assumes "alloc_inv a" "free_ports a ip = Some n"
  shows "0 \<le> n \<and> n \<le> total_ports a"
proof -
  from assms(2) obtain fs where fs: "ips a ip = Some fs"
    and n: "n = int (unat (word_of_nat (card {i \<in> fs. i \<notin> reserved a}) :: u16) * unat (BlockSize a))"
    by (auto simp: free_ports_def FreeCount_def)
  have fin: "finite {i. i < totalBlocks a}" by simp
  have "{i \<in> fs. i \<notin> reserved a} \<subseteq> {i. i < totalBlocks a}" using alloc_invD(4) [OF assms(1) fs] by blast
  then have "card {i \<in> fs. i \<notin> reserved a} \<le> card {i. i < totalBlocks a}" using card_mono fin by blast
  also have "{i. i < totalBlocks a} = fullFreeSet a" by (simp add: fullFreeSet_eq)
  also have "card (fullFreeSet a) \<le> unat (totalBlocks a)" unfolding fullFreeSet_def
    by (metis card_length length_map length_upt minus_nat.diff_0)
  finally have le: "card {i \<in> fs. i \<notin> reserved a} \<le> unat (totalBlocks a)" .
  then have "unat (word_of_nat (card {i \<in> fs. i \<notin> reserved a}) :: u16) = card {i \<in> fs. i \<notin> reserved a}"
    using unat_u16_less [of "totalBlocks a"] by (intro unat_u16_of_nat) simp
  with n have "n = int (card {i \<in> fs. i \<notin> reserved a} * unat (BlockSize a))" by simp
  then show ?thesis using mult_le_mono1 [OF le, of "unat (BlockSize a)"] by (simp only: total_ports_def TotalBlocks_def of_nat_le_iff of_nat_0_le_iff simp_thms)
qed


section \<open>Recording\<close>

context prom_vectors
begin

text \<open>What \<open>record_ips\<close> writes, for a vector \<open>v\<close> of the two and its value \<open>f\<close>.\<close>

lemma record_ips_series:
  "series (record_ips E cfg a xs w) v [c, ip] =
     (if c = cfg \<and> ip \<in> set xs \<and> ips a ip \<noteq> None \<and> v = NATConfigPortsFree then free_ports a ip
      else if c = cfg \<and> ip \<in> set xs \<and> ips a ip \<noteq> None \<and> v = NATConfigPortsTotal then Some (total_ports a)
      else series w v [c, ip])"
proof (induction xs arbitrary: w)
  case (Cons x xs)
  show ?case
  proof (cases "ips a x")
    case None
    then have "FreeCount a x = None" by (simp add: FreeCount_def)
    with None show ?thesis by (auto simp: Cons.IH)
  next
    case (Some fs)
    then obtain n where n: "FreeCount a x = Some n" by (simp add: FreeCount_def)
    then have "free_ports a x = Some (int (unat n * unat (BlockSize a)))" by (simp add: free_ports_def)
    then show ?thesis unfolding record_ips.simps n option.case Cons.IH set_series
      using Some by (auto simp: total_ports_def)
  qed
qed simp

lemma record_ips_other:
  "v \<noteq> NATConfigPortsFree \<Longrightarrow> v \<noteq> NATConfigPortsTotal \<Longrightarrow> series (record_ips E cfg a xs w) v = series w v"
  by (induction xs arbitrary: w) (auto simp: set_series split: option.splits)

lemma RecordAvailability_other:
  "v \<noteq> NATConfigPortsFree \<Longrightarrow> v \<noteq> NATConfigPortsTotal \<Longrightarrow>
     series (RecordAvailability E k reg cfg w) v = series w v"
  by (simp add: RecordAvailability_def record_ips_other split: option.splits)

lemma RecordAvailability_series:
  assumes "port_rows reg S" "allocators reg cfg = Some a" "v = NATConfigPortsFree \<or> v = NATConfigPortsTotal"
  shows "series (RecordAvailability E k reg cfg w) v [c, ip] =
     (if c = cfg \<and> ips a ip \<noteq> None then (if v = NATConfigPortsFree then free_ports a ip else Some (total_ports a))
      else series w v [c, ip])"
proof -
  have "set (ListIPs k a) = dom (ips a)"
    unfolding ListIPs_def using alloc_invD(5) [OF port_rowsD(1) [OF assms(1,2)]] by simp
  with assms(2,3) show ?thesis
    by (auto simp: RecordAvailability_def Get_def record_ips_series)
qed

lemma RecordAvailability_rows:
  assumes "port_rows reg (series w)"
  shows "port_rows reg (series (RecordAvailability E k reg cfg w))"
proof (cases "allocators reg cfg")
  case None
  with assms show ?thesis by (simp add: RecordAvailability_def Get_def)
next
  case (Some a)
  note s = RecordAvailability_series [OF assms Some]
  note inv = port_rowsD(1) [OF assms Some]
  have some: "free_ports a ip \<noteq> None" if "ips a ip \<noteq> None" for ip using that by (auto simp: free_ports_def FreeCount_def)
  show ?thesis
    unfolding port_rows_def
  proof (intro conjI allI impI)
    show "alloc_inv b" if "allocators reg c = Some b" for c b using port_rowsD(1) [OF assms that] .
    show "\<exists>b. allocators reg c = Some b \<and> ips b ip \<noteq> None \<and> 0 \<le> n \<and> n \<le> total_ports b"
      if n: "series (RecordAvailability E k reg cfg w) NATConfigPortsFree [c, ip] = Some n" for c ip n
    proof (cases "c = cfg \<and> ips a ip \<noteq> None")
      case True
      with n s have "free_ports a ip = Some n" by simp
      with True Some free_ports_bounds [OF inv] show ?thesis by blast
    next
      case False
      with n s have "series w NATConfigPortsFree [c, ip] = Some n" by (simp add: if_not_P)
      then show ?thesis using port_rowsD(2) [OF assms] by blast
    qed
    show "series (RecordAvailability E k reg cfg w) NATConfigPortsTotal [c, ip] =
        (if series (RecordAvailability E k reg cfg w) NATConfigPortsFree [c, ip] = None then None
         else map_option total_ports (allocators reg c))" for c ip
      using Some some port_rowsD(3) [OF assms, of c ip] by (auto simp: s)
  qed
qed

end

section \<open>The handlers keep the rows\<close>

lemma port_rows_drop_ip:
  assumes "port_rows (set_alloc reg cfg a) S"
    and "S' NATConfigPortsFree = (S NATConfigPortsFree)([cfg, ip] := None)"
    and "S' NATConfigPortsTotal = (S NATConfigPortsTotal)([cfg, ip] := None)"
  shows "port_rows (set_alloc reg cfg (RemoveIP a ip)) S'"
proof -
  have inv: "alloc_inv (RemoveIP a ip)" using port_rowsD(1) [OF assms(1), of cfg a] by (simp add: RemoveIP_inv)
  have tot: "total_ports (RemoveIP a ip) = total_ports a"
    by (simp add: total_ports_def TotalBlocks_def BlockSize_def RemoveIP_def)
  show ?thesis
    unfolding port_rows_def
  proof (intro conjI allI impI)
    show "alloc_inv b" if "allocators (set_alloc reg cfg (RemoveIP a ip)) c = Some b" for c b
      using that inv port_rowsD(1) [OF assms(1), of c b] by (auto split: if_splits)
    show "\<exists>b. allocators (set_alloc reg cfg (RemoveIP a ip)) c = Some b \<and> ips b i \<noteq> None \<and> 0 \<le> n \<and> n \<le> total_ports b"
      if n: "S' NATConfigPortsFree [c, i] = Some n" for c i n
    proof -
      from n assms(2) have ne: "c \<noteq> cfg \<or> i \<noteq> ip" and S: "S NATConfigPortsFree [c, i] = Some n"
        by (auto split: if_splits)
      from port_rowsD(2) [OF assms(1) S] ne tot show ?thesis by (cases "c = cfg") (auto simp: RemoveIP_def)
    qed
    show "S' NATConfigPortsTotal [c, i] = (if S' NATConfigPortsFree [c, i] = None then None
        else map_option total_ports (allocators (set_alloc reg cfg (RemoveIP a ip)) c))" for c i
      using assms(2,3) port_rowsD(3) [OF assms(1), of c i] tot by auto
  qed
qed

lemma port_rows_Remove:
  assumes "port_rows reg S" "\<And>ip. S' NATConfigPortsFree [cfg, ip] = None" "\<And>ip. S' NATConfigPortsTotal [cfg, ip] = None"
    and "\<And>c ip. c \<noteq> cfg \<Longrightarrow> S' NATConfigPortsFree [c, ip] = S NATConfigPortsFree [c, ip]"
    and "\<And>c ip. c \<noteq> cfg \<Longrightarrow> S' NATConfigPortsTotal [c, ip] = S NATConfigPortsTotal [c, ip]"
  shows "port_rows (Remove reg cfg) S'"
  unfolding port_rows_def
proof (intro conjI allI impI)
  have al: "allocators (Remove reg cfg) c = (if c = cfg then None else allocators reg c)" for c by (simp add: Remove_def)
  show "alloc_inv b" if "allocators (Remove reg cfg) c = Some b" for c b
    using that port_rowsD(1) [OF assms(1), of c b] by (simp add: al split: if_splits)
  show "\<exists>b. allocators (Remove reg cfg) c = Some b \<and> ips b i \<noteq> None \<and> 0 \<le> n \<and> n \<le> total_ports b"
    if n: "S' NATConfigPortsFree [c, i] = Some n" for c i n
    using n assms(2,4) port_rowsD(2) [OF assms(1), of c i n] by (cases "c = cfg") (simp_all add: al)
  show "S' NATConfigPortsTotal [c, i] = (if S' NATConfigPortsFree [c, i] = None then None
      else map_option total_ports (allocators (Remove reg cfg) c))" for c i
    using assms(2-5) port_rowsD(3) [OF assms(1), of c i] by (cases "c = cfg") (simp_all add: al)
qed

context prom_vectors
begin

lemma createNPR_rows:
  assumes rows: "port_rows reg (series w)" and a: "allocators reg (nc_Name nc) = Some a"
    and run: "createNPR E Ord reg nprr nc a xs cnt w = (oc, reg', w')"
  shows "port_rows reg' (series w')"
proof -
  obtain r a1 where r: "AllocateForPod (pickOrder Ord (nprr_Name nprr)) a xs cnt
      (toUint16Ports (nprr_ExcludePorts (nprr_Spec nprr))) = (r, a1)" by fastforce
  note wid = keeps_AllocateForPod [OF r]
  show ?thesis
  proof (cases r)
    case (Inl e)
    with run r port_rows_keep [OF rows a wid] show ?thesis by (auto simp: createNPR_def)
  next
    case (Inr m)
    obtain e w1 where c: "CreateNPR E (new_npr Ord nprr nc cnt m) w = (e, w1)" by fastforce
    note free = keeps_trans [OF wid keeps_Free [OF AllocateForPod_finite [OF r [unfolded Inr]]]]
    have rows1: "port_rows reg (series w1)" using rows api_series(1) [OF c] by simp
    from run r Inr c port_rows_keep [OF rows1 a wid] port_rows_keep [OF rows1 a free] show ?thesis
      by (cases e) (auto simp: createNPR_def Let_def case_prod_beta split: if_splits intro!: RecordAvailability_rows)
  qed
qed

lemma increaseCount_rows:
  assumes rows: "port_rows reg (series w)" and a: "allocators reg cfg = Some a"
    and run: "increaseCount E Ord reg npr cfg a xs d ex w = (oc, reg', w')"
  shows "port_rows reg' (series w')"
proof -
  obtain r a1 new rb where r: "add_blocks (pickOrder Ord (npr_Name npr)) d ex xs a []
      (collectPortStarts (npr_Allocations (npr_Spec npr))) Map.empty = (r, a1, new, rb)" by (metis prod_cases4)
  have "keeps a a1 \<and> finite (dom rb)" using keeps_add_blocks [OF r] by simp
  then have wid: "keeps a a1" and free: "keeps a (snd (Free (freeOrder Ord) a1 rb))"
    using keeps_trans keeps_Free by blast+
  show ?thesis
  proof (cases r)
    case None
    let ?npr = "npr\<lparr>npr_Spec := (npr_Spec npr)\<lparr>npr_Allocations := npr_Allocations (npr_Spec npr) @ new,
        npr_PortRangeCount := npr_PortRangeCount (npr_Spec npr) + ucast d\<rparr>\<rparr>"
    obtain e w1 where u: "UpdateNPR E ?npr w = (e, w1)" by fastforce
    have rows1: "port_rows reg (series w1)" using rows api_series(2) [OF u] by simp
    note keep = port_rows_keep [OF rows1 a wid] port_rows_keep [OF rows1 a free]
    from run have "(case e of Some err \<Rightarrow> (Fail (ErrAPI err), set_alloc reg cfg (snd (Free (freeOrder Ord) a1 rb)), w1)
        | None \<Rightarrow> (Return 0, set_alloc reg cfg a1,
            RecordAvailability E (listOrder Ord) (set_alloc reg cfg a1) (npr_NATConfig (npr_Spec npr)) w1)) = (oc, reg', w')"
      unfolding increaseCount_def Let_def r None by (simp add: u split: option.splits)
    with keep RecordAvailability_rows show ?thesis by (cases e) auto
  next
    case (Some x)
    with run r port_rows_keep [OF rows a free] show ?thesis by (cases x) (simp add: increaseCount_def)
  qed
qed

lemma decreaseCount_rows:
  assumes rows: "port_rows reg (series w)" and a: "allocators reg cfg = Some a"
    and run: "decreaseCount E Ord reg npr cfg a xs d w = (oc, reg', w')"
  shows "port_rows reg' (series w')"
proof -
  obtain m new where m: "trim_blocks (groupAllocsByIP (npr_Allocations (npr_Spec npr)) Map.empty) d xs Map.empty [] = (m, new)"
    by fastforce
  obtain e w1 where u: "UpdateNPR E (npr\<lparr>npr_Spec := (npr_Spec npr)\<lparr>npr_Allocations := new, npr_PortRangeCount := ucast d\<rparr>\<rparr>) w =
      (e, w1)" by fastforce
  have "keeps a (snd (Free (freeOrder Ord) a m))" using trim_blocks_finite [OF m] by (simp add: keeps_Free)
  moreover have rows1: "port_rows reg (series w1)" using rows api_series(2) [OF u] by simp
  ultimately have keep: "port_rows (set_alloc reg cfg (snd (Free (freeOrder Ord) a m))) (series w1)"
      "port_rows (set_alloc reg cfg a) (series w1)"
    using port_rows_keep [OF rows1 a] by blast+
  from run m u keep show ?thesis
    by (cases e) (auto simp: decreaseCount_def Let_def intro!: RecordAvailability_rows)
qed

lemma markNPRStale_rows:
  "markNPRStale E reg name w = (oc, reg', w') \<Longrightarrow> reg' = reg \<and> series w' = series w"
  by (auto simp: markNPRStale_def split: sum.splits if_splits prod.splits option.splits dest: api_series(2))

lemma driveNPR_rows:
  assumes rows: "port_rows reg (series w)" and a: "allocators reg (nc_Name nc) = Some a"
    and run: "driveNPR E Ord reg nprr nc a xs name w = (oc, reg', w')"
  shows "port_rows reg' (series w')"
  using run rows unfolding driveNPR_def Let_def
  by (auto split: sum.splits api_error.splits if_splits
      dest: createNPR_rows [OF rows a] increaseCount_rows [OF rows a] decreaseCount_rows [OF rows a])

lemma reconcileNPRR_rows:
  assumes rows: "port_rows reg (series w)" and run: "reconcileNPRR E Ord reg name w = (oc, reg', w')"
  shows "port_rows reg' (series w')"
proof (cases "Reconstructed reg")
  case rec: True
  show ?thesis
  proof (cases "GetNPRR E w name")
    case (Inl e)
    have "port_rows reg (series (Metric E (DelRequestInfo name) w))"
      using rows by (simp add: metric_series cong: port_rows_cong)
    with Inl rec run rows show ?thesis by (cases e) (auto simp: reconcileNPRR_def dest!: markNPRStale_rows)
  next
    case (Inr nprr)
    let ?sp = "nprr_Spec nprr"
    define w0 where "w0 = Metric E (SetRequestInfo (nprr_Name nprr) (nprr_PodName ?sp)
      (nprr_PodNamespace ?sp) (nprr_NodeName ?sp) (nprr_NATConfig ?sp)) w"
    have rows0: "port_rows reg (series w0)" using rows by (simp add: w0_def metric_series cong: port_rows_cong)
    show ?thesis
    proof (cases "GetNATConfig E w0 (nprr_NATConfig ?sp)")
      case e: (Inl e)
      with Inr rec run rows0 show ?thesis by (cases e) (auto simp: reconcileNPRR_def Let_def w0_def [symmetric])
    next
      case nc: (Inr nc)
      obtain r reg1 where r: "EnsureAllocator reg (nc_Name nc) (ucast (PortRangeSize (nc_Spec nc)))
          (AllowRegisteredPorts (nc_Spec nc)) (toUint16Ports (ReservedPorts (nc_Spec nc))) = (r, reg1)" by fastforce
      note rows1 = EnsureAllocator_rows [OF r rows0]
      have drive: "port_rows reg2 (series w2)" if "r = Inr a0"
        and "driveNPR E Ord (set_alloc reg1 (nc_Name nc) (foldl EnsureIP a0 xs)) nprr nc (foldl EnsureIP a0 xs) xs name w0 = (oc2, reg2, w2)"
        for a0 xs oc2 reg2 w2
        by (rule driveNPR_rows [OF port_rows_widen [OF rows1(1) rows1(2) [OF that(1)] widens_foldl_EnsureIP] _ that(2)]) simp
      from Inr rec run nc r rows1(1) drive show ?thesis
        by (auto simp: reconcileNPRR_def Let_def w0_def [symmetric] split: sum.splits option.splits)
    qed
  qed
qed (use assms in \<open>simp add: reconcileNPRR_def\<close>)

lemma range_metrics_series:
  "series (range_metrics E npr w) v = series w v" if "v \<noteq> NATPortRangePortsAllocated" "v \<noteq> NATPortRangeInfo"
  using that by (simp add: range_metrics_def Let_def metric_series)

lemma finish_release_rows:
  assumes rows: "port_rows reg (series w)" and run: "finish_release E Ord reg npr w = (oc, reg', w')"
  shows "port_rows reg' (series w')"
proof -
  obtain e w1 where u: "UpdateNPR E (RemoveFinalizer npr finalizerName) w = (e, w1)" by fastforce
  have "series w1 = series w" using api_series(2) [OF u] .
  with run u rows show ?thesis
    by (cases e) (auto simp: finish_release_def Let_def metric_series cong: port_rows_cong intro!: RecordAvailability_rows)
qed

lemma releaseAndFinalize_rows:
  assumes rows: "port_rows reg (series w)" and run: "releaseAndFinalize E Ord reg npr w = (oc, reg', w')"
  shows "port_rows reg' (series w')"
proof -
  let ?cfg = "npr_NATConfig (npr_Spec npr)"
  show ?thesis
  proof (cases "allocators reg ?cfg")
    case None
    with run rows finish_release_rows [OF rows] show ?thesis
      by (auto simp: releaseAndFinalize_def Get_def split: if_splits)
  next
    case (Some a)
    obtain e a1 where f: "Free (freeOrder Ord) a (allocs_to_free (npr_Allocations (npr_Spec npr))) = (e, a1)" by fastforce
    have "keeps a a1"
      using keeps_Free [OF finite_dom_allocs_to_free, of a "freeOrder Ord" "npr_Allocations (npr_Spec npr)"] by (simp add: f)
    note keep = port_rows_keep [OF rows Some this]
    from run rows Some f keep finish_release_rows [OF keep] show ?thesis
      by (cases e) (auto simp: releaseAndFinalize_def Get_def split: if_splits)
  qed
qed

lemma reconcileNPR_rows:
  assumes rows: "port_rows reg (series w)" and run: "reconcileNPR E Ord win reg name w = (oc, reg', w')"
  shows "port_rows reg' (series w')"
proof (cases "Reconstructed reg")
  case rec: True
  show ?thesis
  proof (cases "GetNPR E w name")
    case (Inr npr)
    define w0 where "w0 = range_metrics E npr w"
    have rows0: "port_rows reg (series w0)"
      using rows by (simp add: w0_def range_metrics_series cong: port_rows_cong)
    from run rec Inr rows0 show ?thesis
      unfolding reconcileNPR_def Let_def
      by (auto simp: w0_def [symmetric] split: if_splits option.splits prod.splits
          dest: releaseAndFinalize_rows [OF rows0] api_series(2,3))
  qed (use run rec rows in \<open>auto simp: reconcileNPR_def\<close>)
qed (use assms in \<open>simp add: reconcileNPR_def\<close>)

lemma reconcileNPRAllocations_rows:
  assumes "reconcileNPRAllocations E Ord npr ds D (a, w) = (r, b, w')"
  shows "keeps a b \<and> series w' = series w"
proof -
  let ?kept = "filter (\<lambda>pa. ExternalIP pa \<in> D) (npr_Allocations (npr_Spec npr))"
  let ?c0 = "(ucast (npr_PortRangeCount (npr_Spec npr)) :: u16)"
  let ?toAdd = "filter (\<lambda>ip. groupAllocsByIP (npr_Allocations (npr_Spec npr)) Map.empty ip = None) ds"
  obtain q a1 new rb where q: "add_blocks (pickOrder Ord (npr_Name npr)) (if ?c0 = 0 then defaultPortRangeCount else ?c0)
      (toUint16Ports (npr_ExcludePorts (npr_Spec npr))) ?toAdd a ?kept (collectPortStarts ?kept) Map.empty = (q, a1, new, rb)"
    by (metis prod_cases4)
  have "keeps a a1 \<and> finite (dom rb)" using keeps_add_blocks [OF q] by simp
  then have w: "keeps a a1" "keeps a (snd (Free (freeOrder Ord) a1 rb))" using keeps_trans keeps_Free by blast+
  obtain e w1 where u: "UpdateNPR E (npr\<lparr>npr_Spec := (npr_Spec npr)\<lparr>npr_Allocations := new\<rparr>\<rparr>) w = (e, w1)" by fastforce
  from assms u w api_series(2) [OF u] show ?thesis
    unfolding reconcileNPRAllocations_def Let_def prod.case q
    by (auto split: if_splits option.splits)
qed

lemma reconcile_ranges_rows:
  assumes "reconcile_ranges E Ord ds D nprs (a, w) = (r, b, w')"
  shows "keeps a b \<and> series w' = series w"
  using for_ret_invariant [OF assms [unfolded reconcile_ranges_def], of "\<lambda>(b, w'). keeps a b \<and> series w' = series w"]
    reconcileNPRAllocations_rows keeps_trans
  by (fastforce split: if_splits)

lemma drop_ips_rows:
  assumes "port_rows (set_alloc reg cfg a) (series w)" "drop_ips E cfg xs (a, w) = (b, w')"
  shows "port_rows (set_alloc reg cfg b) (series w')"
  using assms unfolding drop_ips_def
proof (induction xs arbitrary: a w)
  case (Cons ip xs)
  have "port_rows (set_alloc reg cfg (RemoveIP a ip))
      (series (Metric E (DelNATConfigPortsTotal cfg ip) (Metric E (DelNATConfigPortsFree cfg ip) w)))"
    by (rule port_rows_drop_ip [OF Cons.prems(1)]) (simp_all add: metric_series)
  from Cons.IH [OF this] Cons.prems(2) show ?case by simp
qed simp

lemma reconcile_pool_rows:
  assumes rows: "port_rows reg (series w)" and a: "allocators reg cfg = Some a0"
    and run: "reconcile_pool E Ord reg cfg a0 ds w = (oc, reg', w')"
  shows "port_rows reg' (series w')"
proof -
  let ?a = "foldl EnsureIP a0 ds"
  note rowsA = port_rows_widen [OF rows a widens_foldl_EnsureIP [of a0 ds]]
  show ?thesis
  proof (cases "ListNPRsOfConfig E w cfg")
    case (Inr nprs)
    obtain r a1 w1 where r: "reconcile_ranges E Ord ds (stringSet ds) nprs (?a, w) = (r, a1, w1)" by (metis prod_cases3)
    from reconcile_ranges_rows [OF r] have wid: "keeps ?a a1" and same: "series w1 = series w" by blast+
    have rows1: "port_rows (set_alloc reg cfg a1) (series w1)"
      using port_rows_widen [OF rows a widens_trans [OF widens_foldl_EnsureIP keeps_widens [OF wid]]] same by simp
    from run Inr r rows1 show ?thesis
      unfolding reconcile_pool_def Let_def
      by (auto split: option.splits prod.splits intro!: RecordAvailability_rows dest: drop_ips_rows [OF rows1])
  qed (use run rowsA in \<open>auto simp: reconcile_pool_def Let_def\<close>)
qed

lemma forget_series:
  "series (forget_config_metrics E name w) NATConfigPortsFree [c, ip] = (if c = name then None else series w NATConfigPortsFree [c, ip])"
  "series (forget_config_metrics E name w) NATConfigPortsTotal [c, ip] = (if c = name then None else series w NATConfigPortsTotal [c, ip])"
  by (simp_all add: forget_config_metrics_def metric_series)

lemma reconcileNATConfig_rows:
  assumes rows: "port_rows reg (series w)" and run: "reconcileNATConfig E Ord reg name w = (oc, reg', w')"
  shows "port_rows reg' (series w')"
proof (cases "Reconstructed reg")
  case rec: True
  show ?thesis
  proof (cases "GetNATConfig E w name")
    case (Inl e)
    have "port_rows (Remove reg name) (series (forget_config_metrics E name w))"
      by (rule port_rows_Remove [OF rows]) (simp_all add: forget_series)
    with Inl rec run rows show ?thesis by (cases e) (auto simp: reconcileNATConfig_def)
  next
    case (Inr nc)
    define w0 where "w0 = Metric E (SetNATConfigInfo (nc_Name nc) (PortRangeSize (nc_Spec nc))) w"
    have rows0: "port_rows reg (series w0)" using rows by (simp add: w0_def metric_series cong: port_rows_cong)
    obtain r reg1 where r: "EnsureAllocator reg (nc_Name nc) (ucast (PortRangeSize (nc_Spec nc)))
        (AllowRegisteredPorts (nc_Spec nc)) (toUint16Ports (ReservedPorts (nc_Spec nc))) = (r, reg1)" by fastforce
    note rows1 = EnsureAllocator_rows [OF r rows0]
    from Inr rec run r rows1(1) show ?thesis
      unfolding reconcileNATConfig_def Let_def w0_def [symmetric]
      by (auto simp: w0_def [symmetric] split: sum.splits option.splits dest: reconcile_pool_rows [OF rows1(1) rows1(2)])
  qed
qed (use assms in \<open>simp add: reconcileNATConfig_def\<close>)

lemma register_config_rows:
  assumes "register_config nc reg = (r, reg')" "port_rows reg S"
  shows "port_rows reg' S"
proof -
  obtain q reg1 where q: "EnsureAllocator reg (nc_Name nc) (ucast (PortRangeSize (nc_Spec nc)))
      (AllowRegisteredPorts (nc_Spec nc)) (toUint16Ports (ReservedPorts (nc_Spec nc))) = (q, reg1)" by fastforce
  note rows1 = EnsureAllocator_rows [OF q assms(2)]
  from assms(1) q rows1(1) show ?thesis
    by (auto simp: register_config_def split: sum.splits option.splits
        intro!: port_rows_widen [OF rows1(1) rows1(2)] widens_foldl_EnsureIP)
qed

lemma replay_range_rows: "port_rows reg S \<Longrightarrow> port_rows (replay_range reg npr) S"
  by (auto simp: replay_range_def Get_def split: option.splits intro: port_rows_keep keeps_mark_allocs)

lemma Start_rows:
  assumes rows: "port_rows reg (series w)" and run: "Start E Ord reg w = (oc, reg', w')"
  shows "port_rows reg' (series w')"
proof -
  have replay: "port_rows (foldl replay_range g nprs) S" if "port_rows g S" for g nprs S
    using that by (induction nprs arbitrary: g) (simp_all add: replay_range_rows)
  have recd: "port_rows g (series (foldl (\<lambda>v nc. RecordAvailability E k g (nc_Name nc) v) u ncs))"
    if "port_rows g (series u)" for g k u and ncs :: "NATConfig list"
    using that by (induction ncs arbitrary: u) (simp_all add: RecordAvailability_rows)
  have mark: "port_rows (g\<lparr>reconstructed := True\<rparr>) S" if "port_rows g S" for g S
    using that by (simp add: port_rows_def)
  show ?thesis
  proof (cases "ListNATConfigs E w")
    case (Inr configs)
    obtain r reg1 where r: "for_ret register_config configs reg = (r, reg1)" by fastforce
    have rows1: "port_rows reg1 (series w)"
      using for_ret_invariant [OF r, of "\<lambda>g. port_rows g (series w)"] rows register_config_rows by blast
    from run Inr r rows1 show ?thesis
      unfolding Start_def Let_def
      by (auto simp: MarkReconstructed_def split: option.splits sum.splits if_splits intro!: replay recd mark)
  qed (use run rows in \<open>auto simp: Start_def\<close>)
qed

end

section \<open>Runs of an operator process\<close>

text \<open>
  A process starts with no series and an empty registry. Then, in any order: the replay of \<open>Start\<close>, reconciles with any outcome,
  the gauge of the leader, and changes of the world by others, who cannot touch the memory of this process.
\<close>

inductive metric_reach :: "'w opEnv \<Rightarrow> ('w \<Rightarrow> all_series) \<Rightarrow> AllocatorRegistry \<times> 'w \<Rightarrow> bool"
  for E series where
  boot: "series w = (\<lambda>v ls. None) \<Longrightarrow> metric_reach E series (NewAllocatorRegistry, w)"
| replay: "metric_reach E series (reg, w) \<Longrightarrow> Start E Ord reg w = (oc, reg', w') \<Longrightarrow> metric_reach E series (reg', w')"
| request: "metric_reach E series (reg, w) \<Longrightarrow> reconcileNPRR E Ord reg name w = (oc, reg', w') \<Longrightarrow>
    metric_reach E series (reg', w')"
| range: "metric_reach E series (reg, w) \<Longrightarrow> reconcileNPR E Ord win reg name w = (oc, reg', w') \<Longrightarrow>
    metric_reach E series (reg', w')"
| config: "metric_reach E series (reg, w) \<Longrightarrow> reconcileNATConfig E Ord reg name w = (oc, reg', w') \<Longrightarrow>
    metric_reach E series (reg', w')"
| leader: "metric_reach E series (reg, w) \<Longrightarrow> metric_reach E series (reg, leaderGauge E elected w)"
| outside: "metric_reach E series (reg, w) \<Longrightarrow> series w' = series w \<Longrightarrow> metric_reach E series (reg, w')"

lemma metric_reach_rows:
  assumes "prom_vectors E series" "metric_reach E series s"
  shows "port_rows (fst s) (series (snd s))"
  using assms(2)
proof (induction rule: metric_reach.induct)
  case (boot w)
  then show ?case by (simp add: port_rows_def NewAllocatorRegistry_def)
next
  case (replay reg w Ord oc reg' w')
  then show ?case using prom_vectors.Start_rows [OF assms(1)] by simp
next
  case (request reg w Ord name oc reg' w')
  then show ?case using prom_vectors.reconcileNPRR_rows [OF assms(1)] by simp
next
  case (range reg w Ord win name oc reg' w')
  then show ?case using prom_vectors.reconcileNPR_rows [OF assms(1)] by simp
next
  case (config reg w Ord name oc reg' w')
  then show ?case using prom_vectors.reconcileNATConfig_rows [OF assms(1)] by simp
next
  case (leader reg w elected)
  then show ?case unfolding fst_conv snd_conv leaderGauge_def
    by (simp add: prom_vectors.metric_series [OF assms(1)] cong: port_rows_cong)
qed simp

section \<open>Vectors in memory\<close>

fun vec_exec :: "metric_vec \<Rightarrow> vec_call \<Rightarrow> (string list \<Rightarrow> int option) \<Rightarrow> string list \<Rightarrow> int option" where
  "vec_exec v (SetValue ls x) rows = rows(ls \<mapsto> x)"
| "vec_exec v (Increment ls) rows = rows(ls \<mapsto> (case rows ls of None \<Rightarrow> 1 | Some x \<Rightarrow> x + 1))"
| "vec_exec v (DeleteLabelValues ls) rows = rows(ls := None)"
| "vec_exec v (DeletePartialMatch kvs) rows = (\<lambda>ls. if matches v kvs ls then None else rows ls)"

type_synonym mem_metrics = "mem \<times> all_series"

definition lift_mem :: "('a \<Rightarrow> mem \<Rightarrow> 'b \<times> mem) \<Rightarrow> 'a \<Rightarrow> mem_metrics \<Rightarrow> 'b \<times> mem_metrics" where
  "lift_mem f x w = (case f x (fst w) of (r, m) \<Rightarrow> (r, m, snd w))"

definition metEnv :: "mem_metrics opEnv" where
  "metEnv =
     \<lparr>GetNATConfig = (\<lambda>w. GetNATConfig memEnv (fst w)), GetNPRR = (\<lambda>w. GetNPRR memEnv (fst w)),
      GetNPR = (\<lambda>w. GetNPR memEnv (fst w)), ListNATConfigs = (\<lambda>w. ListNATConfigs memEnv (fst w)),
      ListNPRs = (\<lambda>w. ListNPRs memEnv (fst w)), ListNPRsOfConfig = (\<lambda>w. ListNPRsOfConfig memEnv (fst w)),
      CreateNPR = lift_mem (CreateNPR memEnv), UpdateNPR = lift_mem (UpdateNPR memEnv),
      DeleteNPR = lift_mem (DeleteNPR memEnv), Now = (\<lambda>w. Now memEnv (fst w)),
      Metric = (\<lambda>m w. (fst w, (snd w)(fst (call_of m) := vec_exec (fst (call_of m)) (snd (call_of m)) (snd w (fst (call_of m))))))\<rparr>"

interpretation memvec: prom_vectors metEnv snd
  by unfold_locales (simp_all add: metEnv_def lift_mem_def split: prod.splits)

end
