(* ===== verification/Metrics_Props.thy ===== *)
theory Metrics_Props
  imports MetricsInv Operator_Props
begin

text \<open>The properties of the operator's metrics: the series follow the allocators and the objects.\<close>

section \<open>Lemmas\<close>

lemma fq_names_differ: "inj fq_name"
proof
  fix v v' :: metric_vec
  assume "fq_name v = fq_name v'"
  then show "v = v'" by (cases v; cases v') (simp_all add: fq_name_def metrics_namespace_def)
qed

text \<open>A range whose release is due: the guard of \<open>releaseAndFinalize\<close> in \<open>Reconcile\<close> and its own.\<close>

definition release_due :: "gotime \<Rightarrow> gotime \<Rightarrow> NATPortRange \<Rightarrow> bool" where
  "release_due win now npr \<longleftrightarrow> npr_DeletionTimestamp npr \<noteq> None \<and>
     (case npr_StaleSince (npr_Spec npr) of None \<Rightarrow> False | Some t \<Rightarrow> t + cleanupWindow win \<le> now) \<and>
     ContainsFinalizer npr finalizerName"

definition range_ids :: "NATPortRange \<Rightarrow> string list" where
  "range_ids npr = [npr_PodName (npr_Spec npr), npr_PodNamespace (npr_Spec npr), npr_NodeName (npr_Spec npr), npr_NATConfig (npr_Spec npr)]"

definition range_state :: "NATPortRange \<Rightarrow> string" where
  "range_state npr = (if npr_StaleSince (npr_Spec npr) \<noteq> None then ''stale_pending_cleanup'' else ''active'')"

definition other_state :: "NATPortRange \<Rightarrow> string" where
  "other_state npr = (if npr_StaleSince (npr_Spec npr) \<noteq> None then ''active'' else ''stale_pending_cleanup'')"

text \<open>The rows of a range: present, with its number of ports and its state; or gone.\<close>

definition rows_shown :: "all_series \<Rightarrow> NATPortRange \<Rightarrow> bool" where
  "rows_shown S npr \<longleftrightarrow>
     S NATPortRangePortsAllocated (range_ids npr) = Some (sint (sumAllocatedPorts (npr_Allocations (npr_Spec npr)))) \<and>
     S NATPortRangeInfo (range_ids npr @ [range_state npr]) = Some 1 \<and>
     S NATPortRangeInfo (range_ids npr @ [other_state npr]) = None"

definition rows_gone :: "all_series \<Rightarrow> NATPortRange \<Rightarrow> bool" where
  "rows_gone S npr \<longleftrightarrow> S NATPortRangePortsAllocated (range_ids npr) = None \<and>
     (\<forall>state. S NATPortRangeInfo (range_ids npr @ [state]) = None)"

context prom_vectors
begin

lemma range_metrics_shown: "rows_shown (series (range_metrics E npr w)) npr"
  by (simp add: rows_shown_def range_metrics_def Let_def metric_series range_ids_def range_state_def other_state_def)

lemma finish_release_series:
  assumes "finish_release E Ord reg npr w = (oc, reg', w')"
  shows "if oc = Return 0 then rows_gone (series w') npr else series w' = series w"
proof -
  obtain e w1 where u: "UpdateNPR E (RemoveFinalizer npr finalizerName) w = (e, w1)" by fastforce
  have "series w1 = series w" using api_series(2) [OF u] .
  with assms u show ?thesis
    by (cases e) (auto simp: finish_release_def Let_def metric_series RecordAvailability_other rows_gone_def range_ids_def)
qed

lemma releaseAndFinalize_series:
  assumes run: "releaseAndFinalize E Ord reg npr w = (oc, reg', w')" and fin: "ContainsFinalizer npr finalizerName"
  shows "if oc = Return 0 then rows_gone (series w') npr else series w' = series w"
proof (cases "allocators reg (npr_NATConfig (npr_Spec npr))")
  case None
  with run fin have "finish_release E Ord reg npr w = (oc, reg', w')" by (simp add: releaseAndFinalize_def Get_def)
  then show ?thesis by (rule finish_release_series)
next
  case (Some a)
  obtain e a1 where f: "Free (freeOrder Ord) a (allocs_to_free (npr_Allocations (npr_Spec npr))) = (e, a1)" by fastforce
  show ?thesis
  proof (cases e)
    case None
    with run fin Some f have "finish_release E Ord (set_alloc reg (npr_NATConfig (npr_Spec npr)) a1) npr w = (oc, reg', w')"
      by (simp add: releaseAndFinalize_def Get_def)
    then show ?thesis by (rule finish_release_series)
  qed (use run fin Some f in \<open>auto simp: releaseAndFinalize_def Get_def\<close>)
qed

lemma reconcileNPR_series:
  assumes rec: "Reconstructed reg" and get: "GetNPR E w name = Inr npr"
    and run: "reconcileNPR E Ord win reg name w = (oc, reg', w')"
  shows "if release_due win (Now E (range_metrics E npr w)) npr \<and> oc = Return 0
         then rows_gone (series w') npr else series w' = series (range_metrics E npr w)"
proof -
  define w0 where "w0 = range_metrics E npr w"
  show ?thesis
  proof (cases "release_due win (Now E w0) npr")
    case True
    then obtain t where t: "npr_StaleSince (npr_Spec npr) = Some t" "t + cleanupWindow win \<le> Now E w0"
      by (auto simp: release_due_def split: option.splits)
    with True run rec get have "releaseAndFinalize E Ord reg npr w0 = (oc, reg', w')"
      by (simp add: reconcileNPR_def Let_def release_due_def w0_def [symmetric])
    moreover have "ContainsFinalizer npr finalizerName" using True by (simp add: release_due_def)
    ultimately show ?thesis using releaseAndFinalize_series True by (simp add: w0_def)
  next
    case False
    with run rec get have "series w' = series w0"
      unfolding reconcileNPR_def Let_def
      by (auto simp: w0_def [symmetric] release_due_def releaseAndFinalize_def split: if_splits option.splits prod.splits
          dest: api_series(2,3))
    with False show ?thesis by (simp add: w0_def)
  qed
qed

text \<open>Recording is exact for the NATConfig it is called for.\<close>

lemma RecordAvailability_exact:
  assumes "port_rows reg (series w)" "allocators reg cfg = Some a"
  shows "series (RecordAvailability E k reg cfg w) NATConfigPortsFree [cfg, ip] = free_ports a ip \<and>
     series (RecordAvailability E k reg cfg w) NATConfigPortsTotal [cfg, ip] = map_option (\<lambda>_. total_ports a) (ips a ip)"
proof (cases "ips a ip")
  case None
  then have "free_ports a ip = None" by (simp add: free_ports_def FreeCount_def)
  moreover have "series w NATConfigPortsFree [cfg, ip] = None"
    using port_rowsD(2) [OF assms(1), of cfg ip] assms(2) None by (cases "series w NATConfigPortsFree [cfg, ip]") auto
  ultimately show ?thesis
    using None port_rowsD(3) [OF assms(1), of cfg ip] by (simp add: RecordAvailability_series [OF assms])
qed (simp add: RecordAvailability_series [OF assms])

lemma drop_ips_ips:
  "drop_ips E cfg xs (a, w) = (b, w') \<Longrightarrow> dom (ips b) = dom (ips a) - set xs"
  unfolding drop_ips_def
proof (induction xs arbitrary: a w)
  case (Cons ip xs)
  from Cons.prems have "dom (ips b) = dom (ips (RemoveIP a ip)) - set xs" by (intro Cons.IH) simp
  then show ?case by (auto simp: RemoveIP_def split: if_splits)
qed simp

lemma drop_ips_other:
  "drop_ips E cfg xs (a, w) = (b, w') \<Longrightarrow> series w' NATConfigInfo = series w NATConfigInfo"
  unfolding drop_ips_def
proof (induction xs arbitrary: a w)
  case (Cons ip xs)
  from Cons.prems have "series w' NATConfigInfo =
      series (Metric E (DelNATConfigPortsTotal cfg ip) (Metric E (DelNATConfigPortsFree cfg ip) w)) NATConfigInfo"
    by (intro Cons.IH) simp
  then show ?case by (simp add: metric_series)
qed simp

lemma reconcile_pool_exact:
  assumes rows: "port_rows reg (series w)" and a: "allocators reg cfg = Some a0"
    and run: "reconcile_pool E Ord reg cfg a0 ds w = (Return 0, reg', w')"
  obtains b where "allocators reg' cfg = Some b" "dom (ips b) = set ds"
    "\<And>ip. series w' NATConfigPortsFree [cfg, ip] = free_ports b ip \<and>
       series w' NATConfigPortsTotal [cfg, ip] = map_option (\<lambda>_. total_ports b) (ips b ip)"
    "series w' NATConfigInfo = series w NATConfigInfo"
proof -
  let ?a = "foldl EnsureIP a0 ds"
  let ?gone = "filter (\<lambda>ip. ip \<notin> stringSet ds) (visit (listOrder Ord) (stringSet (ListIPs (listOrder Ord) ?a)))"
  from run obtain nprs where nprs: "ListNPRsOfConfig E w cfg = Inr nprs"
    by (auto simp: reconcile_pool_def Let_def split: sum.splits)
  obtain r a1 w1 where r: "reconcile_ranges E Ord ds (stringSet ds) nprs (?a, w) = (r, a1, w1)" by (metis prod_cases3)
  obtain b w2 where d: "drop_ips E cfg ?gone (a1, w1) = (b, w2)" by fastforce
  from run nprs r d have r0: "r = None" and reg': "reg' = set_alloc reg cfg b"
    and w': "w' = RecordAvailability E (listOrder Ord) reg' cfg w2"
    by (auto simp: reconcile_pool_def Let_def split: option.splits)
  from reconcile_ranges_rows [OF r] have k: "keeps ?a a1" and same: "series w1 = series w" by blast+
  have "port_rows (set_alloc reg cfg a1) (series w1)"
    using port_rows_widen [OF rows a widens_trans [OF widens_foldl_EnsureIP keeps_widens [OF k]]] same by simp
  from drop_ips_rows [OF this d] have rows2: "port_rows reg' (series w2)" by (simp add: reg')
  have b: "allocators reg' cfg = Some b" by (simp add: reg')
  have inv: "alloc_inv ?a"
    using widens_foldl_EnsureIP [of a0 ds] port_rowsD(1) [OF rows a] by (simp add: widens_def)
  have "set ds \<subseteq> dom (ips ?a)" by (simp add: dom_foldl_EnsureIP)
  moreover have "set ?gone = dom (ips ?a) - set ds"
    using alloc_invD(5) [OF inv] by (auto simp: ListIPs_def stringSet_def)
  ultimately have "dom (ips b) = set ds" using drop_ips_ips [OF d] k by (auto simp: keeps_def)
  moreover have "series w' NATConfigInfo = series w NATConfigInfo"
    using drop_ips_other [OF d] same by (simp add: w' RecordAvailability_other)
  ultimately show thesis using b RecordAvailability_exact [OF rows2 b] w' that by blast
qed

end

section \<open>Properties\<close>


definition no_series :: all_series where
  "no_series = (\<lambda>v ls. None)"

definition ex_rows :: "int \<Rightarrow> all_series" where
  "ex_rows n = no_series(NATConfigPortsFree := [[''c'', ''10.0.0.1''] \<mapsto> n], NATConfigPortsTotal := [[''c'', ''10.0.0.1''] \<mapsto> 16384])"

lemma ex_record:
  "RecordAvailability metEnv sorted_order (set_alloc NewAllocatorRegistry ''c'' (ex_a {2, 3})) ''c'' (m, no_series) = (m, ex_rows 8192)"
proof -
  have "ListIPs sorted_order (ex_a {2, 3}) = [''10.0.0.1'']" by (simp add: ListIPs_def ex_a_def sorted_order.rep_eq)
  moreover have "FreeCount (ex_a {2, 3}) ''10.0.0.1'' = Some 2"
  proof -
    have "{idx. idx = 2 \<or> idx = (3 :: u16)} = {2, 3}" by blast
    then show ?thesis by (simp add: FreeCount_def ex_a_def)
  qed
  ultimately show ?thesis
    by (simp add: RecordAvailability_def Get_def)
      (simp add: metEnv_def ex_rows_def no_series_def fun_eq_iff ex_a_def TotalBlocks_def BlockSize_def)
qed

lemma ex_metric_start:
  "Start metEnv ex_ord NewAllocatorRegistry (ex_two, no_series) = (Return 0, ex_reg {2, 3}, ex_two, ex_rows 8192)"
proof -
  have l: "ListNATConfigs metEnv (ex_two, no_series) = Inr [ex_nc]" "ListNPRs metEnv (ex_two, no_series) = Inr [ex_p1, ex_p2]"
    by (simp_all add: metEnv_def ex_lists)
  have n: "nc_Name ex_nc = ''c''" "listOrder ex_ord = sorted_order" by (simp_all add: ex_nc_def ex_ord_def)
  show ?thesis
    by (simp add: Start_def l ex_register ex_replay MarkReconstructed_def Let_def n ex_record)
      (simp add: set_alloc_def NewAllocatorRegistry_def ex_reg_def)
qed

lemma ex_metric_reach: "metric_reach metEnv snd (ex_reg {2, 3}, ex_two, ex_rows 8192)"
  by (rule metric_reach.replay [OF metric_reach.boot ex_metric_start]) (simp add: no_series_def)


text \<open>
  C8: a reconcile of a NATConfig that returns nil leaves exact gauges. In every state of an operator process, when
  \<open>Reconcile\<close> finds the NATConfig and returns nil, the allocator has exactly the IPs of the expanded pool, the row of
  free ports of each is the number of its free blocks that are not reserved times the block size, the row of total
  ports is the number of blocks times the block size, and no other IP has a row. Of the info rows it sets the one with
  the current \<open>portRangeSize\<close> and touches no other, so the row of an earlier size stays.
\<close>

theorem reconcile_records_pool:
  assumes "prom_vectors E series" "metric_reach E series (reg, w)" "GetNATConfig E w name = Inr nc"
    and "expandCIDRs (ExternalIPPool (nc_Spec nc)) = Some (Inr ds)"
    and "reconcileNATConfig E Ord reg name w = (Return 0, reg', w')"
  shows "\<exists>a. allocators reg' (nc_Name nc) = Some a \<and> dom (ips a) = set ds \<and>
     (\<forall>ip. series w' NATConfigPortsFree [nc_Name nc, ip] = free_ports a ip \<and>
       series w' NATConfigPortsTotal [nc_Name nc, ip] = (if ip \<in> set ds then Some (total_ports a) else None)) \<and>
     series w' NATConfigInfo = (series w NATConfigInfo)([nc_Name nc, show_i32 (PortRangeSize (nc_Spec nc))] \<mapsto> 1)"
proof -
  define w0 where "w0 = Metric E (SetNATConfigInfo (nc_Name nc) (PortRangeSize (nc_Spec nc))) w"
  have rows: "port_rows reg (series w)" using metric_reach_rows [OF assms(1,2)] by simp
  have rows0: "port_rows reg (series w0)"
    using rows by (simp add: w0_def prom_vectors.metric_series [OF assms(1)] cong: port_rows_cong)
  obtain r reg1 where r: "EnsureAllocator reg (nc_Name nc) (ucast (PortRangeSize (nc_Spec nc)))
      (AllowRegisteredPorts (nc_Spec nc)) (toUint16Ports (ReservedPorts (nc_Spec nc))) = (r, reg1)" by fastforce
  from assms(3-5) r obtain a0 where a0: "r = Inr a0"
    and run: "reconcile_pool E Ord reg1 (nc_Name nc) a0 ds w0 = (Return 0, reg', w')"
    by (auto simp: reconcileNATConfig_def Let_def w0_def split: if_splits sum.splits)
  show ?thesis
  proof (rule prom_vectors.reconcile_pool_exact [OF assms(1) EnsureAllocator_rows(1) [OF r rows0]
        EnsureAllocator_rows(2) [OF r rows0 a0] run])
    fix b assume b: "allocators reg' (nc_Name nc) = Some b" "dom (ips b) = set ds"
      "\<And>ip. series w' NATConfigPortsFree [nc_Name nc, ip] = free_ports b ip \<and>
         series w' NATConfigPortsTotal [nc_Name nc, ip] = map_option (\<lambda>_. total_ports b) (ips b ip)"
      "series w' NATConfigInfo = series w0 NATConfigInfo"
    have "map_option (\<lambda>_. total_ports b) (ips b ip) = (if ip \<in> set ds then Some (total_ports b) else None)" for ip
      using b(2) by (cases "ips b ip") auto
    moreover have "series w0 NATConfigInfo = (series w NATConfigInfo)([nc_Name nc, show_i32 (PortRangeSize (nc_Spec nc))] \<mapsto> 1)"
      by (simp add: w0_def prom_vectors.metric_series [OF assms(1)])
    ultimately show ?thesis using b by auto
  qed
qed

lemma ex_same_range:
  assumes "pas = [ex_pa s e]"
  shows "reconcileNPRAllocations metEnv ex_ord (ex_npr n pas) [''10.0.0.1''] {''10.0.0.1''} aw = (None, aw)"
  by (simp add: reconcileNPRAllocations_def assms Let_def split: prod.splits)

lemma ex_config_run:
  "\<exists>reg' w'. reconcileNATConfig metEnv ex_ord (ex_reg {2, 3}) ''c'' (ex_two, ex_rows 8192) = (Return 0, reg', w') \<and>
     allocators reg' ''c'' = Some (ex_a {2, 3})"
proof -
  have get: "GetNATConfig metEnv (ex_two, S) ''c'' = Inr ex_nc" for S
    by (simp add: metEnv_def memEnv_def found_def ex_mem_def) (simp add: ex_nc_def)
  have ls: "ListNPRsOfConfig metEnv (ex_two, S) ''c'' = Inr [ex_p1, ex_p2]" for S
    by (simp add: metEnv_def memEnv_def ex_mem_def)
  have set: "\<exists>S'. Metric metEnv m (ex_two, S) = (ex_two, S')" for m S by (simp add: metEnv_def)
  obtain S where S: "Metric metEnv (SetNATConfigInfo ''c'' 4096) (ex_two, ex_rows 8192) = (ex_two, S)" using set by blast
  have nc: "nc_Name ex_nc = ''c''" "PortRangeSize (nc_Spec ex_nc) = 4096" "AllowRegisteredPorts (nc_Spec ex_nc) = False"
    "ReservedPorts (nc_Spec ex_nc) = []" "ExternalIPPool (nc_Spec ex_nc) = [''10.0.0.1/32'']" by (simp_all add: ex_nc_def)
  have ea: "EnsureAllocator (ex_reg {2, 3}) ''c'' 4096 False [] = (Inr (ex_a {2, 3}), ex_reg {2, 3})"
    by (simp add: EnsureAllocator_def ex_reg_def SetReservedPorts_def set_alloc_def Let_def) (simp add: ex_a_def)
  have ip: "EnsureIP (ex_a {2, 3}) ''10.0.0.1'' = ex_a {2, 3}" by (simp add: EnsureIP_def ex_a_def)
  have li: "ListIPs sorted_order (ex_a {2, 3}) = [''10.0.0.1'']" by (simp add: ListIPs_def ex_a_def sorted_order.rep_eq)
  have rr: "reconcile_ranges metEnv ex_ord [''10.0.0.1''] {''10.0.0.1''} [ex_p1, ex_p2] aw = (None, aw)" for aw
    by (simp add: reconcile_ranges_def ex_same_range)
  have ord: "listOrder ex_ord = sorted_order" by (simp add: ex_ord_def)
  have "reconcile_pool metEnv ex_ord (ex_reg {2, 3}) ''c'' (ex_a {2, 3}) [''10.0.0.1''] (ex_two, S) =
      (Return 0, set_alloc (ex_reg {2, 3}) ''c'' (ex_a {2, 3}),
       RecordAvailability metEnv sorted_order (set_alloc (ex_reg {2, 3}) ''c'' (ex_a {2, 3})) ''c'' (ex_two, S))"
    by (simp add: reconcile_pool_def Let_def ip ls stringSet_def rr ord li sorted_order.rep_eq drop_ips_def)
  then show ?thesis
    by (simp add: reconcileNATConfig_def Reconstructed_def get nc S ea ex_pool toUint16Ports_def Let_def) (simp add: ex_reg_def)
qed

theorem reconcile_records_pool_witness:
  "\<exists>reg' w'. reconcileNATConfig metEnv ex_ord (ex_reg {2, 3}) ''c'' (ex_two, ex_rows 8192) = (Return 0, reg', w') \<and>
     snd w' NATConfigPortsFree [''c'', ''10.0.0.1''] = free_ports (ex_a {2, 3}) ''10.0.0.1''"
proof -
  obtain reg' w' where run: "reconcileNATConfig metEnv ex_ord (ex_reg {2, 3}) ''c'' (ex_two, ex_rows 8192) = (Return 0, reg', w')"
    and a: "allocators reg' ''c'' = Some (ex_a {2, 3})" using ex_config_run by blast
  have get: "GetNATConfig metEnv (ex_two, ex_rows 8192) ''c'' = Inr ex_nc"
    by (simp add: metEnv_def memEnv_def found_def ex_mem_def) (simp add: ex_nc_def)
  have pool: "expandCIDRs (ExternalIPPool (nc_Spec ex_nc)) = Some (Inr [''10.0.0.1''])" by (simp add: ex_nc_def ex_pool)
  have name: "nc_Name ex_nc = ''c''" by (simp add: ex_nc_def)
  from reconcile_records_pool [OF memvec.prom_vectors_axioms ex_metric_reach get pool run] a
  have "snd w' NATConfigPortsFree [''c'', ''10.0.0.1''] = free_ports (ex_a {2, 3}) ''10.0.0.1''" by (simp add: name)
  with run show ?thesis by blast
qed

text \<open>
  C9: the series of a NATPortRange follow the object. A reconcile that finds it shows its number of allocated ports and
  exactly one of the two states, \<open>stale_pending_cleanup\<close> when it is stale and \<open>active\<close> otherwise; but when its release is due
  (terminating, stale for the whole cleanup window, with the finalizer) and the reconcile returns nil, no series with its
  labels remains, in whichever state. A range that terminates without the operator's finalizer keeps its rows.
\<close>

theorem range_series_follow_object:
  assumes "prom_vectors E series" "Reconstructed reg" "GetNPR E w name = Inr npr"
    and "reconcileNPR E Ord win reg name w = (oc, reg', w')"
  shows "if release_due win (Now E (range_metrics E npr w)) npr \<and> oc = Return 0
         then rows_gone (series w') npr else rows_shown (series w') npr"
  using prom_vectors.reconcileNPR_series [OF assms] prom_vectors.range_metrics_shown [OF assms(1), of npr w]
  by (simp split: if_splits)

lemma met_fst: "fst (Metric metEnv m w) = fst w" "fst (range_metrics metEnv npr w) = fst w"
  by (simp_all add: metEnv_def range_metrics_def Let_def split: prod.splits)

lemma met_record: "fst (RecordAvailability metEnv k reg cfg w) = fst w"
proof -
  have "fst (record_ips metEnv cfg a xs w) = fst w" for a xs w
    by (induction xs arbitrary: w) (simp_all add: met_fst split: option.splits)
  then show ?thesis by (simp add: RecordAvailability_def split: option.splits)
qed

lemma ex_met_release:
  "\<exists>reg' w'. reconcileNPR metEnv ex_ord 0 (ex_reg {1, 2, 3}) ''p1'' (ex_mem [ex_dying] [], no_series) = (Return 0, reg', w') \<and>
     fst w' = ex_mem [] []"
proof -
  let ?m = "ex_mem [ex_dying] []"
  have get: "GetNPR metEnv (?m, S) ''p1'' = Inr ex_dying" "Now metEnv (?m, S) = 100000000000" for S
    by (simp add: metEnv_def memEnv_def found_def ex_dying_view, simp add: metEnv_def memEnv_def ex_mem_def)
  have upd: "UpdateNPR metEnv (RemoveFinalizer ex_dying finalizerName) (?m, S) = (None, ex_mem [] [], S)" for S
    by (simp add: metEnv_def lift_mem_def memEnv_def RemoveFinalizer_def mem_update_def ex_dying_view mem_drop_def without_def)
      (simp add: ex_mem_def)
  have fin: "\<exists>w'. finish_release metEnv ex_ord reg ex_dying (?m, S) = (Return 0, reg, w') \<and> fst w' = ex_mem [] []" for reg S
    by (simp add: finish_release_def Let_def upd met_record met_fst)
  obtain S where S: "range_metrics metEnv ex_dying (?m, no_series) = (?m, S)" using met_fst(2) by (metis fst_conv surj_pair)
  have al: "allocators (ex_reg {1, 2, 3}) ''c'' = Some (ex_a {1, 2, 3})" "Reconstructed (ex_reg {1, 2, 3})"
    by (simp_all add: ex_reg_def Reconstructed_def)
  have ord: "freeOrder ex_ord = sorted_order" by (simp add: ex_ord_def)
  have "releaseAndFinalize metEnv ex_ord (ex_reg {1, 2, 3}) ex_dying (?m, S) =
      finish_release metEnv ex_ord (set_alloc (ex_reg {1, 2, 3}) ''c'' (ex_a {0, 1, 2, 3})) ex_dying (?m, S)"
    by (simp add: releaseAndFinalize_def ContainsFinalizer_def Get_def al ord ex_dying_free)
  with fin [of "set_alloc (ex_reg {1, 2, 3}) ''c'' (ex_a {0, 1, 2, 3})" S] show ?thesis
    by (auto simp: reconcileNPR_def get al cleanupWindow_def DefaultBPFCleanupWindow_def Let_def S)
qed

theorem range_series_follow_object_witness:
  "\<exists>reg' w'. reconcileNPR metEnv ex_ord 0 (ex_reg {1, 2, 3}) ''p1'' (ex_mem [ex_dying] [], no_series) = (Return 0, reg', w') \<and>
     rows_gone (snd w') ex_dying"
proof -
  let ?w = "(ex_mem [ex_dying] [], no_series)"
  obtain reg' w' where run: "reconcileNPR metEnv ex_ord 0 (ex_reg {1, 2, 3}) ''p1'' ?w = (Return 0, reg', w')"
    using ex_met_release by blast
  have get: "GetNPR metEnv ?w ''p1'' = Inr ex_dying" "Reconstructed (ex_reg {1, 2, 3})"
    by (simp add: metEnv_def memEnv_def found_def ex_dying_view, simp add: ex_reg_def Reconstructed_def)
  have "Now metEnv (range_metrics metEnv ex_dying ?w) = 100000000000"
    using met_fst(2) [of ex_dying ?w] by (simp add: metEnv_def memEnv_def) (simp add: ex_mem_def)
  then have "release_due 0 (Now metEnv (range_metrics metEnv ex_dying ?w)) ex_dying"
    by (simp add: release_due_def ContainsFinalizer_def cleanupWindow_def DefaultBPFCleanupWindow_def)
  with range_series_follow_object [OF memvec.prom_vectors_axioms get(2,1) run] run show ?thesis by auto
qed

end
