(* ===== verification/EntryPoints.thy ===== *)
theory EntryPoints
  imports LoaderInv Speaker NatGC Metrics
begin

text \<open>
  The two binaries that run in the cluster, \<open>cmd/operator/main.go\<close> and \<open>cmd/daemon/main.go\<close>, and \<open>SetupWithManager\<close> of their controllers.

  The manager of controller-runtime is not code of this repository: it is a parameter, a \<open>mgrEnv\<close>, whose world \<open>'m\<close> is apart from the
  kernel's world \<open>'k\<close> of the loader. A \<open>registration\<close> is a call that hands something to the manager; each may be refused with an
  error. The locale \<open>cluster_manager\<close> states what is relied on: an accepted call is remembered, and only \<open>Start\<close> starts. What runs
  inside \<open>Start\<close> are the reconcilers and runnables of the other theories, so \<open>Start\<close> is one call here.

  \<open>os.Getenv\<close> is a function, empty for a variable that is not set. \<open>time.ParseDuration\<close> is a parameter, because its fractions
  are computed in \<open>float64\<close>. A result \<open>Some e\<close> is \<open>os.Exit(1)\<close> after \<open>e\<close> was logged, \<open>None\<close> a return of \<open>main\<close>.
\<close>

section \<open>What is handed to a manager\<close>

datatype api_kind = NodeKind | PodKind | NATConfigKind | NATPortRangeKind | NATPortRangeRequestKind

text \<open>The reconcilers and the functions that map a watched object to requests, by name; those of the daemon know their node.\<close>

datatype reconciler =
    OpNATPortRangeRequestReconciler
  | OpNATPortRangeReconciler
  | OpNATConfigReconciler
  | PodReconciler string
  | NPRRReconciler string
  | NATConfigReconciler string
  | NATPortRangeSyncReconciler string

datatype map_func = NatConfigToPods | NodeToNATConfigs

record controller =
  ct_For :: api_kind
  ct_Watches :: "(api_kind \<times> map_func) list"
  ct_Reconciler :: reconciler

datatype runnable =
    ReconstructionRunnable
  | LeaderGauge
  | BGPSpeaker BGPConfig
  | GCRunnable int
  | NPRRStartupSyncer string

datatype registration =
    IndexNATPortRange string "NATPortRange \<Rightarrow> string list"
  | IndexNATPortRangeRequest string "NATPortRangeRequest \<Rightarrow> string list"
  | Complete controller
  | AddRunnable runnable
  | AddHealthzCheck string
  | AddReadyzCheck string

record mgr_options =
  op_HealthProbeBindAddress :: string
  op_MetricsBindAddress :: string
  op_LeaderElection :: bool
  op_LeaderElectionID :: string
  op_CacheByObject :: "(api_kind \<times> string \<times> string) list"

record 'm mgrEnv =
  mg_GetConfig :: "'m \<Rightarrow> string option"
  mg_NewManager :: "mgr_options \<Rightarrow> 'm \<Rightarrow> string option \<times> 'm"
  mg_Register :: "registration \<Rightarrow> 'm \<Rightarrow> string option \<times> 'm"
  mg_Start :: "'m \<Rightarrow> string option \<times> 'm"

section \<open>Controllers\<close>

definition natConfigIndexField :: string where
  "natConfigIndexField = ''.spec.natConfig''"

definition podIdentityIndexField :: string where
  "podIdentityIndexField = ''.spec.podIdentity''"

definition natConfigIndex :: "NATPortRange \<Rightarrow> string list" where
  "natConfigIndex npr = [npr_NATConfig (npr_Spec npr)]"

text \<open>\<open>f\<close> wraps the error of a call; \<open>steps\<close> runs calls until one fails.\<close>

definition fail_as :: "('a \<Rightarrow> 'e) \<Rightarrow> 'a option \<times> 'm \<Rightarrow> 'e option \<times> 'm" where
  "fail_as f r = (map_option f (fst r), snd r)"

definition steps :: "('m \<Rightarrow> 'e option \<times> 'm) list \<Rightarrow> 'm \<Rightarrow> 'e option \<times> 'm" where
  "steps = for_ret (\<lambda>f m. f m)"

definition setupOpNATConfig :: "'m mgrEnv \<Rightarrow> 'm \<Rightarrow> string option \<times> 'm" where
  "setupOpNATConfig M = steps
     [\<lambda>m. fail_as (\<lambda>e. ''index NATPortRange .spec.natConfig: '' @ e)
        (mg_Register M (IndexNATPortRange natConfigIndexField natConfigIndex) m),
      mg_Register M (Complete \<lparr>ct_For = NATConfigKind, ct_Watches = [], ct_Reconciler = OpNATConfigReconciler\<rparr>)]"

definition setupOpNATPortRange :: "'m mgrEnv \<Rightarrow> 'm \<Rightarrow> string option \<times> 'm" where
  "setupOpNATPortRange M =
     mg_Register M (Complete \<lparr>ct_For = NATPortRangeKind, ct_Watches = [], ct_Reconciler = OpNATPortRangeReconciler\<rparr>)"

definition setupOpNATPortRangeRequest :: "'m mgrEnv \<Rightarrow> 'm \<Rightarrow> string option \<times> 'm" where
  "setupOpNATPortRangeRequest M =
     mg_Register M (Complete \<lparr>ct_For = NATPortRangeRequestKind, ct_Watches = [], ct_Reconciler = OpNATPortRangeRequestReconciler\<rparr>)"

definition setupPod :: "'m mgrEnv \<Rightarrow> string \<Rightarrow> 'm \<Rightarrow> string option \<times> 'm" where
  "setupPod M node = steps
     [\<lambda>m. fail_as (\<lambda>e. ''index NATPortRangeRequest '' @ podIdentityIndexField @ '': '' @ e)
        (mg_Register M (IndexNATPortRangeRequest podIdentityIndexField podIdentity) m),
      mg_Register M (Complete \<lparr>ct_For = PodKind, ct_Watches = [(NATConfigKind, NatConfigToPods)], ct_Reconciler = PodReconciler node\<rparr>)]"

definition setupNPRR :: "'m mgrEnv \<Rightarrow> string \<Rightarrow> 'm \<Rightarrow> string option \<times> 'm" where
  "setupNPRR M node =
     mg_Register M (Complete \<lparr>ct_For = NATPortRangeRequestKind, ct_Watches = [], ct_Reconciler = NPRRReconciler node\<rparr>)"

definition setupNATConfig :: "'m mgrEnv \<Rightarrow> string \<Rightarrow> 'm \<Rightarrow> string option \<times> 'm" where
  "setupNATConfig M node =
     mg_Register M (Complete \<lparr>ct_For = NATConfigKind, ct_Watches = [(NodeKind, NodeToNATConfigs)], ct_Reconciler = NATConfigReconciler node\<rparr>)"

definition setupSync :: "'m mgrEnv \<Rightarrow> string \<Rightarrow> 'm \<Rightarrow> string option \<times> 'm" where
  "setupSync M node =
     mg_Register M (Complete \<lparr>ct_For = NATPortRangeKind, ct_Watches = [], ct_Reconciler = NATPortRangeSyncReconciler node\<rparr>)"

section \<open>The binaries\<close>

datatype setup_error =
    NodeNameNotSet
  | InvalidGCInterval string
  | InvalidBGPConfiguration env_error
  | UnableToLoad load_error
  | NoKubeConfig string
  | SetupFailed string string

text \<open>\<open>ctrl.NewManager(ctrl.GetConfigOrDie(), options)\<close>, the calls on it, and \<open>mgr.Start\<close>.\<close>

definition run_manager ::
    "'m mgrEnv \<Rightarrow> mgr_options \<Rightarrow> ('m \<Rightarrow> setup_error option \<times> 'm) list \<Rightarrow> 'm \<Rightarrow> setup_error option \<times> 'm" where
  "run_manager M opts calls m =
     (case mg_GetConfig M m of
        Some e \<Rightarrow> (Some (NoKubeConfig e), m)
      | None \<Rightarrow>
          steps ((\<lambda>m. fail_as (SetupFailed ''unable to start manager'') (mg_NewManager M opts m)) # calls @
            [\<lambda>m. fail_as (SetupFailed ''problem running manager'') (mg_Start M m)]) m)"

definition operator_options :: mgr_options where
  "operator_options = \<lparr>op_HealthProbeBindAddress = '':8081'', op_MetricsBindAddress = '':8080'', op_LeaderElection = True,
     op_LeaderElectionID = ''mooring-operator-leader'', op_CacheByObject = []\<rparr>"

text \<open>The calls on the manager, in the order of \<open>main\<close>, each with the message of its failure.\<close>

definition operator_calls :: "'m mgrEnv \<Rightarrow> ('m \<Rightarrow> setup_error option \<times> 'm) list" where
  "operator_calls M =
     [\<lambda>m. fail_as (SetupFailed ''unable to add reconstruction runnable'') (mg_Register M (AddRunnable ReconstructionRunnable) m),
      \<lambda>m. fail_as (SetupFailed ''unable to add leader-election gauge runnable'') (mg_Register M (AddRunnable LeaderGauge) m),
      \<lambda>m. fail_as (SetupFailed ''unable to create NATPortRangeRequest controller'') (setupOpNATPortRangeRequest M m),
      \<lambda>m. fail_as (SetupFailed ''unable to create NATPortRange controller'') (setupOpNATPortRange M m),
      \<lambda>m. fail_as (SetupFailed ''unable to create NATConfig controller'') (setupOpNATConfig M m),
      \<lambda>m. fail_as (SetupFailed ''unable to set up health check'') (mg_Register M (AddHealthzCheck ''healthz'') m),
      \<lambda>m. fail_as (SetupFailed ''unable to set up ready check'') (mg_Register M (AddReadyzCheck ''readyz'') m)]"

definition operator_main :: "'m mgrEnv \<Rightarrow> 'm \<Rightarrow> setup_error option \<times> 'm" where
  "operator_main M = run_manager M operator_options (operator_calls M)"

definition daemon_options :: "string \<Rightarrow> mgr_options" where
  "daemon_options nodeName = \<lparr>op_HealthProbeBindAddress = '':8082'', op_MetricsBindAddress = ''0'', op_LeaderElection = False,
     op_LeaderElectionID = [],
     op_CacheByObject = [(NodeKind, ''metadata.name'', nodeName), (PodKind, ''spec.nodeName'', nodeName),
       (NATPortRangeRequestKind, ''spec.nodeName'', nodeName)]\<rparr>"

definition gcPeriod :: "(string \<Rightarrow> int option) \<Rightarrow> (string \<Rightarrow> string) \<Rightarrow> int option" where
  "gcPeriod ParseDuration getenv =
     (if getenv ''MOORING_NAT_GC_INTERVAL'' = [] then Some DefaultPeriod else ParseDuration (getenv ''MOORING_NAT_GC_INTERVAL''))"

definition daemon_calls :: "'m mgrEnv \<Rightarrow> string \<Rightarrow> BGPConfig \<Rightarrow> int \<Rightarrow> ('m \<Rightarrow> setup_error option \<times> 'm) list" where
  "daemon_calls M nodeName bgpCfg period =
     [\<lambda>m. fail_as (SetupFailed ''unable to create Pod controller'') (setupPod M nodeName m),
      \<lambda>m. fail_as (SetupFailed ''unable to create NPRR controller'') (setupNPRR M nodeName m),
      \<lambda>m. fail_as (SetupFailed ''unable to register BGP speaker'') (mg_Register M (AddRunnable (BGPSpeaker bgpCfg)) m),
      \<lambda>m. fail_as (SetupFailed ''unable to register NAT map GC runnable'') (mg_Register M (AddRunnable (GCRunnable period)) m),
      \<lambda>m. fail_as (SetupFailed ''unable to create NATConfig controller'') (setupNATConfig M nodeName m),
      \<lambda>m. fail_as (SetupFailed ''unable to create NATPortRange sync controller'') (setupSync M nodeName m),
      \<lambda>m. fail_as (SetupFailed ''unable to register NPRRStartupSyncer'') (mg_Register M (AddRunnable (NPRRStartupSyncer nodeName)) m),
      \<lambda>m. fail_as (SetupFailed ''unable to set up health check'') (mg_Register M (AddHealthzCheck ''healthz'') m),
      \<lambda>m. fail_as (SetupFailed ''unable to set up ready check'') (mg_Register M (AddReadyzCheck ''readyz'') m)]"

definition daemon_main ::
    "'k loaderEnv \<Rightarrow> (nat \<Rightarrow> string go_order) \<Rightarrow> 'm mgrEnv \<Rightarrow> (string \<Rightarrow> int option) \<Rightarrow> (string \<Rightarrow> string) \<Rightarrow> 'k \<times> 'm \<Rightarrow>
     setup_error option \<times> 'k \<times> 'm" where
  "daemon_main L ord M ParseDuration getenv s =
     (let (k, m) = s; nodeName = getenv ''NODE_NAME''; iface = env_or getenv ''NODE_IFACE'' ''eth0'';
          attachMode = env_or getenv ''REVNAT_ATTACH_MODE'' AttachModeTCX in
      if nodeName = [] then (Some NodeNameNotSet, k, m)
      else case gcPeriod ParseDuration getenv of
        None \<Rightarrow> (Some (InvalidGCInterval (getenv ''MOORING_NAT_GC_INTERVAL'')), k, m)
      | Some period \<Rightarrow>
          (case FromEnv getenv of
             Inl e \<Rightarrow> (Some (InvalidBGPConfiguration e), k, m)
           | Inr bgpCfg \<Rightarrow>
               (case EnsureLoaded L ord iface attachMode k of
                  (Some e, k1) \<Rightarrow> (Some (UnableToLoad e), k1, m)
                | (None, k1) \<Rightarrow>
                    (case run_manager M (daemon_options nodeName) (daemon_calls M nodeName bgpCfg period) m of
                       (r, m1) \<Rightarrow> (r, k1, m1)))))"

end
