(* ===== verification/EntryPoints_Props.thy ===== *)
theory EntryPoints_Props
  imports EntryPoints Loader_Props
begin

text \<open>The start-up of the two binaries: what is in place when a manager starts, and that nothing starts otherwise.\<close>

section \<open>The interface of a manager\<close>

locale cluster_manager =
  fixes M :: "'m mgrEnv" and options :: "'m \<Rightarrow> mgr_options option" and registered :: "'m \<Rightarrow> registration list"
    and started :: "'m \<Rightarrow> bool"
  assumes new_ok: "mg_NewManager M opts m = (None, m') \<Longrightarrow> options m' = Some opts \<and> registered m' = []"
    and register_ok: "mg_Register M x m = (None, m') \<Longrightarrow> options m' = options m \<and> registered m' = registered m @ [x]"
    and new_idle: "\<not> started m \<Longrightarrow> \<not> started (snd (mg_NewManager M opts m))"
    and register_idle: "\<not> started m \<Longrightarrow> \<not> started (snd (mg_Register M x m))"
    and start_starts: "started (snd (mg_Start M m))"

text \<open>\<open>registers f xs\<close>: a call that starts nothing and, when it returns nil, has handed \<open>xs\<close> to the manager.\<close>

definition registers ::
    "('m \<Rightarrow> mgr_options option) \<Rightarrow> ('m \<Rightarrow> registration list) \<Rightarrow> ('m \<Rightarrow> bool) \<Rightarrow> ('m \<Rightarrow> 'e option \<times> 'm) \<Rightarrow> registration list \<Rightarrow> bool" where
  "registers options registered started f xs \<longleftrightarrow>
     (\<forall>m r m'. f m = (r, m') \<longrightarrow> (\<not> started m \<longrightarrow> \<not> started m') \<and>
        (r = None \<longrightarrow> options m' = options m \<and> registered m' = registered m @ xs))"

lemma registers_wrap: "registers opt reg st f xs \<Longrightarrow> registers opt reg st (\<lambda>m. fail_as g (f m)) xs"
  unfolding registers_def fail_as_def by (metis fst_conv option.map_disc_iff prod.collapse snd_conv)

lemma steps_simps [simp]:
  "steps [] m = (None, m)"
  "steps (f # fs) m = (case f m of (None, m') \<Rightarrow> steps fs m' | (Some e, m') \<Rightarrow> (Some e, m'))"
  unfolding steps_def by simp_all

lemma steps_append: "steps (fs @ gs) m = (case steps fs m of (None, m') \<Rightarrow> steps gs m' | (Some e, m') \<Rightarrow> (Some e, m'))"
  unfolding steps_def by (rule for_ret_append)

lemma steps_accept:
  assumes "\<And>f m. f \<in> set fs \<Longrightarrow> fst (f m) = None"
  shows "fst (steps fs m) = None"
  using assms
proof (induction fs arbitrary: m)
  case (Cons f fs)
  have "fst (f m) = None" using Cons.prems [of f m] by simp
  then obtain m1 where "f m = (None, m1)" by (metis prod.collapse)
  then show ?case using Cons by simp
qed simp

lemma fst_fail_as [simp]: "fst (fail_as f r) = None \<longleftrightarrow> fst r = None"
  by (simp add: fail_as_def)

lemma registers_Nil: "registers opt reg st (steps []) []"
  by (simp add: registers_def)

lemma registers_Cons:
  assumes f: "registers opt reg st f xs" and fs: "registers opt reg st (steps fs) ys"
  shows "registers opt reg st (steps (f # fs)) (xs @ ys)"
  unfolding registers_def
proof (intro allI impI)
  fix m r m' assume run: "steps (f # fs) m = (r, m')"
  obtain q m1 where q: "f m = (q, m1)" by fastforce
  from f q have f1: "\<not> st m \<longrightarrow> \<not> st m1" "q = None \<longrightarrow> opt m1 = opt m \<and> reg m1 = reg m @ xs"
    unfolding registers_def by blast+
  show "(\<not> st m \<longrightarrow> \<not> st m') \<and> (r = None \<longrightarrow> opt m' = opt m \<and> reg m' = reg m @ xs @ ys)"
  proof (cases q)
    case None
    with run q have "steps fs m1 = (r, m')" by simp
    with fs have "(\<not> st m1 \<longrightarrow> \<not> st m') \<and> (r = None \<longrightarrow> opt m' = opt m1 \<and> reg m' = reg m1 @ ys)"
      unfolding registers_def by blast
    with f1 None show ?thesis by auto
  qed (use run q f1 in auto)
qed

lemmas registers_intros = registers_wrap registers_Cons registers_Nil

context cluster_manager
begin

lemma registers_one: "registers options registered started (mg_Register M x) [x]"
  unfolding registers_def using register_ok register_idle by (metis snd_conv)

lemma run_manager_cases:
  assumes calls: "registers options registered started (steps calls) xs" and idle: "\<not> started m"
    and run: "run_manager M opts calls m = (r, m')"
  shows "(r \<noteq> None \<and> \<not> started m') \<or>
     (\<exists>m1 e. options m1 = Some opts \<and> registered m1 = xs \<and> \<not> started m1 \<and> mg_Start M m1 = (e, m') \<and>
        r = map_option (SetupFailed ''problem running manager'') e)"
proof (cases "mg_GetConfig M m")
  case None
  obtain q m0 where q: "mg_NewManager M opts m = (q, m0)" by fastforce
  have idle0: "\<not> started m0" using new_idle [OF idle, of opts] q by simp
  show ?thesis
  proof (cases q)
    case q0: None
    obtain s m1 where s: "steps calls m0 = (s, m1)" by fastforce
    from calls s idle0 have idle1: "\<not> started m1"
      and reg1: "s = None \<longrightarrow> options m1 = options m0 \<and> registered m1 = registered m0 @ xs"
      unfolding registers_def by blast+
    show ?thesis
    proof (cases s)
      case s0: None
      obtain e m2 where e: "mg_Start M m1 = (e, m2)" by fastforce
      from run None q q0 s s0 e have "r = map_option (SetupFailed ''problem running manager'') e" "m' = m2"
        by (auto simp: run_manager_def fail_as_def steps_append split: option.splits)
      with new_ok [of opts m m0] q q0 reg1 s0 e idle1 show ?thesis by auto
    qed (use run None q q0 s idle1 in \<open>auto simp: run_manager_def fail_as_def steps_append\<close>)
  qed (use run None q idle0 in \<open>auto simp: run_manager_def fail_as_def\<close>)
qed (use run idle in \<open>auto simp: run_manager_def\<close>)

lemma run_manager_starts:
  assumes "mg_GetConfig M m = None" "\<And>opts m. fst (mg_NewManager M opts m) = None" "\<And>m. fst (steps calls m) = None"
    and run: "run_manager M opts calls m = (r, m')"
  shows "started m'"
proof -
  obtain m0 where q: "mg_NewManager M opts m = (None, m0)" using assms(2) [of opts m] by (metis prod.collapse)
  obtain m1 where s: "steps calls m0 = (None, m1)" using assms(3) [of m0] by (metis prod.collapse)
  from run assms(1) q s have "m' = snd (mg_Start M m1)"
    by (auto simp: run_manager_def fail_as_def steps_append split: option.splits)
  then show ?thesis using start_starts by simp
qed

end

section \<open>The operator\<close>

definition operator_registrations :: "registration list" where
  "operator_registrations =
     [AddRunnable ReconstructionRunnable, AddRunnable LeaderGauge,
      Complete \<lparr>ct_For = NATPortRangeRequestKind, ct_Watches = [], ct_Reconciler = OpNATPortRangeRequestReconciler\<rparr>,
      Complete \<lparr>ct_For = NATPortRangeKind, ct_Watches = [], ct_Reconciler = OpNATPortRangeReconciler\<rparr>,
      IndexNATPortRange natConfigIndexField natConfigIndex,
      Complete \<lparr>ct_For = NATConfigKind, ct_Watches = [], ct_Reconciler = OpNATConfigReconciler\<rparr>,
      AddHealthzCheck ''healthz'', AddReadyzCheck ''readyz'']"

definition daemon_registrations :: "string \<Rightarrow> BGPConfig \<Rightarrow> int \<Rightarrow> registration list" where
  "daemon_registrations node cfg period =
     [IndexNATPortRangeRequest podIdentityIndexField podIdentity,
      Complete \<lparr>ct_For = PodKind, ct_Watches = [(NATConfigKind, NatConfigToPods)], ct_Reconciler = PodReconciler node\<rparr>,
      Complete \<lparr>ct_For = NATPortRangeRequestKind, ct_Watches = [], ct_Reconciler = NPRRReconciler node\<rparr>,
      AddRunnable (BGPSpeaker cfg), AddRunnable (GCRunnable period),
      Complete \<lparr>ct_For = NATConfigKind, ct_Watches = [(NodeKind, NodeToNATConfigs)], ct_Reconciler = NATConfigReconciler node\<rparr>,
      Complete \<lparr>ct_For = NATPortRangeKind, ct_Watches = [], ct_Reconciler = NATPortRangeSyncReconciler node\<rparr>,
      AddRunnable (NPRRStartupSyncer node), AddHealthzCheck ''healthz'', AddReadyzCheck ''readyz'']"

text \<open>A manager that refuses nothing.\<close>

definition accepting :: "'m mgrEnv \<Rightarrow> 'm \<Rightarrow> bool" where
  "accepting M m \<longleftrightarrow> mg_GetConfig M m = None \<and> (\<forall>opts m. fst (mg_NewManager M opts m) = None) \<and>
     (\<forall>x m. fst (mg_Register M x m) = None)"

lemmas setup_defs = setupOpNATConfig_def setupOpNATPortRange_def setupOpNATPortRangeRequest_def setupPod_def setupNPRR_def
  setupNATConfig_def setupSync_def

text \<open>The conditions \<open>main\<close> of the daemon checks on its own before it builds a manager.\<close>

abbreviation daemon_mode :: "(string \<Rightarrow> string) \<Rightarrow> string" where
  "daemon_mode getenv \<equiv> env_or getenv ''REVNAT_ATTACH_MODE'' AttachModeTCX"

lemma calls_accept:
  assumes "\<And>x m. fst (mg_Register M x m) = None"
  shows "fst (steps (operator_calls M) m) = None" "fst (steps (daemon_calls M node cfg period) m) = None"
proof -
  have "f \<in> set (operator_calls M) \<union> set (daemon_calls M node cfg period) \<Longrightarrow> fst (f m) = None" for f m
    using assms by (auto simp: operator_calls_def daemon_calls_def setup_defs simp del: steps_simps intro!: steps_accept)
  then show "fst (steps (operator_calls M) m) = None" "fst (steps (daemon_calls M node cfg period) m) = None"
    by (auto intro!: steps_accept)
qed

context cluster_manager
begin

lemma calls_register:
  "registers options registered started (steps (operator_calls M)) operator_registrations"
  "registers options registered started (steps (daemon_calls M node cfg period)) (daemon_registrations node cfg period)"
proof -
  show "registers options registered started (steps (operator_calls M)) operator_registrations"
    unfolding operator_calls_def operator_registrations_def setup_defs
    by (rule back_subst [where P = "registers options registered started _"], (rule registers_intros registers_one)+, simp)
  show "registers options registered started (steps (daemon_calls M node cfg period)) (daemon_registrations node cfg period)"
    unfolding daemon_calls_def daemon_registrations_def setup_defs
    by (rule back_subst [where P = "registers options registered started _"], (rule registers_intros registers_one)+, simp)
qed

end

text \<open>A file system on which every load and unload so far went through: empty, or with all pins of one mode.\<close>

definition whole :: "pin_state \<Rightarrow> bool" where
  "whole V \<longleftrightarrow> V = Map.empty \<or> (\<exists>mode. (mode = AttachModeTCX \<or> mode = AttachModeXDP) \<and> dom V = loaded_paths mode)"

lemma link_in_loaded: "link_path mode \<in> loaded_paths mode"
  by (simp add: loaded_paths_def revnat_paths_def)

lemma modes_differ:
  assumes "m = AttachModeTCX \<or> m = AttachModeXDP" "mode = AttachModeTCX \<or> mode = AttachModeXDP" "m \<noteq> mode"
  shows "mode = other m" "m = other mode"
  using assms by auto

context bpffs
begin

lemma EnsureLoaded_whole:
  assumes run: "EnsureLoaded E ord iface mode w = (None, w')" and w: "whole (pins w)"
  shows "mode = AttachModeTCX \<or> mode = AttachModeXDP" "dom (pins w') = loaded_paths mode"
proof -
  have valid: "validateMode mode = None" using run by (cases "validateMode mode") (simp_all add: EnsureLoaded_def)
  then show mode: "mode = AttachModeTCX \<or> mode = AttachModeXDP" by (simp add: validateMode_iff)
  show "dom (pins w') = loaded_paths mode"
  proof (cases "pins w (link_path mode)")
    case (Some h)
    with run valid stat [of w "linkName mode"] have same: "w' = w" by (auto simp: EnsureLoaded_def split: if_splits)
    from w Some obtain m where m: "m = AttachModeTCX \<or> m = AttachModeXDP" "dom (pins w) = loaded_paths m"
      by (auto simp: whole_def)
    with Some have "link_path mode \<in> loaded_paths m" by blast
    then have "m = mode" using other_link [OF m(1)] modes_differ(1) [OF m(1) mode] by metis
    with m same show ?thesis by simp
  next
    case None
    with run valid stat [of w "linkName mode"] have ld: "Load E ord iface mode w = (None, w')"
      by (auto simp: EnsureLoaded_def split: if_splits)
    from ld show ?thesis
    proof (cases rule: Load_cases)
      case loaded
      have "pins w = Map.empty"
      proof (rule ccontr)
        assume "pins w \<noteq> Map.empty"
        with w obtain m where m: "m = AttachModeTCX \<or> m = AttachModeXDP" "dom (pins w) = loaded_paths m"
          by (auto simp: whole_def)
        have "link_path m \<in> dom (pins w)" by (simp add: m(2) link_in_loaded)
        moreover from this None have "m \<noteq> mode" by auto
        ultimately show False using modes_differ(2) [OF m(1) mode] loaded(3) by auto
      qed
      with loaded(4) show ?thesis by (auto simp: pinned_on_def)
    qed simp_all
  qed
qed

end

section \<open>Properties\<close>

text \<open>
  The operator's manager starts with everything in place, or not at all. With a manager of controller-runtime that
  remembers what it accepted: either \<open>main\<close> exits with an error and nothing was started, or the manager is started once, with
  leader election, after it accepted exactly the reconstruction runnable, the leader gauge, the three controllers, the index
  of NATPortRanges by NATConfig (before the controller that lists by it) and the two probes, and \<open>main\<close> ends with the result of
  \<open>Start\<close>. When the manager refuses nothing, it is started.
\<close>

theorem operator_starts_complete:
  assumes mgr: "cluster_manager M options registered started" and idle: "\<not> started m" and run: "operator_main M m = (r, m')"
  shows "((r \<noteq> None \<and> \<not> started m') \<or>
      (\<exists>m1 e. options m1 = Some operator_options \<and> registered m1 = operator_registrations \<and> \<not> started m1 \<and>
         mg_Start M m1 = (e, m') \<and> r = map_option (SetupFailed ''problem running manager'') e)) \<and>
     (accepting M m \<longrightarrow> started m')"
proof (intro conjI impI)
  note run' = run [unfolded operator_main_def]
  show "(r \<noteq> None \<and> \<not> started m') \<or>
      (\<exists>m1 e. options m1 = Some operator_options \<and> registered m1 = operator_registrations \<and> \<not> started m1 \<and>
         mg_Start M m1 = (e, m') \<and> r = map_option (SetupFailed ''problem running manager'') e)"
    by (rule cluster_manager.run_manager_cases [OF mgr cluster_manager.calls_register(1) [OF mgr] idle run'])
  show "started m'" if "accepting M m"
    using that by (intro cluster_manager.run_manager_starts [OF mgr _ _ _ run']) (simp_all add: accepting_def calls_accept)
qed

record mem_mgr =
  mm_options :: "mgr_options option"
  mm_registered :: "registration list"
  mm_started :: bool

definition memM :: "mem_mgr mgrEnv" where
  "memM = \<lparr>mg_GetConfig = (\<lambda>m. None),
     mg_NewManager = (\<lambda>opts m. (None, m\<lparr>mm_options := Some opts, mm_registered := []\<rparr>)),
     mg_Register = (\<lambda>x m. (None, m\<lparr>mm_registered := mm_registered m @ [x]\<rparr>)),
     mg_Start = (\<lambda>m. (None, m\<lparr>mm_started := True\<rparr>))\<rparr>"

interpretation memmgr: cluster_manager memM mm_options mm_registered mm_started
  by unfold_locales (auto simp: memM_def)

definition mm_idle :: mem_mgr where
  "mm_idle = \<lparr>mm_options = None, mm_registered = [], mm_started = False\<rparr>"

lemma memM_accepting: "accepting memM m"
  by (simp add: accepting_def memM_def)

theorem operator_starts_complete_witness:
  "\<exists>m1 e m'. mm_registered m1 = operator_registrations \<and> mg_Start memM m1 = (e, m') \<and> operator_main memM mm_idle = (None, m')"
proof -
  obtain r m' where run: "operator_main memM mm_idle = (r, m')" by fastforce
  have idle: "\<not> mm_started mm_idle" by (simp add: mm_idle_def)
  note main = operator_starts_complete [OF memmgr.cluster_manager_axioms idle run]
  have "mm_started m'" using main memM_accepting by blast
  with main obtain m1 e where "mm_registered m1 = operator_registrations" "mg_Start memM m1 = (e, m')"
    "r = map_option (SetupFailed ''problem running manager'') e" by blast
  moreover from this have "r = None" by (simp add: memM_def)
  ultimately show ?thesis using run by auto
qed

text \<open>
  C35: the daemon's manager starts on a valid configuration and a loaded datapath, or not at all. On a BPF file system on which
  every load and unload so far went through: either \<open>main\<close> exits with an error and nothing was started, or \<open>NODE_NAME\<close> is set, the
  garbage collection interval and the BGP configuration parse, the attach mode is one of the two, exactly the pins of this
  mode are in place (all maps the controllers write, the two links and the programs of the garbage collection), and the
  manager, whose caches hold the pods and requests of this node only, accepted exactly the index of requests by pod (before the
  controller that lists by it), the four controllers and the three runnables of this node and the two probes before it was
  started. When the environment is valid, the datapath loads and the manager refuses nothing, it is started.
\<close>

theorem daemon_starts_loaded:
  assumes mgr: "cluster_manager M options registered started" and fs: "bpffs L pins" and k: "whole (pins k)"
    and idle: "\<not> started m" and run: "daemon_main L ord M ParseDuration getenv (k, m) = (r, k', m')"
  shows "((r \<noteq> None \<and> \<not> started m') \<or>
      (\<exists>cfg period m1 e. getenv ''NODE_NAME'' \<noteq> [] \<and> gcPeriod ParseDuration getenv = Some period \<and> FromEnv getenv = Inr cfg \<and>
         daemon_mode getenv \<in> {AttachModeTCX, AttachModeXDP} \<and> dom (pins k') = loaded_paths (daemon_mode getenv) \<and>
         options m1 = Some (daemon_options (getenv ''NODE_NAME'')) \<and>
         registered m1 = daemon_registrations (getenv ''NODE_NAME'') cfg period \<and> \<not> started m1 \<and>
         mg_Start M m1 = (e, m') \<and> r = map_option (SetupFailed ''problem running manager'') e)) \<and>
     (getenv ''NODE_NAME'' \<noteq> [] \<and> gcPeriod ParseDuration getenv \<noteq> None \<and> (\<exists>cfg. FromEnv getenv = Inr cfg) \<and>
      fst (EnsureLoaded L ord (env_or getenv ''NODE_IFACE'' ''eth0'') (daemon_mode getenv) k) = None \<and> accepting M m \<longrightarrow> started m')"
proof -
  let ?node = "getenv ''NODE_NAME''" and ?load = "EnsureLoaded L ord (env_or getenv ''NODE_IFACE'' ''eth0'') (daemon_mode getenv) k"
  show ?thesis
  proof (cases "?node \<noteq> [] \<and> gcPeriod ParseDuration getenv \<noteq> None \<and> (\<exists>cfg. FromEnv getenv = Inr cfg) \<and> fst ?load = None")
    case True
    then obtain period cfg k1 where c: "?node \<noteq> []" "gcPeriod ParseDuration getenv = Some period" "FromEnv getenv = Inr cfg"
      "?load = (None, k1)" by (metis option.exhaust prod.collapse)
    with run have k1: "k' = k1" and rm: "run_manager M (daemon_options ?node) (daemon_calls M ?node cfg period) m = (r, m')"
      by (auto simp: daemon_main_def Let_def split: prod.splits)
    note pinned = bpffs.EnsureLoaded_whole [OF fs c(4) k]
    have "started m'" if "accepting M m"
      using that by (intro cluster_manager.run_manager_starts [OF mgr _ _ _ rm]) (simp_all add: accepting_def calls_accept)
    with cluster_manager.run_manager_cases [OF mgr cluster_manager.calls_register(2) [OF mgr] idle rm] pinned c k1
    show ?thesis by auto
  next
    case False
    with run idle have "r \<noteq> None \<and> \<not> started m'"
      by (cases ?load) (auto simp: daemon_main_def Let_def split: if_splits option.splits sum.splits prod.splits)
    with False show ?thesis by blast
  qed
qed

definition dx_env :: "string \<Rightarrow> string" where
  "dx_env key = (if key = ''NODE_NAME'' then ''n'' else if key = ''REVNAT_ATTACH_MODE'' then ''xdp''
     else if key = ''BGP_LOCAL_ASN'' then ''64512'' else if key = ''BGP_REMOTE_ASN'' then ''64513''
     else if key = ''BGP_ROUTER_ID'' then ''10.0.0.1'' else [])"

lemma dx_env_values:
  "dx_env ''NODE_NAME'' = ''n''" "env_or dx_env ''NODE_IFACE'' ''eth0'' = ''eth0''" "daemon_mode dx_env = ''xdp''"
  "gcPeriod pd dx_env = Some DefaultPeriod"
  by (simp_all add: dx_env_def env_or_def gcPeriod_def)

lemma dx_env_bgp: "\<exists>cfg. FromEnv dx_env = Inr cfg"
proof -
  have v: "ParseUint32 ''64512'' = Some 64512" "ParseUint32 ''64513'' = Some 64513"
    by (simp_all add: ParseUint32_def is_digit_def digit_val_def)
  have e: "dx_env ''BGP_LOCAL_ASN'' = ''64512''" "dx_env ''BGP_REMOTE_ASN'' = ''64513''" "dx_env ''BGP_ROUTER_ID'' = ''10.0.0.1''"
    by (simp_all add: dx_env_def)
  show ?thesis by (simp add: FromEnv_def requireUint32Env_def e v Let_def)
qed

lemma dx_loads: "fst (EnsureLoaded memL (\<lambda>_. sorted_order) ''eth0'' ''xdp'' lx_clean) = None"
  by code_simp

theorem daemon_starts_loaded_witness:
  "\<exists>k' m'. daemon_main memL (\<lambda>_. sorted_order) memM (\<lambda>s. None) dx_env (lx_clean, mm_idle) = (None, k', m') \<and>
     dom (map_of (fs_pins k')) = loaded_paths ''xdp'' \<and> mm_started m'"
proof -
  obtain r k' m' where run: "daemon_main memL (\<lambda>_. sorted_order) memM (\<lambda>s. None) dx_env (lx_clean, mm_idle) = (r, k', m')"
    by (metis prod_cases3)
  have w: "whole (map_of (fs_pins lx_clean))" "\<not> mm_started mm_idle" by (simp_all add: whole_def lx_clean_def mm_idle_def)
  note main = daemon_starts_loaded [where pins = "\<lambda>w. map_of (fs_pins w)", OF memmgr.cluster_manager_axioms memfs.bpffs_axioms w run]
  have st: "mm_started m'"
    using main [THEN conjunct2] dx_env_bgp dx_loads memM_accepting by (simp add: dx_env_values)
  with main [THEN conjunct1] obtain m1 e where "dom (map_of (fs_pins k')) = loaded_paths ''xdp''" "mg_Start memM m1 = (e, m')"
    "r = map_option (SetupFailed ''problem running manager'') e" unfolding dx_env_values by blast
  moreover from this have "r = None" by (simp add: memM_def)
  ultimately show ?thesis using run st by auto
qed

end
