(* ===== verification/MoorctlCLI.thy ===== *)
theory MoorctlCLI
  imports Moorctl Speaker
begin

text \<open>
  The command tree of \<open>cmd/moorctl\<close>: the commands and flags its \<open>init\<close> functions register with cobra, the function each command
  runs, and \<open>main\<close>. Cobra is not code of this repository: what it makes of the arguments is a parameter \<open>parse\<close>, and the locale
  \<open>cobra_parser\<close> states what it documents: a command runs only when each of its required flags is given, and a flag
  that is not given has its default. The shorthand \<open>-i\<close> of \<open>--iface\<close> is another spelling that the parser
  resolves. A state is the BPF maps, the kernel's world of the loader and the lines printed.
\<close>

section \<open>Commands and flags\<close>

datatype cli_command = NatConfigAdd | TargetCIDRAdd | ExtIPAdd | PortRangeAdd | DiagStage1 | LoadCommand | UnloadCommand

fun cli_path :: "cli_command \<Rightarrow> string list" where
  "cli_path NatConfigAdd = [''map'', ''nat-config'', ''add'']"
| "cli_path TargetCIDRAdd = [''map'', ''target-cidr'', ''add'']"
| "cli_path ExtIPAdd = [''map'', ''ext-ip'', ''add'']"
| "cli_path PortRangeAdd = [''map'', ''port-range'', ''add'']"
| "cli_path DiagStage1 = [''diag'', ''stage1'']"
| "cli_path LoadCommand = [''load'']"
| "cli_path UnloadCommand = [''unload'']"

datatype flag_value = StringVal string | Uint16Val u16

record cli_flag =
  cf_Name :: string
  cf_Default :: flag_value
  cf_Required :: bool

definition StringVar :: "string \<Rightarrow> string \<Rightarrow> bool \<Rightarrow> cli_flag" where
  "StringVar name dflt required = \<lparr>cf_Name = name, cf_Default = StringVal dflt, cf_Required = required\<rparr>"

definition Uint16Var :: "string \<Rightarrow> u16 \<Rightarrow> bool \<Rightarrow> cli_flag" where
  "Uint16Var name dflt required = \<lparr>cf_Name = name, cf_Default = Uint16Val dflt, cf_Required = required\<rparr>"

fun map_flags :: "cli_command \<Rightarrow> cli_flag list" where
  "map_flags NatConfigAdd =
     [StringVar ''pod-ip'' [] True, StringVar ''ext-ip'' [] True, StringVar ''target-cidr'' [] True,
      Uint16Var ''port-start'' 0 True, Uint16Var ''port-end'' 0 True]"
| "map_flags TargetCIDRAdd = [StringVar ''cidr'' [] True]"
| "map_flags ExtIPAdd = [StringVar ''cidr'' [] True]"
| "map_flags PortRangeAdd =
     [StringVar ''ext-ip'' [] True, StringVar ''pod-ip'' [] True, Uint16Var ''port-start'' 0 True,
      Uint16Var ''port-end'' 0 True, StringVar ''proto'' [] False]"
| "map_flags _ = []"

definition diag_flags :: "cli_flag list" where
  "diag_flags = [StringVar ''src-ip'' [] True, StringVar ''dst-ip'' [] True, Uint16Var ''dst-port'' 0 True, StringVar ''proto'' [] True]"

definition load_flags :: "cli_flag list" where
  "load_flags = [StringVar ''iface'' [] True, StringVar ''mode'' AttachModeTCX False]"

definition cli_flags :: "cli_command \<Rightarrow> cli_flag list" where
  "cli_flags c = (case c of DiagStage1 \<Rightarrow> diag_flags | LoadCommand \<Rightarrow> load_flags | _ \<Rightarrow> map_flags c)"

section \<open>Running a command\<close>

type_synonym flag_map = "string \<Rightarrow> flag_value"

fun str_val :: "flag_value \<Rightarrow> string" where
  "str_val (StringVal s) = s"
| "str_val (Uint16Val n) = []"

fun u16_val :: "flag_value \<Rightarrow> u16" where
  "u16_val (Uint16Val n) = n"
| "u16_val (StringVal s) = 0"

datatype cobra_outcome = CobraError string | CobraHelp | CobraRun cli_command "string set" flag_map

datatype cli_error = CtlErr ctl_error | LoaderErr load_error

type_synonym ('w, 'k) cli_state = "'w \<times> 'k \<times> diag_line list"

definition on_maps :: "('w \<Rightarrow> (ctl_error, 'w) eff) \<Rightarrow> ('w, 'k) cli_state \<Rightarrow> (cli_error, ('w, 'k) cli_state) eff" where
  "on_maps f s =
     map_option (\<lambda>r. case r of Done w \<Rightarrow> Done (w, snd s) | Failed e w \<Rightarrow> Failed (CtlErr e) (w, snd s) | Panic w \<Rightarrow> Panic (w, snd s))
       (f (fst s))"

definition on_loader :: "('k \<Rightarrow> 'k load_result) \<Rightarrow> ('w, 'k) cli_state \<Rightarrow> (cli_error, ('w, 'k) cli_state) eff" where
  "on_loader f s =
     (case s of (w, k, out) \<Rightarrow>
        (case f k of (None, k') \<Rightarrow> Some (Done (w, k', out)) | (Some e, k') \<Rightarrow> Some (Failed (LoaderErr e) (w, k', out))))"

definition on_output :: "('w \<Rightarrow> diag_line list \<times> ctl_error option) \<Rightarrow> ('w, 'k) cli_state \<Rightarrow> (cli_error, ('w, 'k) cli_state) eff" where
  "on_output f s =
     (case s of (w, k, out) \<Rightarrow>
        (case f w of (ls, None) \<Rightarrow> Some (Done (w, k, out @ ls)) | (ls, Some e) \<Rightarrow> Some (Failed (CtlErr e) (w, k, out @ ls))))"

fun runE ::
    "'w ebpf \<Rightarrow> 'w diagEnv \<Rightarrow> 'k loaderEnv \<Rightarrow> (nat \<Rightarrow> string go_order) \<Rightarrow> cli_command \<Rightarrow> flag_map \<Rightarrow> ('w, 'k) cli_state \<Rightarrow>
     (cli_error, ('w, 'k) cli_state) eff" where
  "runE E D L ord NatConfigAdd v = on_maps (runNatConfigAdd E (str_val (v ''pod-ip'')) (str_val (v ''ext-ip''))
     (str_val (v ''target-cidr'')) (u16_val (v ''port-start'')) (u16_val (v ''port-end'')))"
| "runE E D L ord TargetCIDRAdd v = on_maps (runTargetCIDRAdd E (str_val (v ''cidr'')))"
| "runE E D L ord ExtIPAdd v = on_maps (runExtIPAdd E (str_val (v ''cidr'')))"
| "runE E D L ord PortRangeAdd v = on_maps (runPortRangeAdd E (str_val (v ''ext-ip'')) (str_val (v ''pod-ip''))
     (u16_val (v ''port-start'')) (u16_val (v ''port-end'')) (str_val (v ''proto'')))"
| "runE E D L ord DiagStage1 v = on_output (runDiagStage1 E D (str_val (v ''src-ip'')) (str_val (v ''dst-ip''))
     (u16_val (v ''dst-port'')) (str_val (v ''proto'')))"
| "runE E D L ord LoadCommand v = on_loader (runLoad L ord (str_val (v ''iface'')) (str_val (v ''mode'')))"
| "runE E D L ord UnloadCommand v = on_loader (runUnload L)"

text \<open>\<open>main\<close>: the exit code (a panic exits with 2) and the state; \<open>None\<close> for a command that never returns.\<close>

definition moorctl_main ::
    "'w ebpf \<Rightarrow> 'w diagEnv \<Rightarrow> 'k loaderEnv \<Rightarrow> (nat \<Rightarrow> string go_order) \<Rightarrow> (string list \<Rightarrow> cobra_outcome) \<Rightarrow> string list \<Rightarrow>
     ('w, 'k) cli_state \<Rightarrow> (nat \<times> ('w, 'k) cli_state) option" where
  "moorctl_main E D L ord parse args s =
     (case parse args of
        CobraError e \<Rightarrow> Some (1, s)
      | CobraHelp \<Rightarrow> Some (0, s)
      | CobraRun c given v \<Rightarrow>
          map_option (\<lambda>r. case r of Done s' \<Rightarrow> (0, s') | Failed e s' \<Rightarrow> (1, s') | Panic s' \<Rightarrow> (2, s')) (runE E D L ord c v s))"

lemma on_maps_frame: "on_maps f (w, k, out) = Some r \<Longrightarrow> \<exists>w'. world_of r = (w', k, out)"
  unfolding on_maps_def by (cases "f w"; cases "the (f w)") auto

lemma on_loader_frame: "on_loader f (w, k, out) = Some r \<Longrightarrow> \<exists>k'. world_of r = (w, k', out)"
  unfolding on_loader_def by (cases "f k"; cases "fst (f k)") auto

lemma on_output_frame: "on_output f (w, k, out) = Some r \<Longrightarrow> \<exists>ls. world_of r = (w, k, out @ ls)"
  unfolding on_output_def by (cases "f w"; cases "snd (f w)") auto

section \<open>The interface of cobra\<close>

locale cobra_parser =
  fixes parse :: "string list \<Rightarrow> cobra_outcome"
  assumes required_given: "parse args = CobraRun c given v \<Longrightarrow> f \<in> set (cli_flags c) \<Longrightarrow> cf_Required f \<Longrightarrow> cf_Name f \<in> given"
    and default_kept: "parse args = CobraRun c given v \<Longrightarrow> f \<in> set (cli_flags c) \<Longrightarrow> cf_Name f \<notin> given \<Longrightarrow> v (cf_Name f) = cf_Default f"
begin

text \<open>A load without \<open>--mode\<close> is a load by TCX, a port range without \<open>--proto\<close> is for all three protocols.\<close>

lemma load_default:
  assumes "parse args = CobraRun LoadCommand given v" "''mode'' \<notin> given"
  shows "''iface'' \<in> given" "runE E D L ord LoadCommand v = on_loader (Load L ord (str_val (v ''iface'')) AttachModeTCX)"
proof -
  show "''iface'' \<in> given"
    using required_given [OF assms(1), of "StringVar ''iface'' [] True"] by (simp add: cli_flags_def load_flags_def StringVar_def)
  have "v ''mode'' = StringVal AttachModeTCX"
    using default_kept [OF assms(1), of "StringVar ''mode'' AttachModeTCX False"] assms(2)
    by (simp add: cli_flags_def load_flags_def StringVar_def)
  then show "runE E D L ord LoadCommand v = on_loader (Load L ord (str_val (v ''iface'')) AttachModeTCX)"
    by (simp add: runLoad_def)
qed

lemma port_range_default:
  assumes "parse args = CobraRun PortRangeAdd given v" "''proto'' \<notin> given"
  shows "str_val (v ''proto'') = []"
  using default_kept [OF assms(1), of "StringVar ''proto'' [] False"] assms(2) by (simp add: cli_flags_def StringVar_def)

text \<open>The commands of the loader leave the maps' world and the output alone, the others the kernel's.\<close>

lemma main_frames:
  assumes "parse args = CobraRun c given v" "moorctl_main E D L ord parse args (w, k, out) = Some (code, w', k', out')"
  shows "if c = LoadCommand \<or> c = UnloadCommand then w' = w \<and> out' = out else k' = k"
proof -
  from assms obtain r where r: "runE E D L ord c v (w, k, out) = Some r" "world_of r = (w', k', out')"
    by (cases "runE E D L ord c v (w, k, out)"; cases "the (runE E D L ord c v (w, k, out))") (auto simp: moorctl_main_def)
  show ?thesis
    using r by (cases c) (auto dest!: on_maps_frame on_loader_frame on_output_frame)
qed

end

section \<open>A parser\<close>

text \<open>Flags as pairs \<open>--name value\<close> after the path of a command: an instance of the interface.\<close>

fun take_flags :: "cli_flag list \<Rightarrow> string list \<Rightarrow> string set \<times> flag_map \<Rightarrow> (string set \<times> flag_map) option" where
  "take_flags fs [] acc = Some acc"
| "take_flags fs [a] acc = None"
| "take_flags fs (a # x # rest) acc =
     (case find (\<lambda>f. ''--'' @ cf_Name f = a) fs of
        None \<Rightarrow> None
      | Some f \<Rightarrow>
          (case cf_Default f of
             StringVal _ \<Rightarrow> take_flags fs rest (insert (cf_Name f) (fst acc), (snd acc)(cf_Name f := StringVal x))
           | Uint16Val _ \<Rightarrow>
               (case ParseUint32 x of
                  None \<Rightarrow> None
                | Some n \<Rightarrow> if n \<ge> 2 ^ 16 then None
                    else take_flags fs rest (insert (cf_Name f) (fst acc), (snd acc)(cf_Name f := Uint16Val (word_of_nat n))))))"

definition default_of :: "cli_flag list \<Rightarrow> flag_map" where
  "default_of fs name = (case find (\<lambda>f. cf_Name f = name) fs of None \<Rightarrow> StringVal [] | Some f \<Rightarrow> cf_Default f)"

definition pair_parser :: "string list \<Rightarrow> cobra_outcome" where
  "pair_parser args =
     (case find (\<lambda>c. take (length (cli_path c)) args = cli_path c)
        [NatConfigAdd, TargetCIDRAdd, ExtIPAdd, PortRangeAdd, DiagStage1, LoadCommand, UnloadCommand] of
        None \<Rightarrow> CobraHelp
      | Some c \<Rightarrow>
          (case take_flags (cli_flags c) (drop (length (cli_path c)) args) ({}, default_of (cli_flags c)) of
             None \<Rightarrow> CobraError ''flag''
           | Some (given, v) \<Rightarrow>
               if \<forall>f \<in> set (cli_flags c). cf_Required f \<longrightarrow> cf_Name f \<in> given then CobraRun c given v
               else CobraError ''required flag''))"

lemma take_flags_given:
  "take_flags fs args acc = Some (given, v) \<Longrightarrow> fst acc \<subseteq> given \<and> (\<forall>n. n \<notin> given \<longrightarrow> v n = snd acc n)"
proof (induction fs args acc rule: take_flags.induct)
  case (3 fs a x rest acc)
  from 3(3) obtain f where f: "find (\<lambda>f. ''--'' @ cf_Name f = a) fs = Some f" by (cases "find (\<lambda>f. ''--'' @ cf_Name f = a) fs") simp_all
  show ?case
  proof (cases "cf_Default f")
    case (StringVal s)
    with 3(1) [OF f this] 3(3) f show ?thesis by simp
  next
    case (Uint16Val d)
    with 3(3) f obtain n where n: "ParseUint32 x = Some n" "\<not> n \<ge> 2 ^ 16" by (auto split: option.splits if_splits)
    with 3(2) [OF f Uint16Val n] 3(3) f Uint16Val show ?thesis by simp
  qed
qed auto

lemma distinct_flags: "distinct (map cf_Name (cli_flags c))"
  by (cases c) (simp_all add: cli_flags_def diag_flags_def load_flags_def StringVar_def Uint16Var_def)

lemma default_of_flag: "f \<in> set fs \<Longrightarrow> distinct (map cf_Name fs) \<Longrightarrow> default_of fs (cf_Name f) = cf_Default f"
  unfolding default_of_def by (induction fs) (auto simp: image_iff)

interpretation pairs: cobra_parser pair_parser
proof
  fix args c given v f
  assume run: "pair_parser args = CobraRun c given v" and f: "f \<in> set (cli_flags c)"
  then have t: "take_flags (cli_flags c) (drop (length (cli_path c)) args) ({}, default_of (cli_flags c)) = Some (given, v)"
    and req: "\<forall>f \<in> set (cli_flags c). cf_Required f \<longrightarrow> cf_Name f \<in> given"
    by (auto simp: pair_parser_def split: option.splits if_splits)
  show "cf_Required f \<Longrightarrow> cf_Name f \<in> given" using req f by blast
  show "cf_Name f \<notin> given \<Longrightarrow> v (cf_Name f) = cf_Default f"
    using take_flags_given [OF t] default_of_flag [OF f distinct_flags] by simp
qed

end
