(* ===== verification/Spec2Isabelle.thy ===== *)
theory Spec2Isabelle
  imports Allocator_Props OpDaemon Pod_Props Loader_Props Speaker_Props Moorctl_Props NatGC Metrics_Props EntryPoints_Props MoorctlCLI
begin

text \<open>
  Mooring: egress NAT for Kubernetes. An operator hands out port ranges of shared external IPs to pods; a daemon on every
  node writes them into the BPF maps of the datapath, announces the external IPs by BGP and asks for ranges on behalf of
  the pods of its node. The parts meet in three custom resources: a NATConfig (the pool, the targets, the block size),
  a NATPortRangeRequest (a daemon asks for a pod) and a NATPortRange (the operator answers).

  \<^bold>\<open>The parts, their sources under \<open>src/\<close> and their theories\<close>

  \<^item> \<open>Prelude\<close>: words for Go's integers, results of handlers, Go's map iteration as an argument (\<open>go_order\<close>, \<open>visit\<close>), shared
    lemmas. \<open>Effects\<close>: calls that change the world, may fail, panic or not return (\<open>eff\<close>), loops over them (\<open>for_eff\<close>, and
    \<open>port_loop\<close> for \<open>for port := s; port <= e; port++\<close> on \<open>uint16\<close>), postconditions \<open>any_post\<close> and \<open>ok_post\<close>.
  \<^item> \<open>NetIP\<close>, \<open>Cidr\<close>: what the sources use of Go's \<open>net\<close>: parsing and printing of addresses and CIDRs, masks, \<open>Contains\<close>;
    IPv4 networks as intervals of numbers.
  \<^item> \<open>API\<close>: \<open>api/v1alpha1/*_types.go\<close>, one record per struct.
  \<^item> \<open>Allocator\<close>, \<open>Allocator_Props\<close>: \<open>internal/allocator/allocator.go\<close>. The state is the record \<open>BlockAllocator\<close>; each method is
    a function on it. Blocks partition the port space; an allocation is correct, atomic and undone by \<open>Free\<close>.
  \<^item> \<open>OpUtil\<close>, \<open>Registry\<close>, \<open>Requests\<close>, \<open>Ranges\<close>, \<open>Configs\<close>: \<open>internal/controller/operator\<close> (\<open>util.go\<close>, \<open>registry.go\<close>, the three
    controllers and \<open>reconstruction.go\<close>). A handler takes the registry and the world and returns an outcome, a registry and
    a world; the API server, the clock and the metrics are a parameter \<open>opEnv\<close>.
  \<^item> \<open>Ledger\<close>, \<open>OpBlocks\<close>, \<open>OpSystem\<close>, \<open>OpInv\<close>, \<open>OpRestart\<close>, \<open>OpMem\<close>, \<open>OpReach\<close>, \<open>Operator_Props\<close>: the operator as a system. The
    contract of a port pool is the locale of \<open>Ledger\<close>, interpreted on the allocator; \<open>op_inv\<close> ties the stored NATPortRanges to
    the free blocks, every handler keeps it, \<open>Start\<close> establishes it; \<open>op_reach\<close> are the runs. The conditions of its steps
    are the cases in which the code loses the invariant; each has a counterexample in \<open>Operator_Props\<close>.
  \<^item> \<open>BPFMaps\<close>, \<open>NatBuckets\<close>, \<open>BPFKernel\<close>, \<open>Maps_Props\<close>: \<open>internal/maps/maps.go\<close> and the structs of \<open>internal/bpf\<close>. The kernel is a
    parameter \<open>ebpf\<close>; the locale \<open>ebpf_kernel\<close> states what the code relies on of it. Every function \<open>refines\<close> an operation on
    \<open>tables\<close>, the maps as the datapath sees them.
  \<^item> \<open>DaemonBPF\<close>, \<open>DaemonSync\<close>, \<open>DaemonTables\<close>, \<open>DaemonInv\<close>, \<open>Daemon_Props\<close>: \<open>daemon/bpf.go\<close> and \<open>daemon/natportrange_controller.go\<close>.
    The locales \<open>sync_maps\<close> and \<open>syncer\<close> are the interfaces of the maps and of a reconciler on them; \<open>sync_inv\<close> says that the
    memory of the reconciler is in the maps, \<open>sync_reach\<close> are its runs.
  \<^item> \<open>DaemonConfig\<close>, \<open>DaemonConfigInv\<close>, \<open>Config_Props\<close>: \<open>daemon/natconfig_controller.go\<close> and \<open>internal/routing/advertiser.go\<close>. The
    locale \<open>cidr_store\<close> (\<open>exact_cidr_store\<close> where removals are exact) is what the reference counting of CIDRs needs; it
    is interpreted on \<open>target_cidrs\<close>, on \<open>dst_kind\<close> and, in \<open>Speaker\<close>, on the routes.
  \<^item> \<open>Speaker\<close>, \<open>Speaker_Props\<close>: \<open>internal/routing/bgp\<close>. GoBGP is a parameter with the laws \<open>bgp_server\<close>.
  \<^item> \<open>DaemonPods\<close>, \<open>PodStore\<close>, \<open>PodInv\<close>, \<open>PodSettle\<close>, \<open>PodMem\<close>, \<open>Pod_Props\<close>: \<open>daemon/pod_controller.go\<close> and \<open>daemon/nprr_controller.go\<close>, on
    an API server with optimistic concurrency (locales \<open>nprr_api\<close> and \<open>accepting_api\<close>).
  \<^item> \<open>Loader\<close>, \<open>LoaderInv\<close>, \<open>Loader_Props\<close>: \<open>internal/loader/loader.go\<close> on a BPF file system (locale \<open>bpffs\<close>).
  \<^item> \<open>NatGC\<close>: \<open>internal/gc\<close>, the sweeps over the NAT maps, on a clock that never goes back (locale \<open>gc_clock\<close>).
  \<^item> \<open>Moorctl\<close>, \<open>Moorctl_Props\<close>, \<open>MoorctlCLI\<close>: the functions of \<open>cmd/moorctl\<close>, and its command tree with \<open>main\<close> over cobra (locale \<open>cobra_parser\<close>).
  \<^item> \<open>Metrics\<close>, \<open>MetricsInv\<close>, \<open>Metrics_Props\<close>: \<open>internal/metrics\<close>. \<open>metric_decl\<close> are the declarations, \<open>call_of\<close> the calls of the controllers on
    them; the client library of Prometheus is the locale \<open>prom_vectors\<close>. \<open>port_rows\<close> ties the gauges to the allocators,
    \<open>metric_reach\<close> are the runs of an operator process.
  \<^item> \<open>EntryPoints\<close>, \<open>EntryPoints_Props\<close>: \<open>cmd/operator/main.go\<close>, \<open>cmd/daemon/main.go\<close> and \<open>SetupWithManager\<close> of all controllers. The manager of
    controller-runtime is the locale \<open>cluster_manager\<close>.
  \<^item> \<open>OpDaemon\<close> and this theory: the operator's invariant gives the daemon's contract, and end to end the ports in
    the store lead to their pods.

  \<^bold>\<open>What the properties show\<close>

  No two pods hold a port of an external IP, through reconciles, failures and restarts, and blocks return to the pool only
  after the cleanup window; what \<open>Start\<close> rebuilds satisfies the same invariant. The allocator is correct, atomic,
  succeeds when there is room, and its arithmetic on \<open>uint16\<close> never wraps. The functions on the BPF maps refine
  table operations; the daemon installs exactly the ranges of its objects and takes them back; it keeps every CIDR and
  every route that some NATConfig still needs, and drops those that none does. A pod gets the requests it should have, and
  a request is deleted only after its grace period. The two revnat modes exclude each other and a failed load leaves
  nothing behind; the managers start with everything registered and, in the daemon, with the datapath of the wanted mode
  loaded, or not at all. The gauges of the operator follow its allocators and its objects. Where the code does less than it means to (the last port of the range, a second range on
  one external IP, terminating ranges at a restart, a failed removal, a second load, names that clash), a theorem shows it.

  \<^bold>\<open>Loops and bounds\<close>

  No fuel is used. Loops over lists are structural. The port loops and the expansion of a CIDR may not end: they are partial
  functions to \<open>option\<close>, \<open>None\<close> for not returning, and theorems state when they return: for an end below 65535, for
  a prefix of at least one bit. Integers keep Go's widths; the conversions of \<open>int32\<close> fields to \<open>uint16\<close> are \<open>ucast\<close>.
  Times are integers, in nanoseconds.

  \<^bold>\<open>Not modelled\<close>

  The configuration file \<open>moorctl\<close> reads with viper, which no command uses; generated code (\<open>zz_generated.deepcopy.go\<close>, the
  bindings of bpf2go apart from the structs of the maps); the C programs of the datapath. The goroutine of \<open>internal/gc\<close> that
  watches the ring buffer is a function of its own; to the sweeps its signals are events that may come at any time. Mutexes are not modelled: each
  method of the allocator, the registry and the reconcilers runs under its lock from start to end or is called by one
  worker, so handlers are steps.
\<close>

section \<open>From the operator's store to the datapath of a node\<close>



end
